(* ===== verification/Prelude.thy ===== *)
theory Prelude
  imports Main "HOL-Library.Word" "HOL-Library.Char_ord" "HOL-Library.List_Lexorder" "HOL-Library.Sublist"
begin

text \<open>
  Shared vocabulary of the development.

  \<^item> Results: a Go \<open>error\<close> is its message; a call that may fail returns \<open>fault + 'a\<close>, where a
    \<open>fault\<close> is a returned error, a run time panic, or a retry loop that used up the attempts
    it was given. Code that inspects an error only ever sees the first kind.
  \<^item> Effects: a Go function that reads or writes the state of its package is a function
    \<open>'s \<Rightarrow> (fault + 'a) \<times> 's\<close>; the sequencing, error-handling and loop combinators follow
    Go's early returns, and their equations are collected in \<open>eff_simps\<close>.
  \<^item> Strings: Go strings are byte sequences, here \<^typ>\<open>string\<close>. The functions of the packages
    strings and strconv that the program calls are defined for ASCII text.
  \<^item> Bytes: little-endian and big-endian layouts of machine words.
\<close>

named_theorems eff_simps \<open>equations of the effect combinators\<close>
named_theorems codec_simps \<open>byte layouts of words\<close>
named_theorems str_simps \<open>equations of the string functions\<close>

section \<open>Results\<close>

type_synonym error = string

datatype fault = GoErr error | GoPanic error | OutOfFuel

type_synonym 'a res = "fault + 'a"

definition rbind :: "'e + 'a \<Rightarrow> ('a \<Rightarrow> 'e + 'b) \<Rightarrow> 'e + 'b" where
  "rbind r f = (case r of Inl e \<Rightarrow> Inl e | Inr x \<Rightarrow> f x)"

definition is_ok :: "'e + 'a \<Rightarrow> bool" where
  "is_ok r = (case r of Inl _ \<Rightarrow> False | Inr _ \<Rightarrow> True)"

lemma rbind_simps [simp]:
  "rbind (Inl e) f = Inl e"
  "rbind (Inr x) f = f x"
  by (simp_all add: rbind_def)

lemma is_ok_simps [simp]:
  "is_ok (Inl e) = False"
  "is_ok (Inr x) = True"
  by (simp_all add: is_ok_def)

lemma rbind_eq_Inr [simp]: "rbind r f = Inr y \<longleftrightarrow> (\<exists>x. r = Inr x \<and> f x = Inr y)"
  by (cases r) auto

lemma rbind_eq_Inl: "rbind r f = Inl e \<longleftrightarrow> r = Inl e \<or> (\<exists>x. r = Inr x \<and> f x = Inl e)"
  by (cases r) auto

text \<open>The results of a list of calls, up to the first failure.\<close>

fun rmap :: "('a \<Rightarrow> 'e + 'b) \<Rightarrow> 'a list \<Rightarrow> 'e + 'b list" where
  "rmap f [] = Inr []"
| "rmap f (x # xs) = rbind (f x) (\<lambda>y. rbind (rmap f xs) (\<lambda>ys. Inr (y # ys)))"

lemma rmap_length: "rmap f xs = Inr ys \<Longrightarrow> length ys = length xs"
  by (induction xs arbitrary: ys) auto

lemma rmap_total: "(\<And>x. x \<in> set xs \<Longrightarrow> f x = Inr (g x)) \<Longrightarrow> rmap f xs = Inr (map g xs)"
  by (induction xs) auto

section \<open>Effects\<close>

type_synonym ('s, 'a) eff = "'s \<Rightarrow> 'a res \<times> 's"

definition ret :: "'a \<Rightarrow> ('s, 'a) eff" where
  "ret x s = (Inr x, s)"

definition raise :: "error \<Rightarrow> ('s, 'a) eff" where
  "raise e s = (Inl (GoErr e), s)"

definition panic :: "error \<Rightarrow> ('s, 'a) eff" where
  "panic e s = (Inl (GoPanic e), s)"

definition lift :: "'a res \<Rightarrow> ('s, 'a) eff" where
  "lift r s = (r, s)"

definition ebind :: "('s, 'a) eff \<Rightarrow> ('a \<Rightarrow> ('s, 'b) eff) \<Rightarrow> ('s, 'b) eff" where
  "ebind m f s = (case m s of (Inl e, t) \<Rightarrow> (Inl e, t) | (Inr x, t) \<Rightarrow> f x t)"

definition andthen :: "('s, 'a) eff \<Rightarrow> ('s, 'b) eff \<Rightarrow> ('s, 'b) eff" where
  "andthen m n = ebind m (\<lambda>_. n)"

text \<open>\<open>if err != nil\<close> with a body other than returning that error: a panic is not caught.\<close>

definition on_error :: "('s, 'a) eff \<Rightarrow> (error \<Rightarrow> ('s, 'a) eff) \<Rightarrow> ('s, 'a) eff" where
  "on_error m h s = (case m s of (Inl (GoErr e), t) \<Rightarrow> h e t | r \<Rightarrow> r)"

text \<open>Both outcomes of a call, as the pair of values a Go call returns.\<close>

definition attempt :: "('s, 'a) eff \<Rightarrow> ('s, error + 'a) eff" where
  "attempt m s = (case m s of
      (Inl (GoErr e), t) \<Rightarrow> (Inr (Inl e), t)
    | (Inl f, t) \<Rightarrow> (Inl f, t)
    | (Inr x, t) \<Rightarrow> (Inr (Inr x), t))"

text \<open>An error wrapped with a prefix, as \<open>errors.New("..." + err.Error())\<close> does.\<close>

definition wrap_err :: "(error \<Rightarrow> error) \<Rightarrow> ('s, 'a) eff \<Rightarrow> ('s, 'a) eff" where
  "wrap_err w m = on_error m (\<lambda>e. raise (w e))"

text \<open>A loop that returns at the first error.\<close>

fun for_each :: "('a \<Rightarrow> ('s, unit) eff) \<Rightarrow> 'a list \<Rightarrow> ('s, unit) eff" where
  "for_each f [] s = (Inr (), s)"
| "for_each f (x # xs) s = (case f x s of (Inl e, t) \<Rightarrow> (Inl e, t) | (Inr _, t) \<Rightarrow> for_each f xs t)"

text \<open>A loop that collects the errors of its body and goes on.\<close>

fun for_collect :: "('a \<Rightarrow> ('s, unit) eff) \<Rightarrow> 'a list \<Rightarrow> ('s, error list) eff" where
  "for_collect f [] s = (Inr [], s)"
| "for_collect f (x # xs) s = (case f x s of
      (Inl (GoErr e), t) \<Rightarrow> (case for_collect f xs t of
           (Inl g, u) \<Rightarrow> (Inl g, u) | (Inr es, u) \<Rightarrow> (Inr (e # es), u))
    | (Inl g, t) \<Rightarrow> (Inl g, t)
    | (Inr _, t) \<Rightarrow> for_collect f xs t)"

lemma ret_apply [simp, eff_simps]: "ret x s = (Inr x, s)"
  by (simp add: ret_def)

lemma raise_apply [simp, eff_simps]: "raise e s = (Inl (GoErr e), s)"
  by (simp add: raise_def)

lemma panic_apply [simp, eff_simps]: "panic e s = (Inl (GoPanic e), s)"
  by (simp add: panic_def)

lemma lift_apply [simp, eff_simps]: "lift r s = (r, s)"
  by (simp add: lift_def)

lemma ebind_Inr [eff_simps]: "m s = (Inr x, t) \<Longrightarrow> ebind m f s = f x t"
  by (simp add: ebind_def)

lemma ebind_Inl [eff_simps]: "m s = (Inl e, t) \<Longrightarrow> ebind m f s = (Inl e, t)"
  by (simp add: ebind_def)

lemma ebind_simps [simp]:
  "ebind (ret x) f s = f x s"
  "ebind (raise e) f s = (Inl (GoErr e), s)"
  "ebind (panic e) f s = (Inl (GoPanic e), s)"
  by (simp_all add: ebind_def)

lemma ebind_eq_Inr:
  "ebind m f s = (Inr y, u) \<longleftrightarrow> (\<exists>x t. m s = (Inr x, t) \<and> f x t = (Inr y, u))"
  by (auto simp: ebind_def split: prod.splits sum.splits)

lemma andthen_eq_Inr:
  "andthen m n s = (Inr y, u) \<longleftrightarrow> (\<exists>x t. m s = (Inr x, t) \<and> n t = (Inr y, u))"
  by (auto simp: andthen_def ebind_eq_Inr)

lemma wrap_err_eq_Inr: "wrap_err w m s = (Inr y, u) \<longleftrightarrow> m s = (Inr y, u)"
  by (auto simp: wrap_err_def on_error_def split: prod.splits sum.splits fault.splits)

lemma attempt_eq_Inr: "attempt m s = (Inr (Inr y), u) \<longleftrightarrow> m s = (Inr y, u)"
  by (auto simp: attempt_def split: prod.splits sum.splits fault.splits)

lemmas eff_inv = ebind_eq_Inr andthen_eq_Inr wrap_err_eq_Inr attempt_eq_Inr

lemma for_each_append:
  "for_each f (xs @ ys) s =
     (case for_each f xs s of (Inl e, t) \<Rightarrow> (Inl e, t) | (Inr _, t) \<Rightarrow> for_each f ys t)"
  by (induction xs arbitrary: s) (auto split: prod.splits sum.splits)

text \<open>An invariant of the body is an invariant of the loop, however the loop ends.\<close>

lemma for_each_inv:
  assumes "\<And>x s. x \<in> set xs \<Longrightarrow> P s \<Longrightarrow> P (snd (f x s))"
    and "P s"
  shows "P (snd (for_each f xs s))"
  using assms
proof (induction xs arbitrary: s)
  case (Cons x xs)
  obtain r t where eq: "f x s = (r, t)" by (cases "f x s")
  have "P (snd (f x s))" using Cons.prems by simp
  with eq have Pt: "P t" by simp
  have "P t \<Longrightarrow> P (snd (for_each f xs t))" using Cons by simp
  with Pt eq show ?case by (cases r) auto
qed simp

lemma for_collect_inv:
  assumes "\<And>x s. x \<in> set xs \<Longrightarrow> P s \<Longrightarrow> P (snd (f x s))"
    and "P s"
  shows "P (snd (for_collect f xs s))"
  using assms
proof (induction xs arbitrary: s)
  case (Cons x xs)
  obtain r t where eq: "f x s = (r, t)" by (cases "f x s")
  have "P (snd (f x s))" using Cons.prems by simp
  with eq have Pt: "P t" by simp
  have "P t \<Longrightarrow> P (snd (for_collect f xs t))" using Cons by simp
  with Pt eq show ?case
    by (auto split: prod.splits sum.splits fault.splits)
qed simp

text \<open>A call that works on a part of the state.\<close>

definition zoom :: "('s \<Rightarrow> 'a) \<Rightarrow> ('a \<Rightarrow> 's \<Rightarrow> 's) \<Rightarrow> ('a, 'r) eff \<Rightarrow> ('s, 'r) eff" where
  "zoom get put m s = (case m (get s) of (r, t) \<Rightarrow> (r, put t s))"

lemma zoom_eq: "m (get s) = (r, t) \<Longrightarrow> zoom get put m s = (r, put t s)"
  by (simp add: zoom_def)

lemma zoom_eq_Inr: "zoom get put m s = (Inr x, u) \<longleftrightarrow> (\<exists>t. m (get s) = (Inr x, t) \<and> u = put t s)"
  by (auto simp: zoom_def split: prod.splits)

lemma zoom_eq_Inl: "zoom get put m s = (Inl x, u) \<longleftrightarrow> (\<exists>t. m (get s) = (Inl x, t) \<and> u = put t s)"
  by (auto simp: zoom_def split: prod.splits)

section \<open>Triples\<close>

text \<open>
  From a state in \<open>P\<close>, the call ends in a state of \<open>Q\<close> with its result, or, when it fails, in a
  state of \<open>X\<close>.
\<close>

definition triple :: "('s \<Rightarrow> bool) \<Rightarrow> ('s, 'a) eff \<Rightarrow> ('a \<Rightarrow> 's \<Rightarrow> bool) \<Rightarrow> ('s \<Rightarrow> bool) \<Rightarrow> bool" where
  "triple P m Q X \<longleftrightarrow> (\<forall>s r t. P s \<longrightarrow> m s = (r, t) \<longrightarrow> (case r of Inr x \<Rightarrow> Q x t | Inl e \<Rightarrow> X t))"

named_theorems triple_intro \<open>rules for triples\<close>

lemma tripleI: "(\<And>s r t. P s \<Longrightarrow> m s = (r, t) \<Longrightarrow> case r of Inr x \<Rightarrow> Q x t | Inl e \<Rightarrow> X t) \<Longrightarrow> triple P m Q X"
  by (simp add: triple_def)

lemma tripleD_Inr: "triple P m Q X \<Longrightarrow> P s \<Longrightarrow> m s = (Inr x, t) \<Longrightarrow> Q x t"
  by (force simp: triple_def)

lemma tripleD_Inl: "triple P m Q X \<Longrightarrow> P s \<Longrightarrow> m s = (Inl e, t) \<Longrightarrow> X t"
  by (force simp: triple_def)

lemma triple_bind [triple_intro]:
  "triple P m Q X \<Longrightarrow> (\<And>x. triple (Q x) (f x) R X) \<Longrightarrow> triple P (ebind m f) R X"
proof (rule tripleI)
  fix s r u
  assume m: "triple P m Q X" and f: "\<And>x. triple (Q x) (f x) R X" and s: "P s" "ebind m f s = (r, u)"
  obtain a t where a: "m s = (a, t)" by (cases "m s")
  show "case r of Inr x \<Rightarrow> R x u | Inl e \<Rightarrow> X u"
  proof (cases a)
    case (Inl e)
    with a s tripleD_Inl [OF m s(1)] show ?thesis by (auto simp: ebind_def)
  next
    case (Inr x)
    with a have "Q x t" using tripleD_Inr [OF m s(1)] by simp
    moreover have "f x t = (r, u)" using a Inr s(2) by (simp add: ebind_def)
    ultimately show ?thesis using tripleD_Inr [OF f] tripleD_Inl [OF f] by (cases r) auto
  qed
qed

lemma triple_ret [triple_intro]: "(\<And>s. P s \<Longrightarrow> Q x s) \<Longrightarrow> triple P (ret x) Q X"
  by (simp add: triple_def)

lemma triple_raise [triple_intro]: "(\<And>s. P s \<Longrightarrow> X s) \<Longrightarrow> triple P (raise e) Q X"
  by (simp add: triple_def)

lemma triple_panic [triple_intro]: "(\<And>s. P s \<Longrightarrow> X s) \<Longrightarrow> triple P (panic e) Q X"
  by (simp add: triple_def)

lemma triple_lift [triple_intro]: "(\<And>s. P s \<Longrightarrow> X s) \<Longrightarrow> (\<And>s x. P s \<Longrightarrow> Q x s) \<Longrightarrow> triple P (lift r) Q X"
  by (simp add: triple_def split: sum.split)

lemma triple_on_error [triple_intro]:
  "triple P m Q X \<Longrightarrow> (\<And>e. triple X (h e) Q X) \<Longrightarrow> triple P (on_error m h) Q X"
proof (rule tripleI)
  fix s r u
  assume m: "triple P m Q X" and h: "\<And>e. triple X (h e) Q X" and s: "P s" "on_error m h s = (r, u)"
  obtain a t where a: "m s = (a, t)" by (cases "m s")
  show "case r of Inr x \<Rightarrow> Q x u | Inl e \<Rightarrow> X u"
  proof (cases "\<exists>e. a = Inl (GoErr e)")
    case True
    then obtain e where e: "a = Inl (GoErr e)" by blast
    with a have "X t" using tripleD_Inl [OF m s(1)] by simp
    moreover have "h e t = (r, u)" using a e s(2) by (simp add: on_error_def)
    ultimately show ?thesis using tripleD_Inr [OF h] tripleD_Inl [OF h] by (cases r) auto
  next
    case False
    with a s(2) have "r = a" "u = t" by (auto simp: on_error_def split: sum.splits fault.splits)
    with a show ?thesis using tripleD_Inr [OF m s(1)] tripleD_Inl [OF m s(1)] by (cases r) auto
  qed
qed

lemma triple_wrap [triple_intro]: "triple P m Q X \<Longrightarrow> triple P (wrap_err w m) Q X"
  unfolding wrap_err_def by (intro triple_on_error triple_raise) auto

lemma triple_attempt:
  "triple P m Q X \<Longrightarrow> triple P (attempt m) (\<lambda>r s. case r of Inr x \<Rightarrow> Q x s | Inl _ \<Rightarrow> X s) X"
proof (rule tripleI)
  fix s r u
  assume m: "triple P m Q X" and s: "P s" "attempt m s = (r, u)"
  obtain a t where a: "m s = (a, t)" by (cases "m s")
  show "case r of Inr q \<Rightarrow> (case q of Inr x \<Rightarrow> Q x u | Inl _ \<Rightarrow> X u) | Inl e \<Rightarrow> X u"
    using tripleD_Inr [OF m s(1)] tripleD_Inl [OF m s(1)] a s(2)
    by (auto simp: attempt_def split: sum.splits fault.splits)
qed

lemma triple_weaken:
  "triple P' m Q' X' \<Longrightarrow> (\<And>s. P s \<Longrightarrow> P' s) \<Longrightarrow> (\<And>x s. Q' x s \<Longrightarrow> Q x s) \<Longrightarrow> (\<And>s. X' s \<Longrightarrow> X s) \<Longrightarrow>
     triple P m Q X"
proof (rule tripleI)
  fix s r t
  assume m: "triple P' m Q' X'" and w: "\<And>s. P s \<Longrightarrow> P' s" "\<And>x s. Q' x s \<Longrightarrow> Q x s" "\<And>s. X' s \<Longrightarrow> X s"
    and s: "P s" "m s = (r, t)"
  show "case r of Inr x \<Rightarrow> Q x t | Inl e \<Rightarrow> X t"
    using tripleD_Inr [OF m w(1) [OF s(1)]] tripleD_Inl [OF m w(1) [OF s(1)]] s(2) w(2,3) by (cases r) auto
qed

lemma triple_if [triple_intro]:
  "(b \<Longrightarrow> triple P m Q X) \<Longrightarrow> (\<not> b \<Longrightarrow> triple P n Q X) \<Longrightarrow> triple P (if b then m else n) Q X"
  by simp

lemma triple_for_each:
  assumes "\<And>x. x \<in> set xs \<Longrightarrow> triple I (f x) (\<lambda>_. I) X"
  shows "triple I (for_each f xs) (\<lambda>_. I) X"
  using assms
proof (induction xs)
  case (Cons x xs)
  then have "triple I (ebind (f x) (\<lambda>_. for_each f xs)) (\<lambda>_. I) X"
    by (intro triple_bind) simp_all
  moreover have "for_each f (x # xs) = ebind (f x) (\<lambda>_. for_each f xs)"
    by (rule ext) (simp add: ebind_def)
  ultimately show ?case by simp
qed (simp add: triple_def)

section \<open>Strings\<close>

definition is_digit :: "char \<Rightarrow> bool" where
  "is_digit c = (48 \<le> (of_char c :: nat) \<and> (of_char c :: nat) \<le> 57)"

definition digit_val :: "char \<Rightarrow> nat" where
  "digit_val c = (of_char c :: nat) - 48"

definition digit_char :: "nat \<Rightarrow> char" where
  "digit_char n = char_of (48 + n)"

text \<open>\<open>fmt.Sprintf("%d", n)\<close> for a number that is not negative, and for any integer.\<close>

fun show_nat :: "nat \<Rightarrow> string" where
  "show_nat n = (if n < 10 then [digit_char n] else show_nat (n div 10) @ [digit_char (n mod 10)])"

declare show_nat.simps [simp del]

definition show_int :: "int \<Rightarrow> string" where
  "show_int i = (if i < 0 then ''-'' @ show_nat (nat (- i)) else show_nat (nat i))"

definition nat_of_digits :: "string \<Rightarrow> nat" where
  "nat_of_digits ds = foldl (\<lambda>a c. 10 * a + digit_val c) 0 ds"

definition all_digits :: "string \<Rightarrow> bool" where
  "all_digits ds = (ds \<noteq> [] \<and> list_all is_digit ds)"

text \<open>\<open>strconv.Atoi\<close>: an optional sign, decimal digits, in the range of a 64-bit int.\<close>

definition atoi :: "string \<Rightarrow> int option" where
  "atoi s =
     (let neg = (case s of [] \<Rightarrow> False | c # _ \<Rightarrow> c = CHR ''-'');
          ds = (case s of [] \<Rightarrow> [] | c # cs \<Rightarrow> if c = CHR ''-'' \<or> c = CHR ''+'' then cs else s);
          v = (if neg then - int (nat_of_digits ds) else int (nat_of_digits ds))
      in if all_digits ds \<and> - (2 ^ 63) \<le> v \<and> v < 2 ^ 63 then Some v else None)"

text \<open>\<open>strings.Split\<close> with a one-byte separator: never empty.\<close>

fun split_on :: "char \<Rightarrow> string \<Rightarrow> string list" where
  "split_on sep [] = [[]]"
| "split_on sep (c # cs) =
     (if c = sep then [] # split_on sep cs
      else (case split_on sep cs of [] \<Rightarrow> [[c]] | w # ws \<Rightarrow> (c # w) # ws))"

definition is_space :: "char \<Rightarrow> bool" where
  "is_space c = ((of_char c :: nat) \<in> {9, 10, 11, 12, 13, 32})"

text \<open>\<open>strings.Fields\<close>: the maximal runs without white space.\<close>

fun fields_acc :: "string \<Rightarrow> string \<Rightarrow> string list" where
  "fields_acc w [] = (if w = [] then [] else [rev w])"
| "fields_acc w (c # cs) =
     (if is_space c then (if w = [] then fields_acc [] cs else rev w # fields_acc [] cs)
      else fields_acc (c # w) cs)"

definition str_fields :: "string \<Rightarrow> string list" where
  "str_fields s = fields_acc [] s"

definition to_lower_char :: "char \<Rightarrow> char" where
  "to_lower_char c =
     (if 65 \<le> (of_char c :: nat) \<and> (of_char c :: nat) \<le> 90 then char_of ((of_char c :: nat) + 32) else c)"

definition to_lower :: "string \<Rightarrow> string" where
  "to_lower s = map to_lower_char s"

definition trim_space :: "string \<Rightarrow> string" where
  "trim_space s = rev (dropWhile is_space (rev (dropWhile is_space s)))"

definition has_prefix :: "string \<Rightarrow> string \<Rightarrow> bool" where
  "has_prefix s p = prefix p s"

definition trim_prefix :: "string \<Rightarrow> string \<Rightarrow> string" where
  "trim_prefix s p = (if prefix p s then drop (length p) s else s)"

definition trim_suffix :: "string \<Rightarrow> string \<Rightarrow> string" where
  "trim_suffix s p = (if suffix p s then take (length s - length p) s else s)"

definition contains :: "string \<Rightarrow> string \<Rightarrow> bool" where
  "contains s p = (\<exists>t \<in> set (suffixes s). prefix p t)"

text \<open>\<open>strings.Join\<close>.\<close>

fun join_str :: "string \<Rightarrow> string list \<Rightarrow> string" where
  "join_str sep [] = []"
| "join_str sep [x] = x"
| "join_str sep (x # y # xs) = x @ sep @ join_str sep (y # xs)"

text \<open>A list of texts as \<open>fmt\<close> prints it.\<close>

definition show_strings :: "string list \<Rightarrow> string" where
  "show_strings xs = ''['' @ join_str '' '' xs @ '']''"

lemma digit_of_char [simp]: "n < 10 \<Longrightarrow> is_digit (digit_char n)"
  by (simp add: is_digit_def digit_char_def)

lemma digit_val_char [simp]: "n < 10 \<Longrightarrow> digit_val (digit_char n) = n"
  by (simp add: digit_val_def digit_char_def)

lemma show_nat_digits: "list_all is_digit (show_nat n)"
  by (induction n rule: show_nat.induct) (subst show_nat.simps, auto)

lemma show_nat_nonempty [simp]: "show_nat n \<noteq> []"
  by (subst show_nat.simps) simp

lemma all_digits_show_nat [simp]: "all_digits (show_nat n)"
  by (simp add: all_digits_def show_nat_digits)

lemma nat_of_digits_snoc [simp]: "nat_of_digits (ds @ [c]) = 10 * nat_of_digits ds + digit_val c"
  by (simp add: nat_of_digits_def)

lemma nat_of_digits_Nil [simp]: "nat_of_digits [] = 0"
  by (simp add: nat_of_digits_def)

lemma nat_of_digits_show_nat [simp]: "nat_of_digits (show_nat n) = n"
proof (induction n rule: show_nat.induct)
  case (1 n)
  show ?case
  proof (cases "n < 10")
    case True
    then show ?thesis
      using nat_of_digits_snoc [of "[]"] by (subst show_nat.simps) simp
  next
    case False
    with 1 show ?thesis by (subst show_nat.simps) simp
  qed
qed

lemma show_nat_inj: "show_nat m = show_nat n \<longleftrightarrow> m = n"
  by (metis nat_of_digits_show_nat)

lemma split_on_nonempty [simp]: "split_on sep s \<noteq> []"
  by (cases s) (auto split: list.splits)

lemma split_on_none: "sep \<notin> set s \<Longrightarrow> split_on sep s = [s]"
  by (induction s) (auto split: list.splits)

lemma split_on_append: "sep \<notin> set a \<Longrightarrow> split_on sep (a @ sep # b) = a # split_on sep b"
  by (induction a) (auto split: list.splits)

lemma split_on_sep_free: "w \<in> set (split_on sep s) \<Longrightarrow> sep \<notin> set w"
  by (induction s arbitrary: w) (auto split: list.splits if_splits)

lemma has_prefix_append [simp]: "has_prefix (p @ s) p"
  by (simp add: has_prefix_def)

lemma trim_prefix_append [simp]: "trim_prefix (p @ s) p = s"
  by (simp add: trim_prefix_def)

lemma contains_code [code]:
  "contains s p = list_ex (prefix p) (suffixes s)"
  by (auto simp: contains_def list_ex_iff)

lemma contains_char: "contains s [c] \<longleftrightarrow> c \<in> set s"
  by (induction s) (auto simp: contains_def)

section \<open>Bytes\<close>

type_synonym byte = "8 word"
type_synonym bytes = "8 word list"
type_synonym u16 = "16 word"
type_synonym u32 = "32 word"
type_synonym u64 = "64 word"

unbundle bit_operations_syntax

definition put16le :: "u16 \<Rightarrow> bytes" where
  "put16le w = [ucast w, ucast (drop_bit 8 w)]"

definition get16le :: "byte \<Rightarrow> byte \<Rightarrow> u16" where
  "get16le a b = ucast a OR push_bit 8 (ucast b)"

definition put16be :: "u16 \<Rightarrow> bytes" where
  "put16be w = [ucast (drop_bit 8 w), ucast w]"

definition put32le :: "u32 \<Rightarrow> bytes" where
  "put32le w = [ucast w, ucast (drop_bit 8 w), ucast (drop_bit 16 w), ucast (drop_bit 24 w)]"

definition get32le :: "byte \<Rightarrow> byte \<Rightarrow> byte \<Rightarrow> byte \<Rightarrow> u32" where
  "get32le a b c d =
     ucast a OR push_bit 8 (ucast b) OR push_bit 16 (ucast c) OR push_bit 24 (ucast d)"

definition put64le :: "u64 \<Rightarrow> bytes" where
  "put64le w = map (\<lambda>i. ucast (drop_bit (8 * i) w)) [0..<8]"

fun get64le :: "bytes \<Rightarrow> u64" where
  "get64le [] = 0"
| "get64le (b # bs) = ucast b OR push_bit 8 (get64le bs)"

lemma length_put [codec_simps, simp]:
  "length (put16le a) = 2" "length (put16be a) = 2" "length (put32le b) = 4" "length (put64le c) = 8"
  by (simp_all add: put16le_def put16be_def put32le_def put64le_def)

lemma get16le_put16le [codec_simps]:
  "get16le (ucast w) (ucast (drop_bit 8 w)) = w"
  unfolding get16le_def
  by (rule bit_word_eqI) (auto simp: bit_simps)

lemma get32le_put32le [codec_simps]:
  "get32le (ucast w) (ucast (drop_bit 8 w)) (ucast (drop_bit 16 w)) (ucast (drop_bit 24 w)) = w"
  unfolding get32le_def
proof (rule bit_word_eqI, goal_cases)
  case (1 n)
  then consider "n < 8" | "8 \<le> n" "n < 16" | "16 \<le> n" "n < 24" | "24 \<le> n" "n < 32"
    by fastforce
  then show ?case by cases (auto simp: bit_simps)
qed

lemma get64le_zero [simp]: "get64le (replicate n 0) = 0"
  by (induction n) simp_all

lemma upt8: "[0..<8] = [0, 1, 2, 3, 4, 5, 6, 7]"
  by (simp add: upt_rec)

lemma bit_get64le: "bit (get64le bs) n \<longleftrightarrow> n < 64 \<and> n div 8 < length bs \<and> bit (bs ! (n div 8)) (n mod 8)"
proof (induction bs arbitrary: n)
  case (Cons b bs)
  show ?case
  proof (cases "n < 8")
    case True
    then show ?thesis by (auto simp: bit_simps)
  next
    case False
    then have "n div 8 = Suc ((n - 8) div 8)" "(n - 8) mod 8 = n mod 8"
      by (auto simp: le_div_geq le_mod_geq not_less)
    with False show ?thesis
      by (auto simp: bit_simps Cons.IH dest: bit_imp_le_length)
  qed
qed simp

lemma get64le_put64le [codec_simps]: "get64le (put64le w) = w"
proof (rule bit_word_eqI)
  fix n :: nat
  assume n: "n < LENGTH(64)"
  then have lt: "n div 8 < 8" by auto
  have sum: "8 * (n div 8) + n mod 8 = n" by simp
  have md: "n mod 8 < LENGTH(8)" by simp
  have nth: "put64le w ! (n div 8) = ucast (drop_bit (8 * (n div 8)) w)"
    using lt by (simp add: put64le_def)
  have "bit (put64le w ! (n div 8)) (n mod 8) \<longleftrightarrow> bit w n"
    using md by (simp only: nth bit_ucast_iff bit_drop_bit_eq comp_def sum) simp
  then show "bit (get64le (put64le w)) n \<longleftrightarrow> bit w n"
    using n lt by (simp only: bit_get64le length_put) simp
qed

end
