(* ===== verification/GoNet.thy ===== *)
theory GoNet
  imports Prelude
begin

text \<open>
  The part of Go's package net that the program uses on IPv4: dotted-decimal parsing and printing,
  CIDR notation, masks and containment. An address is four bytes, as in \<open>routetypes.Key\<close>; its
  32-bit big-endian number serves masks, prefixes and increments. What depends on the network or
  on the IPv6 text syntax, which the program accepts nowhere, is the parameter \<open>net_env\<close>.
\<close>

datatype ip4 = IP4 byte byte byte byte

text \<open>A \<open>net.IP\<close> that is not nil: \<open>To4\<close> succeeds on the first kind only.\<close>

datatype goip = V4 ip4 | V6 bytes

fun to4 :: "goip \<Rightarrow> ip4 option" where
  "to4 (V4 a) = Some a"
| "to4 (V6 _) = None"

fun ip4_bytes :: "ip4 \<Rightarrow> bytes" where
  "ip4_bytes (IP4 a b c d) = [a, b, c, d]"

fun ip4_string :: "ip4 \<Rightarrow> string" where
  "ip4_string (IP4 a b c d) =
     show_nat (unat a) @ ''.'' @ show_nat (unat b) @ ''.'' @ show_nat (unat c) @ ''.'' @ show_nat (unat d)"

fun ip4_to_word :: "ip4 \<Rightarrow> u32" where
  "ip4_to_word (IP4 a b c d) = get32le d c b a"

definition ip4_of_word :: "u32 \<Rightarrow> ip4" where
  "ip4_of_word w = IP4 (ucast (drop_bit 24 w)) (ucast (drop_bit 16 w)) (ucast (drop_bit 8 w)) (ucast w)"

lemma ip4_to_of_word [simp]: "ip4_to_word (ip4_of_word w) = w"
  by (simp add: ip4_of_word_def get32le_put32le)

lemma get32le_inj:
  "get32le a b c d = get32le a' b' c' d' \<longleftrightarrow> a = a' \<and> b = b' \<and> c = c' \<and> d = d'"
proof
  assume eq: "get32le a b c d = get32le a' b' c' d'"
  have bits: "bit (get32le a b c d) n = bit (get32le a' b' c' d') n" for n
    by (simp add: eq)
  have "a = a'"
  proof (rule bit_word_eqI)
    fix n :: nat assume "n < LENGTH(8)"
    then show "bit a n = bit a' n" using bits [of n] by (simp add: get32le_def bit_simps)
  qed
  moreover have "b = b'"
  proof (rule bit_word_eqI)
    fix n :: nat assume "n < LENGTH(8)"
    then show "bit b n = bit b' n" using bits [of "n + 8"]
      by (simp add: get32le_def bit_simps) (auto dest: bit_imp_le_length)
  qed
  moreover have "c = c'"
  proof (rule bit_word_eqI)
    fix n :: nat assume "n < LENGTH(8)"
    then show "bit c n = bit c' n" using bits [of "n + 16"]
      by (simp add: get32le_def bit_simps) (auto dest: bit_imp_le_length)
  qed
  moreover have "d = d'"
  proof (rule bit_word_eqI)
    fix n :: nat assume "n < LENGTH(8)"
    then show "bit d n = bit d' n" using bits [of "n + 24"]
      by (simp add: get32le_def bit_simps) (auto dest: bit_imp_le_length)
  qed
  ultimately show "a = a' \<and> b = b' \<and> c = c' \<and> d = d'" by simp
qed simp

lemma ip4_to_word_inj [simp]: "ip4_to_word a = ip4_to_word b \<longleftrightarrow> a = b"
  by (cases a; cases b) (auto simp: get32le_inj)

lemma ip4_of_to_word [simp]: "ip4_of_word (ip4_to_word a) = a"
  by (metis ip4_to_of_word ip4_to_word_inj)

section \<open>Parsing\<close>

text \<open>A field of a dotted quad: decimal, at most 255, no leading zero.\<close>

definition parse_octet :: "string \<Rightarrow> byte option" where
  "parse_octet w =
     (if all_digits w \<and> (length w = 1 \<or> hd w \<noteq> CHR ''0'') \<and> nat_of_digits w \<le> 255
      then Some (word_of_nat (nat_of_digits w)) else None)"

definition parse_ip4 :: "string \<Rightarrow> ip4 option" where
  "parse_ip4 s = (case split_on (CHR ''.'') s of
      [a, b, c, d] \<Rightarrow>
        (case (parse_octet a, parse_octet b, parse_octet c, parse_octet d) of
           (Some a', Some b', Some c', Some d') \<Rightarrow> Some (IP4 a' b' c' d')
         | _ \<Rightarrow> None)
    | _ \<Rightarrow> None)"

text \<open>
  What the model does not compute: the text syntax of IPv6 addresses and networks (a network
  yields the address, the network address and the prefix length), and name resolution.
\<close>

record net_env =
  parse_ip6 :: "string \<Rightarrow> goip option"
  parse_cidr6 :: "string \<Rightarrow> (goip \<times> goip \<times> nat) option"
  lookup_ip :: "string \<Rightarrow> error + goip list"

text \<open>\<open>net.ParseIP\<close>: the first of the characters \<open>.\<close>, \<open>:\<close> and \<open>%\<close> decides the syntax.\<close>

definition ParseIP :: "net_env \<Rightarrow> string \<Rightarrow> goip option" where
  "ParseIP E s = (case find (\<lambda>c. c = CHR ''.'' \<or> c = CHR '':'' \<or> c = CHR ''%'') s of
      None \<Rightarrow> None
    | Some c \<Rightarrow>
        if c = CHR ''.'' then map_option V4 (parse_ip4 s)
        else if c = CHR '':'' then parse_ip6 E s
        else None)"

definition prefix_mask :: "nat \<Rightarrow> u32" where
  "prefix_mask n = NOT (mask (32 - n))"

definition mask_ip4 :: "nat \<Rightarrow> ip4 \<Rightarrow> ip4" where
  "mask_ip4 n a = ip4_of_word (ip4_to_word a AND prefix_mask n)"

text \<open>\<open>net.IPNet\<close>; the address may be nil, which \<open>To4\<close> of an IPv6 address is.\<close>

record ipnet =
  net_ip :: "goip option"
  net_ones :: nat

text \<open>The prefix length: digits up to the end of the text, no sign, at most 32 for IPv4.\<close>

definition parse_prefix_len :: "string \<Rightarrow> nat option" where
  "parse_prefix_len m =
     (if all_digits m \<and> nat_of_digits m \<le> 32 then Some (nat_of_digits m) else None)"

text \<open>\<open>net.ParseCIDR\<close>: the text before the first slash is the address.\<close>

definition ParseCIDR :: "net_env \<Rightarrow> string \<Rightarrow> (goip \<times> ipnet) option" where
  "ParseCIDR E s =
     (if CHR ''/'' \<notin> set s then None
      else
        let a = takeWhile (\<lambda>c. c \<noteq> CHR ''/'') s;
            m = tl (dropWhile (\<lambda>c. c \<noteq> CHR ''/'') s)
        in (case find (\<lambda>c. c = CHR ''.'' \<or> c = CHR '':'' \<or> c = CHR ''%'') a of
              None \<Rightarrow> None
            | Some c \<Rightarrow>
                if c = CHR ''.'' then
                  (case (parse_ip4 a, parse_prefix_len m) of
                     (Some ip, Some n) \<Rightarrow>
                       Some (V4 ip, \<lparr>net_ip = Some (V4 (mask_ip4 n ip)), net_ones = n\<rparr>)
                   | _ \<Rightarrow> None)
                else if c = CHR '':'' then
                  map_option (\<lambda>(ip, n, k). (ip, \<lparr>net_ip = Some n, net_ones = k\<rparr>)) (parse_cidr6 E s)
                else None))"

text \<open>\<open>IPNet.Contains\<close> for an IPv4 network.\<close>

definition net_contains :: "ip4 \<Rightarrow> nat \<Rightarrow> ip4 \<Rightarrow> bool" where
  "net_contains net n a = (mask_ip4 n a = mask_ip4 n net)"

section \<open>Round trips\<close>

lemma show_nat_hd_zero: "hd (show_nat n) = CHR ''0'' \<Longrightarrow> n = 0"
proof (induction n rule: show_nat.induct)
  case (1 n)
  have zero: "digit_char m = CHR ''0'' \<Longrightarrow> m < 10 \<Longrightarrow> m = 0" for m
    using digit_val_char [of m] by (simp add: digit_val_def)
  show ?case
  proof (cases "n < 10")
    case True
    with "1.prems" zero show ?thesis by (subst (asm) show_nat.simps) simp
  next
    case False
    with 1 show ?thesis by (subst (asm) show_nat.simps) simp
  qed
qed

lemma parse_octet_show [simp]: "parse_octet (show_nat (unat (b :: byte))) = Some b"
proof -
  have "unat b < 2 ^ LENGTH(8)" by (rule unsigned_less)
  then have le: "unat b \<le> 255" by simp
  have "unat b = 0 \<Longrightarrow> length (show_nat (unat b)) = 1"
    by (simp add: show_nat.simps)
  then show ?thesis
    using le show_nat_hd_zero [of "unat b"] by (auto simp: parse_octet_def)
qed

lemma digit_not_sep:
  "list_all is_digit s \<Longrightarrow> \<not> is_digit c \<Longrightarrow> c \<notin> set s"
  by (auto simp: list_all_iff)

lemma not_digit [simp]:
  "\<not> is_digit (CHR ''.'')" "\<not> is_digit (CHR ''/'')" "\<not> is_digit (CHR '':'')" "\<not> is_digit (CHR ''%'')"
  "\<not> is_digit (CHR ''-'')" "\<not> is_digit (CHR '' '')"
  by (simp_all add: is_digit_def)

lemma show_nat_no_sep [simp]:
  "\<not> is_digit c \<Longrightarrow> c \<notin> set (show_nat n)"
  using show_nat_digits digit_not_sep by blast

lemma split_ip4_string:
  "split_on (CHR ''.'') (ip4_string (IP4 a b c d)) =
     [show_nat (unat a), show_nat (unat b), show_nat (unat c), show_nat (unat d)]"
  by (simp add: split_on_append split_on_none)

theorem parse_ip4_string [simp]: "parse_ip4 (ip4_string a) = Some a"
  by (cases a) (simp only: parse_ip4_def split_ip4_string, simp)

lemma ip4_string_inj [simp]: "ip4_string a = ip4_string b \<longleftrightarrow> a = b"
  by (metis option.inject parse_ip4_string)

lemma find_append_skip: "(\<And>x. x \<in> set xs \<Longrightarrow> \<not> P x) \<Longrightarrow> find P (xs @ ys) = find P ys"
  by (induction xs) auto

lemma find_ip4_string:
  "find (\<lambda>c. c = CHR ''.'' \<or> c = CHR '':'' \<or> c = CHR ''%'') (ip4_string a) = Some (CHR ''.'')"
proof (cases a)
  case (IP4 w x y z)
  have "\<not> (c = CHR ''.'' \<or> c = CHR '':'' \<or> c = CHR ''%'')" if "c \<in> set (show_nat (unat w))" for c
    using that show_nat_no_sep by (metis not_digit(1,3,4))
  then show ?thesis using IP4 by (simp add: find_append_skip)
qed

lemma ParseIP_string [simp]: "ParseIP E (ip4_string a) = Some (V4 a)"
  by (simp add: ParseIP_def find_ip4_string)

lemma slash_not_in_ip4_string [simp]: "CHR ''/'' \<notin> set (ip4_string a)"
  by (cases a) simp

lemma takeWhile_sep: "c \<notin> set xs \<Longrightarrow> takeWhile (\<lambda>d. d \<noteq> c) (xs @ c # ys) = xs"
  by (induction xs) auto

lemma dropWhile_sep: "c \<notin> set xs \<Longrightarrow> dropWhile (\<lambda>d. d \<noteq> c) (xs @ c # ys) = c # ys"
  by (induction xs) auto

lemma ParseCIDR_string:
  assumes "n \<le> 32"
  shows "ParseCIDR E (ip4_string a @ ''/'' @ show_nat n) =
           Some (V4 a, \<lparr>net_ip = Some (V4 (mask_ip4 n a)), net_ones = n\<rparr>)"
  using assms
  by (simp add: ParseCIDR_def takeWhile_sep dropWhile_sep find_ip4_string parse_prefix_len_def)

lemma mask_ip4_idem [simp]: "mask_ip4 n (mask_ip4 n a) = mask_ip4 n a"
  by (simp add: mask_ip4_def and.assoc)

lemma mask_ip4_32 [simp]: "mask_ip4 32 a = a"
  by (simp add: mask_ip4_def prefix_mask_def)

lemma mask_ip4_coarser: "m \<le> n \<Longrightarrow> mask_ip4 m (mask_ip4 n a) = mask_ip4 m a"
proof -
  assume mn: "m \<le> n"
  have "prefix_mask n AND prefix_mask m = prefix_mask m"
    using mn by (intro bit_word_eqI) (auto simp: prefix_mask_def bit_simps)
  then show ?thesis by (simp add: mask_ip4_def and.assoc)
qed

lemma net_contains_refl [simp]: "net_contains a n a"
  by (simp add: net_contains_def)

text \<open>A host without IPv6 and without a resolver.\<close>

definition demo_net :: net_env where
  "demo_net = \<lparr>parse_ip6 = (\<lambda>_. None), parse_cidr6 = (\<lambda>_. None), lookup_ip = (\<lambda>_. Inl ''no such host'')\<rparr>"

end
