(* ===== verification/RouteTypes.thy ===== *)
theory RouteTypes
  imports GoNet
begin

text \<open>
  internal/routetypes/policy.go and key.go: firewall policies, the keys of the longest-prefix-match
  tables, and the byte layouts in which both are handed to the kernel.
\<close>

section \<open>Policies\<close>

definition ANY :: u16 where "ANY = 0"
definition STOP :: u16 where "STOP = 0"
definition PUBLIC :: u16 where "PUBLIC = 4"
definition RANGE :: u16 where "RANGE = 8"
definition SINGLE :: u16 where "SINGLE = 16"
definition DENY :: u16 where "DENY = 32"

definition MAX_POLICIES :: nat where "MAX_POLICIES = 128"

definition ICMP :: u16 where "ICMP = 1"
definition TCP :: u16 where "TCP = 6"
definition UDP :: u16 where "UDP = 17"

lemmas policy_consts = ANY_def STOP_def PUBLIC_def RANGE_def SINGLE_def DENY_def
lemmas proto_consts = ICMP_def TCP_def UDP_def

record Policy =
  PolicyType :: u16
  Proto :: u16
  LowerPort :: u16
  UpperPort :: u16

definition zero_policy :: Policy where
  "zero_policy = \<lparr>PolicyType = 0, Proto = 0, LowerPort = 0, UpperPort = 0\<rparr>"

definition Policy_Is :: "Policy \<Rightarrow> u16 \<Rightarrow> bool" where
  "Policy_Is p pt =
     (if PolicyType p = 0 \<and> pt = 0 then True else PolicyType p AND pt \<noteq> 0)"

definition Policy_Bytes :: "Policy \<Rightarrow> bytes" where
  "Policy_Bytes r =
     put16le (PolicyType r) @ put16le (Proto r) @ put16le (LowerPort r) @ put16le (UpperPort r)"

definition Policy_Unpack :: "bytes \<Rightarrow> Policy res" where
  "Policy_Unpack b =
     (if length b < 8 then Inl (GoErr ''firewall policy is too short'')
      else Inr \<lparr>PolicyType = get16le (b ! 0) (b ! 1), Proto = get16le (b ! 2) (b ! 3),
                LowerPort = get16le (b ! 4) (b ! 5), UpperPort = get16le (b ! 6) (b ! 7)\<rparr>)"

definition lookupProtocol :: "u16 \<Rightarrow> string" where
  "lookupProtocol t =
     (if t = ANY then ''any''
      else if t = TCP then ''tcp''
      else if t = UDP then ''udp''
      else if t = ICMP then ''icmp''
      else ''unknown('' @ show_nat (unat t) @ '')'')"

definition Policy_String :: "Policy \<Rightarrow> string" where
  "Policy_String r =
     (let rt = ''mfa'';
          rt = (if Policy_Is r PUBLIC then ''public'' else rt);
          rt = (if Policy_Is r DENY then ''deny'' else rt)
      in if Policy_Is r STOP then ''stop''
         else if Policy_Is r SINGLE then
           (let port = (if LowerPort r = 0 then ''any'' else show_nat (unat (LowerPort r)))
            in rt @ ''('' @ show_nat (unat (PolicyType r)) @ '') '' @ port @ ''/'' @ lookupProtocol (Proto r))
         else if Policy_Is r RANGE then
           rt @ ''('' @ show_nat (unat (PolicyType r)) @ '') '' @ show_nat (unat (LowerPort r)) @ ''-'' @
             show_nat (unat (UpperPort r)) @ ''/'' @ lookupProtocol (Proto r)
         else ''unknown policy'')"

lemma length_Policy_Bytes [simp]: "length (Policy_Bytes p) = 8"
  by (simp add: Policy_Bytes_def)

lemma put16le_nth [codec_simps]:
  "put16le w = [ucast w, ucast (drop_bit 8 w)]"
  by (rule put16le_def)

lemma Policy_Unpack_Bytes_append: "Policy_Unpack (Policy_Bytes p @ rest) = Inr p"
  by (simp add: Policy_Unpack_def Policy_Bytes_def codec_simps)

text \<open>A flag test on a type built from single-bit flags.\<close>

lemma Policy_Is_zero: "Policy_Is p 0 \<longleftrightarrow> PolicyType p = 0"
  by (simp add: Policy_Is_def)

lemma Policy_Is_flag: "f \<noteq> 0 \<Longrightarrow> Policy_Is p f \<longleftrightarrow> PolicyType p AND f \<noteq> 0"
  by (simp add: Policy_Is_def)

section \<open>Keys\<close>

record Key =
  Prefixlen :: u32
  KeyIP :: ip4

definition Key_Bytes :: "Key \<Rightarrow> bytes" where
  "Key_Bytes l = put32le (Prefixlen l) @ ip4_bytes (KeyIP l)"

definition Key_Unpack :: "bytes \<Rightarrow> Key res" where
  "Key_Unpack b =
     (if length b \<noteq> 8 then Inl (GoErr ''firewall key too short'')
      else Inr \<lparr>Prefixlen = get32le (b ! 0) (b ! 1) (b ! 2) (b ! 3),
                KeyIP = IP4 (b ! 4) (b ! 5) (b ! 6) (b ! 7)\<rparr>)"

definition Key_String :: "Key \<Rightarrow> string" where
  "Key_String l = ip4_string (KeyIP l) @ ''/'' @ show_nat (unat (Prefixlen l))"

lemma length_ip4_bytes [simp]: "length (ip4_bytes a) = 4"
  by (cases a) simp

lemma length_Key_Bytes [simp]: "length (Key_Bytes k) = 8"
  by (simp add: Key_Bytes_def)

lemma Key_Unpack_Bytes: "Key_Unpack (Key_Bytes k) = Inr k"
  by (cases "KeyIP k") (simp add: Key_Unpack_def Key_Bytes_def put32le_def get32le_put32le)

lemma append_sep_inj:
  "c \<notin> set a \<Longrightarrow> c \<notin> set a' \<Longrightarrow> a @ c # b = a' @ c # b' \<longleftrightarrow> a = a' \<and> b = b'"
proof (induction a arbitrary: a')
  case Nil
  then show ?case by (cases a') auto
next
  case (Cons x xs)
  then show ?case by (cases a') auto
qed

text \<open>The cache of the rule parser is keyed by this text, so it has to determine the key.\<close>

lemma Key_String_inj [simp]: "Key_String k = Key_String l \<longleftrightarrow> k = l"
proof
  assume "Key_String k = Key_String l"
  then have "ip4_string (KeyIP k) = ip4_string (KeyIP l) \<and>
      show_nat (unat (Prefixlen k)) = show_nat (unat (Prefixlen l))"
    by (simp add: Key_String_def append_sep_inj)
  then have "KeyIP k = KeyIP l" and "Prefixlen k = Prefixlen l"
    by (auto simp: show_nat_inj intro: unsigned_word_eqI)
  then show "k = l" by (cases k; cases l) simp
qed simp

section \<open>The codecs as one interface\<close>

text \<open>
  What the kernel-facing code relies on: a value has a fixed number of bytes, and reading them
  back gives the value.
\<close>

locale fixed_codec =
  fixes enc :: "'v \<Rightarrow> bytes"
    and dec :: "bytes \<Rightarrow> 'v res"
    and width :: nat
  assumes enc_width: "length (enc v) = width"
    and dec_enc: "dec (enc v) = Inr v"
begin

lemma enc_inj: "enc v = enc w \<longleftrightarrow> v = w"
  by (metis Inr_inject dec_enc)

text \<open>An array of values: the concatenation determines the list, value by value.\<close>

lemma concat_width: "length (concat (map enc vs)) = width * length vs"
  by (induction vs) (simp_all add: enc_width)

lemma nth_chunk:
  assumes "i < length vs"
  shows "take width (drop (width * i) (concat (map enc vs))) = enc (vs ! i)"
  using assms
proof (induction vs arbitrary: i)
  case (Cons v vs)
  then show ?case by (cases i) (simp_all add: enc_width)
qed simp

lemma concat_inj:
  assumes "length vs = length ws"
    and "concat (map enc vs) = concat (map enc ws)"
  shows "vs = ws"
proof (rule nth_equalityI)
  fix i assume "i < length vs"
  with assms have "enc (vs ! i) = enc (ws ! i)" by (metis nth_chunk)
  then show "vs ! i = ws ! i" by (simp add: enc_inj)
qed (rule assms(1))

end

interpretation policy_codec: fixed_codec Policy_Bytes Policy_Unpack 8
  by unfold_locales (simp_all add: Policy_Unpack_Bytes_append [of _ "[]", simplified])

interpretation key_codec: fixed_codec Key_Bytes Key_Unpack 8
  by unfold_locales (simp_all add: Key_Unpack_Bytes)

end
