(* ===== verification/FwEntry.thy ===== *)
theory FwEntry
  imports RouteTypes
begin

text \<open>
  internal/router/fwentry.go: the entry of the device table, and its 48-byte layout, which the
  kernel program reads as the packed \<open>struct device\<close> of internal/router/xdp.c.
\<close>

type_synonym userid = bytes

record fwentry =
  sessionExpiry :: u64
  lastPacketTime :: u64
  user_id :: userid
  fw_pad :: u32
  associatedNode :: u64

definition fwentry_Size :: nat where
  "fwentry_Size = 48"

definition fwentry_Bytes :: "fwentry \<Rightarrow> bytes" where
  "fwentry_Bytes d =
     put64le (sessionExpiry d) @ put64le (lastPacketTime d) @
     take 20 (user_id d @ replicate 20 0) @ put32le (fw_pad d) @ put64le (associatedNode d)"

definition fwentry_Unpack :: "bytes \<Rightarrow> fwentry res" where
  "fwentry_Unpack b =
     (if length b \<noteq> 48 then Inl (GoErr ''firewall entry is too short'')
      else Inr \<lparr>sessionExpiry = get64le (take 8 b),
                lastPacketTime = get64le (take 8 (drop 8 b)),
                user_id = take 20 (drop 16 b),
                fw_pad = get32le (b ! 36) (b ! 37) (b ! 38) (b ! 39),
                associatedNode = get64le (take 8 (drop 40 b))\<rparr>)"

text \<open>The same bytes through the C structure: fields at their offsets, least significant byte first.\<close>

definition dev_expiry :: "bytes \<Rightarrow> u64" where "dev_expiry b = get64le (take 8 b)"
definition dev_last :: "bytes \<Rightarrow> u64" where "dev_last b = get64le (take 8 (drop 8 b))"
definition dev_user :: "bytes \<Rightarrow> userid" where "dev_user b = take 20 (drop 16 b)"
definition dev_node :: "bytes \<Rightarrow> u64" where "dev_node b = get64le (take 8 (drop 40 b))"

definition set_dev_last :: "u64 \<Rightarrow> bytes \<Rightarrow> bytes" where
  "set_dev_last t b = take 8 b @ put64le t @ drop 16 b"

lemma length_fwentry_Bytes [simp]: "length (fwentry_Bytes d) = 48"
  by (simp add: fwentry_Bytes_def)

lemma put32le_nth:
  "put32le w = [ucast w, ucast (drop_bit 8 w), ucast (drop_bit 16 w), ucast (drop_bit 24 w)]"
  by (rule put32le_def)

lemma fwentry_Unpack_Bytes:
  assumes "length (user_id d) = 20"
  shows "fwentry_Unpack (fwentry_Bytes d) = Inr d"
proof -
  have nth: "(put64le x @ put64le y @ user_id d @ put32le p @ z) ! (36 + i) = (put32le p @ z) ! i" for x y p z i
    using assms by (simp add: nth_append)
  have "fwentry_Bytes d = put64le (sessionExpiry d) @ put64le (lastPacketTime d) @ user_id d @
      put32le (fw_pad d) @ put64le (associatedNode d)"
    using assms by (simp add: fwentry_Bytes_def)
  moreover from nth [of "sessionExpiry d" "lastPacketTime d" "fw_pad d" "put64le (associatedNode d)" 0]
    nth [of "sessionExpiry d" "lastPacketTime d" "fw_pad d" "put64le (associatedNode d)" 1]
    nth [of "sessionExpiry d" "lastPacketTime d" "fw_pad d" "put64le (associatedNode d)" 2]
    nth [of "sessionExpiry d" "lastPacketTime d" "fw_pad d" "put64le (associatedNode d)" 3]
  have "get32le (fwentry_Bytes d ! 36) (fwentry_Bytes d ! 37) (fwentry_Bytes d ! 38) (fwentry_Bytes d ! 39) = fw_pad d"
    unfolding calculation by (simp add: put32le_nth [of "fw_pad d"] get32le_put32le)
  ultimately show ?thesis
    using assms by (cases d) (simp add: fwentry_Unpack_def get64le_put64le)
qed

lemma dev_fields [simp]:
  assumes "length (user_id d) = 20"
  shows "dev_expiry (fwentry_Bytes d) = sessionExpiry d"
    and "dev_last (fwentry_Bytes d) = lastPacketTime d"
    and "dev_user (fwentry_Bytes d) = user_id d"
    and "dev_node (fwentry_Bytes d) = associatedNode d"
  using assms
  by (simp_all add: fwentry_Bytes_def dev_expiry_def dev_last_def dev_user_def dev_node_def get64le_put64le)

lemma set_dev_last_Bytes:
  assumes "length (user_id d) = 20"
  shows "set_dev_last t (fwentry_Bytes d) = fwentry_Bytes (d\<lparr>lastPacketTime := t\<rparr>)"
  using assms by (simp add: set_dev_last_def fwentry_Bytes_def)

lemma set_dev_last_fields [simp]:
  assumes "length b = 48"
  shows "dev_last (set_dev_last t b) = t"
    and "dev_expiry (set_dev_last t b) = dev_expiry b"
    and "dev_user (set_dev_last t b) = dev_user b"
    and "dev_node (set_dev_last t b) = dev_node b"
    and "length (set_dev_last t b) = 48"
  using assms
  by (simp_all add: set_dev_last_def dev_last_def dev_expiry_def dev_user_def dev_node_def get64le_put64le)

lemma Unpack_dev:
  "fwentry_Unpack b = Inr d \<Longrightarrow>
     sessionExpiry d = dev_expiry b \<and> lastPacketTime d = dev_last b \<and> user_id d = dev_user b \<and>
     associatedNode d = dev_node b \<and> length b = 48 \<and> length (user_id d) = 20"
  by (auto simp: fwentry_Unpack_def dev_expiry_def dev_last_def dev_user_def dev_node_def split: if_splits)

end
