(* ===== verification/Xdp.thy ===== *)
theory Xdp
  imports FwEntry
begin

text \<open>
  internal/router/xdp.c: the kernel program that passes or drops every packet of the tunnel.

  The eBPF maps it reads are the state \<open>kmaps\<close>: hash maps are partial functions, the two
  one-element arrays are numbers, and the map of maps holds, per user, the number of an inner
  longest-prefix-match table. What the kernel's lookup in such a table returns is the parameter
  \<open>lookup\<close>, whose documented behaviour is the locale \<open>lpm\<close>. The program loads 16-bit and 32-bit
  fields little-endian, as the bpfel build does.
\<close>

type_synonym trie = "(Key \<times> Policy list) list"

record kmaps =
  k_devices :: "ip4 \<rightharpoonup> bytes"
  k_locked :: "userid \<rightharpoonup> u32"
  k_policies :: "userid \<rightharpoonup> nat"
  k_inner :: "nat \<Rightarrow> trie"
  k_node :: u64
  k_timeout :: u64

section \<open>Longest-prefix-match lookup\<close>

definition key_matches :: "Key \<Rightarrow> ip4 \<Rightarrow> bool" where
  "key_matches k a = net_contains (KeyIP k) (unat (Prefixlen k)) a"

text \<open>The value of an address is that of a matching key, and no matching key is longer.\<close>

locale lpm =
  fixes lookup :: "trie \<Rightarrow> ip4 \<Rightarrow> Policy list option"
  assumes lookup_some: "lookup t a = Some v \<Longrightarrow>
      \<exists>k. map_of t k = Some v \<and> key_matches k a \<and>
          (\<forall>k' \<in> fst ` set t. key_matches k' a \<longrightarrow> Prefixlen k' \<le> Prefixlen k)"
    and lookup_none: "lookup t a = None \<Longrightarrow> \<forall>k \<in> fst ` set t. \<not> key_matches k a"
begin

lemma lookup_some_iff: "(\<exists>v. lookup t a = Some v) \<longleftrightarrow> (\<exists>k \<in> fst ` set t. key_matches k a)"
proof
  assume "\<exists>v. lookup t a = Some v"
  then obtain v k where "map_of t k = Some v" "key_matches k a" using lookup_some by blast
  then show "\<exists>k \<in> fst ` set t. key_matches k a" by (force dest: map_of_SomeD)
next
  assume "\<exists>k \<in> fst ` set t. key_matches k a"
  then show "\<exists>v. lookup t a = Some v" using lookup_none by (cases "lookup t a") auto
qed

text \<open>A host route, whose key is the address itself, is always the one found.\<close>

lemma lookup_host:
  assumes "map_of t \<lparr>Prefixlen = 32, KeyIP = a\<rparr> = Some v"
    and "\<forall>k \<in> fst ` set t. Prefixlen k \<le> 32"
  shows "lookup t a = Some v"
proof -
  let ?h = "\<lparr>Prefixlen = 32, KeyIP = a\<rparr>"
  have mem: "?h \<in> fst ` set t" using assms(1) by (force dest: map_of_SomeD)
  have mh: "key_matches ?h a" by (simp add: key_matches_def)
  from mem mh obtain w where w: "lookup t a = Some w" using lookup_some_iff by blast
  then obtain k where k: "map_of t k = Some w" "key_matches k a"
    and top: "\<forall>k' \<in> fst ` set t. key_matches k' a \<longrightarrow> Prefixlen k' \<le> Prefixlen k"
    using lookup_some by blast
  have "Prefixlen ?h \<le> Prefixlen k" using top mem mh by blast
  moreover have "Prefixlen k \<le> 32" using assms(2) k(1) by (force dest: map_of_SomeD)
  ultimately have "Prefixlen k = 32" by simp
  with k(2) have "k = ?h" by (cases k) (simp add: key_matches_def net_contains_def)
  with k(1) assms(1) w show ?thesis by simp
qed

end

text \<open>The reference lookup: keep the longest match seen; among equal keys the first entry counts.\<close>

fun lpm_best :: "ip4 \<Rightarrow> (Key \<times> Policy list) option \<Rightarrow> trie \<Rightarrow> (Key \<times> Policy list) option" where
  "lpm_best a b [] = b"
| "lpm_best a b (e # t) =
     (if key_matches (fst e) a \<and> (case b of None \<Rightarrow> True | Some c \<Rightarrow> Prefixlen (fst c) < Prefixlen (fst e))
      then lpm_best a (Some e) t else lpm_best a b t)"

definition lpm_lookup :: "trie \<Rightarrow> ip4 \<Rightarrow> Policy list option" where
  "lpm_lookup t a = map_option snd (lpm_best a None t)"

lemma lpm_best_max:
  "lpm_best a b t = Some e \<Longrightarrow>
     (\<forall>c. b = Some c \<longrightarrow> Prefixlen (fst c) \<le> Prefixlen (fst e)) \<and>
     (\<forall>k' \<in> fst ` set t. key_matches k' a \<longrightarrow> Prefixlen k' \<le> Prefixlen (fst e)) \<and>
     (b = Some e \<or> key_matches (fst e) a \<and> map_of t (fst e) = Some (snd e) \<and>
        (\<forall>c. b = Some c \<longrightarrow> Prefixlen (fst c) < Prefixlen (fst e)))"
proof (induction a b t arbitrary: e rule: lpm_best.induct)
  case (1 a b)
  then show ?case by auto
next
  case (2 a b x t)
  show ?case
  proof (cases "key_matches (fst x) a \<and> (case b of None \<Rightarrow> True | Some c \<Rightarrow> Prefixlen (fst c) < Prefixlen (fst x))")
    case True
    with "2.prems" have "lpm_best a (Some x) t = Some e" by simp
    note IH = "2.IH"(1) [OF True this]
    then have le: "Prefixlen (fst x) \<le> Prefixlen (fst e)" by blast
    have b: "Prefixlen (fst c) < Prefixlen (fst e)" if "b = Some c" for c
    proof -
      have "Prefixlen (fst c) < Prefixlen (fst x)" using True that by simp
      then show ?thesis using le by (rule order.strict_trans2)
    qed
    show ?thesis
    proof (intro conjI)
      show "\<forall>c. b = Some c \<longrightarrow> Prefixlen (fst c) \<le> Prefixlen (fst e)"
        using b by (auto intro: less_imp_le)
      show "\<forall>k' \<in> fst ` set (x # t). key_matches k' a \<longrightarrow> Prefixlen k' \<le> Prefixlen (fst e)"
        using IH by auto
      have "Some x = Some e \<or> key_matches (fst e) a \<and> map_of t (fst e) = Some (snd e) \<and>
          Prefixlen (fst x) < Prefixlen (fst e)" using IH by blast
      then show "b = Some e \<or> key_matches (fst e) a \<and> map_of (x # t) (fst e) = Some (snd e) \<and>
          (\<forall>c. b = Some c \<longrightarrow> Prefixlen (fst c) < Prefixlen (fst e))"
        using True b by (cases x; cases e) auto
    qed
  next
    case False
    with "2.prems" have "lpm_best a b t = Some e" by simp
    note IH = "2.IH"(2) [OF False this]
    have x: "Prefixlen (fst x) \<le> Prefixlen (fst e)" if m: "key_matches (fst x) a"
    proof -
      from False m obtain c where c: "b = Some c" "Prefixlen (fst x) \<le> Prefixlen (fst c)"
        by (cases b) auto
      with IH have "Prefixlen (fst c) \<le> Prefixlen (fst e)" by blast
      with c(2) show ?thesis by (rule order_trans)
    qed
    have fe: "fst e \<noteq> fst x" if "b \<noteq> Some e" "key_matches (fst e) a" "\<forall>c. b = Some c \<longrightarrow> Prefixlen (fst c) < Prefixlen (fst e)"
      using False that by (cases b) auto
    show ?thesis
    proof (intro conjI)
      show "\<forall>c. b = Some c \<longrightarrow> Prefixlen (fst c) \<le> Prefixlen (fst e)" using IH by blast
      show "\<forall>k' \<in> fst ` set (x # t). key_matches k' a \<longrightarrow> Prefixlen k' \<le> Prefixlen (fst e)"
        using IH x by auto
      show "b = Some e \<or> key_matches (fst e) a \<and> map_of (x # t) (fst e) = Some (snd e) \<and>
          (\<forall>c. b = Some c \<longrightarrow> Prefixlen (fst c) < Prefixlen (fst e))"
      proof (cases "b = Some e")
        case False
        with IH have m: "key_matches (fst e) a" "map_of t (fst e) = Some (snd e)"
          "\<forall>c. b = Some c \<longrightarrow> Prefixlen (fst c) < Prefixlen (fst e)" by blast+
        have "fst e \<noteq> fst x" using fe [OF False m(1) m(3)] .
        then have "map_of (x # t) (fst e) = map_of t (fst e)" by (cases x) simp
        with m show ?thesis by simp
      qed simp
    qed
  qed
qed

lemma lpm_best_Some: "\<exists>f. lpm_best a (Some e) t = Some f"
  by (induction t arbitrary: e) auto

lemma lpm_best_none: "lpm_best a None t = None \<Longrightarrow> \<forall>k \<in> fst ` set t. \<not> key_matches k a"
proof (induction t)
  case (Cons x t)
  have "\<not> key_matches (fst x) a"
    using Cons.prems lpm_best_Some [of a x t] by (cases "key_matches (fst x) a") auto
  with Cons show ?case by simp
qed simp

interpretation lpm_ref: lpm lpm_lookup
proof
  fix t a v
  assume "lpm_lookup t a = Some v"
  then obtain e where e: "lpm_best a None t = Some e" "v = snd e"
    by (auto simp: lpm_lookup_def)
  from lpm_best_max [OF e(1)] e(2)
  show "\<exists>k. map_of t k = Some v \<and> key_matches k a \<and>
          (\<forall>k' \<in> fst ` set t. key_matches k' a \<longrightarrow> Prefixlen k' \<le> Prefixlen k)"
    by (intro exI [of _ "fst e"]) auto
next
  fix t a
  assume "lpm_lookup t a = None"
  then show "\<forall>k \<in> fst ` set t. \<not> key_matches k a"
    using lpm_best_none by (auto simp: lpm_lookup_def)
qed

section \<open>Packets\<close>

definition MAX_PACKET_OFF :: nat where "MAX_PACKET_OFF = 65535"

record ip_info =
  src_ip :: ip4
  src_port :: u16
  dst_ip :: ip4
  dst_port :: u16
  ip_proto :: u32

definition ip_at :: "bytes \<Rightarrow> nat \<Rightarrow> ip4" where
  "ip_at b i = IP4 (b ! i) (b ! (i + 1)) (b ! (i + 2)) (b ! (i + 3))"

definition load16 :: "bytes \<Rightarrow> nat \<Rightarrow> u16" where
  "load16 b i = get16le (b ! i) (b ! (i + 1))"

text \<open>\<open>parse_ip_src_dst_addr\<close>: the addresses, the protocol, and for TCP and UDP the raw ports.\<close>

definition parse_ip_src_dst_addr :: "bytes \<Rightarrow> ip_info option" where
  "parse_ip_src_dst_addr data =
     (if length data < 20 then None
      else if drop_bit 4 (data ! 0) \<noteq> 4 then None
      else
        let protocol = data ! 9; hl = 4 * unat (data ! 0 AND 15);
            info = (\<lambda>s d. \<lparr>src_ip = ip_at data 12, src_port = s, dst_ip = ip_at data 16, dst_port = d,
                           ip_proto = ucast protocol\<rparr>)
        in if hl > MAX_PACKET_OFF then None
           else if hl > length data then None
           else if protocol = ucast UDP then
             (if hl + 8 > length data then None else Some (info (load16 data hl) (load16 data (hl + 2))))
           else if protocol = ucast TCP then
             (if hl + 20 > length data then None else Some (info (load16 data hl) (load16 data (hl + 2))))
           else if protocol = ucast ICMP then
             (if hl + 8 > length data then None else Some (info 0 0))
           else Some (info 0 0))"

definition bpf_ntohs :: "u16 \<Rightarrow> u16" where
  "bpf_ntohs w = push_bit 8 w OR drop_bit 8 w"

section \<open>The decision\<close>

definition policy_matches :: "u32 \<Rightarrow> u16 \<Rightarrow> Policy \<Rightarrow> bool" where
  "policy_matches proto port p \<longleftrightarrow>
     (Proto p = ANY \<or> ucast (Proto p) = proto) \<and>
     ((PolicyType p AND SINGLE \<noteq> 0 \<and> (LowerPort p = ANY \<or> LowerPort p = port)) \<or>
      (PolicyType p AND RANGE \<noteq> 0 \<and> LowerPort p \<le> port \<and> UpperPort p \<ge> port))"

text \<open>
  The loop over the policy array. Running past its end returns 0, whatever was decided so far.
  \<open>authed\<close> is the condition under which an MFA policy admits the packet.
\<close>

fun check_policies :: "bool \<Rightarrow> u32 \<Rightarrow> u16 \<Rightarrow> bool \<Rightarrow> Policy list \<Rightarrow> bool" where
  "check_policies authed proto port decision [] = False"
| "check_policies authed proto port decision (p # ps) =
     (if PolicyType p = STOP then decision
      else if policy_matches proto port p then
        (if PolicyType p AND DENY \<noteq> 0 then False
         else if PolicyType p AND PUBLIC \<noteq> 0 then check_policies authed proto port True ps
         else if authed then check_policies authed proto port True ps
         else False)
      else check_policies authed proto port decision ps)"

definition is_timed_out :: "u64 \<Rightarrow> u64 \<Rightarrow> bytes \<Rightarrow> bool" where
  "is_timed_out timeout now d \<longleftrightarrow> timeout \<noteq> - 1 \<and> now - dev_last d \<ge> timeout"

definition session_ok :: "u64 \<Rightarrow> u32 \<Rightarrow> u64 \<Rightarrow> u64 \<Rightarrow> bytes \<Rightarrow> bool" where
  "session_ok node locked timeout now d \<longleftrightarrow>
     node = dev_node d \<and> locked = 0 \<and> \<not> is_timed_out timeout now d \<and> dev_expiry d \<noteq> 0 \<and>
     (dev_expiry d = - 1 \<or> now < dev_expiry d)"

text \<open>\<open>conntrack\<close>: the verdict, and the maps with the packet time of an active device updated.\<close>

definition conntrack :: "(trie \<Rightarrow> ip4 \<Rightarrow> Policy list option) \<Rightarrow> u64 \<Rightarrow> kmaps \<Rightarrow> ip_info \<Rightarrow> bool \<times> kmaps" where
  "conntrack lookup now k info =
     (let found = (case k_devices k (src_ip info) of
            Some d \<Rightarrow> Some (src_ip info, d, dst_ip info, dst_port info)
          | None \<Rightarrow> (case k_devices k (dst_ip info) of
                Some d \<Rightarrow> Some (dst_ip info, d, src_ip info, src_port info)
              | None \<Rightarrow> None))
      in case found of
           None \<Rightarrow> (False, k)
         | Some (at, d, address, raw_port) \<Rightarrow>
        (case k_locked k (dev_user d) of
           None \<Rightarrow> (False, k)
         | Some locked \<Rightarrow>
             let port = bpf_ntohs raw_port;
                 timedOut = is_timed_out (k_timeout k) now d;
                 applicable = (case k_policies k (dev_user d) of
                     None \<Rightarrow> None
                   | Some inner \<Rightarrow> lookup (k_inner k inner) address)
             in case applicable of
                  None \<Rightarrow> (False, k)
                | Some ps \<Rightarrow>
                    (check_policies (session_ok (k_node k) locked (k_timeout k) now d)
                       (ip_proto info) port False (take MAX_POLICIES ps),
                     if timedOut then k
                     else k\<lparr>k_devices := (k_devices k)(at \<mapsto> set_dev_last now d)\<rparr>)))"

datatype xdp_action = XDP_DROP | XDP_PASS

definition xdp_wag_firewall :: "(trie \<Rightarrow> ip4 \<Rightarrow> Policy list option) \<Rightarrow> u64 \<Rightarrow> kmaps \<Rightarrow> bytes \<Rightarrow> xdp_action \<times> kmaps" where
  "xdp_wag_firewall lookup now k data =
     (case parse_ip_src_dst_addr data of
        None \<Rightarrow> (XDP_DROP, k)
      | Some info \<Rightarrow> (case conntrack lookup now k info of
            (ok, k') \<Rightarrow> (if ok then XDP_PASS else XDP_DROP, k')))"

section \<open>What the loop decides\<close>

text \<open>The policies in force: those before the first stop marker.\<close>

definition active :: "Policy list \<Rightarrow> Policy list" where
  "active ps = takeWhile (\<lambda>p. PolicyType p \<noteq> STOP) ps"

definition is_deny :: "Policy \<Rightarrow> bool" where "is_deny p \<longleftrightarrow> PolicyType p AND DENY \<noteq> 0"
definition is_public :: "Policy \<Rightarrow> bool" where "is_public p \<longleftrightarrow> PolicyType p AND PUBLIC \<noteq> 0"
definition is_mfa :: "Policy \<Rightarrow> bool" where "is_mfa p \<longleftrightarrow> \<not> is_deny p \<and> \<not> is_public p"

lemmas policy_kinds = is_deny_def is_public_def is_mfa_def

text \<open>The verdict as a condition on a set of matching policies, with no order.\<close>

definition admits :: "bool \<Rightarrow> Policy set \<Rightarrow> bool" where
  "admits authed M \<longleftrightarrow> M \<noteq> {} \<and> (\<forall>p \<in> M. \<not> is_deny p) \<and> ((\<exists>p \<in> M. is_mfa p) \<longrightarrow> authed)"

definition matching :: "u32 \<Rightarrow> u16 \<Rightarrow> Policy list \<Rightarrow> Policy set" where
  "matching proto port ps = {p \<in> set ps. policy_matches proto port p}"

lemma check_policies_no_stop:
  "\<forall>p \<in> set ps. PolicyType p \<noteq> STOP \<Longrightarrow> \<not> check_policies authed proto port decision ps"
  by (induction ps arbitrary: decision) auto

lemma check_policies_stop:
  assumes "\<exists>p \<in> set ps. PolicyType p = STOP"
  shows "check_policies authed proto port decision ps \<longleftrightarrow>
     (\<forall>p \<in> matching proto port (active ps). \<not> is_deny p \<and> (is_mfa p \<longrightarrow> authed)) \<and>
     (decision \<or> matching proto port (active ps) \<noteq> {})"
  using assms
proof (induction ps arbitrary: decision authed)
  case (Cons p ps)
  show ?case
  proof (cases "PolicyType p = STOP")
    case True
    then show ?thesis by (auto simp: active_def matching_def)
  next
    case False
    with Cons.prems have "\<exists>p \<in> set ps. PolicyType p = STOP" by auto
    note IH = Cons.IH [OF this]
    have "matching proto port (active (p # ps)) =
        (if policy_matches proto port p then insert p (matching proto port (active ps))
         else matching proto port (active ps))"
      using False by (auto simp: active_def matching_def)
    moreover have "check_policies authed proto port decision (p # ps) =
        (if policy_matches proto port p then
           \<not> is_deny p \<and> (is_mfa p \<longrightarrow> authed) \<and> check_policies authed proto port True ps
         else check_policies authed proto port decision ps)"
      using False by (auto simp: policy_kinds)
    ultimately show ?thesis by (auto simp: IH)
  qed
qed simp

lemma check_policies_admits:
  assumes "\<exists>p \<in> set ps. PolicyType p = STOP"
  shows "check_policies authed proto port False ps \<longleftrightarrow> admits authed (matching proto port (active ps))"
  by (auto simp: check_policies_stop [OF assms] admits_def)

lemma conntrack_frame:
  "snd (conntrack lookup now k info) =
     k\<lparr>k_devices := k_devices (snd (conntrack lookup now k info))\<rparr>"
  by (auto simp: conntrack_def Let_def split: option.splits)

end
