(* ===== verification/XdpSpec.thy ===== *)
theory XdpSpec
  imports Xdp
begin

text \<open>
  What the kernel program decides, stated without its loop: a packet passes exactly when it
  belongs to a known device of a known user, a route of that user covers the other end, and the
  policies in force there that match the packet admit it. Then what a sequence of packets does to
  the state, and what it cannot do to a session that has timed out.
\<close>

section \<open>The verdict\<close>

text \<open>The device a packet belongs to: the sender, or else the receiver; the other end is checked.\<close>

definition packet_device :: "kmaps \<Rightarrow> ip_info \<Rightarrow> (ip4 \<times> bytes \<times> ip4 \<times> u16) option" where
  "packet_device k info =
     (case k_devices k (src_ip info) of
        Some d \<Rightarrow> Some (src_ip info, d, dst_ip info, bpf_ntohs (dst_port info))
      | None \<Rightarrow> (case k_devices k (dst_ip info) of
           Some d \<Rightarrow> Some (dst_ip info, d, src_ip info, bpf_ntohs (src_port info))
         | None \<Rightarrow> None))"

text \<open>The policies of the route that covers an address, for the user of a device.\<close>

definition applicable :: "(trie \<Rightarrow> ip4 \<Rightarrow> Policy list option) \<Rightarrow> kmaps \<Rightarrow> bytes \<Rightarrow> ip4 \<Rightarrow> Policy list option" where
  "applicable lookup k d a =
     Option.bind (k_policies k (dev_user d)) (\<lambda>inner. map_option (take MAX_POLICIES) (lookup (k_inner k inner) a))"

definition terminated :: "Policy list \<Rightarrow> bool" where
  "terminated ps \<longleftrightarrow> (\<exists>p \<in> set ps. PolicyType p = STOP)"

lemma check_policies_verdict:
  "check_policies authed proto port False ps \<longleftrightarrow> terminated ps \<and> admits authed (matching proto port (active ps))"
proof (cases "terminated ps")
  case True
  then show ?thesis using check_policies_admits by (simp add: terminated_def)
next
  case False
  then show ?thesis using check_policies_no_stop by (auto simp: terminated_def)
qed

text \<open>C1
  The kernel program passes a packet exactly when it parses, its sender (or else its receiver) is
  a known device, the account of that device exists, a route of the user covers the other end, the
  128 policies there hold a stop marker, and among the policies before the marker that match the
  protocol and port there is at least one, none of them denies, and if one of them needs MFA the
  session of the device is valid. In all other cases it drops the packet.
\<close>

theorem xdp_verdict:
  "fst (xdp_wag_firewall lookup now k data) = XDP_PASS \<longleftrightarrow>
     (\<exists>info at d a port locked ps. parse_ip_src_dst_addr data = Some info \<and>
        packet_device k info = Some (at, d, a, port) \<and>
        k_locked k (dev_user d) = Some locked \<and>
        applicable lookup k d a = Some ps \<and> terminated ps \<and>
        admits (session_ok (k_node k) locked (k_timeout k) now d)
          (matching (ip_proto info) port (active ps)))"
  by (auto simp: xdp_wag_firewall_def conntrack_def Let_def packet_device_def applicable_def
      check_policies_verdict bind_eq_Some_conv split: option.splits prod.splits)

section \<open>What packets do to the state\<close>

text \<open>A sequence of packets, each with the time it arrives at.\<close>

fun run_packets :: "(trie \<Rightarrow> ip4 \<Rightarrow> Policy list option) \<Rightarrow> (u64 \<times> bytes) list \<Rightarrow> kmaps \<Rightarrow> kmaps" where
  "run_packets lookup [] k = k"
| "run_packets lookup ((now, data) # ps) k = run_packets lookup ps (snd (xdp_wag_firewall lookup now k data))"

definition devices_wf :: "kmaps \<Rightarrow> bool" where
  "devices_wf k \<longleftrightarrow> (\<forall>d \<in> ran (k_devices k). length d = 48)"

text \<open>What one packet at time \<open>now\<close> may change: the packet time of entries that have not timed out.\<close>

definition packet_step :: "u64 \<Rightarrow> kmaps \<Rightarrow> kmaps \<Rightarrow> bool" where
  "packet_step now k k' \<longleftrightarrow> (\<exists>D. k' = k\<lparr>k_devices := D\<rparr> \<and>
     (\<forall>a. D a = k_devices k a \<or>
        (\<exists>d. k_devices k a = Some d \<and> \<not> is_timed_out (k_timeout k) now d \<and> D a = Some (set_dev_last now d))))"

lemma conntrack_step: "packet_step now k (snd (conntrack lookup now k info))"
proof -
  have refl: "packet_step now k k"
    unfolding packet_step_def by (intro exI [of _ "k_devices k"]) simp
  have upd: "packet_step now k (k\<lparr>k_devices := (k_devices k)(a \<mapsto> set_dev_last now d)\<rparr>)"
    if "k_devices k a = Some d" "\<not> is_timed_out (k_timeout k) now d" for a d
    using that unfolding packet_step_def by (intro exI [of _ "(k_devices k)(a \<mapsto> set_dev_last now d)"]) auto
  show ?thesis
    by (auto simp: conntrack_def Let_def refl upd split: option.splits)
qed

lemma xdp_step: "packet_step now k (snd (xdp_wag_firewall lookup now k data))"
proof -
  have refl: "packet_step now k k"
    unfolding packet_step_def by (intro exI [of _ "k_devices k"]) simp
  then show ?thesis
    using conntrack_step [of now k lookup]
    by (auto simp: xdp_wag_firewall_def split: option.splits prod.splits) (metis snd_conv)+
qed

lemma packet_step_keeps:
  assumes "packet_step now k k'"
  shows "k_timeout k' = k_timeout k" "k_locked k' = k_locked k" "k_policies k' = k_policies k"
    "k_inner k' = k_inner k" "k_node k' = k_node k" "dom (k_devices k') = dom (k_devices k)"
  using assms by (auto simp: packet_step_def) (metis option.distinct(1))+

lemma packet_step_dev:
  assumes "packet_step now k k'" and "k_devices k a = Some d"
  shows "k_devices k' a = Some d \<or>
    \<not> is_timed_out (k_timeout k) now d \<and> k_devices k' a = Some (set_dev_last now d)"
  using assms by (auto simp: packet_step_def) (metis option.inject)+

lemma packet_step_wf:
  assumes "packet_step now k k'" and "devices_wf k"
  shows "devices_wf k'"
  unfolding devices_wf_def
proof
  fix d assume "d \<in> ran (k_devices k')"
  then obtain a where a: "k_devices k' a = Some d" by (auto simp: ran_def)
  with packet_step_keeps(6) [OF assms(1)] obtain d0 where d0: "k_devices k a = Some d0" by blast
  then have "length d0 = 48" using assms(2) by (auto simp: devices_wf_def ran_def)
  with packet_step_dev [OF assms(1) d0] a show "length d = 48" by auto
qed

text \<open>
  The session fields of a device, and a session that timed out, survive every packet. The times
  are those of one clock: they do not go back, and no packet time lies in the future.
\<close>

fun times_from :: "u64 \<Rightarrow> (u64 \<times> bytes) list \<Rightarrow> bool" where
  "times_from t [] = True"
| "times_from t ((now, _) # ps) = (t \<le> now \<and> times_from now ps)"

lemma timed_out_later:
  assumes "is_timed_out timeout t d" and "dev_last d \<le> t" and "t \<le> now"
  shows "is_timed_out timeout now d"
proof -
  have "t - dev_last d \<le> now - dev_last d"
    using assms(2,3) by (simp add: word_le_nat_alt unat_sub_if_size) 
  with assms(1) show ?thesis by (auto simp: is_timed_out_def)
qed

lemma run_packets_idle:
  assumes "devices_wf k" and "k_devices k a = Some d" and "dev_last d \<le> t"
    and "is_timed_out (k_timeout k) t d" and "times_from t ps"
  shows "k_devices (run_packets lookup ps k) a = Some d"
  using assms
proof (induction ps arbitrary: k t)
  case (Cons p ps)
  obtain now data where p: "p = (now, data)" by (cases p)
  let ?k = "snd (xdp_wag_firewall lookup now k data)"
  have st: "packet_step now k ?k" by (rule xdp_step)
  have tn: "t \<le> now" "times_from now ps" using Cons.prems(5) p by auto
  have out: "is_timed_out (k_timeout k) now d"
    using timed_out_later Cons.prems(3,4) tn(1) by blast
  with packet_step_dev [OF st Cons.prems(2)] have "k_devices ?k a = Some d" by simp
  moreover have "devices_wf ?k" using packet_step_wf [OF st Cons.prems(1)] .
  moreover have "dev_last d \<le> now" using Cons.prems(3) tn(1) by simp
  moreover have "is_timed_out (k_timeout ?k) now d" using out packet_step_keeps(1) [OF st] by simp
  ultimately have "k_devices (run_packets lookup ps ?k) a = Some d"
    using Cons.IH tn(2) by blast
  with p show ?case by simp
qed simp

text \<open>C23
  Traffic alone never revives a session: once a device has been idle for the timeout, then after
  any number of packets of any kind, at times that do not go back, its entry is unchanged and its
  session is invalid, so no policy that needs MFA admits its packets.
\<close>

theorem idle_session_stays_invalid:
  assumes "devices_wf k" and "k_devices k a = Some d" and "dev_last d \<le> t"
    and "is_timed_out (k_timeout k) t d" and "times_from t (ps @ [(now, data)])"
  shows "k_devices (run_packets lookup ps k) a = Some d \<and>
     \<not> session_ok (k_node k) locked (k_timeout k) now d"
proof
  have ps: "times_from t ps \<and> t \<le> now" if "times_from t (ps @ [(now, data)])" for t
    using that
  proof (induction ps arbitrary: t)
    case (Cons p ps)
    then show ?case by (cases p) (fastforce intro: order_trans)
  qed simp
  from ps [OF assms(5)] show "k_devices (run_packets lookup ps k) a = Some d"
    using run_packets_idle assms by blast
  from ps [OF assms(5)] have "is_timed_out (k_timeout k) now d"
    using timed_out_later assms(3,4) by blast
  then show "\<not> session_ok (k_node k) locked (k_timeout k) now d" by (simp add: session_ok_def)
qed

text \<open>An idle device of one user, for the witness.\<close>

definition idle_maps :: kmaps where
  "idle_maps = \<lparr>k_devices = [IP4 10 0 0 2 \<mapsto> replicate 48 0], k_locked = Map.empty, k_policies = Map.empty,
     k_inner = (\<lambda>_. []), k_node = 0, k_timeout = 60\<rparr>"

theorem idle_session_stays_invalid_witness:
  "k_devices (run_packets lpm_lookup [(100, []), (120, replicate 20 69)] idle_maps) (IP4 10 0 0 2) = Some (replicate 48 0) \<and>
     \<not> session_ok 0 0 60 130 (replicate 48 0)"
proof -
  have last: "dev_last (replicate 48 0) = 0"
    by (simp add: dev_last_def)
  show ?thesis
    using idle_session_stays_invalid [of idle_maps "IP4 10 0 0 2" "replicate 48 0" 100
        "[(100, []), (120, replicate 20 69)]" 130 "[]" lpm_lookup 0]
    by (simp add: idle_maps_def devices_wf_def is_timed_out_def last)
qed

lemma packet_step_session:
  assumes "packet_step now k k'" and "devices_wf k" and "k_devices k a = Some d"
  shows "\<exists>d'. k_devices k' a = Some d' \<and> dev_expiry d' = dev_expiry d \<and> dev_user d' = dev_user d \<and> dev_node d' = dev_node d"
proof -
  have "length d = 48" using assms(2,3) by (auto simp: devices_wf_def ran_def)
  with packet_step_dev [OF assms(1,3)] show ?thesis by auto
qed

text \<open>
  Packets never change who a device belongs to, when its session ends or which node serves it, and
  neither add nor remove devices: after any sequence of packets every device has the same user,
  expiry and node as before, and the other maps are the same.
\<close>

theorem packets_keep_sessions:
  assumes "devices_wf k"
  shows "(\<forall>a d. k_devices k a = Some d \<longrightarrow> (\<exists>d'. k_devices (run_packets lookup ps k) a = Some d' \<and>
        dev_expiry d' = dev_expiry d \<and> dev_user d' = dev_user d \<and> dev_node d' = dev_node d)) \<and>
     dom (k_devices (run_packets lookup ps k)) = dom (k_devices k) \<and>
     k_locked (run_packets lookup ps k) = k_locked k \<and>
     k_policies (run_packets lookup ps k) = k_policies k \<and> k_inner (run_packets lookup ps k) = k_inner k"
  using assms
proof (induction ps arbitrary: k)
  case (Cons p ps)
  obtain now data where p: "p = (now, data)" by (cases p)
  let ?k = "snd (xdp_wag_firewall lookup now k data)"
  have st: "packet_step now k ?k" by (rule xdp_step)
  note IH = Cons.IH [OF packet_step_wf [OF st Cons.prems]]
  have "\<exists>d'. k_devices (run_packets lookup ps ?k) a = Some d' \<and>
        dev_expiry d' = dev_expiry d \<and> dev_user d' = dev_user d \<and> dev_node d' = dev_node d"
    if "k_devices k a = Some d" for a d
    using packet_step_session [OF st Cons.prems that] IH by metis
  with IH packet_step_keeps [OF st] p show ?case by simp
qed simp

theorem packets_keep_sessions_witness:
  "dom (k_devices (run_packets lpm_lookup [(10, replicate 28 69), (20, [])] idle_maps)) = {IP4 10 0 0 2}"
  using packets_keep_sessions [of idle_maps lpm_lookup "[(10, replicate 28 69), (20, [])]"]
  by (simp add: idle_maps_def devices_wf_def)

end
