(* ===== verification/Parser.thy ===== *)
theory Parser
  imports RouteTypes
begin

text \<open>
  internal/routetypes/parser.go: from the text of access-control rules to the policies stored
  under each key of a user's table.

  The parser appends to Go slices that several results can share, so the arrays behind the slices
  are modelled as a heap: a slice is an array, a length and a capacity, and \<open>append\<close> writes in
  place while there is capacity. The package state is the two caches and that heap. How far the
  run time grows an array, the digest that keys the rule cache, the clock and name resolution are
  the parameters of \<open>parse_env\<close>.
\<close>

section \<open>Services\<close>

definition parsePortRange :: "string \<Rightarrow> string \<Rightarrow> string \<Rightarrow> Policy res" where
  "parsePortRange lowerPort upperPort proto =
     (case atoi lowerPort of
        None \<Rightarrow> Inl (GoErr (''could not convert lower port defintion to number: '' @ lowerPort))
      | Some lowerPortNum \<Rightarrow>
     (case atoi upperPort of
        None \<Rightarrow> Inl (GoErr (''could not convert upper port defintion to number: '' @ upperPort))
      | Some upperPortNum \<Rightarrow>
          if lowerPortNum > upperPortNum then
            Inl (GoErr (''lower port cannot be higher than upper power: lower: '' @ lowerPort @
                        '' upper: '' @ upperPort))
          else if proto = ''any'' then
            Inr \<lparr>PolicyType = RANGE, Proto = ANY,
                 LowerPort = word_of_int lowerPortNum, UpperPort = word_of_int upperPortNum\<rparr>
          else if proto = ''tcp'' \<or> proto = ''udp'' then
            (let service = (if proto = ''udp'' then UDP else TCP)
             in Inr \<lparr>PolicyType = RANGE, Proto = service,
                     LowerPort = word_of_int lowerPortNum, UpperPort = word_of_int upperPortNum\<rparr>)
          else Inl (GoErr (''unknown service: '' @ proto))))"

definition parseSinglePort :: "string \<Rightarrow> string \<Rightarrow> Policy res" where
  "parseSinglePort port proto =
     (case atoi port of
        None \<Rightarrow> Inl (GoErr (''could not convert port defintion to number: '' @ port))
      | Some portNumber \<Rightarrow>
          if proto = ''any'' then
            Inr \<lparr>PolicyType = SINGLE, Proto = ANY, LowerPort = word_of_int portNumber, UpperPort = 0\<rparr>
          else if proto = ''tcp'' \<or> proto = ''udp'' then
            (let service = (if proto = ''udp'' then UDP else TCP)
             in Inr \<lparr>PolicyType = SINGLE, Proto = service,
                     LowerPort = word_of_int portNumber, UpperPort = 0\<rparr>)
          else Inl (GoErr (''unknown service: '' @ port @ ''/'' @ proto)))"

definition parseService :: "string \<Rightarrow> Policy res" where
  "parseService service =
     (let parts = split_on (CHR ''/'') service in
      if length parts = 1 then
        (if parts ! 0 = ''icmp'' then
           Inr \<lparr>PolicyType = SINGLE, Proto = ICMP, LowerPort = 0, UpperPort = 0\<rparr>
         else Inl (GoErr (''malformed port/service declaration: '' @ service)))
      else
        let portRange = split_on (CHR ''-'') (parts ! 0);
            proto = to_lower (parts ! 1)
        in if length portRange = 1 then parseSinglePort (parts ! 0) proto
           else parsePortRange (portRange ! 0) (portRange ! 1) proto)"

section \<open>Slices\<close>

record slice =
  sl_arr :: nat
  sl_len :: nat
  sl_cap :: nat

type_synonym pheap = "Policy list list"

record cacheEntry =
  dnsTime :: int
  addresses :: "ipnet list"

record Rule =
  Keys :: "Key list"
  NumPolicies :: nat
  Values :: "Policy list"

record wrule =
  wr_keys :: "Key list"
  wr_values :: slice

record pstate =
  globalCache :: "string \<rightharpoonup> Rule list"
  dnsCache :: "string \<rightharpoonup> cacheEntry"
  pheap :: pheap

record parse_env =
  pe_net :: net_env
  pe_now :: int
  pe_hash :: "string list \<Rightarrow> string list \<Rightarrow> string list \<Rightarrow> string"
  pe_grow :: "nat \<Rightarrow> nat \<Rightarrow> nat"

definition slice_content :: "pheap \<Rightarrow> slice \<Rightarrow> Policy list" where
  "slice_content h sl = take (sl_len sl) (h ! sl_arr sl)"

text \<open>The empty slice literal, and Go's \<open>append\<close>.\<close>

definition empty_slice :: "(pstate, slice) eff" where
  "empty_slice s = (Inr \<lparr>sl_arr = length (pheap s), sl_len = 0, sl_cap = 0\<rparr>,
                    s\<lparr>pheap := pheap s @ [[]]\<rparr>)"

definition append_slice :: "parse_env \<Rightarrow> slice \<Rightarrow> Policy list \<Rightarrow> (pstate, slice) eff" where
  "append_slice E sl xs s =
     (let h = pheap s; old = h ! sl_arr sl; n = sl_len sl + length xs in
      if n \<le> sl_cap sl then
        (Inr (sl\<lparr>sl_len := n\<rparr>),
         s\<lparr>pheap := h[sl_arr sl := take (sl_len sl) old @ xs @ drop n old]\<rparr>)
      else
        let c = max n (pe_grow E (sl_cap sl) n) in
        (Inr \<lparr>sl_arr = length h, sl_len = n, sl_cap = c\<rparr>,
         s\<lparr>pheap := h @ [take (sl_len sl) old @ xs @ replicate (c - n) zero_policy]\<rparr>))"

section \<open>Addresses and keys\<close>

definition parseAddress :: "parse_env \<Rightarrow> string \<Rightarrow> (pstate, ipnet list) eff" where
  "parseAddress E address s =
     (case ParseIP (pe_net E) address of
        Some ip \<Rightarrow> (Inr [\<lparr>net_ip = map_option V4 (to4 ip), net_ones = 32\<rparr>], s)
      | None \<Rightarrow>
     (case ParseCIDR (pe_net E) address of
        Some (_, cidr) \<Rightarrow> (Inr [cidr], s)
      | None \<Rightarrow>
          let cached = (case dnsCache s address of
                          Some entries \<Rightarrow> if pe_now E < dnsTime entries + 3 * 10 ^ 9
                                          then Some (addresses entries) else None
                        | None \<Rightarrow> None)
          in case cached of
               Some as \<Rightarrow> (Inr as, s)
             | None \<Rightarrow>
          (case lookup_ip (pe_net E) address of
             Inl _ \<Rightarrow> (Inl (GoErr (''unable to resolve address from: '' @ address)), s)
           | Inr ips \<Rightarrow>
               if ips = [] then (Inl (GoErr (''no addresses for '' @ address)), s)
               else
                 let res = map (\<lambda>a. \<lparr>net_ip = Some (V4 a), net_ones = 32\<rparr>) (List.map_filter to4 ips)
                 in if res = [] then
                      (Inl (GoErr (''no addresses for domain '' @ address @
                         '' were added, potentially because they were all ipv6 which is unsupported'')), s)
                    else (Inr res,
                          s\<lparr>dnsCache := (dnsCache s)(address \<mapsto> \<lparr>dnsTime = pe_now E, addresses = res\<rparr>)\<rparr>))))"

text \<open>Indexing the bytes of an address that has no four-byte form panics.\<close>

definition key_of_net :: "ipnet \<Rightarrow> Key res" where
  "key_of_net n =
     (case Option.bind (net_ip n) to4 of
        Some a \<Rightarrow> Inr \<lparr>Prefixlen = word_of_nat (net_ones n), KeyIP = a\<rparr>
      | None \<Rightarrow> Inl (GoPanic ''index out of range''))"

definition parseKeys :: "parse_env \<Rightarrow> string \<Rightarrow> (pstate, Key list) eff" where
  "parseKeys E address = ebind (parseAddress E address) (\<lambda>nets. lift (rmap key_of_net nets))"

section \<open>One rule\<close>

fun parse_services :: "parse_env \<Rightarrow> u16 \<Rightarrow> slice \<Rightarrow> string list \<Rightarrow> (pstate, slice) eff" where
  "parse_services E t sl [] = ret sl"
| "parse_services E t sl (f # fs) =
     ebind (lift (parseService f)) (\<lambda>p.
     ebind (append_slice E sl [p\<lparr>PolicyType := t OR PolicyType p\<rparr>]) (\<lambda>sl'.
     parse_services E t sl' fs))"

definition parseRule :: "parse_env \<Rightarrow> u16 \<Rightarrow> string \<Rightarrow> (pstate, wrule) eff" where
  "parseRule E restrictionType rule =
     (let ruleParts = str_fields rule in
      if length ruleParts < 1 then raise ''could not split correct number of rules''
      else
        ebind (wrap_err (\<lambda>e. ''could not parse keys from address '' @ ruleParts ! 0 @ '' err: '' @ e)
                 (parseKeys E (ruleParts ! 0))) (\<lambda>keys.
        ebind empty_slice (\<lambda>sl.
        ebind (if length ruleParts = 1
               then append_slice E sl [\<lparr>PolicyType = restrictionType OR SINGLE, Proto = ANY,
                                        LowerPort = ANY, UpperPort = 0\<rparr>]
               else parse_services E restrictionType sl (tl ruleParts)) (\<lambda>sl'.
        ret \<lparr>wr_keys = keys, wr_values = sl'\<rparr>))))"

section \<open>All rules\<close>

type_synonym acc = "wrule list \<times> (string \<rightharpoonup> nat) \<times> error list"

text \<open>
  The inner loop over the keys of one rule: policies for a key seen before are appended to the
  rule that introduced it, otherwise the rule itself, with all its keys, becomes a new result.
\<close>

fun merge_keys :: "parse_env \<Rightarrow> wrule \<Rightarrow> Key list \<Rightarrow> wrule list \<times> (string \<rightharpoonup> nat) \<Rightarrow>
    (pstate, wrule list \<times> (string \<rightharpoonup> nat)) eff" where
  "merge_keys E r [] rc = ret rc"
| "merge_keys E r (k # ks) (result, cache) =
     (case cache (Key_String k) of
        Some index \<Rightarrow> (\<lambda>s.
          ebind (append_slice E (wr_values (result ! index)) (slice_content (pheap s) (wr_values r)))
            (\<lambda>sl. merge_keys E r ks (result[index := (result ! index)\<lparr>wr_values := sl\<rparr>], cache)) s)
      | None \<Rightarrow> merge_keys E r ks (result @ [r], cache(Key_String k \<mapsto> length result)))"

fun add_rules :: "parse_env \<Rightarrow> u16 \<Rightarrow> string list \<Rightarrow> acc \<Rightarrow> (pstate, acc) eff" where
  "add_rules E t [] acc = ret acc"
| "add_rules E t (rule # rules) (result, cache, errs) =
     ebind (attempt (parseRule E t rule)) (\<lambda>pr. case pr of
        Inl e \<Rightarrow> add_rules E t rules (result, cache, errs @ [e])
      | Inr r \<Rightarrow> ebind (merge_keys E r (wr_keys r) (result, cache)) (\<lambda>(result', cache').
                  add_rules E t rules (result', cache', errs)))"

definition finish_rule :: "pheap \<Rightarrow> wrule \<Rightarrow> error + Rule" where
  "finish_rule h r =
     (if sl_len (wr_values r) > MAX_POLICIES
      then Inl ''number of policies defined was greather than max''
      else Inr \<lparr>Keys = wr_keys r, NumPolicies = sl_len (wr_values r),
                Values = slice_content h (wr_values r) @
                         replicate (MAX_POLICIES - sl_len (wr_values r)) zero_policy\<rparr>)"

text \<open>
  The results and the collected errors. The arguments are sorted in place before anything else,
  so the rules are read in lexicographic order.
\<close>

definition ParseRules :: "parse_env \<Rightarrow> string list \<Rightarrow> string list \<Rightarrow> string list \<Rightarrow>
    (pstate, Rule list \<times> error list) eff" where
  "ParseRules E mfa public deny s =
     (let mfa = sort mfa; public = sort public; deny = sort deny;
          parseKey = pe_hash E mfa public deny
      in case globalCache s parseKey of
           Some entry \<Rightarrow> (Inr (entry, []), s)
         | None \<Rightarrow>
             ebind (add_rules E 0 mfa ([], Map.empty, [])) (\<lambda>acc.
             ebind (add_rules E PUBLIC public acc) (\<lambda>acc.
             ebind (add_rules E DENY deny acc) (\<lambda>(result, _, errs) s.
               case rmap (finish_rule (pheap s)) result of
                 Inl e \<Rightarrow> (Inr ([], errs @ [e]), s)
               | Inr rules \<Rightarrow>
                   if errs = []
                   then (Inr (rules, []), s\<lparr>globalCache := (globalCache s)(parseKey \<mapsto> rules)\<rparr>)
                   else (Inr (rules, errs), s)))) s)"

definition ValidateRules :: "parse_env \<Rightarrow> string list \<Rightarrow> string list \<Rightarrow> string list \<Rightarrow> (pstate, unit) eff" where
  "ValidateRules E mfa public deny =
     ebind (ParseRules E mfa public deny) (\<lambda>(_, errs).
       if errs = [] then ret ()
       else raise (concat (map (\<lambda>e. e @ [CHR 0x0A]) errs)))"

text \<open>The deduplicated route texts, kept in order of first appearance.\<close>

fun acls_to_routes :: "parse_env \<Rightarrow> string list \<Rightarrow> string list \<Rightarrow> (pstate, string list) eff" where
  "acls_to_routes E [] routes = ret routes"
| "acls_to_routes E (rule # rules) routes =
     (let ruleParts = str_fields rule in
      if length ruleParts < 1 then raise ''could not split correct number of rules''
      else
        ebind (wrap_err (\<lambda>e. ''could not parse address '' @ ruleParts ! 0 @ '' err: '' @ e)
                 (parseKeys E (ruleParts ! 0))) (\<lambda>keys.
        acls_to_routes E rules
          (fold (\<lambda>k rs. if Key_String k \<in> set rs then rs else rs @ [Key_String k]) keys routes)))"

definition AclsToRoutes :: "parse_env \<Rightarrow> string list \<Rightarrow> (pstate, string list) eff" where
  "AclsToRoutes E rules = acls_to_routes E rules []"

end
