(* ===== verification/ParserSpec.thy ===== *)
theory ParserSpec
  imports Parser
begin

text \<open>
  A reference definition of the rule parser for rules whose address is written out (an IPv4
  address or network, not a name): each rule is one key with its policies, and the policies of a
  key are those of all rules for it, in order. The parser's heap of shared arrays implements it:
  \<open>rules_inv\<close> says that every result owns its array, and each loop keeps it.
\<close>

section \<open>The reference\<close>

definition literal_key :: "net_env \<Rightarrow> string \<Rightarrow> Key option" where
  "literal_key N a = (case ParseIP N a of
      Some ip \<Rightarrow> map_option (\<lambda>i. \<lparr>Prefixlen = 32, KeyIP = i\<rparr>) (to4 ip)
    | None \<Rightarrow> (case ParseCIDR N a of
         Some (_, n) \<Rightarrow> (case key_of_net n of Inr k \<Rightarrow> Some k | Inl _ \<Rightarrow> None)
       | None \<Rightarrow> None))"

definition service_policy :: "u16 \<Rightarrow> string \<Rightarrow> Policy res" where
  "service_policy t f = rbind (parseService f) (\<lambda>p. Inr (p\<lparr>PolicyType := t OR PolicyType p\<rparr>))"

definition rule_policies :: "u16 \<Rightarrow> string list \<Rightarrow> Policy list res" where
  "rule_policies t services =
     (if services = [] then Inr [\<lparr>PolicyType = t OR SINGLE, Proto = ANY, LowerPort = ANY, UpperPort = 0\<rparr>]
      else rmap (service_policy t) services)"

definition parse_literal :: "net_env \<Rightarrow> u16 \<Rightarrow> string \<Rightarrow> (Key \<times> Policy list) option" where
  "parse_literal N t rule = (case str_fields rule of
      [] \<Rightarrow> None
    | a # services \<Rightarrow> (case (literal_key N a, rule_policies t services) of
         (Some k, Inr ps) \<Rightarrow> Some (k, ps)
       | _ \<Rightarrow> None))"

definition merge_rule :: "Key \<times> Policy list \<Rightarrow> (Key \<times> Policy list) list \<Rightarrow> (Key \<times> Policy list) list" where
  "merge_rule kp acc =
     (if fst kp \<in> fst ` set acc
      then map (\<lambda>(l, qs). if l = fst kp then (l, qs @ snd kp) else (l, qs)) acc
      else acc @ [kp])"

definition merge_all :: "(Key \<times> Policy list) list \<Rightarrow> (Key \<times> Policy list) list \<Rightarrow> (Key \<times> Policy list) list" where
  "merge_all rs acc = fold merge_rule rs acc"

definition policies_for :: "Key \<Rightarrow> (Key \<times> Policy list) list \<Rightarrow> Policy list" where
  "policies_for k rs = concat (map snd (filter (\<lambda>r. fst r = k) rs))"

lemma map_fst_merge_rule:
  "map fst (merge_rule kp acc) = (if fst kp \<in> fst ` set acc then map fst acc else map fst acc @ [fst kp])"
  by (auto simp: merge_rule_def)

lemma merge_rule_distinct: "distinct (map fst acc) \<Longrightarrow> distinct (map fst (merge_rule kp acc))"
  by (auto simp: map_fst_merge_rule)

lemma merge_all_distinct: "distinct (map fst acc) \<Longrightarrow> distinct (map fst (merge_all rs acc))"
  by (induction rs arbitrary: acc) (simp_all add: merge_all_def merge_rule_distinct)

lemma map_of_appended:
  "map_of (map (\<lambda>(l, qs). if l = a then (l, qs @ ps) else (l, qs)) acc) k =
     (if k = a then map_option (\<lambda>qs. qs @ ps) (map_of acc k) else map_of acc k)"
  by (induction acc) auto

lemma map_of_merge_rule:
  "map_of (merge_rule kp acc) k =
     (if k = fst kp then Some ((case map_of acc k of None \<Rightarrow> [] | Some qs \<Rightarrow> qs) @ snd kp)
      else map_of acc k)"
proof (cases "fst kp \<in> fst ` set acc")
  case True
  then obtain qs where "map_of acc (fst kp) = Some qs"
    by (metis domD dom_map_of_conv_image_fst)
  with True show ?thesis by (simp add: merge_rule_def map_of_appended)
next
  case False
  then have "map_of acc (fst kp) = None" by (simp add: map_of_eq_None_iff)
  with False show ?thesis by (cases kp) (auto simp: merge_rule_def map_add_def split: option.splits)
qed

lemma policies_for_Nil [simp]: "policies_for k [] = []"
  by (simp add: policies_for_def)

lemma policies_for_Cons [simp]:
  "policies_for k (r # rs) = (if fst r = k then snd r else []) @ policies_for k rs"
  by (simp add: policies_for_def)

lemma policies_for_notin: "k \<notin> fst ` set rs \<Longrightarrow> policies_for k rs = []"
  by (induction rs) auto

lemma map_of_merge_all:
  "map_of (merge_all rs acc) k =
     (if k \<in> fst ` set rs
      then Some ((case map_of acc k of None \<Rightarrow> [] | Some qs \<Rightarrow> qs) @ policies_for k rs)
      else map_of acc k)"
proof (induction rs arbitrary: acc)
  case (Cons r rs)
  have "merge_all (r # rs) acc = merge_all rs (merge_rule r acc)" by (simp add: merge_all_def)
  then show ?case
    by (auto simp: Cons.IH map_of_merge_rule policies_for_notin split: option.splits)
qed (simp add: merge_all_def)

section \<open>Slices and their frame\<close>

definition slice_ok :: "pheap \<Rightarrow> slice \<Rightarrow> bool" where
  "slice_ok h sl \<longleftrightarrow> sl_arr sl < length h \<and> sl_len sl \<le> sl_cap sl \<and> length (h ! sl_arr sl) = sl_cap sl"

definition heap_frame :: "nat set \<Rightarrow> pheap \<Rightarrow> pheap \<Rightarrow> bool" where
  "heap_frame A h h' \<longleftrightarrow> length h \<le> length h' \<and> (\<forall>i < length h. i \<notin> A \<longrightarrow> h' ! i = h ! i)"

lemma heap_frame_refl [simp]: "heap_frame A h h"
  by (simp add: heap_frame_def)

lemma heap_frame_trans:
  "heap_frame A h h' \<Longrightarrow> heap_frame B h' h'' \<Longrightarrow> (\<forall>i \<in> B. i < length h \<longrightarrow> i \<in> A) \<Longrightarrow> heap_frame A h h''"
  by (fastforce simp: heap_frame_def)

lemma slice_ok_frame:
  "slice_ok h sl \<Longrightarrow> heap_frame A h h' \<Longrightarrow> sl_arr sl \<notin> A \<Longrightarrow>
     slice_ok h' sl \<and> slice_content h' sl = slice_content h sl"
  by (auto simp: slice_ok_def heap_frame_def slice_content_def)

lemma slice_content_frame0: "slice_ok h sl \<Longrightarrow> heap_frame {} h h' \<Longrightarrow> slice_content h' sl = slice_content h sl"
  using slice_ok_frame [of h sl "{}" h'] by simp

lemma slice_ok_frame0: "slice_ok h sl \<Longrightarrow> heap_frame {} h h' \<Longrightarrow> slice_ok h' sl"
  using slice_ok_frame [of h sl "{}" h'] by simp

lemma length_slice_content: "slice_ok h sl \<Longrightarrow> length (slice_content h sl) = sl_len sl"
  by (auto simp: slice_ok_def slice_content_def)

text \<open>What a step leaves alone: the caches, and every array it does not own.\<close>

definition keeps :: "pstate \<Rightarrow> pstate \<Rightarrow> bool" where
  "keeps s s' \<longleftrightarrow> globalCache s' = globalCache s \<and> dnsCache s' = dnsCache s"

definition grows :: "pstate \<Rightarrow> pstate \<Rightarrow> nat set \<Rightarrow> bool" where
  "grows s s' A \<longleftrightarrow> keeps s s' \<and> heap_frame A (pheap s) (pheap s')"

lemma keeps_refl [simp]: "keeps s s"
  by (simp add: keeps_def)

lemma keeps_trans: "keeps s s' \<Longrightarrow> keeps s' s'' \<Longrightarrow> keeps s s''"
  by (simp add: keeps_def)

lemma grows_trans:
  "grows s s' A \<Longrightarrow> grows s' s'' B \<Longrightarrow> (\<forall>i \<in> B. i < length (pheap s) \<longrightarrow> i \<in> A) \<Longrightarrow> grows s s'' A"
  unfolding grows_def by (blast intro: heap_frame_trans keeps_trans)

lemma append_slice_spec:
  assumes "slice_ok (pheap s) sl"
  obtains sl' s' where "append_slice E sl xs s = (Inr sl', s')"
    and "slice_ok (pheap s') sl'"
    and "slice_content (pheap s') sl' = slice_content (pheap s) sl @ xs"
    and "grows s s' {sl_arr sl}"
    and "sl_arr sl' = sl_arr sl \<or> sl_arr sl' = length (pheap s)"
proof (cases "sl_len sl + length xs \<le> sl_cap sl")
  case True
  then show ?thesis using assms
    by (intro that [of "projr (fst (append_slice E sl xs s))" "snd (append_slice E sl xs s)"])
       (auto simp: append_slice_def Let_def slice_ok_def slice_content_def heap_frame_def grows_def keeps_def)
next
  case False
  then show ?thesis using assms
    by (intro that [of "projr (fst (append_slice E sl xs s))" "snd (append_slice E sl xs s)"])
       (auto simp: append_slice_def Let_def slice_ok_def slice_content_def heap_frame_def grows_def keeps_def nth_append)
qed

section \<open>Parsing one rule\<close>

lemma parseKeys_literal:
  assumes "literal_key (pe_net E) a = Some k"
  shows "parseKeys E a s = (Inr [k], s)"
proof (cases "ParseIP (pe_net E) a")
  case None
  with assms obtain ip n where "ParseCIDR (pe_net E) a = Some (ip, n)" and "key_of_net n = Inr k"
    by (auto simp: literal_key_def split: option.splits sum.splits)
  with None show ?thesis by (simp add: parseKeys_def parseAddress_def ebind_def)
next
  case (Some ip)
  with assms show ?thesis
    by (auto simp: literal_key_def parseKeys_def parseAddress_def ebind_def key_of_net_def)
qed

lemma grows_refl [simp]: "grows s s A"
  by (simp add: grows_def)

lemma grows_length: "grows s s' A \<Longrightarrow> length (pheap s) \<le> length (pheap s')"
  by (simp add: grows_def heap_frame_def)

lemma parse_services_spec:
  assumes "slice_ok (pheap s) sl" and "rmap (service_policy t) fs = Inr ps"
  shows "\<exists>sl' s'. parse_services E t sl fs s = (Inr sl', s') \<and> grows s s' {sl_arr sl} \<and>
      slice_ok (pheap s') sl' \<and> slice_content (pheap s') sl' = slice_content (pheap s) sl @ ps \<and>
      (sl_arr sl' = sl_arr sl \<or> sl_arr sl' \<ge> length (pheap s))"
  using assms
proof (induction fs arbitrary: sl s ps)
  case Nil
  then show ?case by simp
next
  case (Cons f fs)
  from Cons.prems(2) obtain p qs where p: "parseService f = Inr p"
    and qs: "rmap (service_policy t) fs = Inr qs"
    and ps: "ps = p\<lparr>PolicyType := t OR PolicyType p\<rparr> # qs"
    by (auto simp: service_policy_def [of t f])
  obtain sl1 s1 where a: "append_slice E sl [p\<lparr>PolicyType := t OR PolicyType p\<rparr>] s = (Inr sl1, s1)"
    and g1: "grows s s1 {sl_arr sl}" and ok1: "slice_ok (pheap s1) sl1"
    and c1: "slice_content (pheap s1) sl1 = slice_content (pheap s) sl @ [p\<lparr>PolicyType := t OR PolicyType p\<rparr>]"
    and arr: "sl_arr sl1 = sl_arr sl \<or> sl_arr sl1 = length (pheap s)"
    using append_slice_spec [OF Cons.prems(1)] by metis
  from Cons.IH [OF ok1 qs] obtain sl2 s2 where r: "parse_services E t sl1 fs s1 = (Inr sl2, s2)"
    and g2: "grows s1 s2 {sl_arr sl1}" and ok2: "slice_ok (pheap s2) sl2"
    and c2: "slice_content (pheap s2) sl2 = slice_content (pheap s1) sl1 @ qs"
    and arr2: "sl_arr sl2 = sl_arr sl1 \<or> sl_arr sl2 \<ge> length (pheap s1)" by blast
  have "grows s s2 {sl_arr sl}" using g1 g2 arr by (auto intro: grows_trans)
  moreover have "sl_arr sl2 = sl_arr sl \<or> sl_arr sl2 \<ge> length (pheap s)"
    using arr arr2 grows_length [OF g1] by auto
  ultimately show ?case
    using a r c1 c2 ok2 by (auto simp: p ps ebind_def)
qed

lemma empty_slice_spec:
  "empty_slice s = (Inr sl, s') \<Longrightarrow>
     grows s s' {} \<and> slice_ok (pheap s') sl \<and> slice_content (pheap s') sl = [] \<and> sl_arr sl = length (pheap s)"
  by (auto simp: empty_slice_def grows_def keeps_def heap_frame_def slice_ok_def slice_content_def nth_append)

lemma parseRule_literal:
  assumes "parse_literal (pe_net E) t rule = Some (k, ps)"
  shows "\<exists>r s'. parseRule E t rule s = (Inr r, s') \<and> grows s s' {} \<and> wr_keys r = [k] \<and>
      slice_ok (pheap s') (wr_values r) \<and> slice_content (pheap s') (wr_values r) = ps \<and>
      sl_arr (wr_values r) \<ge> length (pheap s)"
proof -
  from assms obtain a services where parts: "str_fields rule = a # services"
    and k: "literal_key (pe_net E) a = Some k" and ps: "rule_policies t services = Inr ps"
    by (auto simp: parse_literal_def split: list.splits option.splits sum.splits)
  obtain sl s1 where e: "empty_slice s = (Inr sl, s1)" by (simp add: empty_slice_def)
  note e1 = empty_slice_spec [OF e]
  let ?body = "if length (str_fields rule) = 1
      then append_slice E sl [\<lparr>PolicyType = t OR SINGLE, Proto = ANY, LowerPort = ANY, UpperPort = 0\<rparr>]
      else parse_services E t sl (tl (str_fields rule))"
  have "\<exists>sl' s'. ?body s1 = (Inr sl', s') \<and> grows s1 s' {sl_arr sl} \<and> slice_ok (pheap s') sl' \<and>
      slice_content (pheap s') sl' = ps \<and> (sl_arr sl' = sl_arr sl \<or> sl_arr sl' \<ge> length (pheap s1))"
  proof (cases "services = []")
    case True
    obtain sl' s' where "append_slice E sl ps s1 = (Inr sl', s')"
      "slice_ok (pheap s') sl'" "slice_content (pheap s') sl' = slice_content (pheap s1) sl @ ps"
      "grows s1 s' {sl_arr sl}" "sl_arr sl' = sl_arr sl \<or> sl_arr sl' = length (pheap s1)"
      using append_slice_spec [of s1 sl E ps] e1 by metis
    with True ps parts e1 show ?thesis
      by (intro exI [of _ sl'] exI [of _ s']) (auto simp: rule_policies_def)
  next
    case False
    with ps have "rmap (service_policy t) services = Inr ps" by (simp add: rule_policies_def)
    from parse_services_spec [OF _ this, of s1 sl E] e1 False parts show ?thesis by auto
  qed
  then obtain sl' s' where b: "?body s1 = (Inr sl', s')" "grows s1 s' {sl_arr sl}"
    "slice_ok (pheap s') sl'" "slice_content (pheap s') sl' = ps"
    "sl_arr sl' = sl_arr sl \<or> sl_arr sl' \<ge> length (pheap s1)" by blast
  have "grows s s' {}" using e1 b(2) by (auto intro: grows_trans)
  moreover have "sl_arr sl' \<ge> length (pheap s)" using b(5) e1 grows_length [of s s1 "{}"] by auto
  moreover have "parseRule E t rule s = (Inr \<lparr>wr_keys = [k], wr_values = sl'\<rparr>, s')"
    using b(1) by (cases "services = []") (simp_all add: parseRule_def parts ebind_def wrap_err_def
        on_error_def parseKeys_literal [OF k] e)
  ultimately show ?thesis using b by auto
qed

section \<open>The accumulated results\<close>

text \<open>
  The working state represents an accumulator of the reference: same keys in the same order, the
  cache is the index of each key, every result owns its array.
\<close>

definition rules_inv :: "pheap \<Rightarrow> wrule list \<Rightarrow> (string \<rightharpoonup> nat) \<Rightarrow> (Key \<times> Policy list) list \<Rightarrow> bool" where
  "rules_inv h result cache acc \<longleftrightarrow>
     length result = length acc \<and> distinct (map fst acc) \<and>
     (\<forall>i < length acc. wr_keys (result ! i) = [fst (acc ! i)] \<and>
        slice_ok h (wr_values (result ! i)) \<and>
        slice_content h (wr_values (result ! i)) = snd (acc ! i)) \<and>
     (\<forall>i < length acc. \<forall>j < length acc. i \<noteq> j \<longrightarrow>
        sl_arr (wr_values (result ! i)) \<noteq> sl_arr (wr_values (result ! j))) \<and>
     (\<forall>k i. cache (Key_String k) = Some i \<longleftrightarrow> i < length acc \<and> fst (acc ! i) = k)"

lemma rules_inv_empty [simp]: "rules_inv h [] Map.empty []"
  by (simp add: rules_inv_def)

lemma rules_inv_frame:
  assumes "rules_inv h result cache acc" and fr: "heap_frame {} h h'"
  shows "rules_inv h' result cache acc"
proof -
  have "wr_keys (result ! i) = [fst (acc ! i)] \<and> slice_ok h' (wr_values (result ! i)) \<and>
      slice_content h' (wr_values (result ! i)) = snd (acc ! i)" if "i < length acc" for i
  proof -
    have ok: "slice_ok h (wr_values (result ! i))"
      and r: "wr_keys (result ! i) = [fst (acc ! i)]" "slice_content h (wr_values (result ! i)) = snd (acc ! i)"
      using assms(1) that unfolding rules_inv_def by blast+
    with slice_ok_frame0 [OF ok fr] slice_content_frame0 [OF ok fr] show ?thesis by simp
  qed
  with assms(1) show ?thesis unfolding rules_inv_def by blast
qed

lemma rules_inv_grows: "rules_inv (pheap s) result cache acc \<Longrightarrow> grows s s' {} \<Longrightarrow> rules_inv (pheap s') result cache acc"
  unfolding grows_def by (blast intro: rules_inv_frame)

lemma rules_inv_cache:
  "rules_inv h result cache acc \<Longrightarrow> cache (Key_String k) = Some i \<longleftrightarrow> i < length acc \<and> fst (acc ! i) = k"
  by (simp add: rules_inv_def)

lemma rules_inv_None:
  assumes "rules_inv h result cache acc" and "cache (Key_String k) = None"
  shows "k \<notin> fst ` set acc"
proof
  assume "k \<in> fst ` set acc"
  then obtain i where "i < length acc" "fst (acc ! i) = k"
    by (auto simp: in_set_conv_nth)
  then have "cache (Key_String k) = Some i" using rules_inv_cache [OF assms(1)] by simp
  with assms(2) show False by simp
qed

lemma merge_rule_nth:
  assumes "distinct (map fst acc)" and "i < length acc" and "fst (acc ! i) = fst kp"
  shows "merge_rule kp acc = acc[i := (fst kp, snd (acc ! i) @ snd kp)]"
proof (rule nth_equalityI)
  have mem: "fst kp \<in> fst ` set acc" using assms by (metis image_eqI nth_mem)
  then show "length (merge_rule kp acc) = length (acc[i := (fst kp, snd (acc ! i) @ snd kp)])"
    by (simp add: merge_rule_def)
  fix j assume "j < length (merge_rule kp acc)"
  with mem have j: "j < length acc" by (simp add: merge_rule_def)
  have "fst (acc ! j) = fst kp \<longleftrightarrow> j = i"
    using assms j by (metis distinct_conv_nth length_map nth_map)
  then show "merge_rule kp acc ! j = acc[i := (fst kp, snd (acc ! i) @ snd kp)] ! j"
    using j mem by (auto simp: merge_rule_def nth_list_update split: prod.splits)
qed

lemma merge_step:
  assumes inv: "rules_inv (pheap s) result cache acc"
    and r: "wr_keys r = [k]" "slice_ok (pheap s) (wr_values r)" "slice_content (pheap s) (wr_values r) = ps"
    and fresh: "\<forall>i < length acc. sl_arr (wr_values (result ! i)) \<noteq> sl_arr (wr_values r)"
  shows "\<exists>result' cache' s'. merge_keys E r (wr_keys r) (result, cache) s = (Inr (result', cache'), s') \<and>
      keeps s s' \<and> rules_inv (pheap s') result' cache' (merge_rule (k, ps) acc)"
proof (cases "cache (Key_String k)")
  case None
  then have new: "k \<notin> fst ` set acc" using inv rules_inv_None by blast
  then have m: "merge_rule (k, ps) acc = acc @ [(k, ps)]" by (simp add: merge_rule_def)
  have len: "length result = length acc" using inv by (simp add: rules_inv_def)
  have nk: "\<forall>i < length acc. fst (acc ! i) \<noteq> k" using new by (metis image_eqI nth_mem)
  have "rules_inv (pheap s) (result @ [r]) (cache(Key_String k \<mapsto> length result)) (acc @ [(k, ps)])"
    unfolding rules_inv_def
  proof (intro conjI allI impI)
    show "distinct (map fst (acc @ [(k, ps)]))" using inv new by (simp add: rules_inv_def)
  next
    fix l i
    show "((cache(Key_String k \<mapsto> length result)) (Key_String l) = Some i) \<longleftrightarrow>
        (i < length (acc @ [(k, ps)]) \<and> fst ((acc @ [(k, ps)]) ! i) = l)"
    proof (cases "l = k")
      case True
      then show ?thesis using len nk by (auto simp: nth_append less_Suc_eq)
    next
      case False
      then have "(cache(Key_String k \<mapsto> length result)) (Key_String l) = cache (Key_String l)" by simp
      moreover have "cache (Key_String l) = Some i \<longleftrightarrow> i < length acc \<and> fst (acc ! i) = l"
        using inv by (simp add: rules_inv_def)
      ultimately show ?thesis using False by (auto simp: nth_append less_Suc_eq)
    qed
  qed (use inv r fresh len in \<open>auto simp: rules_inv_def nth_append less_Suc_eq\<close>)
  with None r m show ?thesis by simp
next
  case (Some i)
  then have i: "i < length acc" "fst (acc ! i) = k" and len: "length result = length acc"
    and dist: "distinct (map fst acc)"
    using inv by (auto simp: rules_inv_def)
  let ?w = "result ! i"
  have wk: "wr_keys ?w = [k]" and ok: "slice_ok (pheap s) (wr_values ?w)"
    and ct: "slice_content (pheap s) (wr_values ?w) = snd (acc ! i)"
    using inv i by (auto simp: rules_inv_def)
  obtain sl s' where a: "append_slice E (wr_values ?w) ps s = (Inr sl, s')"
    and s': "grows s s' {sl_arr (wr_values ?w)}" and ok': "slice_ok (pheap s') sl"
    and c': "slice_content (pheap s') sl = snd (acc ! i) @ ps"
    and arr: "sl_arr sl = sl_arr (wr_values ?w) \<or> sl_arr sl = length (pheap s)"
    using append_slice_spec [OF ok, of E ps] ct by metis
  from s' have fr: "heap_frame {sl_arr (wr_values ?w)} (pheap s) (pheap s')" and ks: "keeps s s'"
    by (simp_all add: grows_def)
  have m: "merge_rule (k, ps) acc = acc[i := (k, snd (acc ! i) @ ps)]"
    using merge_rule_nth [OF dist i(1), of "(k, ps)"] i(2) by simp
  have others: "slice_ok (pheap s') (wr_values (result ! j)) \<and>
      slice_content (pheap s') (wr_values (result ! j)) = snd (acc ! j) \<and> sl_arr sl \<noteq> sl_arr (wr_values (result ! j))"
    if "j < length acc" "j \<noteq> i" for j
  proof -
    have j: "slice_ok (pheap s) (wr_values (result ! j))"
      "slice_content (pheap s) (wr_values (result ! j)) = snd (acc ! j)"
      "sl_arr (wr_values (result ! j)) \<noteq> sl_arr (wr_values ?w)"
      using inv that i by (auto simp: rules_inv_def)
    with slice_ok_frame [OF j(1) fr] arr show ?thesis by (auto simp: slice_ok_def)
  qed
  have "rules_inv (pheap s') (result[i := ?w\<lparr>wr_values := sl\<rparr>]) cache (acc[i := (k, snd (acc ! i) @ ps)])"
    unfolding rules_inv_def
  proof (intro conjI allI impI)
    show "distinct (map fst (acc[i := (k, snd (acc ! i) @ ps)]))"
      using dist i by (simp add: map_update) (metis list_update_id nth_map)
  next
    fix l j
    show "(cache (Key_String l) = Some j) \<longleftrightarrow>
        (j < length (acc[i := (k, snd (acc ! i) @ ps)]) \<and> fst (acc[i := (k, snd (acc ! i) @ ps)] ! j) = l)"
      using inv i by (auto simp: rules_inv_def nth_list_update)
  next
    fix j j' assume "j < length (acc[i := (k, snd (acc ! i) @ ps)])" "j' < length (acc[i := (k, snd (acc ! i) @ ps)])" "j \<noteq> j'"
    then show "sl_arr (wr_values (result[i := ?w\<lparr>wr_values := sl\<rparr>] ! j)) \<noteq>
        sl_arr (wr_values (result[i := ?w\<lparr>wr_values := sl\<rparr>] ! j'))"
      using inv others [of j] others [of j'] len i by (auto simp: rules_inv_def nth_list_update)
  qed (use len i wk ok' c' others inv in \<open>auto simp: rules_inv_def nth_list_update\<close>)
  with Some a ks m r show ?thesis by (simp add: ebind_def)
qed

lemma add_rules_literal:
  assumes "rules_inv (pheap s) result cache acc"
    and "\<forall>rule \<in> set rules. parse_literal (pe_net E) t rule \<noteq> None"
  shows "\<exists>result' cache' s'. add_rules E t rules (result, cache, errs) s = (Inr (result', cache', errs), s') \<and>
      keeps s s' \<and>
      rules_inv (pheap s') result' cache' (merge_all (map (\<lambda>r. the (parse_literal (pe_net E) t r)) rules) acc)"
  using assms
proof (induction rules arbitrary: result cache acc s)
  case Nil
  then show ?case by (simp add: merge_all_def)
next
  case (Cons rule rules)
  then obtain k ps where lit: "parse_literal (pe_net E) t rule = Some (k, ps)" by auto
  obtain r s1 where pr: "parseRule E t rule s = (Inr r, s1)" and g: "grows s s1 {}"
    and r: "wr_keys r = [k]" "slice_ok (pheap s1) (wr_values r)" "slice_content (pheap s1) (wr_values r) = ps"
    and arr: "sl_arr (wr_values r) \<ge> length (pheap s)"
    using parseRule_literal [OF lit] by blast
  have inv1: "rules_inv (pheap s1) result cache acc"
    using Cons.prems(1) g by (rule rules_inv_grows)
  have "\<forall>i < length acc. sl_arr (wr_values (result ! i)) \<noteq> sl_arr (wr_values r)"
    using Cons.prems(1) arr by (fastforce simp: rules_inv_def slice_ok_def)
  from merge_step [OF inv1 r this] obtain result2 cache2 s2 where
    m: "merge_keys E r (wr_keys r) (result, cache) s1 = (Inr (result2, cache2), s2)"
    and s2: "keeps s1 s2"
    and inv2: "rules_inv (pheap s2) result2 cache2 (merge_rule (k, ps) acc)" by blast
  from Cons.IH [OF inv2] Cons.prems(2) obtain result3 cache3 s3 where
    a: "add_rules E t rules (result2, cache2, errs) s2 = (Inr (result3, cache3, errs), s3)"
    and s3: "keeps s2 s3"
    and inv3: "rules_inv (pheap s3) result3 cache3
       (merge_all (map (\<lambda>r. the (parse_literal (pe_net E) t r)) rules) (merge_rule (k, ps) acc))"
    by auto
  have s3': "keeps s s3"
    using g s2 s3 unfolding grows_def by (blast intro: keeps_trans)
  have "add_rules E t (rule # rules) (result, cache, errs) s = (Inr (result3, cache3, errs), s3)"
    using pr m a by (simp add: ebind_def attempt_def)
  with s3' inv3 lit show ?case by (simp add: merge_all_def)
qed

section \<open>The whole parse\<close>

definition literals :: "net_env \<Rightarrow> u16 \<Rightarrow> string list \<Rightarrow> (Key \<times> Policy list) list" where
  "literals N t rules = map (\<lambda>r. the (parse_literal N t r)) rules"

definition all_literal :: "net_env \<Rightarrow> u16 \<Rightarrow> string list \<Rightarrow> bool" where
  "all_literal N t rules \<longleftrightarrow> (\<forall>r \<in> set rules. parse_literal N t r \<noteq> None)"

definition rule_list :: "net_env \<Rightarrow> string list \<Rightarrow> string list \<Rightarrow> string list \<Rightarrow> (Key \<times> Policy list) list" where
  "rule_list N mfa public deny =
     literals N 0 (sort mfa) @ literals N PUBLIC (sort public) @ literals N DENY (sort deny)"

definition rules_literal :: "net_env \<Rightarrow> string list \<Rightarrow> string list \<Rightarrow> string list \<Rightarrow> bool" where
  "rules_literal N mfa public deny \<longleftrightarrow>
     all_literal N 0 mfa \<and> all_literal N PUBLIC public \<and> all_literal N DENY deny"

definition pad_policies :: "Policy list \<Rightarrow> Policy list" where
  "pad_policies ps = ps @ replicate (MAX_POLICIES - length ps) zero_policy"

definition spec_rule :: "Key \<times> Policy list \<Rightarrow> Rule" where
  "spec_rule kp = \<lparr>Keys = [fst kp], NumPolicies = length (snd kp), Values = pad_policies (snd kp)\<rparr>"

definition spec_rules :: "net_env \<Rightarrow> string list \<Rightarrow> string list \<Rightarrow> string list \<Rightarrow> (Key \<times> Policy list) list" where
  "spec_rules N mfa public deny = merge_all (rule_list N mfa public deny) []"

lemma all_literal_sort [simp]: "all_literal N t (sort rules) = all_literal N t rules"
  by (simp add: all_literal_def)

lemma spec_rules_map_of:
  "map_of (spec_rules N mfa public deny) k =
     (if k \<in> fst ` set (rule_list N mfa public deny)
      then Some (policies_for k (rule_list N mfa public deny)) else None)"
  by (simp add: spec_rules_def map_of_merge_all)

lemma spec_rules_distinct: "distinct (map fst (spec_rules N mfa public deny))"
  by (simp add: spec_rules_def merge_all_distinct)

lemma spec_rules_mem:
  "(k, ps) \<in> set (spec_rules N mfa public deny) \<longleftrightarrow>
     k \<in> fst ` set (rule_list N mfa public deny) \<and> ps = policies_for k (rule_list N mfa public deny)"
  using map_of_eq_Some_iff [OF spec_rules_distinct [of N mfa public deny], of k ps] spec_rules_map_of
  by (metis option.distinct(1) option.inject)

text \<open>Finishing the accumulated results: every one within the limit, or the first that is not.\<close>

lemma finish_rules:
  assumes inv: "rules_inv h result cache acc"
  shows "rmap (finish_rule h) result =
     (if \<forall>kp \<in> set acc. length (snd kp) \<le> MAX_POLICIES then Inr (map spec_rule acc)
      else Inl ''number of policies defined was greather than max'')"
proof -
  have one: "finish_rule h (result ! i) =
      (if length (snd (acc ! i)) \<le> MAX_POLICIES then Inr (spec_rule (acc ! i))
       else Inl ''number of policies defined was greather than max'')" if "i < length acc" for i
  proof -
    have k: "wr_keys (result ! i) = [fst (acc ! i)]" and ok: "slice_ok h (wr_values (result ! i))"
      and c: "slice_content h (wr_values (result ! i)) = snd (acc ! i)"
      using inv that by (auto simp: rules_inv_def)
    have "sl_len (wr_values (result ! i)) = length (snd (acc ! i))"
      using length_slice_content [OF ok] c by simp
    with k c show ?thesis by (simp add: finish_rule_def spec_rule_def pad_policies_def)
  qed
  have len: "length result = length acc" using inv by (simp add: rules_inv_def)
  then have "map (finish_rule h) result = map (\<lambda>kp. if length (snd kp) \<le> MAX_POLICIES
      then Inr (spec_rule kp) else Inl ''number of policies defined was greather than max'') acc"
    using one by (intro nth_equalityI) auto
  moreover have "rmap (finish_rule h) result = rmap id (map (finish_rule h) result)" for result
    by (induction result) auto
  moreover have "rmap id (map (\<lambda>kp. if length (snd kp) \<le> MAX_POLICIES
        then Inr (spec_rule kp) else Inl ''number of policies defined was greather than max'') acc) =
      (if \<forall>kp \<in> set acc. length (snd kp) \<le> MAX_POLICIES then Inr (map spec_rule acc)
       else Inl ''number of policies defined was greather than max'')" for acc
    by (induction acc) (auto simp: rbind_eq_Inl)
  ultimately show ?thesis by simp
qed

text \<open>The three passes over literal rules, from an empty accumulator.\<close>

lemma parse_passes:
  assumes "rules_literal (pe_net E) mfa public deny"
  shows "\<exists>result cache s'. ebind (add_rules E 0 (sort mfa) ([], Map.empty, []))
        (\<lambda>acc. ebind (add_rules E PUBLIC (sort public) acc) (\<lambda>acc. add_rules E DENY (sort deny) acc)) s =
      (Inr (result, cache, []), s') \<and> keeps s s' \<and>
      rules_inv (pheap s') result cache (spec_rules (pe_net E) mfa public deny)"
proof -
  let ?N = "pe_net E"
  have lit: "\<forall>r \<in> set (sort mfa). parse_literal ?N 0 r \<noteq> None"
    "\<forall>r \<in> set (sort public). parse_literal ?N PUBLIC r \<noteq> None"
    "\<forall>r \<in> set (sort deny). parse_literal ?N DENY r \<noteq> None"
    using assms by (auto simp: rules_literal_def all_literal_def)
  obtain r1 c1 s1 where 1: "add_rules E 0 (sort mfa) ([], Map.empty, []) s = (Inr (r1, c1, []), s1)"
    "keeps s s1" "rules_inv (pheap s1) r1 c1 (merge_all (literals ?N 0 (sort mfa)) [])"
    using add_rules_literal [OF rules_inv_empty lit(1), where errs = "[]" and s = s] unfolding literals_def by blast
  obtain r2 c2 s2 where 2: "add_rules E PUBLIC (sort public) (r1, c1, []) s1 = (Inr (r2, c2, []), s2)"
    "keeps s1 s2"
    "rules_inv (pheap s2) r2 c2 (merge_all (literals ?N PUBLIC (sort public)) (merge_all (literals ?N 0 (sort mfa)) []))"
    using add_rules_literal [OF 1(3) lit(2), where errs = "[]"] unfolding literals_def by blast
  obtain r3 c3 s3 where 3: "add_rules E DENY (sort deny) (r2, c2, []) s2 = (Inr (r3, c3, []), s3)"
    "keeps s2 s3"
    "rules_inv (pheap s3) r3 c3 (merge_all (literals ?N DENY (sort deny))
       (merge_all (literals ?N PUBLIC (sort public)) (merge_all (literals ?N 0 (sort mfa)) [])))"
    using add_rules_literal [OF 2(3) lit(3), where errs = "[]"] unfolding literals_def by blast
  have "keeps s s3" using 1(2) 2(2) 3(2) by (blast intro: keeps_trans)
  with 1(1) 2(1) 3 show ?thesis
    by (simp add: ebind_def spec_rules_def rule_list_def merge_all_def)
qed

text \<open>What the parser answers on literal rules it has not cached.\<close>

lemma ParseRules_literal:
  assumes lit: "rules_literal (pe_net E) mfa public deny"
    and fresh: "globalCache s (pe_hash E (sort mfa) (sort public) (sort deny)) = None"
  shows "\<exists>s'. keeps s s' \<and> ParseRules E mfa public deny s =
     (if \<forall>kp \<in> set (spec_rules (pe_net E) mfa public deny). length (snd kp) \<le> MAX_POLICIES
      then (Inr (map spec_rule (spec_rules (pe_net E) mfa public deny), []),
        s'\<lparr>globalCache := (globalCache s)(pe_hash E (sort mfa) (sort public) (sort deny) \<mapsto>
           map spec_rule (spec_rules (pe_net E) mfa public deny))\<rparr>)
      else (Inr ([], [''number of policies defined was greather than max'']), s'))"
proof -
  obtain result cache s' where
    p: "ebind (add_rules E 0 (sort mfa) ([], Map.empty, []))
        (\<lambda>acc. ebind (add_rules E PUBLIC (sort public) acc) (\<lambda>acc. add_rules E DENY (sort deny) acc)) s =
      (Inr (result, cache, []), s')" and k: "keeps s s'"
    and inv: "rules_inv (pheap s') result cache (spec_rules (pe_net E) mfa public deny)"
    using parse_passes [OF lit] by blast
  from p obtain a1 t1 a2 t2 where
    steps: "add_rules E 0 (sort mfa) ([], Map.empty, []) s = (Inr a1, t1)"
    "add_rules E PUBLIC (sort public) a1 t1 = (Inr a2, t2)"
    "add_rules E DENY (sort deny) a2 t2 = (Inr (result, cache, []), s')"
    by (auto simp: ebind_eq_Inr)
  have "globalCache s' = globalCache s" using k by (simp add: keeps_def)
  with fresh k show ?thesis
    by (intro exI [of _ s'])
      (simp add: ParseRules_def Let_def ebind_def steps finish_rules [OF inv])
qed

text \<open>C5
  On rules whose addresses are written out, \<open>ParseRules\<close> returns, with no errors, one result per
  address: its only key, the policies of every rule for that address in the order of the sorted
  MFA, public and deny rules, and the padding to 128 entries; the result is cached under the
  digest of the rules, and names resolved earlier stay as they were.
\<close>

theorem ParseRules_correct:
  assumes "rules_literal (pe_net E) mfa public deny"
    and "globalCache s (pe_hash E (sort mfa) (sort public) (sort deny)) = None"
    and "\<forall>k \<in> fst ` set (rule_list (pe_net E) mfa public deny).
           length (policies_for k (rule_list (pe_net E) mfa public deny)) \<le> MAX_POLICIES"
  shows "\<exists>rules s'. ParseRules E mfa public deny s = (Inr (rules, []), s') \<and>
      dnsCache s' = dnsCache s \<and>
      globalCache s' = (globalCache s)(pe_hash E (sort mfa) (sort public) (sort deny) \<mapsto> rules) \<and>
      distinct (map Keys rules) \<and>
      set rules = {\<lparr>Keys = [k], NumPolicies = length ps, Values = pad_policies ps\<rparr> | k ps.
        k \<in> fst ` set (rule_list (pe_net E) mfa public deny) \<and>
        ps = policies_for k (rule_list (pe_net E) mfa public deny)}"
proof -
  let ?S = "spec_rules (pe_net E) mfa public deny"
  have bound: "\<forall>kp \<in> set ?S. length (snd kp) \<le> MAX_POLICIES"
    using assms(3) spec_rules_mem by fastforce
  obtain s' where "keeps s s'" and r: "ParseRules E mfa public deny s = (Inr (map spec_rule ?S, []),
      s'\<lparr>globalCache := (globalCache s)(pe_hash E (sort mfa) (sort public) (sort deny) \<mapsto> map spec_rule ?S)\<rparr>)"
    using ParseRules_literal [OF assms(1,2)] bound by auto
  moreover have "distinct (map Keys (map spec_rule ?S))"
  proof -
    have "map Keys (map spec_rule ?S) = map (\<lambda>k. [k]) (map fst ?S)" by (simp add: spec_rule_def)
    moreover have "distinct (map (\<lambda>k. [k]) (map fst ?S))"
      using spec_rules_distinct [of "pe_net E" mfa public deny] by (subst distinct_map) (simp add: inj_on_def)
    ultimately show ?thesis by (simp only:)
  qed
  moreover have "set (map spec_rule ?S) = {\<lparr>Keys = [k], NumPolicies = length ps, Values = pad_policies ps\<rparr> | k ps.
        k \<in> fst ` set (rule_list (pe_net E) mfa public deny) \<and>
        ps = policies_for k (rule_list (pe_net E) mfa public deny)}"
    unfolding spec_rules_mem [symmetric] by (force simp: spec_rule_def)
  ultimately show ?thesis by (auto simp: keeps_def)
qed


definition demo_env :: parse_env where
  "demo_env = \<lparr>pe_net = demo_net, pe_now = 0, pe_hash = (\<lambda>m p d. concat (m @ p @ d)), pe_grow = (\<lambda>c n. 2 * c)\<rparr>"

definition empty_pstate :: pstate where
  "empty_pstate = \<lparr>globalCache = Map.empty, dnsCache = Map.empty, pheap = []\<rparr>"

lemmas parse_eval =
  parse_literal_def literal_key_def rule_policies_def service_policy_def parseService_def
  parseSinglePort_def parsePortRange_def str_fields_def is_space_def ParseIP_def parse_ip4_def
  parse_octet_def all_digits_def is_digit_def nat_of_digits_def digit_val_def to_lower_def
  to_lower_char_def atoi_def policy_consts proto_consts

lemma demo_literal:
  "parse_literal demo_net 0 ''10.0.0.1 22/tcp'' = Some (\<lparr>Prefixlen = 32, KeyIP = IP4 10 0 0 1\<rparr>,
     [\<lparr>PolicyType = 16, Proto = 6, LowerPort = 22, UpperPort = 0\<rparr>])"
  "parse_literal demo_net DENY ''10.0.0.1 80-90/any'' = Some (\<lparr>Prefixlen = 32, KeyIP = IP4 10 0 0 1\<rparr>,
     [\<lparr>PolicyType = 40, Proto = 0, LowerPort = 80, UpperPort = 90\<rparr>])"
  by (simp_all add: parse_eval)

lemma demo_rule_list:
  "rules_literal demo_net [''10.0.0.1 22/tcp''] [] [''10.0.0.1 80-90/any'']"
  "rule_list demo_net [''10.0.0.1 22/tcp''] [] [''10.0.0.1 80-90/any''] =
     [(\<lparr>Prefixlen = 32, KeyIP = IP4 10 0 0 1\<rparr>, [\<lparr>PolicyType = 16, Proto = 6, LowerPort = 22, UpperPort = 0\<rparr>]),
      (\<lparr>Prefixlen = 32, KeyIP = IP4 10 0 0 1\<rparr>, [\<lparr>PolicyType = 40, Proto = 0, LowerPort = 80, UpperPort = 90\<rparr>])]"
  by (simp_all add: rules_literal_def all_literal_def rule_list_def literals_def demo_literal)

lemma demo_fields [simp]:
  "pe_net demo_env = demo_net" "globalCache empty_pstate k = None"
  by (simp_all add: demo_env_def empty_pstate_def)

theorem ParseRules_correct_witness:
  "\<exists>rules s'. ParseRules demo_env [''10.0.0.1 22/tcp''] [] [''10.0.0.1 80-90/any'']
      empty_pstate = (Inr (rules, []), s') \<and>
    set rules = {\<lparr>Keys = [\<lparr>Prefixlen = 32, KeyIP = IP4 10 0 0 1\<rparr>], NumPolicies = 2,
      Values = pad_policies [\<lparr>PolicyType = 16, Proto = 6, LowerPort = 22, UpperPort = 0\<rparr>,
                             \<lparr>PolicyType = 40, Proto = 0, LowerPort = 80, UpperPort = 90\<rparr>]\<rparr>}"
  using ParseRules_correct [of demo_env "[''10.0.0.1 22/tcp'']" "[]" "[''10.0.0.1 80-90/any'']" empty_pstate]
  by (auto simp: demo_rule_list MAX_POLICIES_def)

end
