(* ===== verification/ParserInv.thy ===== *)
theory ParserInv
  imports ParserSpec
begin

text \<open>
  What holds of the rule parser on every input, names and malformed rules included: the arrays it
  works on keep their sizes, so every result it returns or caches has the 128 entries the kernel
  table expects.
\<close>

definition same_lengths :: "pheap \<Rightarrow> pheap \<Rightarrow> bool" where
  "same_lengths h h' \<longleftrightarrow> length h \<le> length h' \<and> (\<forall>i < length h. length (h' ! i) = length (h ! i))"

definition stable :: "pstate \<Rightarrow> pstate \<Rightarrow> bool" where
  "stable s s' \<longleftrightarrow> same_lengths (pheap s) (pheap s') \<and> globalCache s' = globalCache s"

lemma stable_refl [simp]: "stable s s"
  by (simp add: stable_def same_lengths_def)

lemma stable_trans: "stable s s' \<Longrightarrow> stable s' s'' \<Longrightarrow> stable s s''"
  by (fastforce simp: stable_def same_lengths_def)

lemma slice_ok_stable: "slice_ok (pheap s) sl \<Longrightarrow> stable s s' \<Longrightarrow> slice_ok (pheap s') sl"
  by (auto simp: slice_ok_def stable_def same_lengths_def)

lemma append_slice_stable:
  assumes "slice_ok (pheap s) sl" and "append_slice E sl xs s = (r, s')"
  shows "stable s s' \<and> (\<exists>sl'. r = Inr sl' \<and> slice_ok (pheap s') sl')"
  using assms
  by (auto simp: append_slice_def Let_def slice_ok_def stable_def same_lengths_def nth_append nth_list_update
      split: if_splits)

lemma empty_slice_stable:
  "empty_slice s = (r, s') \<Longrightarrow> stable s s' \<and> (\<exists>sl'. r = Inr sl' \<and> slice_ok (pheap s') sl')"
  by (auto simp: empty_slice_def stable_def same_lengths_def slice_ok_def nth_append)

lemma parseKeys_stable: "stable s (snd (parseKeys E a s))"
  by (auto simp: parseKeys_def parseAddress_def ebind_def Let_def stable_def same_lengths_def
      split: option.splits sum.splits)

lemma parse_services_stable:
  assumes "slice_ok (pheap s) sl" and "parse_services E t sl fs s = (r, s')"
  shows "stable s s' \<and> (\<forall>sl'. r = Inr sl' \<longrightarrow> slice_ok (pheap s') sl')"
  using assms
proof (induction fs arbitrary: sl s)
  case (Cons f fs)
  show ?case
  proof (cases "parseService f")
    case (Inl e)
    with Cons.prems show ?thesis by (auto simp: ebind_def)
  next
    case (Inr p)
    obtain r1 s1 where a: "append_slice E sl [p\<lparr>PolicyType := t OR PolicyType p\<rparr>] s = (r1, s1)"
      by (cases "append_slice E sl [p\<lparr>PolicyType := t OR PolicyType p\<rparr>] s")
    then obtain sl1 where s1: "stable s s1" "r1 = Inr sl1" "slice_ok (pheap s1) sl1"
      using append_slice_stable [OF Cons.prems(1)] by blast
    with a Inr Cons.prems(2) have "parse_services E t sl1 fs s1 = (r, s')" by (simp add: ebind_def)
    from Cons.IH [OF s1(3) this] s1(1) show ?thesis by (blast intro: stable_trans)
  qed
qed (auto simp: ret_def)

lemma parseRule_stable:
  assumes "parseRule E t rule s = (r, s')"
  shows "stable s s' \<and> (\<forall>w. r = Inr w \<longrightarrow> slice_ok (pheap s') (wr_values w))"
proof (cases "str_fields rule")
  case Nil
  with assms show ?thesis by (auto simp: parseRule_def)
next
  case (Cons a fs)
  let ?w = "\<lambda>e. ''could not parse keys from address '' @ a @ '' err: '' @ e"
  obtain rk s1 where k: "wrap_err ?w (parseKeys E a) s = (rk, s1)"
    by (cases "wrap_err ?w (parseKeys E a) s")
  have s1: "stable s s1"
    using parseKeys_stable [of s E a] k
    by (auto simp: wrap_err_def on_error_def split: prod.splits sum.splits fault.splits)
  show ?thesis
  proof (cases rk)
    case (Inl e)
    with assms k Cons s1 show ?thesis by (auto simp: parseRule_def ebind_def)
  next
    case (Inr keys)
    obtain re s2 where e: "empty_slice s1 = (re, s2)" by (cases "empty_slice s1")
    with empty_slice_stable obtain sl where s2: "stable s1 s2" "re = Inr sl" "slice_ok (pheap s2) sl" by blast
    define body where "body = (if length (str_fields rule) = 1
        then append_slice E sl [\<lparr>PolicyType = t OR SINGLE, Proto = ANY, LowerPort = ANY, UpperPort = 0\<rparr>]
        else parse_services E t sl (tl (str_fields rule)))"
    obtain rb s3 where b: "body s2 = (rb, s3)" by (cases "body s2")
    have s3: "stable s2 s3 \<and> (\<forall>sl'. rb = Inr sl' \<longrightarrow> slice_ok (pheap s3) sl')"
    proof (cases "length (str_fields rule) = 1")
      case True
      with b have "append_slice E sl [\<lparr>PolicyType = t OR SINGLE, Proto = ANY, LowerPort = ANY, UpperPort = 0\<rparr>] s2 = (rb, s3)"
        by (simp add: body_def)
      from append_slice_stable [OF s2(3) this] show ?thesis by blast
    next
      case False
      with b have "parse_services E t sl (tl (str_fields rule)) s2 = (rb, s3)" by (simp add: body_def)
      from parse_services_stable [OF s2(3) this] show ?thesis .
    qed
    have "parseRule E t rule s = ebind body (\<lambda>sl'. ret \<lparr>wr_keys = keys, wr_values = sl'\<rparr>) s2"
      using Cons k Inr e s2(2) by (simp add: parseRule_def ebind_def body_def)
    then have "s' = s3 \<and> (\<forall>w. r = Inr w \<longrightarrow> rb = Inr (wr_values w))"
      using b assms by (cases rb) (auto simp: ebind_def)
    with s1 s2(1) s3 show ?thesis by (blast intro: stable_trans)
  qed
qed

definition results_ok :: "pheap \<Rightarrow> wrule list \<Rightarrow> (string \<rightharpoonup> nat) \<Rightarrow> bool" where
  "results_ok h result cache \<longleftrightarrow>
     (\<forall>r \<in> set result. slice_ok h (wr_values r)) \<and> (\<forall>k i. cache k = Some i \<longrightarrow> i < length result)"

lemma results_ok_stable: "results_ok (pheap s) rs c \<Longrightarrow> stable s s' \<Longrightarrow> results_ok (pheap s') rs c"
  by (auto simp: results_ok_def intro: slice_ok_stable)

lemma merge_keys_stable:
  assumes "results_ok (pheap s) result cache" and "slice_ok (pheap s) (wr_values r)"
    and "merge_keys E r ks (result, cache) s = (q, s')"
  shows "stable s s' \<and> (\<exists>result' cache'. q = Inr (result', cache') \<and> results_ok (pheap s') result' cache')"
  using assms
proof (induction ks arbitrary: result cache s)
  case (Cons k ks)
  show ?case
  proof (cases "cache (Key_String k)")
    case None
    with Cons.prems have "merge_keys E r ks (result @ [r], cache(Key_String k \<mapsto> length result)) s = (q, s')"
      by simp
    moreover have "results_ok (pheap s) (result @ [r]) (cache(Key_String k \<mapsto> length result))"
      using Cons.prems(1,2) by (auto simp: results_ok_def less_Suc_eq)
    ultimately show ?thesis using Cons.IH Cons.prems(2) by blast
  next
    case (Some i)
    let ?xs = "slice_content (pheap s) (wr_values r)"
    obtain a s1 where a: "append_slice E (wr_values (result ! i)) ?xs s = (a, s1)"
      by (cases "append_slice E (wr_values (result ! i)) ?xs s")
    have i: "i < length result" "slice_ok (pheap s) (wr_values (result ! i))"
      using Cons.prems(1) Some by (auto simp: results_ok_def)
    from append_slice_stable [OF i(2) a] obtain sl where
      s1: "stable s s1" "a = Inr sl" "slice_ok (pheap s1) sl" by blast
    have "results_ok (pheap s1) (result[i := (result ! i)\<lparr>wr_values := sl\<rparr>]) cache"
      using results_ok_stable [OF Cons.prems(1) s1(1)] s1(3) set_update_subset_insert
      by (fastforce simp: results_ok_def)
    moreover have "merge_keys E r ks (result[i := (result ! i)\<lparr>wr_values := sl\<rparr>], cache) s1 = (q, s')"
      using Cons.prems(3) Some a s1(2) by (simp add: ebind_def)
    moreover have "slice_ok (pheap s1) (wr_values r)" using Cons.prems(2) s1(1) by (rule slice_ok_stable)
    ultimately show ?thesis using Cons.IH s1(1) by (blast intro: stable_trans)
  qed
qed auto

lemma add_rules_stable:
  assumes "results_ok (pheap s) result cache"
    and "add_rules E t rules (result, cache, errs) s = (q, s')"
  shows "stable s s' \<and> (\<forall>result' cache' errs'. q = Inr (result', cache', errs') \<longrightarrow>
      results_ok (pheap s') result' cache')"
  using assms
proof (induction rules arbitrary: result cache errs s)
  case (Cons rule rules)
  obtain pr s1 where pr: "parseRule E t rule s = (pr, s1)" by (cases "parseRule E t rule s")
  note s1 = parseRule_stable [OF pr]
  have ok1: "results_ok (pheap s1) result cache" using Cons.prems(1) s1 by (blast intro: results_ok_stable)
  show ?case
  proof (cases pr)
    case (Inl f)
    show ?thesis
    proof (cases f)
      case (GoErr e)
      with Inl pr Cons.prems(2) have "add_rules E t rules (result, cache, errs @ [e]) s1 = (q, s')"
        by (simp add: ebind_def attempt_def)
      from Cons.IH [OF ok1 this] s1 show ?thesis by (blast intro: stable_trans)
    qed (use Inl pr Cons.prems(2) s1 in \<open>auto simp: ebind_def attempt_def\<close>)
  next
    case (Inr w)
    obtain m s2 where m: "merge_keys E w (wr_keys w) (result, cache) s1 = (m, s2)"
      by (cases "merge_keys E w (wr_keys w) (result, cache) s1")
    from s1 Inr have "slice_ok (pheap s1) (wr_values w)" by blast
    from merge_keys_stable [OF ok1 this m] obtain result2 cache2 where
      s2: "stable s1 s2" "m = Inr (result2, cache2)" "results_ok (pheap s2) result2 cache2" by blast
    with Inr pr m Cons.prems(2) have "add_rules E t rules (result2, cache2, errs) s2 = (q, s')"
      by (simp add: ebind_def attempt_def)
    from Cons.IH [OF s2(3) this] s1 s2(1) show ?thesis by (blast intro: stable_trans)
  qed
qed auto

text \<open>The shape of a result: at least one and at most 128 policies, stored in 128 entries.\<close>

definition rule_shape :: "Rule \<Rightarrow> bool" where
  "rule_shape r \<longleftrightarrow> NumPolicies r \<le> MAX_POLICIES \<and> length (Values r) = MAX_POLICIES \<and>
     drop (NumPolicies r) (Values r) = replicate (MAX_POLICIES - NumPolicies r) zero_policy"

definition cache_shape :: "pstate \<Rightarrow> bool" where
  "cache_shape s \<longleftrightarrow> (\<forall>rules \<in> ran (globalCache s). \<forall>r \<in> set rules. rule_shape r)"

lemma finish_shape:
  assumes "\<forall>r \<in> set result. slice_ok h (wr_values r)" and "rmap (finish_rule h) result = Inr rules"
  shows "\<forall>r \<in> set rules. rule_shape r"
  using assms
proof (induction result arbitrary: rules)
  case (Cons w result)
  then obtain r rs where r: "finish_rule h w = Inr r" and rs: "rmap (finish_rule h) result = Inr rs"
    and eq: "rules = r # rs" by auto
  have "length (slice_content h (wr_values w)) = sl_len (wr_values w)"
    using Cons.prems(1) by (simp add: length_slice_content)
  with r have "rule_shape r" by (auto simp: finish_rule_def rule_shape_def split: if_splits)
  with Cons.IH [OF _ rs] Cons.prems(1) eq show ?case by simp
qed simp

lemma add_rules_shape:
  "triple (\<lambda>s. cache_shape s \<and> results_ok (pheap s) (fst acc) (fst (snd acc))) (add_rules E t rules acc)
     (\<lambda>acc s. cache_shape s \<and> results_ok (pheap s) (fst acc) (fst (snd acc))) cache_shape"
proof (rule tripleI)
  fix s q s'
  assume P: "cache_shape s \<and> results_ok (pheap s) (fst acc) (fst (snd acc))"
    and m: "add_rules E t rules acc s = (q, s')"
  obtain rs c es where acc: "acc = (rs, c, es)" by (cases acc)
  with P m have st: "stable s s'" and ok: "\<forall>rs c es. q = Inr (rs, c, es) \<longrightarrow> results_ok (pheap s') rs c"
    using add_rules_stable [of s rs c E t rules es q s'] by auto
  from st P have "cache_shape s'" by (simp add: cache_shape_def stable_def)
  with ok show "case q of Inr acc \<Rightarrow> cache_shape s' \<and> results_ok (pheap s') (fst acc) (fst (snd acc))
      | Inl e \<Rightarrow> cache_shape s'"
    by (auto split: sum.splits)
qed

lemma cache_shape_update:
  "cache_shape s \<Longrightarrow> \<forall>x \<in> set rules. rule_shape x \<Longrightarrow> cache_shape (s\<lparr>globalCache := (globalCache s)(k \<mapsto> rules)\<rparr>)"
  unfolding cache_shape_def ran_def by (auto split: if_splits)

lemma cache_shapeD: "cache_shape s \<Longrightarrow> globalCache s k = Some rules \<Longrightarrow> \<forall>x \<in> set rules. rule_shape x"
  unfolding cache_shape_def ran_def by blast

lemma finish_shapes:
  "triple (\<lambda>s. cache_shape s \<and> results_ok (pheap s) (fst acc) (fst (snd acc)))
     ((\<lambda>(result, _, errs) s. case rmap (finish_rule (pheap s)) result of
         Inl e \<Rightarrow> (Inr ([], errs @ [e]), s)
       | Inr rules \<Rightarrow> if errs = [] then (Inr (rules, []), s\<lparr>globalCache := (globalCache s)(key \<mapsto> rules)\<rparr>)
                       else (Inr (rules, errs), s)) acc)
     (\<lambda>(rules, errs) s. cache_shape s \<and> (\<forall>x \<in> set rules. rule_shape x)) cache_shape"
proof (rule tripleI)
  fix s q s'
  obtain rs c es where acc: "acc = (rs, c, es)" by (cases acc)
  assume P: "cache_shape s \<and> results_ok (pheap s) (fst acc) (fst (snd acc))"
  then have "\<forall>w \<in> set rs. slice_ok (pheap s) (wr_values w)" by (simp add: acc results_ok_def)
  note shp = finish_shape [OF this]
  assume "(\<lambda>(result, _, errs) s. case rmap (finish_rule (pheap s)) result of
         Inl e \<Rightarrow> (Inr ([], errs @ [e]), s)
       | Inr rules \<Rightarrow> if errs = [] then (Inr (rules, []), s\<lparr>globalCache := (globalCache s)(key \<mapsto> rules)\<rparr>)
                       else (Inr (rules, errs), s)) acc s = (q, s')"
  with P shp show "case q of Inr x \<Rightarrow> (\<lambda>(rules, errs) s. cache_shape s \<and> (\<forall>x \<in> set rules. rule_shape x)) x s'
      | Inl e \<Rightarrow> cache_shape s'"
    by (cases "rmap (finish_rule (pheap s)) rs") (auto simp: acc cache_shape_update split: if_splits)
qed

lemma ParseRules_triple:
  "triple cache_shape (ParseRules E mfa public deny)
     (\<lambda>(rules, errs) s. cache_shape s \<and> (\<forall>x \<in> set rules. rule_shape x)) cache_shape"
proof -
  let ?k = "pe_hash E (sort mfa) (sort public) (sort deny)"
  define parse where "parse = ebind (add_rules E 0 (sort mfa) ([], Map.empty, [])) (\<lambda>acc.
      ebind (add_rules E PUBLIC (sort public) acc) (\<lambda>acc. ebind (add_rules E DENY (sort deny) acc)
      (\<lambda>(result, _, errs) s. case rmap (finish_rule (pheap s)) result of
         Inl e \<Rightarrow> (Inr ([], errs @ [e]), s)
       | Inr rules \<Rightarrow> if errs = [] then (Inr (rules, []), s\<lparr>globalCache := (globalCache s)(?k \<mapsto> rules)\<rparr>)
                       else (Inr (rules, errs), s))))"
  have "triple cache_shape (add_rules E 0 (sort mfa) ([], Map.empty, []))
      (\<lambda>acc s. cache_shape s \<and> results_ok (pheap s) (fst acc) (fst (snd acc))) cache_shape"
    by (rule triple_weaken [OF add_rules_shape]) (simp_all add: results_ok_def)
  then have p: "triple cache_shape parse
      (\<lambda>(rules, errs) s. cache_shape s \<and> (\<forall>x \<in> set rules. rule_shape x)) cache_shape"
    unfolding parse_def
    by (rule triple_bind) (rule triple_bind [OF add_rules_shape] finish_shapes)+
  show ?thesis
  proof (rule tripleI)
    fix s q s'
    assume s: "cache_shape s" and m: "ParseRules E mfa public deny s = (q, s')"
    show "case q of Inr x \<Rightarrow> (\<lambda>(rules, errs) s. cache_shape s \<and> (\<forall>x \<in> set rules. rule_shape x)) x s'
        | Inl e \<Rightarrow> cache_shape s'"
    proof (cases "globalCache s ?k")
      case None
      with m have "parse s = (q, s')" by (simp add: ParseRules_def parse_def Let_def)
      with s show ?thesis
        using tripleD_Inr [OF p] tripleD_Inl [OF p] by (cases q) auto
    next
      case (Some entry)
      with s have "\<forall>x \<in> set entry. rule_shape x" by (rule cache_shapeD)
      with m s Some show ?thesis by (auto simp: ParseRules_def Let_def)
    qed
  qed
qed

text \<open>
  Whatever the rules, and however names resolve, every result that \<open>ParseRules\<close> returns holds at
  most 128 policies in exactly 128 entries, the rest being zero entries, and the cache keeps that
  property.
\<close>

theorem ParseRules_shape:
  assumes "cache_shape s"
    and "ParseRules E mfa public deny s = (Inr (rules, errs), s')"
  shows "(\<forall>r \<in> set rules. rule_shape r) \<and> cache_shape s'"
  using tripleD_Inr [OF ParseRules_triple assms] by simp

theorem ParseRules_shape_witness:
  "\<exists>rules errs s'. ParseRules demo_env [''10.0.0.1 22/tcp''] [] [''10.0.0.1 80-90/any''] empty_pstate =
       (Inr (rules, errs), s') \<and> rules \<noteq> [] \<and> (\<forall>r \<in> set rules. rule_shape r)"
proof -
  have s: "cache_shape empty_pstate" by (simp add: cache_shape_def empty_pstate_def)
  obtain rules s' where
    r: "ParseRules demo_env [''10.0.0.1 22/tcp''] [] [''10.0.0.1 80-90/any''] empty_pstate = (Inr (rules, []), s')"
      "rules \<noteq> []"
    using ParseRules_literal [of demo_env "[''10.0.0.1 22/tcp'']" "[]" "[''10.0.0.1 80-90/any'']" empty_pstate]
    by (auto simp: demo_rule_list spec_rules_def merge_all_def merge_rule_def MAX_POLICIES_def)
  from ParseRules_shape [OF s r(1)] r show ?thesis by blast
qed

section \<open>Routes of a set of rules\<close>

definition add_new :: "'a \<Rightarrow> 'a list \<Rightarrow> 'a list" where
  "add_new x xs = (if x \<in> set xs then xs else xs @ [x])"

lemma fold_add_new:
  "distinct xs \<Longrightarrow> distinct (fold add_new ys xs) \<and> set (fold add_new ys xs) = set xs \<union> set ys"
  by (induction ys arbitrary: xs) (auto simp: add_new_def)

lemma acls_to_routes_literal:
  assumes "\<forall>r \<in> set rules. str_fields r \<noteq> [] \<and> literal_key (pe_net E) (hd (str_fields r)) \<noteq> None"
  shows "acls_to_routes E rules routes s =
    (Inr (fold add_new (map (\<lambda>r. Key_String (the (literal_key (pe_net E) (hd (str_fields r))))) rules) routes), s)"
  using assms
proof (induction rules arbitrary: routes)
  case (Cons r rules)
  then obtain a fs k where r: "str_fields r = a # fs" "literal_key (pe_net E) a = Some k"
    by (cases "str_fields r") auto
  then have "acls_to_routes E (r # rules) routes s =
      acls_to_routes E rules (add_new (Key_String k) routes) s"
    by (simp add: ebind_def wrap_err_def on_error_def parseKeys_literal add_new_def)
  with Cons r show ?case by simp
qed simp

text \<open>
  The routes handed to a device for literal rules are the texts of exactly the networks its rules
  name, each once, and computing them changes no state.
\<close>

theorem AclsToRoutes_literal:
  assumes "\<forall>r \<in> set rules. str_fields r \<noteq> [] \<and> literal_key (pe_net E) (hd (str_fields r)) \<noteq> None"
  shows "\<exists>routes. AclsToRoutes E rules s = (Inr routes, s) \<and> distinct routes \<and>
     set routes = {Key_String k | k. \<exists>r \<in> set rules. literal_key (pe_net E) (hd (str_fields r)) = Some k}"
proof -
  define texts where "texts = map (\<lambda>r. Key_String (the (literal_key (pe_net E) (hd (str_fields r))))) rules"
  have "set texts = {Key_String k | k. \<exists>r \<in> set rules. literal_key (pe_net E) (hd (str_fields r)) = Some k}"
    using assms unfolding texts_def by force
  moreover have "distinct (fold add_new texts [])" "set (fold add_new texts []) = set texts"
    using fold_add_new [of "[]" texts] by simp_all
  moreover have "AclsToRoutes E rules s = (Inr (fold add_new texts []), s)"
    using acls_to_routes_literal [OF assms, of "[]" s] by (simp add: AclsToRoutes_def texts_def)
  ultimately show ?thesis by simp
qed

theorem AclsToRoutes_literal_witness:
  "\<exists>routes. AclsToRoutes demo_env [''10.0.0.1 22/tcp'', ''10.0.0.0/8'', ''10.0.0.1''] empty_pstate = (Inr routes, empty_pstate) \<and>
     distinct routes"
  using AclsToRoutes_literal [of "[''10.0.0.1 22/tcp'', ''10.0.0.0/8'', ''10.0.0.1'']" demo_env empty_pstate]
  by (auto simp: parse_eval ParseCIDR_def parse_prefix_len_def key_of_net_def)

end
