(* ===== verification/CheckRoute.thy ===== *)
theory CheckRoute
  imports XdpSpec ParserInv
begin

text \<open>
  internal/router/debug.go: a synthetic packet is built and run through the kernel program, to
  tell an operator what would happen to real traffic.

  The IPv4 header is marshalled by golang.org/x/net/ipv4, the parameter \<open>marshal\<close>; the locale
  \<open>ipv4_marshal\<close> states the header layout it documents.
\<close>

type_synonym marshaller = "goip option \<Rightarrow> goip option \<Rightarrow> nat \<Rightarrow> bytes"

locale ipv4_marshal =
  fixes marshal :: marshaller
  assumes header_length: "length (marshal (Some (V4 s)) (Some (V4 d)) proto) = 20"
    and header_version: "marshal (Some (V4 s)) (Some (V4 d)) proto ! 0 = 0x45"
    and header_proto: "marshal (Some (V4 s)) (Some (V4 d)) proto ! 9 = word_of_nat proto"
    and header_src: "ip_at (marshal (Some (V4 s)) (Some (V4 d)) proto) 12 = s"
    and header_dst: "ip_at (marshal (Some (V4 s)) (Some (V4 d)) proto) 16 = d"

text \<open>A header with every other field zero.\<close>

definition plain_header :: marshaller where
  "plain_header s d proto =
     (case (Option.bind s to4, Option.bind d to4) of
        (Some s', Some d') \<Rightarrow> [0x45, 0, 0, 0, 0, 0, 0, 0, 0, word_of_nat proto, 0, 0] @ ip4_bytes s' @ ip4_bytes d'
      | _ \<Rightarrow> [])"

lemma ip_at_bytes [simp]: "ip_at (a # b # c # d # xs) 0 = IP4 a b c d"
  by (simp add: ip_at_def)

interpretation plain: ipv4_marshal plain_header
proof
  fix s d :: ip4 and proto :: nat
  obtain a b c e where s: "s = IP4 a b c e" by (cases s)
  obtain f g h i where d: "d = IP4 f g h i" by (cases d)
  show "length (plain_header (Some (V4 s)) (Some (V4 d)) proto) = 20"
    "plain_header (Some (V4 s)) (Some (V4 d)) proto ! 0 = 0x45"
    "plain_header (Some (V4 s)) (Some (V4 d)) proto ! 9 = word_of_nat proto"
    "ip_at (plain_header (Some (V4 s)) (Some (V4 d)) proto) 12 = s"
    "ip_at (plain_header (Some (V4 s)) (Some (V4 d)) proto) 16 = d"
    by (simp_all add: plain_header_def s d ip_at_def)
qed

section \<open>Packets\<close>

record pkthdr =
  pk_src :: u16
  pk_dst :: u16

definition pkthdr_Tcp :: "pkthdr \<Rightarrow> bytes" where
  "pkthdr_Tcp p = put16be (pk_src p) @ put16be (pk_dst p) @ replicate 17 0"

definition pkthdr_Udp :: "pkthdr \<Rightarrow> bytes" where
  "pkthdr_Udp p = put16be (pk_src p) @ put16be (pk_dst p) @ replicate 5 0"

definition pkthdr_Icmp :: "pkthdr \<Rightarrow> bytes" where
  "pkthdr_Icmp p = replicate 9 0"

definition pkthdr_Any :: "pkthdr \<Rightarrow> bytes" where
  "pkthdr_Any p = put16be (pk_src p) @ put16be (pk_dst p) @ replicate 5 0"

definition createPacket :: "marshaller \<Rightarrow> goip option \<Rightarrow> goip option \<Rightarrow> nat \<Rightarrow> int \<Rightarrow> bytes" where
  "createPacket marshal src dst proto port =
     (let hdrbytes = marshal src dst proto;
          pkt = \<lparr>pk_src = 3884, pk_dst = word_of_int port\<rparr>
      in if proto = unat UDP then hdrbytes @ pkthdr_Udp pkt
         else if proto = unat TCP then hdrbytes @ pkthdr_Tcp pkt
         else if proto = unat ICMP then hdrbytes @ pkthdr_Icmp pkt
         else hdrbytes @ pkthdr_Any pkt)"

text \<open>\<open>CheckRoute\<close>: the program runs on the packet, with the maps as they are at that time.\<close>

definition CheckRoute :: "net_env \<Rightarrow> marshaller \<Rightarrow> (trie \<Rightarrow> ip4 \<Rightarrow> Policy list option) \<Rightarrow> u64 \<Rightarrow>
    string \<Rightarrow> goip option \<Rightarrow> string \<Rightarrow> int \<Rightarrow> (kmaps, string) eff" where
  "CheckRoute N marshal lookup now device ip proto port k =
     (let deviceIP = ParseIP N device;
          (pro, port) = (if proto = ''udp'' then (unat UDP, port)
                         else if proto = ''icmp'' then (unat ICMP, 0) else (unat TCP, port));
          buff = createPacket marshal deviceIP ip pro port
      in case xdp_wag_firewall lookup now k buff of
           (XDP_DROP, k') \<Rightarrow> (Inr ''dropped'', k')
         | (XDP_PASS, k') \<Rightarrow> (Inr ''allow'', k'))"

lemma ntohs_be [simp]: "bpf_ntohs (get16le (ucast (drop_bit 8 w)) (ucast w)) = w"
  unfolding bpf_ntohs_def get16le_def by (rule bit_word_eqI) (auto simp: bit_simps)

lemma ntohs_ntohs [simp]: "bpf_ntohs (bpf_ntohs w) = w"
  unfolding bpf_ntohs_def by (rule bit_word_eqI) (auto simp: bit_simps)

lemma get16le_swap: "get16le (ucast (drop_bit 8 w)) (ucast w) = bpf_ntohs w"
  by (metis ntohs_be ntohs_ntohs)

lemma load16_be:
  "load16 (put16be a @ put16be b @ r) 0 = bpf_ntohs a"
  "load16 (put16be a @ put16be b @ r) 2 = bpf_ntohs b"
  unfolding load16_def put16be_def by (simp_all add: get16le_swap)

text \<open>The layout of the packet, over any marshaller that obeys the documented header layout.\<close>

context ipv4_marshal
begin

lemma ip_at_append:
  "length h = 20 \<Longrightarrow> i + 3 < 20 \<Longrightarrow> ip_at (h @ t) i = ip_at h i"
  by (simp add: ip_at_def nth_append)

lemma createPacket_header:
  assumes len: "8 \<le> length t"
  shows "parse_ip_src_dst_addr (marshal (Some (V4 s)) (Some (V4 d)) proto @ t) =
    (let info = (\<lambda>x y. \<lparr>src_ip = s, src_port = x, dst_ip = d, dst_port = y,
                      ip_proto = ucast (word_of_nat proto :: byte)\<rparr>);
         protocol = (word_of_nat proto :: byte)
     in if protocol = ucast UDP then
          (if length t < 8 then None else Some (info (load16 t 0) (load16 t 2)))
        else if protocol = ucast TCP then
          (if length t < 20 then None else Some (info (load16 t 0) (load16 t 2)))
        else Some (info 0 0))"
proof -
  have "drop_bit 4 (0x45 :: byte) = 4" "unat (0x45 AND 15 :: byte) = 5" by simp_all
  with len show ?thesis
    by (simp add: parse_ip_src_dst_addr_def Let_def nth_append header_length header_version header_proto
        ip_at_append header_src header_dst load16_def MAX_PACKET_OFF_def)
qed

lemma createPacket_info:
  "parse_ip_src_dst_addr (createPacket marshal (Some (V4 s)) (Some (V4 d)) proto port) =
     Some \<lparr>src_ip = s,
           src_port = (if (word_of_nat proto :: byte) \<in> {17, 6} then bpf_ntohs 3884 else 0),
           dst_ip = d,
           dst_port = (if (word_of_nat proto :: byte) \<in> {17, 6} then bpf_ntohs (word_of_int port) else 0),
           ip_proto = ucast (word_of_nat proto :: byte)\<rparr>"
  if "proto = 1 \<or> proto = 6 \<or> proto = 17"
  using that
  by (elim disjE)
    (simp_all add: createPacket_def Let_def createPacket_header proto_consts pkthdr_Udp_def pkthdr_Tcp_def
      pkthdr_Icmp_def load16_be)

end

text \<open>C24
  \<open>CheckRoute\<close> answers for the traffic it is asked about: with any marshaller of the documented
  header layout, it says \<open>allow\<close> exactly when the kernel program's decision on a packet from the
  device to the address, with the protocol and the port given (none for ICMP), is to pass.
\<close>

theorem CheckRoute_decides:
  assumes "ipv4_marshal marshal" and "0 \<le> port" and "port < 65536"
    and "proto = ''udp'' \<or> proto = ''tcp'' \<or> proto = ''icmp''"
  shows "fst (CheckRoute N marshal lookup now (ip4_string s) (Some (V4 d)) proto port k) = Inr ''allow'' \<longleftrightarrow>
    (let info = \<lparr>src_ip = s, src_port = (if proto = ''icmp'' then 0 else bpf_ntohs 3884), dst_ip = d,
                 dst_port = (if proto = ''icmp'' then 0 else bpf_ntohs (word_of_int port)),
                 ip_proto = (if proto = ''icmp'' then 1 else if proto = ''udp'' then 17 else 6)\<rparr>
     in fst (conntrack lookup now k info))"
  using ipv4_marshal.createPacket_info [OF assms(1), of 1 s d 0] ipv4_marshal.createPacket_info [OF assms(1), of 6 s d port]
    ipv4_marshal.createPacket_info [OF assms(1), of 17 s d port] assms(4)
  by (auto simp: CheckRoute_def xdp_wag_firewall_def Let_def proto_consts split: prod.splits)

theorem CheckRoute_decides_witness:
  "fst (CheckRoute demo_net plain_header lpm_lookup 5 (ip4_string (IP4 10 0 0 2)) (Some (V4 (IP4 10 0 0 9))) ''tcp'' 22
     idle_maps) \<noteq> Inr ''allow''"
  using CheckRoute_decides [OF plain.ipv4_marshal_axioms, of 22 "''tcp''" demo_net lpm_lookup 5 "IP4 10 0 0 2" "IP4 10 0 0 9" idle_maps]
  by (simp add: conntrack_def idle_maps_def)

end
