(* ===== verification/Json.thy ===== *)
theory Json
  imports GoNet
begin

text \<open>
  What the program uses of encoding/json. A document is a tree; the text of a time or of an IP
  address, which are JSON strings with a syntax of their own, is kept as the time (nanoseconds, 0
  for the zero time) or the address it denotes. Decoding into a struct follows the package: a
  member goes to the field of the same name up to case, a later member overwrites an earlier one,
  null leaves the field as it is, other members are ignored, and a value of the wrong kind is an
  error.
\<close>

datatype json =
    JNull
  | JBool bool
  | JNum int
  | JStr string
  | JTime int
  | JAddr goip
  | JArr "json list"
  | JObj "(string \<times> json) list"

definition mismatch :: "'a res" where
  "mismatch = Inl (GoErr ''json: cannot unmarshal value into Go value'')"

fun dec_string :: "json \<Rightarrow> string res" where
  "dec_string (JStr x) = Inr x"
| "dec_string _ = mismatch"

fun dec_bool :: "json \<Rightarrow> bool res" where
  "dec_bool (JBool b) = Inr b"
| "dec_bool _ = mismatch"

fun dec_int :: "json \<Rightarrow> int res" where
  "dec_int (JNum i) = (if - (2 ^ 63) \<le> i \<and> i < 2 ^ 63 then Inr i else mismatch)"
| "dec_int _ = mismatch"

fun dec_u64 :: "json \<Rightarrow> u64 res" where
  "dec_u64 (JNum i) = (if 0 \<le> i \<and> i < 2 ^ 64 then Inr (word_of_int i) else mismatch)"
| "dec_u64 _ = mismatch"

fun dec_time :: "json \<Rightarrow> int res" where
  "dec_time (JTime t) = Inr t"
| "dec_time _ = mismatch"

text \<open>A top-level null leaves the variable as it was.\<close>

fun dec_or :: "(json \<Rightarrow> 'a res) \<Rightarrow> 'a \<Rightarrow> json \<Rightarrow> 'a res" where
  "dec_or f z JNull = Inr z"
| "dec_or f z j = f j"

fun dec_list :: "(json \<Rightarrow> 'a res) \<Rightarrow> 'a \<Rightarrow> json \<Rightarrow> 'a list res" where
  "dec_list f z (JArr js) = rmap (dec_or f z) js"
| "dec_list f z JNull = Inr []"
| "dec_list f z _ = mismatch"

definition same_name :: "string \<Rightarrow> string \<Rightarrow> bool" where
  "same_name n k = (to_lower n = to_lower k)"

text \<open>The value of one field after all members of an object have been read.\<close>

fun dec_field :: "(json \<Rightarrow> 'a res) \<Rightarrow> string \<Rightarrow> 'a \<Rightarrow> (string \<times> json) list \<Rightarrow> 'a res" where
  "dec_field f n z [] = Inr z"
| "dec_field f n z ((k, j) # ms) =
     (if same_name n k then rbind (dec_or f z j) (\<lambda>x. dec_field f n x ms) else dec_field f n z ms)"

text \<open>A map with string keys: the last member of a name counts.\<close>

fun dec_map :: "(json \<Rightarrow> 'a res) \<Rightarrow> 'a \<Rightarrow> json \<Rightarrow> (string \<times> 'a) list res" where
  "dec_map f z (JObj ms) = rmap (\<lambda>(k, j). rbind (dec_or f z j) (\<lambda>x. Inr (k, x))) (rev ms)"
| "dec_map f z JNull = Inr []"
| "dec_map f z _ = mismatch"

definition enc_string :: "string \<Rightarrow> json" where "enc_string x = JStr x"
definition enc_strings :: "string list \<Rightarrow> json" where "enc_strings xs = JArr (map JStr xs)"

named_theorems json_simps \<open>encoders and decoders, to evaluate one on the other\<close>

lemma to_lower_literal [json_simps]: "same_name n n"
  by (simp add: same_name_def)

lemma rmap_map [json_simps]: "rmap f (map g xs) = rmap (f \<circ> g) xs"
  by (induction xs) simp_all

lemma rmap_Inr [simp]: "rmap Inr xs = Inr xs"
  by (induction xs) simp_all

lemma dec_strings_enc [simp]: "dec_list dec_string z (enc_strings xs) = Inr xs"
proof -
  have "(dec_or dec_string z \<circ> JStr) = Inr" by auto
  then show ?thesis by (simp add: enc_strings_def rmap_map)
qed

text \<open>Zero values: reading an object without the field.\<close>

lemma dec_field_absent: "\<forall>(k, j) \<in> set ms. \<not> same_name n k \<Longrightarrow> dec_field f n z ms = Inr z"
  by (induction ms) auto

end
