(* ===== verification/Etcd.thy ===== *)
theory Etcd
  imports Json "HOL-Library.AList"
begin

text \<open>
  The cluster store. The program keeps everything it has to remember in etcd, through the client
  package; here the store is a list of keyed values with modification revisions, and the service
  is the parameter \<open>E\<close>: what it answers to a request and which store that leaves.

  The locale \<open>etcd_service\<close> states what etcd documents: a request that succeeds was applied
  atomically to some store that evolved from the one the client last saw, by whatever other
  clients did in the meantime; after an error the store has evolved in some unknown way, which
  includes that the request was applied. \<open>etcd_quiet\<close> adds that nobody else writes and no request
  fails. Gets, puts and deletes outside a transaction are transactions of one operation.
\<close>

section \<open>The store and its requests\<close>

datatype gvalue = Text string | Json json

record store =
  st_kvs :: "(string \<times> gvalue \<times> nat) list"
  st_rev :: nat

text \<open>The operations with \<open>Prev\<close> are those asked to return what they overwrote or deleted.\<close>

datatype etcd_op =
    OpGet string
  | OpGetPrefix bool string
  | OpPut string gvalue
  | OpPutPrev string gvalue
  | OpDelete string
  | OpDeletePrev string
  | OpDeletePrefix string

datatype etcd_cmp =
    KeyMissing string
  | ModRevisionIs string nat

type_synonym kv = "string \<times> gvalue \<times> nat"

datatype op_result = Range "kv list" | Stored "kv list" | Deleted "kv list"

record request =
  rq_if :: "etcd_cmp list"
  rq_then :: "etcd_op list"
  rq_else :: "etcd_op list"

type_synonym response = "bool \<times> op_result list"

definition find_key :: "store \<Rightarrow> string \<Rightarrow> (gvalue \<times> nat) option" where
  "find_key s k = map_of (st_kvs s) k"

definition value_at :: "store \<Rightarrow> string \<Rightarrow> gvalue option" where
  "value_at s k = map_option fst (find_key s k)"

text \<open>The keys with a prefix, in ascending or descending order.\<close>

definition keys_with :: "store \<Rightarrow> string \<Rightarrow> string list" where
  "keys_with s p = sort (filter (prefix p) (map fst (st_kvs s)))"

definition range_of :: "store \<Rightarrow> string list \<Rightarrow> kv list" where
  "range_of s ks = List.map_filter (\<lambda>k. map_option (\<lambda>x. (k, x)) (find_key s k)) ks"

text \<open>Writes at a revision.\<close>

definition put_at :: "nat \<Rightarrow> string \<Rightarrow> gvalue \<Rightarrow> store \<Rightarrow> store" where
  "put_at n k v s = s\<lparr>st_kvs := AList.update k (v, n) (st_kvs s), st_rev := n\<rparr>"

definition del_at :: "nat \<Rightarrow> string \<Rightarrow> store \<Rightarrow> store" where
  "del_at n k s = (if find_key s k = None then s else s\<lparr>st_kvs := AList.delete k (st_kvs s), st_rev := n\<rparr>)"

definition del_prefix_at :: "nat \<Rightarrow> string \<Rightarrow> store \<Rightarrow> store" where
  "del_prefix_at n p s =
     (if keys_with s p = [] then s
      else s\<lparr>st_kvs := filter (\<lambda>e. \<not> prefix p (fst e)) (st_kvs s), st_rev := n\<rparr>)"

fun run_op :: "nat \<Rightarrow> etcd_op \<Rightarrow> store \<Rightarrow> op_result \<times> store" where
  "run_op n (OpGet k) s = (Range (range_of s [k]), s)"
| "run_op n (OpGetPrefix descending p) s =
     (Range (range_of s (if descending then rev (keys_with s p) else keys_with s p)), s)"
| "run_op n (OpPut k v) s = (Stored [], put_at n k v s)"
| "run_op n (OpPutPrev k v) s = (Stored (range_of s [k]), put_at n k v s)"
| "run_op n (OpDelete k) s = (Deleted [], del_at n k s)"
| "run_op n (OpDeletePrev k) s = (Deleted (range_of s [k]), del_at n k s)"
| "run_op n (OpDeletePrefix p) s = (Deleted [], del_prefix_at n p s)"

fun run_ops :: "nat \<Rightarrow> etcd_op list \<Rightarrow> store \<Rightarrow> op_result list \<times> store" where
  "run_ops n [] s = ([], s)"
| "run_ops n (p # ps) s =
     (case run_op n p s of (r, t) \<Rightarrow> (case run_ops n ps t of (rs, u) \<Rightarrow> (r # rs, u)))"

fun holds_cmp :: "store \<Rightarrow> etcd_cmp \<Rightarrow> bool" where
  "holds_cmp s (KeyMissing k) = (find_key s k = None)"
| "holds_cmp s (ModRevisionIs k r) = (case find_key s k of None \<Rightarrow> r = 0 | Some (_, r') \<Rightarrow> r' = r)"

definition apply_request :: "request \<Rightarrow> store \<Rightarrow> response \<times> store" where
  "apply_request q s =
     (let ok = list_all (holds_cmp s) (rq_if q)
      in case run_ops (Suc (st_rev s)) (if ok then rq_then q else rq_else q) s of
           (rs, t) \<Rightarrow> ((ok, rs), t))"

section \<open>How a store evolves\<close>

text \<open>Keys are unique, and no value is newer than the store.\<close>

definition store_wf :: "store \<Rightarrow> bool" where
  "store_wf s \<longleftrightarrow> distinct (map fst (st_kvs s)) \<and> (\<forall>k v r. find_key s k = Some (v, r) \<longrightarrow> 0 < r \<and> r \<le> st_rev s)"

text \<open>A value that is not newer than the earlier store was there already.\<close>

definition later :: "store \<Rightarrow> store \<Rightarrow> bool" where
  "later s t \<longleftrightarrow> st_rev s \<le> st_rev t \<and> (store_wf s \<longrightarrow> store_wf t) \<and>
     (\<forall>k v r. find_key t k = Some (v, r) \<longrightarrow> r \<le> st_rev s \<longrightarrow> find_key s k = Some (v, r))"

lemma later_refl [simp, intro]: "later s s"
  by (simp add: later_def)

lemma later_trans [trans]: "later s t \<Longrightarrow> later t u \<Longrightarrow> later s u"
  unfolding later_def by (meson le_trans)

lemma later_wf: "later s t \<Longrightarrow> store_wf s \<Longrightarrow> store_wf t"
  by (simp add: later_def)

lemma find_key_put_at [simp]: "find_key (put_at n k v s) l = (if l = k then Some (v, n) else find_key s l)"
  by (simp add: put_at_def find_key_def update_conv')

lemma find_key_del_at [simp]: "find_key (del_at n k s) l = (if l = k then None else find_key s l)"
  by (simp add: del_at_def find_key_def delete_conv')

lemma map_of_filter_key: "map_of (filter (\<lambda>e. P (fst e)) xs) k = (if P k then map_of xs k else None)"
  by (induction xs) auto

lemma keys_with_Nil: "keys_with s p = [] \<longleftrightarrow> (\<forall>l. prefix p l \<longrightarrow> find_key s l = None)"
  by (simp only: set_empty [symmetric]) (auto simp: keys_with_def find_key_def map_of_eq_None_iff)

lemma find_key_del_prefix_at [simp]:
  "find_key (del_prefix_at n p s) l = (if prefix p l then None else find_key s l)"
proof (cases "keys_with s p = []")
  case True
  then show ?thesis by (auto simp: del_prefix_at_def keys_with_Nil)
next
  case False
  then show ?thesis
    using map_of_filter_key [of "\<lambda>k. \<not> prefix p k" "st_kvs s" l] by (simp add: del_prefix_at_def find_key_def)
qed

lemma value_at_writes [simp]:
  "value_at (put_at n k v s) l = (if l = k then Some v else value_at s l)"
  "value_at (del_at n k s) l = (if l = k then None else value_at s l)"
  "value_at (del_prefix_at n p s) l = (if prefix p l then None else value_at s l)"
  by (simp_all add: value_at_def)

lemma st_rev_writes [simp]:
  "st_rev (put_at n k v s) = n"
  "st_rev (del_at n k s) = (if find_key s k = None then st_rev s else n)"
  "st_rev (del_prefix_at n p s) = (if keys_with s p = [] then st_rev s else n)"
  by (simp_all add: put_at_def del_at_def del_prefix_at_def)

lemma distinct_filter_keys: "distinct (map fst xs) \<Longrightarrow> distinct (map fst (filter P xs))"
  by (simp add: distinct_map_filter)

text \<open>One operation of a transaction that started at revision \<open>n\<close>.\<close>

definition evolving :: "nat \<Rightarrow> store \<Rightarrow> store \<Rightarrow> bool" where
  "evolving n s t \<longleftrightarrow> st_rev s \<le> st_rev t \<and> st_rev t \<le> Suc n \<and>
     (store_wf s \<longrightarrow> store_wf t) \<and>
     (\<forall>k v r. find_key t k = Some (v, r) \<longrightarrow> r \<le> n \<longrightarrow> find_key s k = Some (v, r))"

lemma evolving_refl: "st_rev s \<le> Suc n \<Longrightarrow> evolving n s s"
  by (simp add: evolving_def)

lemma evolvingI:
  assumes "st_rev s \<le> Suc n" and rev: "st_rev t = st_rev s \<or> st_rev t = Suc n"
    and "distinct (map fst (st_kvs s)) \<Longrightarrow> distinct (map fst (st_kvs t))"
    and keys: "\<And>k. find_key t k = find_key s k \<or> find_key t k = None \<or> st_rev t = Suc n \<and> (\<exists>v. find_key t k = Some (v, Suc n))"
  shows "evolving n s t"
proof -
  have le: "st_rev s \<le> st_rev t" using assms(1) rev by auto
  have old: "find_key s k = Some (v, r) \<or> st_rev t = Suc n \<and> r = Suc n" if "find_key t k = Some (v, r)" for k v r
    using keys [of k] that by auto
  have "store_wf t" if "store_wf s"
    unfolding store_wf_def
  proof (intro conjI allI impI)
    show "distinct (map fst (st_kvs t))" using that assms(3) by (simp add: store_wf_def)
  next
    fix k v r assume k: "find_key t k = Some (v, r)"
    have "find_key s k = Some (v, r) \<longrightarrow> 0 < r \<and> r \<le> st_rev s" using that by (simp add: store_wf_def)
    with old [OF k] le show "0 < r" and "r \<le> st_rev t" by auto
  qed
  moreover have "find_key s k = Some (v, r)" if "find_key t k = Some (v, r)" "r \<le> n" for k v r
    using old [OF that(1)] that(2) by auto
  ultimately show ?thesis using le rev assms(1) by (auto simp: evolving_def)
qed

lemma distinct_writes:
  "distinct (map fst (st_kvs s)) \<Longrightarrow> distinct (map fst (st_kvs (put_at n k v s)))"
  "distinct (map fst (st_kvs s)) \<Longrightarrow> distinct (map fst (st_kvs (del_at n k s)))"
  "distinct (map fst (st_kvs s)) \<Longrightarrow> distinct (map fst (st_kvs (del_prefix_at n p s)))"
  by (auto simp: put_at_def del_at_def del_prefix_at_def distinct_update distinct_delete distinct_filter_keys)

lemma run_op_evolving:
  assumes "st_rev s \<le> Suc n"
  shows "evolving n s (snd (run_op (Suc n) p s))"
  using assms
  by (cases p)
     (auto intro!: evolvingI [OF assms] distinct_writes simp: evolving_refl split: if_splits)

lemma run_ops_evolving:
  assumes "st_rev s \<le> Suc n"
  shows "evolving n s (snd (run_ops (Suc n) ps s))"
  using assms
proof (induction ps arbitrary: s)
  case (Cons p ps)
  obtain r t where p: "run_op (Suc n) p s = (r, t)" by (cases "run_op (Suc n) p s")
  then have e: "evolving n s t" using run_op_evolving [OF Cons.prems, of p] by simp
  then have "evolving n t (snd (run_ops (Suc n) ps t))" by (intro Cons.IH) (simp add: evolving_def)
  moreover have "snd (run_ops (Suc n) (p # ps) s) = snd (run_ops (Suc n) ps t)"
    using p by (simp split: prod.splits)
  ultimately show ?case using e by (auto simp: evolving_def intro: le_trans)
qed (auto simp: evolving_def)

lemma apply_request_later: "later s (snd (apply_request q s))"
  using run_ops_evolving [of s "st_rev s"]
  by (auto simp: apply_request_def Let_def later_def evolving_def split: prod.splits) (metis snd_conv)+

section \<open>The service\<close>

text \<open>
  The service: requests, and the grant of a lease (keys put under a lease may disappear later, as
  any key may). Then the identity of this member, how often the retry loop of an update is
  followed, and the text of a document (needed only where one would be read as a key).
\<close>

record etcd =
  commit :: "request \<Rightarrow> store \<Rightarrow> (error + response) \<times> store"
  grant :: "store \<Rightarrow> (error + unit) \<times> store"
  GetServerID :: u64
  attempts :: nat
  render :: "json \<Rightarrow> string"

locale etcd_service =
  fixes E :: etcd
  assumes commit_ok: "commit E q s = (Inr r, t) \<Longrightarrow> \<exists>m. later s m \<and> apply_request q m = (r, t)"
    and commit_err: "commit E q s = (Inl e, t) \<Longrightarrow> later s t"
    and grant_later: "later s (snd (grant E s))"

locale etcd_quiet =
  fixes E :: etcd
  assumes commit_quiet: "commit E q s = (case apply_request q s of (r, t) \<Rightarrow> (Inr r, t))"
    and grant_quiet: "grant E s = (Inr (), s)"
    and some_attempt: "0 < attempts E"

sublocale etcd_quiet \<subseteq> etcd_service
proof
  show "commit E q s = (Inr r, t) \<Longrightarrow> \<exists>m. later s m \<and> apply_request q m = (r, t)" for q s r t
    by (auto simp: commit_quiet split: prod.splits)
  show "commit E q s = (Inl e, t) \<Longrightarrow> later s t" for q s e t
    by (simp add: commit_quiet split: prod.splits)
  show "later s (snd (grant E s))" for s by (simp add: grant_quiet)
qed

definition etcd_ref :: etcd where
  "etcd_ref = \<lparr>commit = (\<lambda>q s. case apply_request q s of (r, t) \<Rightarrow> (Inr r, t)),
     grant = (\<lambda>s. (Inr (), s)), GetServerID = 1, attempts = 1, render = (\<lambda>_. '''')\<rparr>"

interpretation etcd_ref: etcd_quiet etcd_ref
  by unfold_locales (simp_all add: etcd_ref_def)

text \<open>A request as an effect, and the single operations of the client.\<close>

definition Commit :: "etcd \<Rightarrow> request \<Rightarrow> (store, response) eff" where
  "Commit E q s = (case commit E q s of (Inl e, t) \<Rightarrow> (Inl (GoErr e), t) | (Inr r, t) \<Rightarrow> (Inr r, t))"

definition Txn :: "etcd \<Rightarrow> etcd_cmp list \<Rightarrow> etcd_op list \<Rightarrow> etcd_op list \<Rightarrow> (store, response) eff" where
  "Txn E cs ts es = Commit E \<lparr>rq_if = cs, rq_then = ts, rq_else = es\<rparr>"

fun range_kvs :: "op_result \<Rightarrow> kv list" where
  "range_kvs (Range kvs) = kvs"
| "range_kvs _ = []"

fun prev_kvs :: "op_result \<Rightarrow> kv list" where
  "prev_kvs (Stored kvs) = kvs"
| "prev_kvs (Deleted kvs) = kvs"
| "prev_kvs (Range kvs) = []"

definition Get :: "etcd \<Rightarrow> string \<Rightarrow> (store, kv list) eff" where
  "Get E k = ebind (Txn E [] [OpGet k] []) (\<lambda>(_, rs). ret (range_kvs (hd rs)))"

definition GetPrefix :: "etcd \<Rightarrow> bool \<Rightarrow> string \<Rightarrow> (store, kv list) eff" where
  "GetPrefix E descending p = ebind (Txn E [] [OpGetPrefix descending p] []) (\<lambda>(_, rs). ret (range_kvs (hd rs)))"

definition Put :: "etcd \<Rightarrow> string \<Rightarrow> gvalue \<Rightarrow> (store, unit) eff" where
  "Put E k v = ebind (Txn E [] [OpPut k v] []) (\<lambda>_. ret ())"

definition Delete :: "etcd \<Rightarrow> string \<Rightarrow> (store, unit) eff" where
  "Delete E k = ebind (Txn E [] [OpDelete k] []) (\<lambda>_. ret ())"

definition DeletePrefix :: "etcd \<Rightarrow> string \<Rightarrow> (store, kv list) eff" where
  "DeletePrefix E p = ebind (Txn E [] [OpDeletePrefix p] []) (\<lambda>(_, rs). ret (prev_kvs (hd rs)))"

definition PutPrev :: "etcd \<Rightarrow> string \<Rightarrow> gvalue \<Rightarrow> (store, kv list) eff" where
  "PutPrev E k v = ebind (Txn E [] [OpPutPrev k v] []) (\<lambda>(_, rs). ret (prev_kvs (hd rs)))"

definition DeletePrev :: "etcd \<Rightarrow> string \<Rightarrow> (store, kv list) eff" where
  "DeletePrev E k = ebind (Txn E [] [OpDeletePrev k] []) (\<lambda>(_, rs). ret (prev_kvs (hd rs)))"

definition Grant :: "etcd \<Rightarrow> (store, unit) eff" where
  "Grant E s = (case grant E s of (Inl e, t) \<Rightarrow> (Inl (GoErr e), t) | (Inr r, t) \<Rightarrow> (Inr r, t))"

definition value_text :: "etcd \<Rightarrow> gvalue \<Rightarrow> string" where
  "value_text E v = (case v of Text t \<Rightarrow> t | Json j \<Rightarrow> render E j)"

text \<open>\<open>json.Unmarshal\<close> of a stored value; the plain texts the program stores are not JSON.\<close>

definition unmarshal :: "(json \<Rightarrow> 'a res) \<Rightarrow> gvalue \<Rightarrow> 'a res" where
  "unmarshal d v = (case v of Json j \<Rightarrow> d j | Text _ \<Rightarrow> Inl (GoErr ''invalid character''))"

lemma unmarshal_simps [simp]:
  "unmarshal d (Json j) = d j" "unmarshal d (Text t) = Inl (GoErr ''invalid character'')"
  by (simp_all add: unmarshal_def)

section \<open>Effects on the store\<close>

text \<open>Whatever a data operation does, the store it leaves evolved from the one it found.\<close>

definition evolves :: "(store, 'a) eff \<Rightarrow> bool" where
  "evolves m \<longleftrightarrow> (\<forall>s. later s (snd (m s)))"

named_theorems evolves_intro \<open>operations that let the store evolve\<close>

lemma evolvesD: "evolves m \<Longrightarrow> m s = (r, t) \<Longrightarrow> later s t"
  by (metis evolves_def snd_conv)

lemma evolves_basic [evolves_intro]:
  "evolves (ret x)" "evolves (raise e)" "evolves (panic e)" "evolves (lift r)"
  by (simp_all add: evolves_def)

lemma evolves_bind [evolves_intro]:
  assumes "evolves m" and "\<And>x. evolves (f x)"
  shows "evolves (ebind m f)"
  unfolding evolves_def
proof
  fix s
  obtain r t where m: "m s = (r, t)" by (cases "m s")
  then have "later s t" using assms(1) by (rule evolvesD [rotated])
  with m show "later s (snd (ebind m f s))"
    using assms(2) by (cases r) (auto simp: ebind_def evolves_def intro: later_trans)
qed

lemma evolves_on_error [evolves_intro]:
  assumes "evolves m" and "\<And>e. evolves (h e)"
  shows "evolves (on_error m h)"
  unfolding evolves_def
proof
  fix s
  obtain r t where m: "m s = (r, t)" by (cases "m s")
  then have "later s t" using assms(1) by (rule evolvesD [rotated])
  with m show "later s (snd (on_error m h s))"
    using assms(2) by (auto simp: on_error_def evolves_def intro: later_trans split: sum.splits fault.splits)
qed

lemma evolves_wrap [evolves_intro]: "evolves m \<Longrightarrow> evolves (wrap_err w m)"
  unfolding wrap_err_def by (intro evolves_intro)

lemma snd_attempt: "snd (attempt m s) = snd (m s)"
  by (auto simp: attempt_def split: prod.splits sum.splits fault.splits)

lemma evolves_attempt [evolves_intro]: "evolves m \<Longrightarrow> evolves (attempt m)"
  by (simp add: evolves_def snd_attempt)

lemma evolves_if [evolves_intro]: "evolves m \<Longrightarrow> evolves n \<Longrightarrow> evolves (if b then m else n)"
  by simp

lemma evolves_case_option [evolves_intro]:
  "evolves m \<Longrightarrow> (\<And>x. evolves (f x)) \<Longrightarrow> evolves (case v of None \<Rightarrow> m | Some x \<Rightarrow> f x)"
  by (cases v) simp_all

lemma evolves_case_list [evolves_intro]:
  "evolves m \<Longrightarrow> (\<And>x xs. evolves (f x xs)) \<Longrightarrow> evolves (case v of [] \<Rightarrow> m | x # xs \<Rightarrow> f x xs)"
  by (cases v) simp_all

lemma evolves_case_prod [evolves_intro]: "(\<And>x y. evolves (f x y)) \<Longrightarrow> evolves (case v of (x, y) \<Rightarrow> f x y)"
  by (cases v) simp

lemma evolves_case_sum [evolves_intro]:
  "(\<And>x. evolves (f x)) \<Longrightarrow> (\<And>y. evolves (g y)) \<Longrightarrow> evolves (case v of Inl x \<Rightarrow> f x | Inr y \<Rightarrow> g y)"
  by (cases v) simp_all

lemma evolves_for_each [evolves_intro]:
  assumes "\<And>x. evolves (f x)"
  shows "evolves (for_each f xs)"
proof -
  have "later s (snd (for_each f xs s))" for s
  proof (rule for_each_inv)
    show "later s (snd (f x t))" if "later s t" for x t
      using that assms [of x] later_trans by (auto simp: evolves_def)
  qed simp
  then show ?thesis by (simp add: evolves_def)
qed

context etcd_service
begin

lemma evolves_Commit: "evolves (Commit E q)"
  unfolding evolves_def
proof
  fix s
  obtain r t where c: "commit E q s = (r, t)" by (cases "commit E q s")
  show "later s (snd (Commit E q s))"
  proof (cases r)
    case (Inl e)
    with c commit_err show ?thesis by (simp add: Commit_def)
  next
    case (Inr x)
    with c commit_ok obtain m where "later s m" "apply_request q m = (x, t)" by blast
    with c Inr apply_request_later [of m q] show ?thesis
      by (auto simp: Commit_def intro: later_trans)
  qed
qed

lemma evolves_ops: "evolves (Txn E cs ts es)" "evolves (Get E k)" "evolves (GetPrefix E desc p)"
  "evolves (Put E k v)" "evolves (Delete E k)" "evolves (DeletePrefix E p)" "evolves (PutPrev E k v)"
  "evolves (DeletePrev E k)"
  unfolding Txn_def Get_def GetPrefix_def Put_def Delete_def DeletePrefix_def PutPrev_def DeletePrev_def
  by (auto intro!: evolves_intro evolves_Commit)

lemma evolves_Grant: "evolves (Grant E)"
  using grant_later by (auto simp: evolves_def Grant_def split: prod.splits sum.splits) (metis snd_conv)+

text \<open>What a successful request saw and left.\<close>

lemma Txn_ok:
  assumes "Txn E cs ts es s = (Inr r, t)"
  obtains m where "later s m" and "apply_request \<lparr>rq_if = cs, rq_then = ts, rq_else = es\<rparr> m = (r, t)"
proof -
  from assms have "commit E \<lparr>rq_if = cs, rq_then = ts, rq_else = es\<rparr> s = (Inr r, t)"
    by (auto simp: Txn_def Commit_def split: prod.splits sum.splits)
  with commit_ok that show ?thesis by blast
qed

lemma Get_ok: "Get E k s = (Inr kvs, t) \<Longrightarrow> later s t \<and> kvs = range_of t [k]"
  by (auto simp: Get_def ebind_eq_Inr apply_request_def Let_def elim!: Txn_ok)

lemma GetPrefix_ok:
  "GetPrefix E desc p s = (Inr kvs, t) \<Longrightarrow>
     later s t \<and> kvs = range_of t (if desc then rev (keys_with t p) else keys_with t p)"
  by (auto simp: GetPrefix_def ebind_eq_Inr apply_request_def Let_def elim!: Txn_ok)

end

lemma range_of_single:
  "range_of s [k] = (case find_key s k of None \<Rightarrow> [] | Some (v, r) \<Rightarrow> [(k, v, r)])"
  by (simp add: range_of_def List.map_filter_def split: option.split)

context etcd_quiet
begin

lemma Txn_quiet: "Txn E cs ts es s = (case apply_request \<lparr>rq_if = cs, rq_then = ts, rq_else = es\<rparr> s of (r, t) \<Rightarrow> (Inr r, t))"
  by (simp add: Txn_def Commit_def commit_quiet split: prod.splits)

lemma Get_quiet: "Get E k s = (Inr (range_of s [k]), s)"
  by (simp add: Get_def Txn_quiet ebind_def apply_request_def)

lemma GetPrefix_quiet:
  "GetPrefix E desc p s = (Inr (range_of s (if desc then rev (keys_with s p) else keys_with s p)), s)"
  by (simp add: GetPrefix_def Txn_quiet ebind_def apply_request_def)

lemma Put_quiet: "Put E k v s = (Inr (), snd (run_op (Suc (st_rev s)) (OpPut k v) s))"
  by (simp add: Put_def Txn_quiet ebind_def apply_request_def)

lemma Delete_quiet: "Delete E k s = (Inr (), snd (run_op (Suc (st_rev s)) (OpDelete k) s))"
  by (simp add: Delete_def Txn_quiet ebind_def apply_request_def split: prod.splits)

lemma DeletePrefix_quiet: "DeletePrefix E p s = (Inr [], snd (run_op (Suc (st_rev s)) (OpDeletePrefix p) s))"
  by (simp add: DeletePrefix_def Txn_quiet ebind_def apply_request_def split: prod.splits)

lemma PutPrev_quiet:
  "PutPrev E k v s = (Inr (range_of s [k]), snd (run_op (Suc (st_rev s)) (OpPut k v) s))"
  by (simp add: PutPrev_def Txn_quiet ebind_def apply_request_def)

lemma DeletePrev_quiet:
  "DeletePrev E k s = (Inr (range_of s [k]), snd (run_op (Suc (st_rev s)) (OpDelete k) s))"
  by (simp add: DeletePrev_def Txn_quiet ebind_def apply_request_def range_of_def List.map_filter_def)

lemma Grant_quiet: "Grant E s = (Inr (), s)"
  by (simp add: Grant_def grant_quiet)

lemmas ops_quiet = Txn_quiet Get_quiet GetPrefix_quiet Put_quiet Delete_quiet DeletePrefix_quiet
  PutPrev_quiet DeletePrev_quiet Grant_quiet

end

end
