(* ===== verification/DataCore.thy ===== *)
theory DataCore
  imports Etcd
begin

text \<open>
  internal/data/init.go: the optimistic update loop that every read-modify-write of the cluster
  store goes through, and the write-once import of settings.

  \<open>doSafeUpdate\<close> retries while other clients change the key; \<open>attempts E\<close> bounds how many rounds
  are followed, and running out of them is the result \<open>OutOfFuel\<close>, which is never a claim that
  the code returned.
\<close>

section \<open>The update loop\<close>

type_synonym mutator = "kv list \<Rightarrow> (store, gvalue) eff"

fun update_loop :: "etcd \<Rightarrow> string \<Rightarrow> mutator \<Rightarrow> nat \<Rightarrow> kv list \<Rightarrow> (store, unit) eff" where
  "update_loop E key mutate 0 origState = lift (Inl OutOfFuel)"
| "update_loop E key mutate (Suc n) origState =
     (case origState of
        [] \<Rightarrow> raise ''no record found''
      | (_, _, modRevision) # _ \<Rightarrow>
          ebind (mutate origState) (\<lambda>newValue.
          ebind (Txn E [ModRevisionIs key modRevision] [OpPut key newValue] [OpGet key]) (\<lambda>(succeeded, rs).
          if succeeded then ret () else update_loop E key mutate n (range_kvs (hd rs)))))"

definition doSafeUpdate :: "etcd \<Rightarrow> string \<Rightarrow> bool \<Rightarrow> mutator \<Rightarrow> (store, unit) eff" where
  "doSafeUpdate E key create mutate =
     ebind (Get E key) (\<lambda>origState.
     if create \<and> origState = [] then
       ebind (mutate origState) (\<lambda>newValue.
       ebind (Txn E [KeyMissing key] [OpPut key newValue] [OpGet key]) (\<lambda>(succeeded, rs).
       if succeeded then ret () else update_loop E key mutate (attempts E) (range_kvs (hd rs))))
     else update_loop E key mutate (attempts E) origState)"

definition putIfNotFound :: "etcd \<Rightarrow> string \<Rightarrow> json \<Rightarrow> (store, unit) eff" where
  "putIfNotFound E key d = ebind (Txn E [KeyMissing key] [OpPut key (Json d)] []) (\<lambda>_. ret ())"

definition put_key :: "string \<Rightarrow> gvalue \<Rightarrow> store \<Rightarrow> store" where
  "put_key k v s = put_at (Suc (st_rev s)) k v s"

lemma find_key_put_key [simp]:
  "find_key (put_key k v s) l = (if l = k then Some (v, Suc (st_rev s)) else find_key s l)"
  by (simp add: put_key_def)

lemma st_rev_put_key [simp]: "st_rev (put_key k v s) = Suc (st_rev s)"
  by (simp add: put_key_def)

lemma value_at_put_key [simp]: "value_at (put_key k v s) l = (if l = k then Some v else value_at s l)"
  by (simp add: put_key_def)

lemma range_of_eq_Cons:
  "range_of s [k] = (l, v, r) # kvs \<longleftrightarrow> l = k \<and> kvs = [] \<and> find_key s k = Some (v, r)"
  by (auto simp: range_of_single split: option.splits)

lemma range_of_eq_Nil: "range_of s [k] = [] \<longleftrightarrow> find_key s k = None"
  by (auto simp: range_of_single split: option.splits)

text \<open>A value whose revision did not change did not change.\<close>

lemma same_revision:
  assumes "later s t" and "store_wf s" and "find_key s k = Some (v, r)" and "find_key t k = Some (w, r)"
  shows "w = v"
proof -
  have "r \<le> st_rev s" using assms(2,3) unfolding store_wf_def by blast
  then have "find_key s k = Some (w, r)" using assms(1,4) unfolding later_def by blast
  with assms(3) show ?thesis by simp
qed

text \<open>What the two conditional writes of the loop see and leave.\<close>

lemma apply_modrev:
  "apply_request \<lparr>rq_if = [ModRevisionIs k r], rq_then = [OpPut k v], rq_else = [OpGet k]\<rparr> m =
     (if holds_cmp m (ModRevisionIs k r) then ((True, [Stored []]), put_key k v m)
      else ((False, [Range (range_of m [k])]), m))"
  by (simp add: apply_request_def put_key_def)

lemma apply_missing:
  "apply_request \<lparr>rq_if = [KeyMissing k], rq_then = [OpPut k v], rq_else = [OpGet k]\<rparr> m =
     (if find_key m k = None then ((True, [Stored []]), put_key k v m)
      else ((False, [Range (range_of m [k])]), m))"
  by (simp add: apply_request_def put_key_def Let_def)

text \<open>The value committed is the mutation of the value it replaces.\<close>

definition atomic_update :: "string \<Rightarrow> mutator \<Rightarrow> store \<Rightarrow> store \<Rightarrow> bool" where
  "atomic_update key mutate s t \<longleftrightarrow>
     (\<exists>u new w m. later s u \<and> mutate (range_of m [key]) u = (Inr new, w) \<and> later w m \<and> t = put_key key new m)"

lemma atomic_update_later: "later s s' \<Longrightarrow> atomic_update key mutate s' t \<Longrightarrow> atomic_update key mutate s t"
  unfolding atomic_update_def by (blast intro: later_trans)

context etcd_service
begin

lemma update_loop_atomic:
  assumes mut: "\<And>kvs. evolves (mutate kvs)"
    and "update_loop E key mutate n (range_of s0 [key]) s = (Inr (), t)"
    and "later s0 s" and "store_wf s0"
  shows "atomic_update key mutate s t"
  using assms(2-4)
proof (induction n arbitrary: s0 s)
  case (Suc n)
  from Suc.prems(1) obtain v r where rng: "range_of s0 [key] = [(key, v, r)]" and k0: "find_key s0 key = Some (v, r)"
    by (cases "find_key s0 key") (auto simp: range_of_single split: prod.splits)
  with Suc.prems(1) obtain new w succeeded rs u where
    m: "mutate (range_of s0 [key]) s = (Inr new, w)" and
    q: "Txn E [ModRevisionIs key r] [OpPut key new] [OpGet key] w = (Inr (succeeded, rs), u)" and
    rest: "(if succeeded then ret () else update_loop E key mutate n (range_kvs (hd rs))) u = (Inr (), t)"
    by (auto simp: ebind_eq_Inr)
  have sw: "later s w" using mut m by (rule evolvesD)
  from q obtain c where c: "later w c" and
    app: "apply_request \<lparr>rq_if = [ModRevisionIs key r], rq_then = [OpPut key new], rq_else = [OpGet key]\<rparr> c = ((succeeded, rs), u)"
    by (rule Txn_ok)
  have lc: "later s0 c" using Suc.prems(2) sw c by (blast intro: later_trans)
  show ?case
  proof (cases "holds_cmp c (ModRevisionIs key r)")
    case True
    have "0 < r" using Suc.prems(3) k0 by (auto simp: store_wf_def)
    with True obtain v' where "find_key c key = Some (v', r)" by (auto split: option.splits)
    with same_revision [OF lc Suc.prems(3) k0] k0 have "range_of c [key] = range_of s0 [key]"
      by (simp add: range_of_single)
    moreover have "t = put_key key new c" using app rest True by (auto simp: apply_modrev)
    ultimately show ?thesis using m c unfolding atomic_update_def by (metis later_refl)
  next
    case False
    with app rest have u: "u = c" "update_loop E key mutate n (range_of c [key]) c = (Inr (), t)"
      by (auto simp: apply_modrev simp del: holds_cmp.simps)
    have "store_wf c" using lc Suc.prems(3) by (rule later_wf)
    from Suc.IH [OF u(2) later_refl this] sw c show ?thesis
      by (blast intro: later_trans atomic_update_later)
  qed
qed simp

lemma doSafeUpdate_atomic_service:
  assumes mut: "\<And>kvs. evolves (mutate kvs)"
    and "doSafeUpdate E key create mutate s = (Inr (), t)" and "store_wf s"
  shows "atomic_update key mutate s t"
proof -
  from assms(2) obtain kvs s0 where g0: "Get E key s = (Inr kvs, s0)"
    and rest0: "(if create \<and> kvs = [] then
       ebind (mutate kvs) (\<lambda>newValue.
       ebind (Txn E [KeyMissing key] [OpPut key newValue] [OpGet key]) (\<lambda>(succeeded, rs).
       if succeeded then ret () else update_loop E key mutate (attempts E) (range_kvs (hd rs))))
     else update_loop E key mutate (attempts E) kvs) s0 = (Inr (), t)"
    unfolding doSafeUpdate_def ebind_eq_Inr by blast
  from Get_ok [OF g0] have g: "kvs = range_of s0 [key]" "later s s0" by simp_all
  from rest0 have rest: "(if create \<and> range_of s0 [key] = [] then
       ebind (mutate (range_of s0 [key])) (\<lambda>newValue.
       ebind (Txn E [KeyMissing key] [OpPut key newValue] [OpGet key]) (\<lambda>(succeeded, rs).
       if succeeded then ret () else update_loop E key mutate (attempts E) (range_kvs (hd rs))))
     else update_loop E key mutate (attempts E) (range_of s0 [key])) s0 = (Inr (), t)"
    unfolding g(1) .
  have wf: "store_wf s0" using g(2) assms(3) by (rule later_wf)
  show ?thesis
  proof (cases "create \<and> range_of s0 [key] = []")
    case True
    with rest obtain new w succeeded rs u where
      m: "mutate (range_of s0 [key]) s0 = (Inr new, w)" and
      q: "Txn E [KeyMissing key] [OpPut key new] [OpGet key] w = (Inr (succeeded, rs), u)" and
      r: "(if succeeded then ret () else update_loop E key mutate (attempts E) (range_kvs (hd rs))) u = (Inr (), t)"
      by (auto simp: ebind_eq_Inr)
    have sw: "later s0 w" using mut m by (rule evolvesD)
    from q obtain c where c: "later w c" and
      app: "apply_request \<lparr>rq_if = [KeyMissing key], rq_then = [OpPut key new], rq_else = [OpGet key]\<rparr> c = ((succeeded, rs), u)"
      by (rule Txn_ok)
    show ?thesis
    proof (cases "find_key c key = None")
      case missing: True
      then have "range_of c [key] = range_of s0 [key]" using True by (simp add: range_of_single split: option.splits)
      moreover have "t = put_key key new c" using app r missing by (auto simp: apply_missing)
      ultimately have "atomic_update key mutate s0 t"
        using m c unfolding atomic_update_def by (metis later_refl)
      with g(2) show ?thesis by (rule atomic_update_later)
    next
      case False
      with app r have u: "update_loop E key mutate (attempts E) (range_of c [key]) c = (Inr (), t)"
        by (auto simp: apply_missing)
      have lc: "later s0 c" using sw c by (rule later_trans)
      from update_loop_atomic [OF mut u later_refl later_wf [OF lc wf]] g(2) lc
      show ?thesis by (blast intro: later_trans atomic_update_later)
    qed
  next
    case False
    with rest have "update_loop E key mutate (attempts E) (range_of s0 [key]) s0 = (Inr (), t)" by (simp only: if_False)
    from update_loop_atomic [OF mut this later_refl wf] g(2) show ?thesis by (rule atomic_update_later [rotated])
  qed
qed

lemma evolves_update_loop:
  assumes "\<And>kvs. evolves (mutate kvs)"
  shows "evolves (update_loop E key mutate n kvs)"
  by (induction n arbitrary: kvs) (auto intro!: evolves_intro evolves_ops assms)

lemma evolves_doSafeUpdate:
  assumes "\<And>kvs. evolves (mutate kvs)"
  shows "evolves (doSafeUpdate E key create mutate)"
  unfolding doSafeUpdate_def by (auto intro!: evolves_intro evolves_ops evolves_update_loop assms)

text \<open>Every round that has to be repeated saw a write by somebody else.\<close>

lemma update_loop_fuel:
  assumes mut: "\<And>kvs. evolves (mutate kvs)" and nf: "\<And>kvs s. fst (mutate kvs s) \<noteq> Inl OutOfFuel"
    and "update_loop E key mutate n (range_of s0 [key]) s = (Inl OutOfFuel, t)"
    and "later s0 s" and "store_wf s0"
  shows "st_rev s0 + (n - 1) \<le> st_rev t"
  using assms(3-5)
proof (induction n arbitrary: s0 s)
  case 0
  then show ?case by (simp add: later_def)
next
  case (Suc n)
  from Suc.prems(1) obtain v r where rng: "range_of s0 [key] = [(key, v, r)]" and k0: "find_key s0 key = Some (v, r)"
    by (cases "find_key s0 key") (auto simp: range_of_single split: prod.splits)
  obtain a w where m: "mutate (range_of s0 [key]) s = (a, w)" by (cases "mutate (range_of s0 [key]) s")
  have sw: "later s w" using mut m by (rule evolvesD)
  from nf [of "range_of s0 [key]" s] m have "a \<noteq> Inl OutOfFuel" by simp
  with Suc.prems(1) m rng obtain new where new: "a = Inr new"
    by (cases a) (auto simp: ebind_def)
  obtain b u where q: "Txn E [ModRevisionIs key r] [OpPut key new] [OpGet key] w = (b, u)"
    by (cases "Txn E [ModRevisionIs key r] [OpPut key new] [OpGet key] w")
  have "b \<noteq> Inl OutOfFuel"
    using q by (auto simp: Txn_def Commit_def split: prod.splits sum.splits)
  with Suc.prems(1) m rng new q obtain succeeded rs where b: "b = Inr (succeeded, rs)"
    and rest: "\<not> succeeded" "update_loop E key mutate n (range_kvs (hd rs)) u = (Inl OutOfFuel, t)"
    by (cases b) (auto simp: ebind_def split: if_splits)
  from q b obtain c where c: "later w c" and
    app: "apply_request \<lparr>rq_if = [ModRevisionIs key r], rq_then = [OpPut key new], rq_else = [OpGet key]\<rparr> c = ((succeeded, rs), u)"
    using Txn_ok by metis
  have lc: "later s0 c" using Suc.prems(2) sw c by (blast intro: later_trans)
  from app rest have cmp: "\<not> holds_cmp c (ModRevisionIs key r)" and u: "u = c" "rs = [Range (range_of c [key])]"
    by (auto simp: apply_modrev simp del: holds_cmp.simps split: if_splits)
  have loop: "update_loop E key mutate n (range_of c [key]) c = (Inl OutOfFuel, t)" using rest(2) u by simp
  have grown: "Suc (st_rev s0) \<le> st_rev c" if x: "find_key c key = Some (v', r')" for v' r'
  proof -
    have "0 < r'" using later_wf [OF lc Suc.prems(3)] x by (auto simp: store_wf_def)
    with x cmp have "r' \<noteq> r" by auto
    have "\<not> r' \<le> st_rev s0"
    proof
      assume "r' \<le> st_rev s0"
      then have "find_key s0 key = Some (v', r')" using lc x by (simp add: later_def)
      with k0 \<open>r' \<noteq> r\<close> show False by simp
    qed
    moreover have "r' \<le> st_rev c" using later_wf [OF lc Suc.prems(3)] x by (auto simp: store_wf_def)
    ultimately show ?thesis by simp
  qed
  have t: "st_rev c + (n - 1) \<le> st_rev t"
    using Suc.IH [OF loop later_refl later_wf [OF lc Suc.prems(3)]] .
  show ?case
  proof (cases "find_key c key")
    case None
    with loop t lc show ?thesis by (cases n) (auto simp: range_of_single later_def)
  next
    case (Some x)
    then have "Suc (st_rev s0) \<le> st_rev c" using grown by (cases x) blast
    with t show ?thesis by simp
  qed
qed

end

lemma Txn_no_fuel: "Txn E cs ts es s \<noteq> (Inl OutOfFuel, t)"
  by (auto simp: Txn_def Commit_def split: prod.splits sum.splits)

lemma Get_no_fuel: "Get E k s \<noteq> (Inl OutOfFuel, t)"
  by (cases "Txn E [] [OpGet k] [] s" rule: prod.exhaust; cases "fst (Txn E [] [OpGet k] [] s)")
     (auto simp: Get_def ebind_def Txn_no_fuel split: prod.splits)

context etcd_service
begin

lemma doSafeUpdate_fuel:
  assumes mut: "\<And>kvs. evolves (mutate kvs)" and nf: "\<And>kvs s. fst (mutate kvs s) \<noteq> Inl OutOfFuel"
    and run: "doSafeUpdate E key create mutate s = (Inl OutOfFuel, t)" and wf: "store_wf s"
  shows "st_rev s + (attempts E - 1) \<le> st_rev t"
proof -
  have loop: "st_rev s + (attempts E - 1) \<le> st_rev t"
    if "later s c" "update_loop E key mutate (attempts E) (range_of c [key]) c = (Inl OutOfFuel, t)" for c
    using update_loop_fuel [OF mut nf that(2) later_refl later_wf [OF that(1) wf]] that(1)
    by (simp add: later_def)
  obtain a s0 where g: "Get E key s = (a, s0)" by (cases "Get E key s")
  with Get_no_fuel run obtain kvs where a: "a = Inr kvs"
    by (cases a) (auto simp: doSafeUpdate_def ebind_def)
  from g a Get_ok have s0: "kvs = range_of s0 [key]" "later s s0" by blast+
  show ?thesis
  proof (cases "create \<and> kvs = []")
    case False
    then have "update_loop E key mutate (attempts E) (range_of s0 [key]) s0 = (Inl OutOfFuel, t)"
      using run g a s0(1) by (simp add: doSafeUpdate_def ebind_def split: if_splits)
    with s0(2) show ?thesis by (rule loop)
  next
    case True
    obtain b w where m: "mutate kvs s0 = (b, w)" by (cases "mutate kvs s0")
    with nf [of kvs s0] have "b \<noteq> Inl OutOfFuel" by simp
    with True run g a m obtain new where b: "b = Inr new"
      by (cases b) (auto simp: doSafeUpdate_def ebind_def)
    obtain d u where q: "Txn E [KeyMissing key] [OpPut key new] [OpGet key] w = (d, u)"
      by (cases "Txn E [KeyMissing key] [OpPut key new] [OpGet key] w")
    with Txn_no_fuel True run g a m b obtain ok rs where d: "d = Inr (ok, rs)"
      and rest: "\<not> ok" "update_loop E key mutate (attempts E) (range_kvs (hd rs)) u = (Inl OutOfFuel, t)"
      by (cases d) (auto simp: doSafeUpdate_def ebind_def split: if_splits)
    from q d obtain c where c: "later w c" and
      app: "apply_request \<lparr>rq_if = [KeyMissing key], rq_then = [OpPut key new], rq_else = [OpGet key]\<rparr> c = ((ok, rs), u)"
      using Txn_ok by metis
    have "later s c" using s0(2) evolvesD [OF mut m] c by (blast intro: later_trans)
    moreover have "update_loop E key mutate (attempts E) (range_of c [key]) c = (Inl OutOfFuel, t)"
      using app rest by (auto simp: apply_missing split: if_splits)
    ultimately show ?thesis by (rule loop)
  qed
qed

end

context etcd_quiet
begin

text \<open>With no other writer, one round decides, for a mutation that only reads.\<close>

lemma doSafeUpdate_quiet:
  assumes ro: "mutate (range_of s [key]) s = (r, s)"
  shows "doSafeUpdate E key create mutate s =
    (if find_key s key = None \<and> \<not> create then (Inl (GoErr ''no record found''), s)
     else (case r of Inl e \<Rightarrow> (Inl e, s) | Inr v \<Rightarrow> (Inr (), put_key key v s)))"
proof -
  obtain n where n: "attempts E = Suc n" using some_attempt by (cases "attempts E") auto
  show ?thesis
  proof (cases "find_key s key")
    case None
    with ro n show ?thesis
      by (cases r) (simp_all add: doSafeUpdate_def ebind_def Get_quiet range_of_single Txn_quiet apply_missing)
  next
    case (Some x)
    obtain v rev where x: "x = (v, rev)" by (cases x)
    with Some ro n show ?thesis
      by (cases r) (simp_all add: doSafeUpdate_def ebind_def Get_quiet range_of_single Txn_quiet apply_modrev)
  qed
qed

end

section \<open>Properties of the update loop\<close>

text \<open>C7
  No update is lost: when \<open>doSafeUpdate\<close> succeeds, then whatever other clients wrote in between,
  there is a store \<open>m\<close> at which it committed, the value it wrote is the mutation of exactly the
  value the key had in \<open>m\<close> (or of its absence), and the store it leaves is \<open>m\<close> with only that key
  changed.
\<close>

theorem doSafeUpdate_atomic:
  assumes "etcd_service E" and "store_wf s" and "\<And>kvs. evolves (mutate kvs)"
    and "doSafeUpdate E key create mutate s = (Inr (), t)"
  shows "\<exists>m u w new. later s u \<and> mutate (range_of m [key]) u = (Inr new, w) \<and> later w m \<and>
     value_at t key = Some new \<and> (\<forall>k. k \<noteq> key \<longrightarrow> find_key t k = find_key m k)"
  using etcd_service.doSafeUpdate_atomic_service [OF assms(1,3,4,2)]
  unfolding atomic_update_def by (metis find_key_put_key value_at_put_key)

definition no_store :: store where
  "no_store = \<lparr>st_kvs = [], st_rev = 0\<rparr>"

lemma no_store_simps [simp]: "find_key no_store k = None" "store_wf no_store" "value_at no_store k = None"
  by (simp_all add: no_store_def find_key_def store_wf_def value_at_def)

theorem doSafeUpdate_atomic_witness:
  "\<exists>t. doSafeUpdate etcd_ref ''k'' True (\<lambda>kvs. ret (Json (JNum (int (length kvs))))) no_store = (Inr (), t) \<and>
     value_at t ''k'' = Some (Json (JNum 0))"
proof -
  let ?m = "\<lambda>kvs :: kv list. ret (Json (JNum (int (length kvs)))) :: (store, gvalue) eff"
  have run: "doSafeUpdate etcd_ref ''k'' True ?m no_store = (Inr (), put_key ''k'' (Json (JNum 0)) no_store)"
    using etcd_ref.doSafeUpdate_quiet [of ?m no_store "''k''" "Inr (Json (JNum 0))"] by (simp add: range_of_single)
  have ev: "\<And>kvs. evolves (?m kvs)" by (rule evolves_intro)
  have "value_at (put_key ''k'' (Json (JNum 0)) no_store) ''k'' \<noteq> None"
    using doSafeUpdate_atomic [OF etcd_ref.etcd_service_axioms _ ev run] by auto
  with run show ?thesis by simp
qed

text \<open>C25
  The update loop is lock-free: it can only use up its rounds when other clients kept writing. If
  it has followed \<open>attempts E\<close> rounds without returning, the store has advanced by at least one
  revision in each round but the last.
\<close>

theorem doSafeUpdate_lock_free:
  assumes "etcd_service E" and "store_wf s" and "\<And>kvs. evolves (mutate kvs)"
    and "\<And>kvs u. fst (mutate kvs u) \<noteq> Inl OutOfFuel"
    and "doSafeUpdate E key create mutate s = (Inl OutOfFuel, t)"
  shows "st_rev s + (attempts E - 1) \<le> st_rev t"
  using etcd_service.doSafeUpdate_fuel [OF assms(1,3,4,5,2)] .

text \<open>A service on which another client writes the key before every request.\<close>

definition busy_etcd :: etcd where
  "busy_etcd = etcd_ref\<lparr>commit := (\<lambda>q s. case apply_request q (put_key ''k'' (Text ''other'') s) of (r, t) \<Rightarrow> (Inr r, t)),
     attempts := 2\<rparr>"

lemma later_put_key: "later s (put_key k v s)"
  using apply_request_later [of s "\<lparr>rq_if = [], rq_then = [OpPut k v], rq_else = []\<rparr>"]
  by (simp add: apply_request_def put_key_def)

interpretation busy_etcd: etcd_service busy_etcd
proof
  show "\<exists>m. later s m \<and> apply_request q m = (r, t)" if "commit busy_etcd q s = (Inr r, t)" for q s r t
    using that later_put_key [of s "''k''" "Text ''other''"] by (auto simp: busy_etcd_def split: prod.splits)
  show "later s t" if "commit busy_etcd q s = (Inl e, t)" for q s e t
    using that by (auto simp: busy_etcd_def split: prod.splits)
  show "later s (snd (grant busy_etcd s))" for s by (simp add: busy_etcd_def etcd_ref_def)
qed

theorem doSafeUpdate_lock_free_witness:
  "\<exists>t. doSafeUpdate busy_etcd ''k'' False (\<lambda>_. ret (Text ''v'')) no_store = (Inl OutOfFuel, t) \<and> 1 \<le> st_rev t"
proof -
  let ?p = "put_key ''k'' (Text ''other'')"
  have req: "Txn busy_etcd cs ts es s = (case apply_request \<lparr>rq_if = cs, rq_then = ts, rq_else = es\<rparr> (?p s) of
      (r, t) \<Rightarrow> (Inr r, t))" for cs ts es s
    by (simp add: Txn_def Commit_def busy_etcd_def split: prod.splits)
  have get: "Get busy_etcd ''k'' s = (Inr (range_of (?p s) [''k'']), ?p s)" for s
    by (simp add: Get_def req ebind_def apply_request_def)
  have run: "doSafeUpdate busy_etcd ''k'' False (\<lambda>_. ret (Text ''v'')) no_store = (Inl OutOfFuel, ?p (?p (?p no_store)))"
    by (simp add: doSafeUpdate_def get ebind_def range_of_single req apply_modrev numeral_2_eq_2
        busy_etcd_def [THEN arg_cong, of attempts])
  have "st_rev no_store + (attempts busy_etcd - 1) \<le> st_rev (?p (?p (?p no_store)))"
    by (rule doSafeUpdate_lock_free [OF busy_etcd.etcd_service_axioms _ _ _ run]) (auto intro: evolves_intro)
  with run show ?thesis by (auto simp: busy_etcd_def no_store_def)
qed

text \<open>
  On a key nobody else writes, \<open>doSafeUpdate\<close> returns after one round, for every number of rounds
  followed: with an error when the record is missing and may not be created or when the mutation
  fails, and then nothing is written, and otherwise with the mutated value in place.
\<close>

theorem doSafeUpdate_returns:
  assumes "etcd_quiet E" and "mutate (range_of s [key]) s = (r, s)"
  shows "doSafeUpdate E key create mutate s =
    (if find_key s key = None \<and> \<not> create then (Inl (GoErr ''no record found''), s)
     else (case r of Inl e \<Rightarrow> (Inl e, s) | Inr v \<Rightarrow> (Inr (), put_key key v s)))"
  using etcd_quiet.doSafeUpdate_quiet [of E mutate s key r create] assms by blast

theorem doSafeUpdate_returns_witness:
  "fst (doSafeUpdate etcd_ref ''k'' False (\<lambda>_. ret (Text ''v'')) no_store) = Inl (GoErr ''no record found'')"
  using doSafeUpdate_returns [OF etcd_ref.etcd_quiet_axioms, of "\<lambda>_. ret (Text ''v'')" no_store "''k''" "Inr (Text ''v'')" False]
  by simp

end
