(* ===== verification/DataTypes.thy ===== *)
theory DataTypes
  imports DataCore
begin

text \<open>
  The documents kept in the store: users and devices (internal/data/user.go, devices.go), access
  lists (internal/acls), registration tokens (pkg/control) and their JSON forms. A Go value of a
  field is decoded over the value the field had before, so a decoder takes the initial value.
\<close>

definition dec_struct :: "((string \<times> json) list \<Rightarrow> 'a res) \<Rightarrow> 'a \<Rightarrow> json \<Rightarrow> 'a res" where
  "dec_struct f z j = (case j of JObj ms \<Rightarrow> f ms | JNull \<Rightarrow> Inr z | _ \<Rightarrow> mismatch)"

lemma dec_struct_simps [simp]:
  "dec_struct f z (JObj ms) = f ms" "dec_struct f z JNull = Inr z"
  by (simp_all add: dec_struct_def)

lemmas name_eval = same_name_def to_lower_def to_lower_char_def

section \<open>Users\<close>

record UserModel =
  um_Username :: string
  um_Mfa :: string
  um_MfaType :: string
  um_Locked :: bool
  um_Enforcing :: bool

definition zero_user :: UserModel where
  "zero_user = \<lparr>um_Username = '''', um_Mfa = '''', um_MfaType = '''', um_Locked = False, um_Enforcing = False\<rparr>"

definition enc_user :: "UserModel \<Rightarrow> json" where
  "enc_user u = JObj [(''Username'', JStr (um_Username u)), (''Mfa'', JStr (um_Mfa u)),
     (''MfaType'', JStr (um_MfaType u)), (''Locked'', JBool (um_Locked u)), (''Enforcing'', JBool (um_Enforcing u))]"

definition dec_user :: "UserModel \<Rightarrow> json \<Rightarrow> UserModel res" where
  "dec_user z = dec_struct (\<lambda>ms.
     rbind (dec_field dec_string ''Username'' (um_Username z) ms) (\<lambda>a.
     rbind (dec_field dec_string ''Mfa'' (um_Mfa z) ms) (\<lambda>b.
     rbind (dec_field dec_string ''MfaType'' (um_MfaType z) ms) (\<lambda>c.
     rbind (dec_field dec_bool ''Locked'' (um_Locked z) ms) (\<lambda>d.
     rbind (dec_field dec_bool ''Enforcing'' (um_Enforcing z) ms) (\<lambda>e.
     Inr \<lparr>um_Username = a, um_Mfa = b, um_MfaType = c, um_Locked = d, um_Enforcing = e\<rparr>)))))) z"

lemma dec_enc_user [simp]: "dec_user z (enc_user u) = Inr u"
  by (simp add: dec_user_def enc_user_def name_eval)

text \<open>The SHA-1 digest that stands for a user in the kernel is the parameter of \<open>GetID\<close>.\<close>

definition UserModel_GetID :: "(string \<Rightarrow> bytes) \<Rightarrow> UserModel \<Rightarrow> bytes" where
  "UserModel_GetID sha1 um = sha1 (um_Username um)"

section \<open>Devices\<close>

record udp_addr =
  ua_IP :: "goip option"
  ua_Port :: int
  ua_Zone :: string

definition enc_ip :: "goip option \<Rightarrow> json" where
  "enc_ip a = (case a of None \<Rightarrow> JStr '''' | Some ip \<Rightarrow> JAddr ip)"

fun dec_ip :: "json \<Rightarrow> goip option res" where
  "dec_ip (JAddr ip) = Inr (Some ip)"
| "dec_ip (JStr t) = (if t = '''' then Inr None else mismatch)"
| "dec_ip _ = mismatch"

definition enc_udp :: "udp_addr option \<Rightarrow> json" where
  "enc_udp a = (case a of None \<Rightarrow> JNull
     | Some u \<Rightarrow> JObj [(''IP'', enc_ip (ua_IP u)), (''Port'', JNum (ua_Port u)), (''Zone'', JStr (ua_Zone u))])"

definition dec_udp :: "json \<Rightarrow> udp_addr option res" where
  "dec_udp = dec_struct (\<lambda>ms.
     rbind (dec_field dec_ip ''IP'' None ms) (\<lambda>a.
     rbind (dec_field dec_int ''Port'' 0 ms) (\<lambda>b.
     rbind (dec_field dec_string ''Zone'' '''' ms) (\<lambda>c.
     Inr (Some \<lparr>ua_IP = a, ua_Port = b, ua_Zone = c\<rparr>))))) None"

record Device =
  dv_Version :: int
  dv_Address :: string
  dv_Publickey :: string
  dv_Username :: string
  dv_PresharedKey :: string
  dv_Endpoint :: "udp_addr option"
  dv_Attempts :: int
  dv_Active :: bool
  dv_Authorised :: int
  dv_Challenge :: string
  dv_AssociatedNode :: u64

definition zero_device :: Device where
  "zero_device = \<lparr>dv_Version = 0, dv_Address = '''', dv_Publickey = '''', dv_Username = '''', dv_PresharedKey = '''',
     dv_Endpoint = None, dv_Attempts = 0, dv_Active = False, dv_Authorised = 0, dv_Challenge = '''',
     dv_AssociatedNode = 0\<rparr>"

definition enc_device :: "Device \<Rightarrow> json" where
  "enc_device d = JObj [(''Version'', JNum (dv_Version d)), (''Address'', JStr (dv_Address d)),
     (''Publickey'', JStr (dv_Publickey d)), (''Username'', JStr (dv_Username d)),
     (''PresharedKey'', JStr (dv_PresharedKey d)), (''Endpoint'', enc_udp (dv_Endpoint d)),
     (''Attempts'', JNum (dv_Attempts d)), (''Active'', JBool (dv_Active d)),
     (''Authorised'', JTime (dv_Authorised d)), (''Challenge'', JStr (dv_Challenge d)),
     (''AssociatedNode'', JNum (uint (dv_AssociatedNode d)))]"

definition dec_device :: "json \<Rightarrow> Device res" where
  "dec_device = dec_struct (\<lambda>ms.
     rbind (dec_field dec_int ''Version'' 0 ms) (\<lambda>a.
     rbind (dec_field dec_string ''Address'' '''' ms) (\<lambda>b.
     rbind (dec_field dec_string ''Publickey'' '''' ms) (\<lambda>c.
     rbind (dec_field dec_string ''Username'' '''' ms) (\<lambda>d.
     rbind (dec_field dec_string ''PresharedKey'' '''' ms) (\<lambda>e.
     rbind (dec_field dec_udp ''Endpoint'' None ms) (\<lambda>f.
     rbind (dec_field dec_int ''Attempts'' 0 ms) (\<lambda>g.
     rbind (dec_field dec_bool ''Active'' False ms) (\<lambda>h.
     rbind (dec_field dec_time ''Authorised'' 0 ms) (\<lambda>i.
     rbind (dec_field dec_string ''Challenge'' '''' ms) (\<lambda>j.
     rbind (dec_field dec_u64 ''AssociatedNode'' 0 ms) (\<lambda>k.
     Inr \<lparr>dv_Version = a, dv_Address = b, dv_Publickey = c, dv_Username = d, dv_PresharedKey = e,
          dv_Endpoint = f, dv_Attempts = g, dv_Active = h, dv_Authorised = i, dv_Challenge = j,
          dv_AssociatedNode = k\<rparr>)))))))))))) zero_device"

text \<open>The values that fit the machine types of the fields; every operation stores such values.\<close>

definition int64 :: "int \<Rightarrow> bool" where
  "int64 i \<longleftrightarrow> - (2 ^ 63) \<le> i \<and> i < 2 ^ 63"

definition device_ok :: "Device \<Rightarrow> bool" where
  "device_ok d \<longleftrightarrow> int64 (dv_Version d) \<and> int64 (dv_Attempts d) \<and>
     (case dv_Endpoint d of None \<Rightarrow> True | Some u \<Rightarrow> int64 (ua_Port u))"

lemma dec_enc_ip [simp]: "dec_or dec_ip None (enc_ip a) = Inr a"
  by (cases a) (simp_all add: enc_ip_def)

lemma dec_enc_udp [simp]:
  "(case a of None \<Rightarrow> True | Some u \<Rightarrow> int64 (ua_Port u)) \<Longrightarrow> dec_or dec_udp None (enc_udp a) = Inr a"
  by (cases a) (simp_all add: enc_udp_def dec_udp_def name_eval int64_def)

lemma uint_u64 [simp]: "uint (w :: u64) < 18446744073709551616"
  using uint_lt2p [of w] by simp

lemma dec_enc_device [simp]: "device_ok d \<Longrightarrow> dec_device (enc_device d) = Inr d"
  by (simp add: dec_device_def enc_device_def name_eval device_ok_def int64_def [symmetric] del: dec_or.simps)
     (simp add: int64_def)

definition deviceKey :: "string \<Rightarrow> string \<Rightarrow> string" where
  "deviceKey username address = ''devices-'' @ username @ ''-'' @ address"

section \<open>Access lists and registration tokens\<close>

record Acl =
  acl_Mfa :: "string list"
  acl_Allow :: "string list"
  acl_Deny :: "string list"

definition zero_acl :: Acl where
  "zero_acl = \<lparr>acl_Mfa = [], acl_Allow = [], acl_Deny = []\<rparr>"

definition omit_empty :: "string \<Rightarrow> string list \<Rightarrow> (string \<times> json) list" where
  "omit_empty n xs = (if xs = [] then [] else [(n, enc_strings xs)])"

definition enc_acl :: "Acl \<Rightarrow> json" where
  "enc_acl a = JObj (omit_empty ''Mfa'' (acl_Mfa a) @ omit_empty ''Allow'' (acl_Allow a) @ omit_empty ''Deny'' (acl_Deny a))"

definition dec_strings :: "json \<Rightarrow> string list res" where
  "dec_strings = dec_list dec_string ''''"

definition dec_acl :: "json \<Rightarrow> Acl res" where
  "dec_acl = dec_struct (\<lambda>ms.
     rbind (dec_field dec_strings ''Mfa'' [] ms) (\<lambda>a.
     rbind (dec_field dec_strings ''Allow'' [] ms) (\<lambda>b.
     rbind (dec_field dec_strings ''Deny'' [] ms) (\<lambda>c.
     Inr \<lparr>acl_Mfa = a, acl_Allow = b, acl_Deny = c\<rparr>)))) zero_acl"

lemma dec_strings_enc_strings [simp]: "dec_strings (enc_strings xs) = Inr xs"
  by (simp add: dec_strings_def)

lemma dec_or_strings [simp]: "dec_or dec_strings z (enc_strings xs) = Inr xs"
  by (simp add: enc_strings_def) (simp add: enc_strings_def [symmetric])

lemma dec_enc_acl [simp]: "dec_acl (enc_acl a) = Inr a"
  by (simp add: dec_acl_def enc_acl_def omit_empty_def name_eval)

record RegistrationResult =
  rr_Token :: string
  rr_Username :: string
  rr_Groups :: "string list"
  rr_Overwrites :: string
  rr_NumUses :: int

definition zero_token :: RegistrationResult where
  "zero_token = \<lparr>rr_Token = '''', rr_Username = '''', rr_Groups = [], rr_Overwrites = '''', rr_NumUses = 0\<rparr>"

definition enc_token :: "RegistrationResult \<Rightarrow> json" where
  "enc_token r = JObj [(''Token'', JStr (rr_Token r)), (''Username'', JStr (rr_Username r)),
     (''Groups'', enc_strings (rr_Groups r)), (''Overwrites'', JStr (rr_Overwrites r)), (''NumUses'', JNum (rr_NumUses r))]"

definition dec_token :: "json \<Rightarrow> RegistrationResult res" where
  "dec_token = dec_struct (\<lambda>ms.
     rbind (dec_field dec_string ''Token'' '''' ms) (\<lambda>a.
     rbind (dec_field dec_string ''Username'' '''' ms) (\<lambda>b.
     rbind (dec_field dec_strings ''Groups'' [] ms) (\<lambda>c.
     rbind (dec_field dec_string ''Overwrites'' '''' ms) (\<lambda>d.
     rbind (dec_field dec_int ''NumUses'' 0 ms) (\<lambda>e.
     Inr \<lparr>rr_Token = a, rr_Username = b, rr_Groups = c, rr_Overwrites = d, rr_NumUses = e\<rparr>)))))) zero_token"

lemma dec_enc_token [simp]: "int64 (rr_NumUses r) \<Longrightarrow> dec_token (enc_token r) = Inr r"
  by (simp add: dec_token_def enc_token_def name_eval int64_def)

text \<open>Reading one document of a list of results, as the loops over \<open>Kvs\<close> do.\<close>

definition decode_all :: "(json \<Rightarrow> 'a res) \<Rightarrow> kv list \<Rightarrow> 'a list res" where
  "decode_all d kvs = rmap (\<lambda>(k, v, r). unmarshal d v) kvs"

end
