(* ===== verification/DataSettings.thy ===== *)
theory DataSettings
  imports DataTypes
begin

text \<open>
  internal/data/config.go: the settings of the cluster, one key each. Validation is done by a
  third-party validator, a parameter here; what the code does before it, trimming, is modelled.
\<close>

section \<open>Keys\<close>

definition fullJsonConfigKey :: string where "fullJsonConfigKey = ''wag-config-full''"
definition helpMailKey :: string where "helpMailKey = ''wag-config-general-help-mail''"
definition defaultWGFileNameKey :: string where "defaultWGFileNameKey = ''wag-config-general-wg-filename''"
definition checkUpdatesKey :: string where "checkUpdatesKey = ''wag-config-general-check-updates''"
definition InactivityTimeoutKey :: string where "InactivityTimeoutKey = ''wag-config-authentication-inactivity-timeout''"
definition SessionLifetimeKey :: string where "SessionLifetimeKey = ''wag-config-authentication-max-session-lifetime''"
definition LockoutKey :: string where "LockoutKey = ''wag-config-authentication-lockout''"
definition IssuerKey :: string where "IssuerKey = ''wag-config-authentication-issuer''"
definition DomainKey :: string where "DomainKey = ''wag-config-authentication-domain''"
definition MFAMethodsEnabledKey :: string where "MFAMethodsEnabledKey = ''wag-config-authentication-methods''"
definition DefaultMFAMethodKey :: string where "DefaultMFAMethodKey = ''wag-config-authentication-default-method''"
definition OidcDetailsKey :: string where "OidcDetailsKey = ''wag-config-authentication-oidc''"
definition PamDetailsKey :: string where "PamDetailsKey = ''wag-config-authentication-pam''"
definition externalAddressKey :: string where "externalAddressKey = ''wag-config-network-external-address''"
definition dnsKey :: string where "dnsKey = ''wag-config-network-dns''"
definition MembershipKey :: string where "MembershipKey = ''wag-membership''"

lemmas setting_keys = fullJsonConfigKey_def helpMailKey_def defaultWGFileNameKey_def checkUpdatesKey_def
  InactivityTimeoutKey_def SessionLifetimeKey_def LockoutKey_def IssuerKey_def DomainKey_def
  MFAMethodsEnabledKey_def DefaultMFAMethodKey_def OidcDetailsKey_def PamDetailsKey_def
  externalAddressKey_def dnsKey_def MembershipKey_def

section \<open>Single settings\<close>

text \<open>A value with a key of its own, which has to be there.\<close>

definition get_setting :: "(json \<Rightarrow> 'a res) \<Rightarrow> 'a \<Rightarrow> etcd \<Rightarrow> string \<Rightarrow> (store, 'a) eff" where
  "get_setting d z E key =
     ebind (Get E key) (\<lambda>kvs. case kvs of
        [(_, v, _)] \<Rightarrow> lift (unmarshal (dec_or d z) v)
      | _ \<Rightarrow> raise (''incorrect number of '' @ key @ '' keys''))"

definition getString :: "etcd \<Rightarrow> string \<Rightarrow> (store, string) eff" where
  "getString = get_setting dec_string ''''"

definition getInt :: "etcd \<Rightarrow> string \<Rightarrow> (store, int) eff" where
  "getInt = get_setting dec_int 0"

record OIDC =
  oidc_IssuerURL :: string
  oidc_ClientSecret :: string
  oidc_ClientID :: string
  oidc_GroupsClaimName :: string
  oidc_DeviceUsernameClaim :: string
  oidc_Scopes :: "string list"

definition zero_oidc :: OIDC where
  "zero_oidc = \<lparr>oidc_IssuerURL = '''', oidc_ClientSecret = '''', oidc_ClientID = '''', oidc_GroupsClaimName = '''',
     oidc_DeviceUsernameClaim = '''', oidc_Scopes = []\<rparr>"

definition enc_oidc :: "OIDC \<Rightarrow> json" where
  "enc_oidc x = JObj ([(''IssuerURL'', JStr (oidc_IssuerURL x)), (''ClientSecret'', JStr (oidc_ClientSecret x)),
     (''ClientID'', JStr (oidc_ClientID x)), (''GroupsClaimName'', JStr (oidc_GroupsClaimName x))] @
     (if oidc_DeviceUsernameClaim x = '''' then [] else [(''DeviceUsernameClaim'', JStr (oidc_DeviceUsernameClaim x))]) @
     omit_empty ''scopes'' (oidc_Scopes x))"

definition dec_oidc :: "OIDC \<Rightarrow> json \<Rightarrow> OIDC res" where
  "dec_oidc z = dec_struct (\<lambda>ms.
     rbind (dec_field dec_string ''IssuerURL'' (oidc_IssuerURL z) ms) (\<lambda>a.
     rbind (dec_field dec_string ''ClientSecret'' (oidc_ClientSecret z) ms) (\<lambda>b.
     rbind (dec_field dec_string ''ClientID'' (oidc_ClientID z) ms) (\<lambda>c.
     rbind (dec_field dec_string ''GroupsClaimName'' (oidc_GroupsClaimName z) ms) (\<lambda>d.
     rbind (dec_field dec_string ''DeviceUsernameClaim'' (oidc_DeviceUsernameClaim z) ms) (\<lambda>e.
     rbind (dec_field dec_strings ''scopes'' (oidc_Scopes z) ms) (\<lambda>f.
     Inr \<lparr>oidc_IssuerURL = a, oidc_ClientSecret = b, oidc_ClientID = c, oidc_GroupsClaimName = d,
          oidc_DeviceUsernameClaim = e, oidc_Scopes = f\<rparr>))))))) z"

record PAM =
  pam_ServiceName :: string

definition enc_pam :: "PAM \<Rightarrow> json" where
  "enc_pam x = JObj [(''ServiceName'', JStr (pam_ServiceName x))]"

definition dec_pam :: "PAM \<Rightarrow> json \<Rightarrow> PAM res" where
  "dec_pam z = dec_struct (\<lambda>ms.
     rbind (dec_field dec_string ''ServiceName'' (pam_ServiceName z) ms) (\<lambda>a. Inr \<lparr>pam_ServiceName = a\<rparr>)) z"

definition GetPAM :: "etcd \<Rightarrow> (store, PAM) eff" where
  "GetPAM E = ebind (Get E PamDetailsKey) (\<lambda>kvs. case kvs of
      [] \<Rightarrow> raise ''no PAM settings found''
    | (_, v, _) # _ \<Rightarrow> lift (unmarshal (dec_pam \<lparr>pam_ServiceName = ''''\<rparr>) v))"

definition GetOidc :: "etcd \<Rightarrow> (store, OIDC) eff" where
  "GetOidc E = ebind (Get E OidcDetailsKey) (\<lambda>kvs. case kvs of
      [] \<Rightarrow> raise ''no oidc settings found''
    | (_, v, _) # _ \<Rightarrow> lift (unmarshal (dec_oidc zero_oidc) v))"

definition GetWireguardConfigName :: "etcd \<Rightarrow> (store, string) eff" where
  "GetWireguardConfigName E =
     on_error (ebind (getString E defaultWGFileNameKey) (\<lambda>k. ret (if k = '''' then ''wg0.conf'' else k)))
       (\<lambda>_. ret ''wg0.conf'')"

definition SetDefaultMfaMethod :: "etcd \<Rightarrow> string \<Rightarrow> (store, unit) eff" where
  "SetDefaultMfaMethod E method = Put E DefaultMFAMethodKey (Json (JStr method))"

definition GetDefaultMfaMethod :: "etcd \<Rightarrow> (store, string) eff" where
  "GetDefaultMfaMethod E = getString E DefaultMFAMethodKey"

definition SetAuthenticationMethods :: "etcd \<Rightarrow> string list \<Rightarrow> (store, unit) eff" where
  "SetAuthenticationMethods E methods = Put E MFAMethodsEnabledKey (Json (enc_strings methods))"

definition GetAuthenicationMethods :: "etcd \<Rightarrow> (store, string list) eff" where
  "GetAuthenicationMethods E = get_setting dec_strings [] E MFAMethodsEnabledKey"

text \<open>The first entry is read before their number is checked, so a missing key panics.\<close>

definition ShouldCheckUpdates :: "etcd \<Rightarrow> (store, bool) eff" where
  "ShouldCheckUpdates E = ebind (Get E checkUpdatesKey) (\<lambda>kvs. case kvs of
      [] \<Rightarrow> panic ''index out of range''
    | (_, v, _) # rest \<Rightarrow> ebind (lift (unmarshal (dec_or dec_bool False) v)) (\<lambda>b.
        if rest \<noteq> [] then raise (''incorrect number of '' @ checkUpdatesKey @ '' keys'') else ret b))"

definition GetDomain :: "etcd \<Rightarrow> (store, string) eff" where
  "GetDomain E = getString E DomainKey"

definition SetIssuer :: "etcd \<Rightarrow> string \<Rightarrow> (store, unit) eff" where
  "SetIssuer E issuer = Put E IssuerKey (Json (JStr issuer))"

definition GetIssuer :: "etcd \<Rightarrow> (store, string) eff" where
  "GetIssuer E = getString E IssuerKey"

definition SetHelpMail :: "etcd \<Rightarrow> string \<Rightarrow> (store, unit) eff" where
  "SetHelpMail E helpMail = Put E helpMailKey (Json (JStr helpMail))"

definition GetHelpMail :: "etcd \<Rightarrow> (store, string) eff" where
  "GetHelpMail E = on_error (getString E helpMailKey) (\<lambda>_. ret ''Server Error'')"

definition GetExternalAddress :: "etcd \<Rightarrow> (store, string) eff" where
  "GetExternalAddress E = getString E externalAddressKey"

definition SetDNS :: "etcd \<Rightarrow> string list \<Rightarrow> (store, unit) eff" where
  "SetDNS E dns = Put E dnsKey (Json (enc_strings dns))"

definition GetDNS :: "etcd \<Rightarrow> (store, string list) eff" where
  "GetDNS E = get_setting dec_strings [] E dnsKey"

definition SetSessionLifetimeMinutes :: "etcd \<Rightarrow> int \<Rightarrow> (store, unit) eff" where
  "SetSessionLifetimeMinutes E lifetimeMinutes = Put E SessionLifetimeKey (Json (JNum lifetimeMinutes))"

definition GetSessionLifetimeMinutes :: "etcd \<Rightarrow> (store, int) eff" where
  "GetSessionLifetimeMinutes E = getInt E SessionLifetimeKey"

definition SetSessionInactivityTimeoutMinutes :: "etcd \<Rightarrow> int \<Rightarrow> (store, unit) eff" where
  "SetSessionInactivityTimeoutMinutes E InactivityTimeout = Put E InactivityTimeoutKey (Json (JNum InactivityTimeout))"

definition GetSessionInactivityTimeoutMinutes :: "etcd \<Rightarrow> (store, int) eff" where
  "GetSessionInactivityTimeoutMinutes E = getInt E InactivityTimeoutKey"

definition GetLockout :: "etcd \<Rightarrow> (store, int) eff" where
  "GetLockout E = getInt E LockoutKey"

section \<open>Groups of settings\<close>

record LoginSettings =
  ls_SessionInactivityTimeoutMinutes :: int
  ls_MaxSessionLifetimeMinutes :: int
  ls_Lockout :: int
  ls_DefaultMFAMethod :: string
  ls_EnabledMFAMethods :: "string list"
  ls_Domain :: string
  ls_Issuer :: string
  ls_OidcDetails :: OIDC
  ls_PamDetails :: PAM

record GeneralSettings =
  gs_HelpMail :: string
  gs_ExternalAddress :: string
  gs_DNS :: "string list"
  gs_WireguardConfigFilename :: string
  gs_CheckUpdates :: bool

record AllSettings =
  as_LoginSettings :: LoginSettings
  as_GeneralSettings :: GeneralSettings

definition LoginSettings_Validate :: "(LoginSettings \<Rightarrow> error option) \<Rightarrow> LoginSettings \<Rightarrow> LoginSettings res" where
  "LoginSettings_Validate validate lg =
     (let lg = lg\<lparr>ls_Domain := trim_space (ls_Domain lg), ls_Issuer := trim_space (ls_Issuer lg)\<rparr>
      in case validate lg of Some e \<Rightarrow> Inl (GoErr e) | None \<Rightarrow> Inr lg)"

definition LoginSettings_ToWriteOps :: "(LoginSettings \<Rightarrow> error option) \<Rightarrow> LoginSettings \<Rightarrow> etcd_op list res" where
  "LoginSettings_ToWriteOps validate lg = rbind (LoginSettings_Validate validate lg) (\<lambda>lg. Inr
     [OpPut InactivityTimeoutKey (Json (JNum (ls_SessionInactivityTimeoutMinutes lg))),
      OpPut SessionLifetimeKey (Json (JNum (ls_MaxSessionLifetimeMinutes lg))),
      OpPut LockoutKey (Json (JNum (ls_Lockout lg))),
      OpPut DefaultMFAMethodKey (Json (JStr (ls_DefaultMFAMethod lg))),
      OpPut MFAMethodsEnabledKey (Json (enc_strings (ls_EnabledMFAMethods lg))),
      OpPut DomainKey (Json (JStr (ls_Domain lg))),
      OpPut IssuerKey (Json (JStr (ls_Issuer lg))),
      OpPut OidcDetailsKey (Json (enc_oidc (ls_OidcDetails lg))),
      OpPut PamDetailsKey (Json (enc_pam (ls_PamDetails lg)))])"

definition GeneralSettings_Validate :: "(GeneralSettings \<Rightarrow> error option) \<Rightarrow> GeneralSettings \<Rightarrow> GeneralSettings res" where
  "GeneralSettings_Validate validate gs =
     (let gs = gs\<lparr>gs_HelpMail := trim_space (gs_HelpMail gs), gs_ExternalAddress := trim_space (gs_ExternalAddress gs),
                  gs_WireguardConfigFilename := trim_space (gs_WireguardConfigFilename gs),
                  gs_DNS := map trim_space (gs_DNS gs)\<rparr>
      in case validate gs of Some e \<Rightarrow> Inl (GoErr e) | None \<Rightarrow> Inr gs)"

definition GeneralSettings_ToWriteOps :: "(GeneralSettings \<Rightarrow> error option) \<Rightarrow> GeneralSettings \<Rightarrow> etcd_op list res" where
  "GeneralSettings_ToWriteOps validate gs = rbind (GeneralSettings_Validate validate gs) (\<lambda>gs. Inr
     [OpPut helpMailKey (Json (JStr (gs_HelpMail gs))),
      OpPut externalAddressKey (Json (JStr (gs_ExternalAddress gs))),
      OpPut dnsKey (Json (enc_strings (gs_DNS gs))),
      OpPut defaultWGFileNameKey (Json (JStr (gs_WireguardConfigFilename gs))),
      OpPut checkUpdatesKey (Json (JBool (gs_CheckUpdates gs)))])"

definition SetLoginSettings :: "(LoginSettings \<Rightarrow> error option) \<Rightarrow> etcd \<Rightarrow> LoginSettings \<Rightarrow> (store, unit) eff" where
  "SetLoginSettings validate E loginSettings =
     ebind (lift (LoginSettings_ToWriteOps validate loginSettings)) (\<lambda>writeOps.
     ebind (Txn E [] writeOps []) (\<lambda>_. ret ()))"

definition SetGeneralSettings :: "(GeneralSettings \<Rightarrow> error option) \<Rightarrow> etcd \<Rightarrow> GeneralSettings \<Rightarrow> (store, unit) eff" where
  "SetGeneralSettings validate E generalSettings =
     ebind (lift (GeneralSettings_ToWriteOps validate generalSettings)) (\<lambda>writeOps.
     ebind (Txn E [] writeOps []) (\<lambda>_. ret ()))"

text \<open>One of the answers of a read: the value when there is one entry, else the zero value.\<close>

definition read_one :: "(json \<Rightarrow> 'a res) \<Rightarrow> 'a \<Rightarrow> op_result \<Rightarrow> 'a res" where
  "read_one d z r = (case range_kvs r of [(_, v, _)] \<Rightarrow> unmarshal (dec_or d z) v | _ \<Rightarrow> Inr z)"

definition GetAllSettings :: "etcd \<Rightarrow> (store, AllSettings) eff" where
  "GetAllSettings E =
     ebind (Txn E [] (map OpGet [helpMailKey, externalAddressKey, InactivityTimeoutKey, SessionLifetimeKey,
        LockoutKey, dnsKey, IssuerKey, DomainKey, DefaultMFAMethodKey, MFAMethodsEnabledKey, checkUpdatesKey,
        OidcDetailsKey, PamDetailsKey, defaultWGFileNameKey]) []) (\<lambda>(_, rs). lift (
     rbind (read_one dec_string '''' (rs ! 0)) (\<lambda>help.
     rbind (read_one dec_string '''' (rs ! 1)) (\<lambda>external.
     rbind (read_one dec_int 0 (rs ! 2)) (\<lambda>inactivity.
     rbind (read_one dec_int 0 (rs ! 3)) (\<lambda>lifetime.
     rbind (read_one dec_int 0 (rs ! 4)) (\<lambda>lockout.
     rbind (read_one dec_strings [] (rs ! 5)) (\<lambda>dns.
     rbind (read_one dec_string '''' (rs ! 6)) (\<lambda>issuer.
     rbind (read_one dec_string '''' (rs ! 7)) (\<lambda>domain.
     rbind (read_one dec_string '''' (rs ! 8)) (\<lambda>method.
     rbind (read_one dec_strings [] (rs ! 9)) (\<lambda>methods.
     rbind (read_one dec_bool False (rs ! 10)) (\<lambda>updates.
     rbind (case range_kvs (rs ! 11) of
         [(_, v, _)] \<Rightarrow> unmarshal (dec_oidc (zero_oidc\<lparr>oidc_GroupsClaimName := ''groups''\<rparr>)) v
       | _ \<Rightarrow> Inr zero_oidc) (\<lambda>oidc.
     rbind (read_one (dec_pam \<lparr>pam_ServiceName = ''''\<rparr>) \<lparr>pam_ServiceName = ''''\<rparr> (rs ! 12)) (\<lambda>pam.
     rbind (read_one dec_string '''' (rs ! 13)) (\<lambda>filename.
     Inr \<lparr>as_LoginSettings = \<lparr>ls_SessionInactivityTimeoutMinutes = inactivity, ls_MaxSessionLifetimeMinutes = lifetime,
            ls_Lockout = lockout, ls_DefaultMFAMethod = method, ls_EnabledMFAMethods = methods, ls_Domain = domain,
            ls_Issuer = issuer, ls_OidcDetails = oidc, ls_PamDetails = pam\<rparr>,
          as_GeneralSettings = \<lparr>gs_HelpMail = help, gs_ExternalAddress = external, gs_DNS = dns,
            gs_WireguardConfigFilename = filename, gs_CheckUpdates = updates\<rparr>\<rparr>))))))))))))))))"

section \<open>What is written is what is read\<close>

lemma dec_enc_oidc [simp]: "dec_oidc (zero_oidc\<lparr>oidc_GroupsClaimName := g\<rparr>) (enc_oidc x) = Inr x"
  by (simp add: dec_oidc_def enc_oidc_def omit_empty_def name_eval zero_oidc_def)

lemma dec_or_enc_pam [simp]: "dec_or (dec_pam z) z (enc_pam x) = Inr x"
  by (simp add: dec_pam_def enc_pam_def name_eval)

definition login_ok :: "LoginSettings \<Rightarrow> bool" where
  "login_ok lg \<longleftrightarrow> int64 (ls_SessionInactivityTimeoutMinutes lg) \<and> int64 (ls_MaxSessionLifetimeMinutes lg) \<and>
     int64 (ls_Lockout lg)"

text \<open>A store whose settings are those of a record.\<close>

definition stores_login :: "store \<Rightarrow> LoginSettings \<Rightarrow> bool" where
  "stores_login s lg \<longleftrightarrow>
     value_at s InactivityTimeoutKey = Some (Json (JNum (ls_SessionInactivityTimeoutMinutes lg))) \<and>
     value_at s SessionLifetimeKey = Some (Json (JNum (ls_MaxSessionLifetimeMinutes lg))) \<and>
     value_at s LockoutKey = Some (Json (JNum (ls_Lockout lg))) \<and>
     value_at s DefaultMFAMethodKey = Some (Json (JStr (ls_DefaultMFAMethod lg))) \<and>
     value_at s MFAMethodsEnabledKey = Some (Json (enc_strings (ls_EnabledMFAMethods lg))) \<and>
     value_at s DomainKey = Some (Json (JStr (ls_Domain lg))) \<and>
     value_at s IssuerKey = Some (Json (JStr (ls_Issuer lg))) \<and>
     value_at s OidcDetailsKey = Some (Json (enc_oidc (ls_OidcDetails lg))) \<and>
     value_at s PamDetailsKey = Some (Json (enc_pam (ls_PamDetails lg)))"

definition stores_general :: "store \<Rightarrow> GeneralSettings \<Rightarrow> bool" where
  "stores_general s gs \<longleftrightarrow>
     value_at s helpMailKey = Some (Json (JStr (gs_HelpMail gs))) \<and>
     value_at s externalAddressKey = Some (Json (JStr (gs_ExternalAddress gs))) \<and>
     value_at s dnsKey = Some (Json (enc_strings (gs_DNS gs))) \<and>
     value_at s defaultWGFileNameKey = Some (Json (JStr (gs_WireguardConfigFilename gs))) \<and>
     value_at s checkUpdatesKey = Some (Json (JBool (gs_CheckUpdates gs)))"

lemma range_of_value_at:
  "value_at s k = Some v \<Longrightarrow> \<exists>r. range_of s [k] = [(k, v, r)]"
  by (auto simp: value_at_def range_of_single split: option.splits prod.splits)

lemma read_one_get:
  "value_at s k = Some (Json j) \<Longrightarrow> read_one d z (Range (range_of s [k])) = dec_or d z j"
  using range_of_value_at by (fastforce simp: read_one_def)

lemma run_gets: "run_ops n (map OpGet ks) s = (map (\<lambda>k. Range (range_of s [k])) ks, s)"
  by (induction ks) simp_all

definition puts :: "(string \<times> gvalue) list \<Rightarrow> etcd_op list" where
  "puts kvs = map (\<lambda>(k, v). OpPut k v) kvs"

lemma run_puts:
  "value_at (snd (run_ops n (puts kvs) s)) l = (case map_of (rev kvs) l of Some v \<Rightarrow> Some v | None \<Rightarrow> value_at s l)"
proof (induction kvs arbitrary: s)
  case (Cons kv kvs)
  obtain k v where kv: "kv = (k, v)" by (cases kv)
  have "snd (run_ops n (puts (kv # kvs)) s) = snd (run_ops n (puts kvs) (put_at n k v s))"
    by (simp add: puts_def kv split: prod.splits)
  then show ?case
    by (auto simp: Cons.IH kv map_add_def split: option.splits)
qed (simp add: puts_def)

lemma Txn_puts:
  assumes "etcd_quiet E"
  obtains t where "ebind (Txn E [] (puts kvs) []) (\<lambda>_. ret ()) s = (Inr (), t)"
    and "\<And>l. value_at t l = (case map_of (rev kvs) l of Some v \<Rightarrow> Some v | None \<Rightarrow> value_at s l)"
proof (rule that)
  show "ebind (Txn E [] (puts kvs) []) (\<lambda>_. ret ()) s = (Inr (), snd (run_ops (Suc (st_rev s)) (puts kvs) s))"
    by (simp add: ebind_def etcd_quiet.Txn_quiet [OF assms] apply_request_def split: prod.splits)
qed (rule run_puts)

definition login_puts :: "LoginSettings \<Rightarrow> (string \<times> gvalue) list" where
  "login_puts lg =
     [(InactivityTimeoutKey, Json (JNum (ls_SessionInactivityTimeoutMinutes lg))),
      (SessionLifetimeKey, Json (JNum (ls_MaxSessionLifetimeMinutes lg))),
      (LockoutKey, Json (JNum (ls_Lockout lg))),
      (DefaultMFAMethodKey, Json (JStr (ls_DefaultMFAMethod lg))),
      (MFAMethodsEnabledKey, Json (enc_strings (ls_EnabledMFAMethods lg))),
      (DomainKey, Json (JStr (ls_Domain lg))),
      (IssuerKey, Json (JStr (ls_Issuer lg))),
      (OidcDetailsKey, Json (enc_oidc (ls_OidcDetails lg))),
      (PamDetailsKey, Json (enc_pam (ls_PamDetails lg)))]"

definition general_puts :: "GeneralSettings \<Rightarrow> (string \<times> gvalue) list" where
  "general_puts gs =
     [(helpMailKey, Json (JStr (gs_HelpMail gs))),
      (externalAddressKey, Json (JStr (gs_ExternalAddress gs))),
      (dnsKey, Json (enc_strings (gs_DNS gs))),
      (defaultWGFileNameKey, Json (JStr (gs_WireguardConfigFilename gs))),
      (checkUpdatesKey, Json (JBool (gs_CheckUpdates gs)))]"

context etcd_quiet
begin

lemma SetLoginSettings_quiet:
  assumes "LoginSettings_Validate V lg = Inr lg'"
  obtains t where "SetLoginSettings V E lg s = (Inr (), t)" and "stores_login t lg'"
    and "\<And>gs. stores_general t gs \<longleftrightarrow> stores_general s gs"
proof -
  obtain t where "ebind (Txn E [] (puts (login_puts lg')) []) (\<lambda>_. ret ()) s = (Inr (), t)"
    and v: "\<And>l. value_at t l = (case map_of (rev (login_puts lg')) l of Some v \<Rightarrow> Some v | None \<Rightarrow> value_at s l)"
    using Txn_puts [OF etcd_quiet_axioms] by blast
  then have run: "SetLoginSettings V E lg s = (Inr (), t)"
    using assms by (simp add: SetLoginSettings_def LoginSettings_ToWriteOps_def ebind_def puts_def login_puts_def)
  from v have "stores_login t lg'"
    by (simp add: stores_login_def login_puts_def setting_keys)
  moreover from v have "stores_general t gs \<longleftrightarrow> stores_general s gs" for gs
    by (simp add: stores_general_def login_puts_def setting_keys)
  ultimately show ?thesis using run that by blast
qed

lemma SetGeneralSettings_quiet:
  assumes "GeneralSettings_Validate V gs = Inr gs'"
  obtains t where "SetGeneralSettings V E gs s = (Inr (), t)" and "stores_general t gs'"
    and "\<And>lg. stores_login t lg \<longleftrightarrow> stores_login s lg"
proof -
  obtain t where "ebind (Txn E [] (puts (general_puts gs')) []) (\<lambda>_. ret ()) s = (Inr (), t)"
    and v: "\<And>l. value_at t l = (case map_of (rev (general_puts gs')) l of Some v \<Rightarrow> Some v | None \<Rightarrow> value_at s l)"
    using Txn_puts [OF etcd_quiet_axioms] by blast
  then have run: "SetGeneralSettings V E gs s = (Inr (), t)"
    using assms by (simp add: SetGeneralSettings_def GeneralSettings_ToWriteOps_def ebind_def puts_def general_puts_def)
  from v have "stores_general t gs'"
    by (simp add: stores_general_def general_puts_def setting_keys)
  moreover from v have "stores_login t lg \<longleftrightarrow> stores_login s lg" for lg
    by (simp add: stores_login_def general_puts_def setting_keys)
  ultimately show ?thesis using run that by blast
qed

lemma GetAllSettings_quiet:
  assumes "stores_login s lg" and "stores_general s gs" and "login_ok lg"
  shows "GetAllSettings E s = (Inr \<lparr>as_LoginSettings = lg, as_GeneralSettings = gs\<rparr>, s)"
proof -
  obtain r where o: "range_of s [OidcDetailsKey] = [(OidcDetailsKey, Json (enc_oidc (ls_OidcDetails lg)), r)]"
    using assms(1) range_of_value_at unfolding stores_login_def by blast
  show ?thesis
    using assms unfolding GetAllSettings_def Txn_quiet apply_request_def run_gets
    by (simp add: ebind_def run_gets read_one_get stores_login_def stores_general_def login_ok_def int64_def o
        del: list.map)
qed

end

text \<open>C27
  What an administrator saves is what everybody reads: after \<open>SetLoginSettings\<close> and
  \<open>SetGeneralSettings\<close> succeed, \<open>GetAllSettings\<close> returns exactly the saved records, trimmed as
  validation does, and saving one group does not disturb the other.
\<close>

theorem settings_roundtrip:
  assumes "etcd_quiet E" and "LoginSettings_Validate V lg = Inr lg'" and "GeneralSettings_Validate W gs = Inr gs'"
    and "login_ok lg'"
  shows "fst (ebind (SetLoginSettings V E lg) (\<lambda>_. ebind (SetGeneralSettings W E gs) (\<lambda>_. GetAllSettings E)) s) =
      Inr \<lparr>as_LoginSettings = lg', as_GeneralSettings = gs'\<rparr> \<and>
    fst (ebind (SetGeneralSettings W E gs) (\<lambda>_. ebind (SetLoginSettings V E lg) (\<lambda>_. GetAllSettings E)) s) =
      Inr \<lparr>as_LoginSettings = lg', as_GeneralSettings = gs'\<rparr>"
proof
  obtain t where t: "SetLoginSettings V E lg s = (Inr (), t)" "stores_login t lg'"
    using etcd_quiet.SetLoginSettings_quiet [OF assms(1,2)] by metis
  obtain u where u: "SetGeneralSettings W E gs t = (Inr (), u)" "stores_general u gs'" "stores_login u lg'"
    using etcd_quiet.SetGeneralSettings_quiet [OF assms(1,3)] t(2) by metis
  from etcd_quiet.GetAllSettings_quiet [OF assms(1) u(3,2) assms(4)] t u
  show "fst (ebind (SetLoginSettings V E lg) (\<lambda>_. ebind (SetGeneralSettings W E gs) (\<lambda>_. GetAllSettings E)) s) =
      Inr \<lparr>as_LoginSettings = lg', as_GeneralSettings = gs'\<rparr>" by (simp add: ebind_def)
next
  obtain t where t: "SetGeneralSettings W E gs s = (Inr (), t)" "stores_general t gs'"
    using etcd_quiet.SetGeneralSettings_quiet [OF assms(1,3)] by metis
  obtain u where u: "SetLoginSettings V E lg t = (Inr (), u)" "stores_login u lg'" "stores_general u gs'"
    using etcd_quiet.SetLoginSettings_quiet [OF assms(1,2)] t(2) by metis
  from etcd_quiet.GetAllSettings_quiet [OF assms(1) u(2,3) assms(4)] t u
  show "fst (ebind (SetGeneralSettings W E gs) (\<lambda>_. ebind (SetLoginSettings V E lg) (\<lambda>_. GetAllSettings E)) s) =
      Inr \<lparr>as_LoginSettings = lg', as_GeneralSettings = gs'\<rparr>" by (simp add: ebind_def)
qed

definition demo_login :: LoginSettings where
  "demo_login = \<lparr>ls_SessionInactivityTimeoutMinutes = 60, ls_MaxSessionLifetimeMinutes = -1, ls_Lockout = 5,
     ls_DefaultMFAMethod = ''totp'', ls_EnabledMFAMethods = [''totp'', ''webauthn''], ls_Domain = ''vpn.test'',
     ls_Issuer = ''vpn'', ls_OidcDetails = zero_oidc, ls_PamDetails = \<lparr>pam_ServiceName = ''''\<rparr>\<rparr>"

definition demo_general :: GeneralSettings where
  "demo_general = \<lparr>gs_HelpMail = ''help@vpn.test'', gs_ExternalAddress = ''vpn.test'', gs_DNS = [''1.1.1.1''],
     gs_WireguardConfigFilename = ''wg0.conf'', gs_CheckUpdates = False\<rparr>"

theorem settings_roundtrip_witness:
  "fst (ebind (SetLoginSettings (\<lambda>_. None) etcd_ref demo_login) (\<lambda>_.
     ebind (SetGeneralSettings (\<lambda>_. None) etcd_ref demo_general) (\<lambda>_. GetAllSettings etcd_ref)) no_store) =
   Inr \<lparr>as_LoginSettings = demo_login, as_GeneralSettings = demo_general\<rparr>"
proof -
  have l: "LoginSettings_Validate (\<lambda>_. None) demo_login = Inr demo_login"
    by (simp add: LoginSettings_Validate_def demo_login_def trim_space_def is_space_def)
  have g: "GeneralSettings_Validate (\<lambda>_. None) demo_general = Inr demo_general"
    by (simp add: GeneralSettings_Validate_def demo_general_def trim_space_def is_space_def)
  have k: "login_ok demo_login" by (simp add: login_ok_def demo_login_def int64_def)
  from settings_roundtrip [OF etcd_ref.etcd_quiet_axioms l g k, of no_store] show ?thesis by blast
qed

end
