(* ===== verification/DataUsers.thy ===== *)
theory DataUsers
  imports DataSettings
begin

text \<open>
  internal/data/user.go: the accounts. A user is the document under \<open>users-NAME-\<close>; the number of
  failed attempts is kept per device. \<open>DeleteUser\<close>, which also removes devices, is in
  DataDevices.
\<close>

definition UsersPrefix :: string where "UsersPrefix = ''users-''"

definition userKey :: "string \<Rightarrow> string" where
  "userKey username = UsersPrefix @ username @ ''-''"

section \<open>Operations\<close>

text \<open>A change of a user's document: the mutations of this file differ only in the fields they set.\<close>

definition change_user :: "(UserModel \<Rightarrow> UserModel) \<Rightarrow> mutator" where
  "change_user f gr = (case gr of
      [] \<Rightarrow> panic ''index out of range''
    | (_, v, _) # _ \<Rightarrow> lift (rbind (unmarshal (dec_user zero_user) v) (\<lambda>result. Inr (Json (enc_user (f result))))))"

definition IncrementAuthenticationAttempt :: "etcd \<Rightarrow> string \<Rightarrow> string \<Rightarrow> (store, unit) eff" where
  "IncrementAuthenticationAttempt E username device =
     doSafeUpdate E (deviceKey username device) False (\<lambda>gr. case gr of
        [(_, v, _)] \<Rightarrow>
          ebind (lift (unmarshal dec_device v)) (\<lambda>userDevice.
          ebind (GetLockout E) (\<lambda>l.
          ret (Json (enc_device (if dv_Attempts userDevice \<le> l
                                 then userDevice\<lparr>dv_Attempts := dv_Attempts userDevice + 1\<rparr> else userDevice)))))
      | _ \<Rightarrow> raise ''invalid number of users'')"

record auth_details =
  ad_mfa :: string
  ad_mfaType :: string
  ad_attempts :: int
  ad_locked :: bool

definition GetAuthenticationDetails :: "etcd \<Rightarrow> string \<Rightarrow> string \<Rightarrow> (store, auth_details) eff" where
  "GetAuthenticationDetails E username device =
     ebind (Txn E [] [OpGet (''users-'' @ username @ ''-''), OpGet (''devices-'' @ username @ ''-'' @ device)] []) (\<lambda>(_, rs).
     case range_kvs (rs ! 0) of
       [(_, u, _)] \<Rightarrow> (case range_kvs (rs ! 1) of
          [(_, d, _)] \<Rightarrow>
             ebind (lift (unmarshal (dec_user zero_user) u)) (\<lambda>user.
             ebind (lift (unmarshal dec_device d)) (\<lambda>deviceModel.
             ret \<lparr>ad_mfa = um_Mfa user, ad_mfaType = um_MfaType user, ad_attempts = dv_Attempts deviceModel,
                  ad_locked = um_Locked user\<rparr>))
        | _ \<Rightarrow> raise ''invalid number of device entries'')
     | _ \<Rightarrow> raise ''invalid number of user entries'')"

definition SetUserLock :: "etcd \<Rightarrow> string \<Rightarrow> (store, unit) eff" where
  "SetUserLock E username = wrap_err (\<lambda>e. ''Unable to lock account: '' @ e)
     (doSafeUpdate E (''users-'' @ username @ ''-'') False (change_user (\<lambda>result. result\<lparr>um_Locked := True\<rparr>)))"

definition SetUserUnlock :: "etcd \<Rightarrow> string \<Rightarrow> (store, unit) eff" where
  "SetUserUnlock E username = wrap_err (\<lambda>e. ''Unable to lock account: '' @ e)
     (doSafeUpdate E (''users-'' @ username @ ''-'') False (change_user (\<lambda>result. result\<lparr>um_Locked := False\<rparr>)))"

text \<open>Fails closed: an error, a missing or a malformed record counts as enforcing.\<close>

definition IsEnforcingMFA :: "etcd \<Rightarrow> string \<Rightarrow> (store, bool) eff" where
  "IsEnforcingMFA E username =
     on_error (ebind (Get E (''users-'' @ username @ ''-'')) (\<lambda>kvs. case kvs of
        [(_, v, _)] \<Rightarrow> ebind (lift (unmarshal (dec_user zero_user) v)) (\<lambda>user. ret (um_Enforcing user))
      | _ \<Rightarrow> ret True)) (\<lambda>_. ret True)"

definition SetEnforceMFAOn :: "etcd \<Rightarrow> string \<Rightarrow> (store, unit) eff" where
  "SetEnforceMFAOn E username =
     doSafeUpdate E (''users-'' @ username @ ''-'') False (change_user (\<lambda>result. result\<lparr>um_Enforcing := True\<rparr>))"

definition SetEnforceMFAOff :: "etcd \<Rightarrow> string \<Rightarrow> (store, unit) eff" where
  "SetEnforceMFAOff E username =
     doSafeUpdate E (''users-'' @ username @ ''-'') False (change_user (\<lambda>result. result\<lparr>um_Enforcing := False\<rparr>))"

definition GetUserData :: "etcd \<Rightarrow> string \<Rightarrow> (store, UserModel) eff" where
  "GetUserData E username =
     ebind (Get E (UsersPrefix @ username @ ''-'')) (\<lambda>kvs. case kvs of
        [(_, v, _)] \<Rightarrow> lift (unmarshal (dec_user zero_user) v)
      | _ \<Rightarrow> raise ''invalid number of users for entry'')"

definition GetMFASecret :: "etcd \<Rightarrow> string \<Rightarrow> (store, string) eff" where
  "GetMFASecret E username =
     ebind (Get E (''users-'' @ username @ ''-'')) (\<lambda>kvs. case kvs of
        [(_, v, _)] \<Rightarrow> ebind (lift (unmarshal (dec_user zero_user) v)) (\<lambda>user.
           if um_Enforcing user \<and> um_MfaType user \<noteq> ''webauthn''
           then raise ''MFA is set to enforcing, cannot reveal totp secret''
           else ret (um_Mfa user))
      | _ \<Rightarrow> raise ''invalid number of users for entry'')"

definition GetMFAType :: "etcd \<Rightarrow> string \<Rightarrow> (store, string) eff" where
  "GetMFAType E username =
     ebind (Get E (UsersPrefix @ username @ ''-'')) (\<lambda>kvs. case kvs of
        [(_, v, _)] \<Rightarrow> ebind (lift (unmarshal (dec_user zero_user) v)) (\<lambda>user. ret (um_MfaType user))
      | _ \<Rightarrow> raise ''invalid number of users for entry'')"

definition GetUserDataFromAddress :: "etcd \<Rightarrow> string \<Rightarrow> (store, UserModel) eff" where
  "GetUserDataFromAddress E address =
     ebind (Get E (''deviceref-'' @ address)) (\<lambda>kvs. case kvs of
        [(_, v, _)] \<Rightarrow>
          (let parts = split_on (CHR ''-'') (value_text E v)
           in if length parts \<noteq> 3 then raise ''invalid number of reference key parts to extract username''
              else GetUserData E (parts ! 1))
      | _ \<Rightarrow> raise ''invalid number of users for entry'')"

definition SetUserMfa :: "etcd \<Rightarrow> string \<Rightarrow> string \<Rightarrow> string \<Rightarrow> (store, unit) eff" where
  "SetUserMfa E username value mfaType =
     doSafeUpdate E (UsersPrefix @ username @ ''-'') False
       (change_user (\<lambda>result. result\<lparr>um_Mfa := value, um_MfaType := mfaType\<rparr>))"

definition Unset :: string where "Unset = ''unset''"

definition CreateUserDataAccount :: "etcd \<Rightarrow> string \<Rightarrow> (store, UserModel) eff" where
  "CreateUserDataAccount E username =
     (if contains username ''-'' then raise ''usernames may not contain '-' ''
      else
        let newUser = zero_user\<lparr>um_Username := username, um_Mfa := Unset, um_MfaType := Unset\<rparr> in
        ebind (Txn E [KeyMissing (''users-'' @ username @ ''-'')]
                 [OpPut (UsersPrefix @ username @ ''-'') (Json (enc_user newUser)),
                  OpPut (MembershipKey @ ''-'' @ username) (Json (enc_strings []))] []) (\<lambda>(succeeded, _).
        if \<not> succeeded then raise (''user '' @ username @ '' exists'') else ret newUser))"

definition GetAllUsers :: "etcd \<Rightarrow> (store, UserModel list) eff" where
  "GetAllUsers E = ebind (GetPrefix E True UsersPrefix) (\<lambda>kvs. lift (decode_all (dec_user zero_user) kvs))"

section \<open>The account as an abstract record\<close>

text \<open>The user a store holds under a name.\<close>

definition user_at :: "store \<Rightarrow> string \<Rightarrow> UserModel option" where
  "user_at s username = (case value_at s (userKey username) of
      Some (Json j) \<Rightarrow> (case dec_user zero_user j of Inr u \<Rightarrow> Some u | Inl _ \<Rightarrow> None)
    | _ \<Rightarrow> None)"

lemma user_key_eq: "''users-'' @ username @ ''-'' = userKey username" "UsersPrefix @ username @ ''-'' = userKey username"
  by (simp_all add: userKey_def UsersPrefix_def)

lemma userKey_inj [simp]: "userKey a = userKey b \<longleftrightarrow> a = b"
  by (simp add: userKey_def)

lemma user_atE:
  assumes "user_at s username = Some u"
  obtains j r where "find_key s (userKey username) = Some (Json j, r)" and "dec_user zero_user j = Inr u"
  using assms by (auto simp: user_at_def value_at_def split: option.splits gvalue.splits sum.splits)

lemma user_at_range:
  assumes "user_at s username = Some u"
  obtains j r where "range_of s [userKey username] = [(userKey username, Json j, r)]" and "dec_user zero_user j = Inr u"
  using assms by (auto simp: range_of_single elim!: user_atE)

lemma user_at_put [simp]:
  "user_at (put_key (userKey a) (Json (enc_user u)) s) b = (if b = a then Some u else user_at s b)"
  by (simp add: user_at_def)

lemma evolves_change_user [evolves_intro]: "evolves (change_user f gr)"
  unfolding change_user_def by (auto intro!: evolves_intro)

context etcd_quiet
begin

lemma change_user_quiet:
  assumes "user_at s username = Some u"
  shows "doSafeUpdate E (userKey username) False (change_user f) s =
     (Inr (), put_key (userKey username) (Json (enc_user (f u))) s)"
proof -
  from assms obtain j r where rng: "range_of s [userKey username] = [(userKey username, Json j, r)]"
    and u: "dec_user zero_user j = Inr u" by (rule user_at_range)
  then have "change_user f (range_of s [userKey username]) s = (Inr (Json (enc_user (f u))), s)"
    by (simp add: change_user_def)
  from doSafeUpdate_quiet [of "change_user f", OF this] rng show ?thesis
    by (auto simp: range_of_single split: option.splits prod.splits)
qed

lemma user_ops_quiet:
  assumes "user_at s n = Some u"
  shows "SetUserLock E n s = (Inr (), put_key (userKey n) (Json (enc_user (u\<lparr>um_Locked := True\<rparr>))) s)"
    and "SetUserUnlock E n s = (Inr (), put_key (userKey n) (Json (enc_user (u\<lparr>um_Locked := False\<rparr>))) s)"
    and "SetEnforceMFAOn E n s = (Inr (), put_key (userKey n) (Json (enc_user (u\<lparr>um_Enforcing := True\<rparr>))) s)"
    and "SetEnforceMFAOff E n s = (Inr (), put_key (userKey n) (Json (enc_user (u\<lparr>um_Enforcing := False\<rparr>))) s)"
    and "SetUserMfa E n v t s = (Inr (), put_key (userKey n) (Json (enc_user (u\<lparr>um_Mfa := v, um_MfaType := t\<rparr>))) s)"
  unfolding SetUserLock_def SetUserUnlock_def SetEnforceMFAOn_def SetEnforceMFAOff_def SetUserMfa_def user_key_eq
  by (simp_all add: change_user_quiet [OF assms] wrap_err_def on_error_def)

lemma GetUserData_quiet: "user_at s n = Some u \<Longrightarrow> GetUserData E n s = (Inr u, s)"
  unfolding GetUserData_def user_key_eq by (auto simp: Get_quiet ebind_def elim!: user_at_range)

lemma IsEnforcingMFA_quiet: "user_at s n = Some u \<Longrightarrow> IsEnforcingMFA E n s = (Inr (um_Enforcing u), s)"
  unfolding IsEnforcingMFA_def user_key_eq by (auto simp: Get_quiet ebind_def on_error_def elim!: user_at_range)

end

section \<open>Properties\<close>

lemma Get_user:
  assumes "etcd_service E" and "Get E (userKey n) s = (Inr [(k, v, r)], t)"
  shows "later s t \<and> (\<forall>u. unmarshal (dec_user zero_user) v = Inr u \<longrightarrow> user_at t n = Some u)"
proof -
  from etcd_service.Get_ok [OF assms] have "later s t" "find_key t (userKey n) = Some (v, r)"
    by (auto simp: range_of_single split: option.splits)
  then show ?thesis by (auto simp: user_at_def value_at_def unmarshal_def split: gvalue.splits)
qed

text \<open>
  The secret of a user is only revealed before the user has proved to hold it: whatever the store
  service does, when \<open>GetMFASecret\<close> returns a value, it is the secret of that user's record in the
  store, and the record is not enforcing MFA or uses webauthn.
\<close>

theorem GetMFASecret_unenforced:
  assumes "etcd_service E" and "GetMFASecret E n s = (Inr secret, t)"
  shows "\<exists>u. user_at t n = Some u \<and> um_Mfa u = secret \<and> (\<not> um_Enforcing u \<or> um_MfaType u = ''webauthn'')"
proof -
  from assms(2) obtain kvs s1 where g: "Get E (userKey n) s = (Inr kvs, s1)"
    and rest: "(case kvs of [(_, v, _)] \<Rightarrow> ebind (lift (unmarshal (dec_user zero_user) v)) (\<lambda>user.
           if um_Enforcing user \<and> um_MfaType user \<noteq> ''webauthn''
           then raise ''MFA is set to enforcing, cannot reveal totp secret'' else ret (um_Mfa user))
      | _ \<Rightarrow> raise ''invalid number of users for entry'') s1 = (Inr secret, t)"
    unfolding GetMFASecret_def user_key_eq ebind_eq_Inr by blast
  from rest obtain k v r user where kvs: "kvs = [(k, v, r)]" and u: "unmarshal (dec_user zero_user) v = Inr user"
    and "\<not> (um_Enforcing user \<and> um_MfaType user \<noteq> ''webauthn'')" "secret = um_Mfa user" "t = s1"
    by (auto simp: ebind_eq_Inr split: list.splits if_splits)
  with Get_user [OF assms(1) g [unfolded kvs]] show ?thesis by auto
qed

text \<open>
  \<open>IsEnforcingMFA\<close> fails closed: it answers no only when the store holds a well-formed record of
  the user that is not enforcing; every error, missing or malformed record is answered with yes.
\<close>

theorem IsEnforcingMFA_fails_closed:
  assumes "etcd_service E" and "IsEnforcingMFA E n s = (Inr False, t)"
  shows "\<exists>u. user_at t n = Some u \<and> \<not> um_Enforcing u"
proof -
  define body where "body = ebind (Get E (userKey n)) (\<lambda>kvs. case kvs of
        [(_, v, _)] \<Rightarrow> ebind (lift (unmarshal (dec_user zero_user) v)) (\<lambda>user. ret (um_Enforcing user))
      | _ \<Rightarrow> ret True)"
  have "on_error body (\<lambda>_. ret True) s = (Inr False, t)"
    using assms(2) unfolding IsEnforcingMFA_def user_key_eq body_def .
  then have "body s = (Inr False, t)"
    by (auto simp: on_error_def split: prod.splits sum.splits fault.splits)
  then obtain kvs s1 where g: "Get E (userKey n) s = (Inr kvs, s1)"
    and rest: "(case kvs of [(_, v, _)] \<Rightarrow> ebind (lift (unmarshal (dec_user zero_user) v)) (\<lambda>user. ret (um_Enforcing user))
      | _ \<Rightarrow> ret True) s1 = (Inr False, t)"
    unfolding body_def ebind_eq_Inr by blast
  from rest obtain k v r user where kvs: "kvs = [(k, v, r)]" and u: "unmarshal (dec_user zero_user) v = Inr user"
    and "\<not> um_Enforcing user" "t = s1"
    by (auto simp: ebind_eq_Inr split: list.splits)
  with Get_user [OF assms(1) g [unfolded kvs]] show ?thesis by auto
qed

lemma change_user_Inr:
  assumes "change_user f (range_of m [userKey n]) w = (Inr new, w')"
  shows "\<exists>u. user_at m n = Some u \<and> new = Json (enc_user (f u)) \<and> w' = w"
  using assms
  by (auto simp: change_user_def range_of_single user_at_def value_at_def unmarshal_def
      split: option.splits gvalue.splits)

lemma change_user_atomic:
  assumes "etcd_service E" and "store_wf s" and "doSafeUpdate E (userKey n) False (change_user f) s = (Inr (), t)"
  shows "\<exists>m u. later s m \<and> user_at m n = Some u \<and> user_at t n = Some (f u) \<and>
     (\<forall>k. k \<noteq> userKey n \<longrightarrow> find_key t k = find_key m k)"
proof -
  from etcd_service.doSafeUpdate_atomic_service [OF assms(1) evolves_change_user assms(3,2)]
  obtain x new w m where x: "later s x" and c: "change_user f (range_of m [userKey n]) x = (Inr new, w)"
    and m: "later w m" and t: "t = put_key (userKey n) new m"
    unfolding atomic_update_def by blast
  from change_user_Inr [OF c] obtain u where "user_at m n = Some u" "new = Json (enc_user (f u))" "w = x" by blast
  with x m t show ?thesis by (intro exI [of _ m] exI [of _ u]) (auto intro: later_trans)
qed

text \<open>C26
  Locking and unlocking an account, switching MFA enforcement and replacing the MFA secret are each
  atomic on the account: when the call succeeds there was a moment at which the record it read was
  still current, and what is stored is that record with only the named fields changed, so
  concurrent changes of other fields are never undone.
\<close>

theorem user_updates_atomic:
  assumes "etcd_service E" and "store_wf s"
    and "(op, f) \<in> {(SetUserLock E n, \<lambda>u. u\<lparr>um_Locked := True\<rparr>), (SetUserUnlock E n, \<lambda>u. u\<lparr>um_Locked := False\<rparr>),
        (SetEnforceMFAOn E n, \<lambda>u. u\<lparr>um_Enforcing := True\<rparr>), (SetEnforceMFAOff E n, \<lambda>u. u\<lparr>um_Enforcing := False\<rparr>),
        (SetUserMfa E n v ty, \<lambda>u. u\<lparr>um_Mfa := v, um_MfaType := ty\<rparr>)}"
    and "op s = (Inr (), t)"
  shows "\<exists>m u. later s m \<and> user_at m n = Some u \<and> user_at t n = Some (f u) \<and>
     (\<forall>k. k \<noteq> userKey n \<longrightarrow> find_key t k = find_key m k)"
proof -
  have "doSafeUpdate E (userKey n) False (change_user f) s = (Inr (), t)"
    using assms(3,4)
    unfolding SetUserLock_def SetUserUnlock_def SetEnforceMFAOn_def SetEnforceMFAOff_def SetUserMfa_def user_key_eq
    by (auto simp: wrap_err_eq_Inr)
  from change_user_atomic [OF assms(1,2) this] show ?thesis .
qed

definition demo_user :: UserModel where
  "demo_user = \<lparr>um_Username = ''ann'', um_Mfa = ''seed'', um_MfaType = ''totp'', um_Locked = False, um_Enforcing = True\<rparr>"

definition demo_store :: store where
  "demo_store = put_key (userKey ''ann'') (Json (enc_user demo_user)) no_store"

lemma demo_store_facts [simp]:
  "store_wf demo_store" "user_at demo_store ''ann'' = Some demo_user"
  using later_wf [OF later_put_key, of no_store] by (simp_all add: demo_store_def)

theorem user_updates_atomic_witness:
  "\<exists>t. SetUserLock etcd_ref ''ann'' demo_store = (Inr (), t) \<and> user_at t ''ann'' = Some (demo_user\<lparr>um_Locked := True\<rparr>)"
proof -
  let ?t = "put_key (userKey ''ann'') (Json (enc_user (demo_user\<lparr>um_Locked := True\<rparr>))) demo_store"
  have run: "SetUserLock etcd_ref ''ann'' demo_store = (Inr (), ?t)"
    by (rule etcd_ref.user_ops_quiet) simp
  have "\<exists>m u. later demo_store m \<and> user_at m ''ann'' = Some u \<and> user_at ?t ''ann'' = Some (u\<lparr>um_Locked := True\<rparr>) \<and>
     (\<forall>k. k \<noteq> userKey ''ann'' \<longrightarrow> find_key ?t k = find_key m k)"
    by (rule user_updates_atomic [where op = "SetUserLock etcd_ref ''ann''" and f = "\<lambda>u. u\<lparr>um_Locked := True\<rparr>"
          and E = etcd_ref and n = "''ann''" and s = demo_store and t = ?t and v = "''''" and ty = "''''"])
       (simp_all add: etcd_ref.etcd_service_axioms run)
  with run show ?thesis by auto
qed

theorem GetMFASecret_unenforced_witness:
  "\<exists>u. user_at (put_key (userKey ''bob'') (Json (enc_user (demo_user\<lparr>um_Enforcing := False\<rparr>))) no_store) ''bob'' = Some u \<and>
     um_Mfa u = ''seed'' \<and> (\<not> um_Enforcing u \<or> um_MfaType u = ''webauthn'')"
proof -
  let ?s = "put_key (userKey ''bob'') (Json (enc_user (demo_user\<lparr>um_Enforcing := False\<rparr>))) no_store"
  have "GetMFASecret etcd_ref ''bob'' ?s = (Inr ''seed'', ?s)"
    unfolding GetMFASecret_def user_key_eq
    by (simp add: etcd_ref.Get_quiet ebind_def range_of_single demo_user_def)
  from GetMFASecret_unenforced [OF etcd_ref.etcd_service_axioms this] show ?thesis .
qed

theorem IsEnforcingMFA_fails_closed_witness:
  "\<exists>u. user_at (put_key (userKey ''bob'') (Json (enc_user (demo_user\<lparr>um_Enforcing := False\<rparr>))) no_store) ''bob'' = Some u \<and>
     \<not> um_Enforcing u"
proof -
  let ?s = "put_key (userKey ''bob'') (Json (enc_user (demo_user\<lparr>um_Enforcing := False\<rparr>))) no_store"
  have "IsEnforcingMFA etcd_ref ''bob'' ?s = (Inr False, ?s)"
    using etcd_ref.IsEnforcingMFA_quiet [of ?s "''bob''"] by simp
  from IsEnforcingMFA_fails_closed [OF etcd_ref.etcd_service_axioms this] show ?thesis .
qed

text \<open>
  Creating an account never touches an existing one: it fails for a name with a dash and for a
  name already taken, leaving the store as it was, and otherwise adds an account with no MFA
  method, not locked and not enforcing, in no group, changing nothing else.
\<close>

theorem CreateUserDataAccount_new:
  assumes "etcd_quiet E"
  shows "CreateUserDataAccount E n s =
     (if contains n ''-'' then (Inl (GoErr ''usernames may not contain '-' ''), s)
      else if find_key s (userKey n) \<noteq> None then (Inl (GoErr (''user '' @ n @ '' exists'')), s)
      else let u = \<lparr>um_Username = n, um_Mfa = ''unset'', um_MfaType = ''unset'', um_Locked = False, um_Enforcing = False\<rparr> in
        (Inr u, put_at (Suc (st_rev s)) (''wag-membership-'' @ n) (Json (JArr []))
                  (put_at (Suc (st_rev s)) (userKey n) (Json (enc_user u)) s)))"
  unfolding CreateUserDataAccount_def user_key_eq
  by (auto simp: etcd_quiet.Txn_quiet [OF assms] ebind_def apply_request_def Let_def zero_user_def Unset_def
      MembershipKey_def enc_strings_def)

theorem CreateUserDataAccount_new_witness:
  "fst (CreateUserDataAccount etcd_ref ''ann'' demo_store) = Inl (GoErr ''user ann exists'')"
  using CreateUserDataAccount_new [OF etcd_ref.etcd_quiet_axioms, of "''ann''" demo_store]
  by (simp add: contains_char demo_store_def)

text \<open>The device key of a user without a dash is read back as that user.\<close>

lemma split_deviceKey:
  assumes "CHR ''-'' \<notin> set n" and "CHR ''-'' \<notin> set a"
  shows "split_on (CHR ''-'') (deviceKey n a) = [''devices'', n, a]"
proof -
  have d: "deviceKey n a = ''devices'' @ CHR ''-'' # n @ CHR ''-'' # a" by (simp add: deviceKey_def)
  show ?thesis
    unfolding d using assms by (subst split_on_append, simp)+ (simp add: split_on_none)
qed

text \<open>
  An address leads to its owner: if the reference of an address names the device key of a user, and
  neither the name nor the address has a dash (which creating accounts and IPv4 addresses ensure),
  then \<open>GetUserDataFromAddress\<close> returns that user's record and no other.
\<close>

theorem GetUserDataFromAddress_owner:
  assumes "etcd_quiet E" and "value_at s (''deviceref-'' @ a) = Some (Text (deviceKey n a))"
    and "CHR ''-'' \<notin> set n" and "CHR ''-'' \<notin> set a" and "user_at s n = Some u"
  shows "GetUserDataFromAddress E a s = (Inr u, s)"
proof -
  from assms(2) obtain r where "range_of s [''deviceref-'' @ a] = [(''deviceref-'' @ a, Text (deviceKey n a), r)]"
    using range_of_value_at by blast
  then show ?thesis
    unfolding GetUserDataFromAddress_def
    by (simp add: etcd_quiet.Get_quiet [OF assms(1)] ebind_def value_text_def split_deviceKey [OF assms(3,4)]
        etcd_quiet.GetUserData_quiet [OF assms(1,5)])
qed

theorem GetUserDataFromAddress_owner_witness:
  "fst (GetUserDataFromAddress etcd_ref ''10.0.0.2''
      (put_key (''deviceref-'' @ ''10.0.0.2'') (Text (deviceKey ''ann'' ''10.0.0.2'')) demo_store)) = Inr demo_user"
proof -
  let ?s = "put_key (''deviceref-'' @ ''10.0.0.2'') (Text (deviceKey ''ann'' ''10.0.0.2'')) demo_store"
  have "user_at ?s ''ann'' = Some demo_user"
    by (simp add: user_at_def demo_store_def userKey_def UsersPrefix_def)
  with GetUserDataFromAddress_owner [OF etcd_ref.etcd_quiet_axioms, of ?s "''10.0.0.2''" "''ann''" demo_user]
  show ?thesis by simp
qed

end
