(* ===== verification/DataDevices.thy ===== *)
theory DataDevices
  imports DataUsers
begin

text \<open>
  internal/data/devices.go: a device is the document under \<open>devices-USER-ADDRESS\<close>, and two
  references, \<open>deviceref-ADDRESS\<close> and \<open>deviceref-PUBLICKEY\<close>, hold that key. Also
  internal/data/dhcp.go, the choice of an address for a new device. Random values, the clock and
  the key generator are arguments.
\<close>

section \<open>Operations on one device\<close>

definition change_device :: "(Device \<Rightarrow> Device) \<Rightarrow> mutator" where
  "change_device f gr = (case gr of
      [(_, v, _)] \<Rightarrow> lift (rbind (unmarshal dec_device v) (\<lambda>d. Inr (Json (enc_device (f d)))))
    | _ \<Rightarrow> raise ''user device has multiple keys'')"

definition UpdateDeviceConnectionDetails :: "etcd \<Rightarrow> string \<Rightarrow> udp_addr option \<Rightarrow> (store, unit) eff" where
  "UpdateDeviceConnectionDetails E address endpoint =
     ebind (Get E (''deviceref-'' @ address)) (\<lambda>realKey. case realKey of
        [] \<Rightarrow> raise ''device was not found''
      | (_, k, _) # _ \<Rightarrow> doSafeUpdate E (value_text E k) False
          (change_device (\<lambda>d. d\<lparr>dv_Endpoint := endpoint, dv_AssociatedNode := GetServerID E\<rparr>)))"

definition GetDevice :: "etcd \<Rightarrow> string \<Rightarrow> string \<Rightarrow> (store, Device) eff" where
  "GetDevice E username ident =
     ebind (Get E (deviceKey username ident)) (\<lambda>response. case response of
        [] \<Rightarrow> raise ''device was not found''
      | [(_, v, _)] \<Rightarrow> lift (unmarshal dec_device v)
      | _ \<Rightarrow> raise ''user device has multiple keys'')"

text \<open>The lock of the account is read inside the update, from the user the document names.\<close>

definition authorise_mutator :: "etcd \<Rightarrow> int \<Rightarrow> string \<Rightarrow> mutator" where
  "authorise_mutator E now challenge gr = (case gr of
      [(_, v, _)] \<Rightarrow>
        ebind (lift (unmarshal dec_device v)) (\<lambda>device.
        ebind (GetUserData E (dv_Username device)) (\<lambda>u.
        if um_Locked u then raise ''account is locked''
        else ret (Json (enc_device (device\<lparr>dv_AssociatedNode := GetServerID E, dv_Authorised := now,
                                           dv_Attempts := 0, dv_Challenge := challenge\<rparr>)))))
    | _ \<Rightarrow> raise ''user device has multiple keys'')"

definition AuthoriseDevice :: "etcd \<Rightarrow> int \<Rightarrow> error + string \<Rightarrow> string \<Rightarrow> string \<Rightarrow> (store, string) eff" where
  "AuthoriseDevice E now random username address =
     (case random of
        Inl e \<Rightarrow> raise (''failed to generate random challenge on device authorisation: '' @ e)
      | Inr challenge \<Rightarrow>
          ebind (wrap_err (\<lambda>e. ''failed to update device authorisation state: '' @ e)
            (doSafeUpdate E (deviceKey username address) False (authorise_mutator E now challenge))) (\<lambda>_.
          ret challenge))"

definition DeauthenticateDevice :: "etcd \<Rightarrow> string \<Rightarrow> (store, unit) eff" where
  "DeauthenticateDevice E address =
     ebind (Get E (''deviceref-'' @ address)) (\<lambda>realKey. case realKey of
        [] \<Rightarrow> raise ''device was not found''
      | (_, k, _) # _ \<Rightarrow> doSafeUpdate E (value_text E k) False (change_device (\<lambda>d. d\<lparr>dv_Authorised := 0\<rparr>)))"

definition SetDeviceAuthenticationAttempts :: "etcd \<Rightarrow> string \<Rightarrow> string \<Rightarrow> int \<Rightarrow> (store, unit) eff" where
  "SetDeviceAuthenticationAttempts E username address n =
     doSafeUpdate E (deviceKey username address) False (change_device (\<lambda>d. d\<lparr>dv_Attempts := n\<rparr>))"

definition GetAllDevices :: "etcd \<Rightarrow> (store, Device list) eff" where
  "GetAllDevices E = ebind (GetPrefix E True ''devices-'') (\<lambda>kvs. lift (decode_all dec_device kvs))"

text \<open>Later entries replace earlier ones of the same address.\<close>

definition GetAllDevicesAsMap :: "etcd \<Rightarrow> (store, string \<rightharpoonup> Device) eff" where
  "GetAllDevicesAsMap E = ebind (GetPrefix E True ''devices-'') (\<lambda>kvs.
     lift (rbind (decode_all dec_device kvs) (\<lambda>ds. Inr (map_of (rev (map (\<lambda>d. (dv_Address d, d)) ds))))))"

definition GetDevicesByUser :: "etcd \<Rightarrow> string \<Rightarrow> (store, Device list) eff" where
  "GetDevicesByUser E username =
     ebind (GetPrefix E True (''devices-'' @ username @ ''-'')) (\<lambda>kvs. lift (decode_all dec_device kvs))"

definition GetDeviceByAddress :: "etcd \<Rightarrow> string \<Rightarrow> (store, Device) eff" where
  "GetDeviceByAddress E address =
     ebind (Get E (''deviceref-'' @ address)) (\<lambda>realKey. case realKey of
        [] \<Rightarrow> raise (''not device found for address: '' @ address)
      | [(_, k, _)] \<Rightarrow>
          ebind (Get E (value_text E k)) (\<lambda>response. case response of
             [] \<Rightarrow> raise ''device was not found''
           | [(_, v, _)] \<Rightarrow> lift (unmarshal dec_device v)
           | _ \<Rightarrow> raise ''user device has multiple keys'')
      | _ \<Rightarrow> raise ''incorrect number of keys for device reference'')"

section \<open>Addresses\<close>

definition incrementIP :: "ip4 \<Rightarrow> u32 \<Rightarrow> ip4" where
  "incrementIP ip inc = ip4_of_word (ip4_to_word ip + inc)"

definition contains_ip :: "ipnet \<Rightarrow> ip4 \<Rightarrow> bool" where
  "contains_ip cidr a = (case net_ip cidr of Some (V4 n) \<Rightarrow> net_contains n (net_ones cidr) a | _ \<Rightarrow> False)"

text \<open>The search; a full subnet may be searched for ever, which the rounds bound.\<close>

fun lease_loop :: "etcd \<Rightarrow> goip \<Rightarrow> ip4 \<Rightarrow> ipnet \<Rightarrow> ip4 \<Rightarrow> nat \<Rightarrow> ip4 \<Rightarrow> (store, string) eff" where
  "lease_loop E serverIP net cidr startIP 0 addr = lift (Inl OutOfFuel)"
| "lease_loop E serverIP net cidr startIP (Suc n) addr =
     (let addr = (if serverIP = V4 addr then incrementIP addr 1 else addr) in
      ebind (Txn E [KeyMissing (''deviceref-'' @ ip4_string addr), KeyMissing (''ip-hold-'' @ ip4_string addr)]
               [OpPut (''ip-hold-'' @ ip4_string addr) (Text (ip4_string addr))] []) (\<lambda>(succeeded, _).
      if succeeded then ret (ip4_string addr)
      else
        let addr = incrementIP addr 1 in
        if contains_ip cidr addr then lease_loop E serverIP net cidr startIP n addr
        else
          let addr = incrementIP net 1 in
          if addr = startIP then raise ''unable to obtain ip lease, subnet is full''
          else lease_loop E serverIP net cidr startIP n addr))"

text \<open>\<open>intn n\<close> is the random number drawn below \<open>n\<close>.\<close>

definition getNextIP :: "etcd \<Rightarrow> net_env \<Rightarrow> (nat \<Rightarrow> nat) \<Rightarrow> string \<Rightarrow> (store, string) eff" where
  "getNextIP E N intn subnet =
     (case ParseCIDR N subnet of
        None \<Rightarrow> raise (''invalid CIDR address: '' @ subnet)
      | Some (serverIP, cidr) \<Rightarrow>
          let used = net_ones cidr;
              maxNumberOfAddresses = (if used \<le> 32 then 2 ^ (32 - used) - 2 else -2 :: int)
          in if maxNumberOfAddresses < 1 then raise ''subnet is too small to contain a new device''
             else (case Option.bind (net_ip cidr) to4 of
                 None \<Rightarrow> panic ''index out of range''
               | Some net \<Rightarrow>
                   let addressAttempt = intn (nat maxNumberOfAddresses) + 1;
                       addr = incrementIP net (word_of_nat addressAttempt)
                   in ebind (Grant E) (\<lambda>_.
                      let addr = (if serverIP = V4 addr then incrementIP addr 1 else addr)
                      in lease_loop E serverIP net cidr addr (attempts E) addr)))"

section \<open>Adding and removing\<close>

definition device_ops :: "Device \<Rightarrow> etcd_op list" where
  "device_ops d = (let key = deviceKey (dv_Username d) (dv_Address d) in
     [OpPut key (Json (enc_device d)), OpPut (''deviceref-'' @ dv_Address d) (Text key),
      OpPut (''deviceref-'' @ dv_Publickey d) (Text key)])"

definition new_device :: "string \<Rightarrow> string \<Rightarrow> string \<Rightarrow> string \<Rightarrow> Device" where
  "new_device username address publickey preshared_key =
     zero_device\<lparr>dv_Address := address, dv_Publickey := publickey, dv_Username := username,
                 dv_PresharedKey := preshared_key\<rparr>"

definition AddDevice :: "etcd \<Rightarrow> net_env \<Rightarrow> (nat \<Rightarrow> nat) \<Rightarrow> string \<Rightarrow> error + string \<Rightarrow> string \<Rightarrow> string \<Rightarrow> (store, Device) eff" where
  "AddDevice E N intn wireguard_address generated username publickey =
     (case generated of
        Inl e \<Rightarrow> raise e
      | Inr preshared_key \<Rightarrow>
          ebind (getNextIP E N intn wireguard_address) (\<lambda>address.
          let d = new_device username address publickey preshared_key in
          ebind (Txn E [] (device_ops d) []) (\<lambda>_. ret d)))"

definition SetDevice :: "etcd \<Rightarrow> net_env \<Rightarrow> string \<Rightarrow> string \<Rightarrow> string \<Rightarrow> string \<Rightarrow> (store, Device) eff" where
  "SetDevice E N username address publickey preshared_key =
     (if ParseIP N address = None
      then raise (''Address '' @ [CHR 0x27] @ address @ [CHR 0x27] @ '' cannot be parsed as IP, invalid'')
      else
        let d = new_device username address publickey preshared_key in
        ebind (Txn E [] (device_ops d) []) (\<lambda>_. ret d))"

text \<open>The name of the user is not used; a dangling reference panics.\<close>

definition DeleteDevice :: "etcd \<Rightarrow> string \<Rightarrow> string \<Rightarrow> (store, unit) eff" where
  "DeleteDevice E username ident =
     (let refKey = ''deviceref-'' @ ident in
      ebind (Get E refKey) (\<lambda>realKey. case realKey of
         [] \<Rightarrow> raise ''no reference found''
       | (_, k, _) # _ \<Rightarrow>
           ebind (wrap_err (\<lambda>e. ''unable to get real device entry from reference: '' @ e) (Get E (value_text E k))) (\<lambda>deviceEntry.
           case deviceEntry of
             [] \<Rightarrow> panic ''index out of range''
           | (_, v, _) # _ \<Rightarrow>
               ebind (lift (unmarshal dec_device v)) (\<lambda>d.
               let otherReferenceKey = (if dv_Publickey d = ident then ''deviceref-'' @ dv_Address d
                                        else ''deviceref-'' @ dv_Publickey d) in
               ebind (Txn E [] [OpDelete (value_text E k), OpDelete refKey, OpDelete otherReferenceKey,
                                OpDelete (''allocated_ips/'' @ dv_Address d)] []) (\<lambda>_. ret ())))))"

text \<open>The deletion does not ask for the deleted values, so no reference is ever removed.\<close>

definition DeleteDevices :: "etcd \<Rightarrow> string \<Rightarrow> (store, unit) eff" where
  "DeleteDevices E username =
     ebind (DeletePrefix E (''devices-'' @ username @ ''-'')) (\<lambda>deleted.
     ebind (lift (decode_all dec_device deleted)) (\<lambda>ds.
     let ops = concat (map (\<lambda>d. [OpDelete (''devicesref-'' @ dv_Publickey d), OpDelete (''deviceref-'' @ dv_Address d),
                                 OpDelete (''allocated_ips/'' @ dv_Address d)]) ds) in
     ebind (Txn E [] ops []) (\<lambda>_. ret ())))"

definition UpdateDevicePublicKey :: "etcd \<Rightarrow> string \<Rightarrow> string \<Rightarrow> string \<Rightarrow> (store, unit) eff" where
  "UpdateDevicePublicKey E username address publicKey =
     ebind (GetDeviceByAddress E address) (\<lambda>beforeUpdate.
     ebind (doSafeUpdate E (deviceKey username address) False (change_device (\<lambda>d. d\<lparr>dv_Publickey := publicKey\<rparr>))) (\<lambda>_.
     Delete E (''devicesref-'' @ dv_Publickey beforeUpdate)))"

definition DeleteUser :: "etcd \<Rightarrow> string \<Rightarrow> (store, unit) eff" where
  "DeleteUser E username =
     ebind (DeletePrefix E (UsersPrefix @ username @ ''-'')) (\<lambda>_. DeleteDevices E username)"

definition GetInitialData :: "etcd \<Rightarrow> (store, UserModel list \<times> Device list) eff" where
  "GetInitialData E =
     ebind (Txn E [] [OpGetPrefix True ''users-'', OpGetPrefix True ''devices-''] []) (\<lambda>(_, rs).
     ebind (lift (decode_all (dec_user zero_user) (range_kvs (rs ! 0)))) (\<lambda>users.
     ebind (lift (decode_all dec_device (range_kvs (rs ! 1)))) (\<lambda>devices.
     ret (users, devices))))"

section \<open>The device table as an abstract map\<close>

definition device_at :: "store \<Rightarrow> string \<Rightarrow> Device option" where
  "device_at s key = (case value_at s key of
      Some (Json j) \<Rightarrow> (case dec_device j of Inr d \<Rightarrow> Some d | Inl _ \<Rightarrow> None)
    | _ \<Rightarrow> None)"

lemma device_atE:
  assumes "device_at s key = Some d"
  obtains j r where "range_of s [key] = [(key, Json j, r)]" and "dec_device j = Inr d" and "find_key s key \<noteq> None"
  using assms by (auto simp: device_at_def value_at_def range_of_single split: option.splits gvalue.splits sum.splits)

lemma device_at_put [simp]:
  "device_ok d \<Longrightarrow> device_at (put_key k (Json (enc_device d)) s) l = (if l = k then Some d else device_at s l)"
  by (simp add: device_at_def)

lemma evolves_change_device [evolves_intro]: "evolves (change_device f gr)"
  unfolding change_device_def by (auto intro!: evolves_intro)

lemma change_device_Inr:
  assumes "change_device f (range_of m [key]) w = (Inr new, w')"
  shows "\<exists>d. device_at m key = Some d \<and> new = Json (enc_device (f d)) \<and> w' = w"
  using assms
  by (auto simp: change_device_def range_of_single device_at_def value_at_def unmarshal_def
      split: option.splits gvalue.splits)

lemma dec_int_int64: "dec_or dec_int z j = Inr i \<Longrightarrow> int64 z \<Longrightarrow> int64 i"
  by (cases j) (auto simp: int64_def mismatch_def split: if_splits)

lemma dec_field_inv:
  assumes "dec_field f n z ms = Inr x" and "P z" and "\<And>z j y. dec_or f z j = Inr y \<Longrightarrow> P z \<Longrightarrow> P y"
  shows "P x"
  using assms(1,2)
proof (induction ms arbitrary: z)
  case (Cons m ms)
  obtain k j where m: "m = (k, j)" by (cases m)
  show ?case
  proof (cases "same_name n k")
    case True
    with Cons.prems m obtain y where "dec_or f z j = Inr y" "dec_field f n y ms = Inr x" by auto
    then show ?thesis using Cons.IH assms(3) Cons.prems(2) by blast
  next
    case False
    then show ?thesis using Cons.IH Cons.prems m by simp
  qed
qed simp

lemma dec_field_int: "dec_field dec_int n 0 ms = Inr i \<Longrightarrow> int64 i"
  by (erule dec_field_inv [where P = int64]) (simp add: int64_def, rule dec_int_int64)

lemma dec_udp_int64:
  "dec_or dec_udp z j = Inr a \<Longrightarrow> (case z of None \<Rightarrow> True | Some u \<Rightarrow> int64 (ua_Port u)) \<Longrightarrow>
     (case a of None \<Rightarrow> True | Some u \<Rightarrow> int64 (ua_Port u))"
  by (cases j) (auto simp: dec_udp_def dec_struct_def mismatch_def dest: dec_field_int)

lemma device_ok_dec:
  assumes "dec_device j = Inr d"
  shows "device_ok d"
proof (cases j)
  case (JObj ms)
  have udp: "case e of None \<Rightarrow> True | Some u \<Rightarrow> int64 (ua_Port u)"
    if "dec_field dec_udp n None ms = Inr e" for n e
    using that by (rule dec_field_inv) (simp, rule dec_udp_int64)
  from assms JObj show ?thesis
    by (auto simp: dec_device_def device_ok_def dest: dec_field_int udp)
qed (use assms in \<open>auto simp: dec_device_def dec_struct_def mismatch_def zero_device_def device_ok_def int64_def\<close>)

lemma device_at_ok: "device_at s k = Some d \<Longrightarrow> device_ok d"
  by (auto simp: device_at_def dest: device_ok_dec split: option.splits gvalue.splits sum.splits)

section \<open>Changes of one device\<close>

lemma change_device_atomic:
  assumes "etcd_service E" and "store_wf s" and "doSafeUpdate E key False (change_device f) s = (Inr (), t)"
    and "\<And>d. device_ok d \<Longrightarrow> device_ok (f d)"
  shows "\<exists>m d. later s m \<and> device_at m key = Some d \<and> device_at t key = Some (f d) \<and>
     (\<forall>k. k \<noteq> key \<longrightarrow> find_key t k = find_key m k)"
proof -
  from etcd_service.doSafeUpdate_atomic_service [OF assms(1) evolves_change_device assms(3,2)]
  obtain x new w m where x: "later s x" and c: "change_device f (range_of m [key]) x = (Inr new, w)"
    and m: "later w m" and t: "t = put_key key new m"
    unfolding atomic_update_def by blast
  from change_device_Inr [OF c] obtain d where d: "device_at m key = Some d" "new = Json (enc_device (f d))" "w = x"
    by blast
  then have "device_ok (f d)" using assms(4) device_at_ok by blast
  with x m t d show ?thesis by (intro exI [of _ m] exI [of _ d]) (auto intro: later_trans)
qed

lemma evolves_GetUserData: "etcd_service E \<Longrightarrow> evolves (GetUserData E n)"
  unfolding GetUserData_def by (auto intro!: evolves_intro etcd_service.evolves_ops)

lemma evolves_authorise [evolves_intro]: "etcd_service E \<Longrightarrow> evolves (authorise_mutator E now c gr)"
  unfolding authorise_mutator_def by (auto intro!: evolves_intro evolves_GetUserData)

lemma GetUserData_ok:
  assumes "etcd_service E" and "GetUserData E n s = (Inr u, t)"
  shows "later s t \<and> user_at t n = Some u"
proof -
  from assms(2) obtain kvs s1 where g: "Get E (userKey n) s = (Inr kvs, s1)"
    and rest: "(case kvs of [(_, v, _)] \<Rightarrow> lift (unmarshal (dec_user zero_user) v)
      | _ \<Rightarrow> raise ''invalid number of users for entry'') s1 = (Inr u, t)"
    unfolding GetUserData_def user_key_eq ebind_eq_Inr by blast
  from rest obtain k v r where kvs: "kvs = [(k, v, r)]" and "unmarshal (dec_user zero_user) v = Inr u" "t = s1"
    by (auto split: list.splits)
  with Get_user [OF assms(1) g [unfolded kvs]] show ?thesis by blast
qed

lemma AuthoriseDevice_atomic:
  assumes "etcd_service E" and "store_wf s"
    and "AuthoriseDevice E now random n a s = (Inr challenge, t)"
  shows "random = Inr challenge \<and> (\<exists>m d p u. device_at m (deviceKey n a) = Some d \<and>
     later s p \<and> later p m \<and> user_at p (dv_Username d) = Some u \<and> \<not> um_Locked u \<and>
     device_at t (deviceKey n a) = Some (d\<lparr>dv_AssociatedNode := GetServerID E, dv_Authorised := now,
                                           dv_Attempts := 0, dv_Challenge := challenge\<rparr>) \<and>
     (\<forall>k. k \<noteq> deviceKey n a \<longrightarrow> find_key t k = find_key m k))"
proof -
  let ?key = "deviceKey n a"
  from assms(3) have random: "random = Inr challenge"
    and upd: "doSafeUpdate E ?key False (authorise_mutator E now challenge) s = (Inr (), t)"
    by (auto simp: AuthoriseDevice_def ebind_eq_Inr wrap_err_eq_Inr split: sum.splits)
  from etcd_service.doSafeUpdate_atomic_service [OF assms(1) evolves_authorise [OF assms(1)] upd assms(2)]
  obtain x new w m where x: "later s x" and c: "authorise_mutator E now challenge (range_of m [?key]) x = (Inr new, w)"
    and m: "later w m" and t: "t = put_key ?key new m"
    unfolding atomic_update_def by blast
  from c obtain j r d where rng: "find_key m ?key = Some (Json j, r)" and d: "dec_device j = Inr d"
    and g: "ebind (GetUserData E (dv_Username d)) (\<lambda>u.
        if um_Locked u then raise ''account is locked''
        else ret (Json (enc_device (d\<lparr>dv_AssociatedNode := GetServerID E, dv_Authorised := now,
                                      dv_Attempts := 0, dv_Challenge := challenge\<rparr>)))) x = (Inr new, w)"
    by (auto simp: authorise_mutator_def range_of_single ebind_eq_Inr unmarshal_def split: option.splits gvalue.splits)
  from g obtain u where u: "GetUserData E (dv_Username d) x = (Inr u, w)" "\<not> um_Locked u"
    and new: "new = Json (enc_device (d\<lparr>dv_AssociatedNode := GetServerID E, dv_Authorised := now,
                                      dv_Attempts := 0, dv_Challenge := challenge\<rparr>))"
    by (auto simp: ebind_eq_Inr split: if_splits)
  from GetUserData_ok [OF assms(1) u(1)] have w: "later x w" "user_at w (dv_Username d) = Some u" by simp_all
  have at: "device_at m ?key = Some d" using rng d by (simp add: device_at_def value_at_def)
  then have "device_ok d" by (rule device_at_ok)
  then have "device_ok (d\<lparr>dv_AssociatedNode := GetServerID E, dv_Authorised := now, dv_Attempts := 0,
      dv_Challenge := challenge\<rparr>)" by (simp add: device_ok_def int64_def)
  then have "device_at t ?key = Some (d\<lparr>dv_AssociatedNode := GetServerID E, dv_Authorised := now, dv_Attempts := 0,
      dv_Challenge := challenge\<rparr>)"
    unfolding t new by simp
  moreover have "later s w" using x w(1) by (rule later_trans)
  ultimately show ?thesis using random at w(2) u(2) m t by (intro conjI exI [of _ m] exI [of _ d] exI [of _ w] exI [of _ u]) auto
qed

text \<open>C15
  A device is authorised only while its account is not locked: when \<open>AuthoriseDevice\<close> succeeds,
  whatever other clients did, there was a moment during the call at which the account named by the
  device's record was not locked, the record that was replaced was current when it was replaced,
  and the new one differs from it in the node, the time, the challenge and the attempts, which are
  cleared; nothing else was written.
\<close>

theorem AuthoriseDevice_unlocked:
  assumes "etcd_service E" and "store_wf s"
    and "AuthoriseDevice E now random n a s = (Inr challenge, t)"
  shows "random = Inr challenge \<and> (\<exists>m d p u. device_at m (deviceKey n a) = Some d \<and>
     later s p \<and> later p m \<and> user_at p (dv_Username d) = Some u \<and> \<not> um_Locked u \<and>
     device_at t (deviceKey n a) = Some (d\<lparr>dv_AssociatedNode := GetServerID E, dv_Authorised := now,
                                           dv_Attempts := 0, dv_Challenge := challenge\<rparr>) \<and>
     (\<forall>k. k \<noteq> deviceKey n a \<longrightarrow> find_key t k = find_key m k))"
  using AuthoriseDevice_atomic [OF assms] .

definition demo_device :: Device where
  "demo_device = new_device ''ann'' ''10.0.0.2'' ''pk'' ''psk''"

definition demo_store2 :: store where
  "demo_store2 = put_key (deviceKey ''ann'' ''10.0.0.2'') (Json (enc_device demo_device)) demo_store"

lemma demo_device_ok [simp]: "device_ok demo_device"
  by (simp add: demo_device_def new_device_def zero_device_def device_ok_def int64_def)

lemma keys_differ [simp]:
  "deviceKey n a \<noteq> userKey m" "userKey m \<noteq> deviceKey n a"
  "deviceKey n a \<noteq> ''deviceref-'' @ x" "''deviceref-'' @ x \<noteq> deviceKey n a"
  "userKey m \<noteq> ''deviceref-'' @ x" "''deviceref-'' @ x \<noteq> userKey m"
  by (simp_all add: deviceKey_def userKey_def UsersPrefix_def)

lemma demo_store2_facts [simp]:
  "store_wf demo_store2" "user_at demo_store2 ''ann'' = Some demo_user"
  "device_at demo_store2 (deviceKey ''ann'' ''10.0.0.2'') = Some demo_device"
  using later_wf [OF later_put_key, of demo_store] demo_store_facts(2)
  by (simp_all add: demo_store2_def user_at_def)

theorem AuthoriseDevice_unlocked_witness:
  "\<exists>t. AuthoriseDevice etcd_ref 7 (Inr ''c'') ''ann'' ''10.0.0.2'' demo_store2 = (Inr ''c'', t) \<and>
     (\<exists>d. device_at t (deviceKey ''ann'' ''10.0.0.2'') = Some d \<and> dv_Authorised d = 7)"
proof -
  let ?k = "deviceKey ''ann'' ''10.0.0.2''"
  obtain j r where "range_of demo_store2 [?k] = [(?k, Json j, r)]" and "dec_device j = Inr demo_device" and nn: "find_key demo_store2 ?k \<noteq> None"
    using device_atE [OF demo_store2_facts(3)] .
  then have mut: "authorise_mutator etcd_ref 7 ''c'' (range_of demo_store2 [?k]) demo_store2 =
      (Inr (Json (enc_device (demo_device\<lparr>dv_AssociatedNode := 1, dv_Authorised := 7, dv_Attempts := 0,
         dv_Challenge := ''c''\<rparr>))), demo_store2)"
    using etcd_ref.GetUserData_quiet [OF demo_store2_facts(2)]
    by (simp add: authorise_mutator_def ebind_def demo_device_def new_device_def demo_user_def etcd_ref_def)
  obtain t where run: "AuthoriseDevice etcd_ref 7 (Inr ''c'') ''ann'' ''10.0.0.2'' demo_store2 = (Inr ''c'', t)"
    using etcd_ref.doSafeUpdate_quiet [of "authorise_mutator etcd_ref 7 ''c''", OF mut, of False] nn
    by (auto simp: AuthoriseDevice_def ebind_def wrap_err_def on_error_def)
  from AuthoriseDevice_unlocked [OF etcd_ref.etcd_service_axioms demo_store2_facts(1) run]
  have "\<exists>d. device_at t ?k = Some d \<and> dv_Authorised d = 7" by force
  with run show ?thesis by blast
qed

text \<open>
  Deauthenticating, moving and resetting a device change only their fields, atomically: each
  success replaces a record that was current by the same record with only the named fields changed
  (the authorisation time, the endpoint with the node that saw it, the attempts), and writes
  nothing else; the record is the one the address referred to during the call.
\<close>

theorem device_updates_atomic:
  assumes "etcd_service E" and "store_wf s" and "int64 i" and "\<And>e. ep = Some e \<Longrightarrow> int64 (ua_Port e)"
    and "(op, f) \<in> {(DeauthenticateDevice E a, \<lambda>d. d\<lparr>dv_Authorised := 0\<rparr>),
        (UpdateDeviceConnectionDetails E a ep, \<lambda>d. d\<lparr>dv_Endpoint := ep, dv_AssociatedNode := GetServerID E\<rparr>),
        (SetDeviceAuthenticationAttempts E n a i, \<lambda>d. d\<lparr>dv_Attempts := i\<rparr>)}"
    and "op s = (Inr (), t)"
  shows "\<exists>m d key p v. later s p \<and> later p m \<and> device_at m key = Some d \<and> device_at t key = Some (f d) \<and>
     (key = deviceKey n a \<or> value_at p (''deviceref-'' @ a) = Some v \<and> key = value_text E v) \<and>
     (\<forall>k. k \<noteq> key \<longrightarrow> find_key t k = find_key m k)"
proof -
  have ok: "\<And>d. device_ok d \<Longrightarrow> device_ok (f d)"
    using assms(3-5) by (auto simp: device_ok_def int64_def split: option.split)
  have "\<exists>p key v. later s p \<and> (key = deviceKey n a \<or> value_at p (''deviceref-'' @ a) = Some v \<and> key = value_text E v) \<and>
      doSafeUpdate E key False (change_device f) p = (Inr (), t)"
  proof (cases "op = SetDeviceAuthenticationAttempts E n a i \<and> f = (\<lambda>d. d\<lparr>dv_Attempts := i\<rparr>)")
    case True
    with assms(6) have "doSafeUpdate E (deviceKey n a) False (change_device f) s = (Inr (), t)"
      by (simp add: SetDeviceAuthenticationAttempts_def)
    then show ?thesis by blast
  next
    case False
    with assms(5,6) have "ebind (Get E (''deviceref-'' @ a)) (\<lambda>realKey. case realKey of
        [] \<Rightarrow> raise ''device was not found''
      | (_, k, _) # _ \<Rightarrow> doSafeUpdate E (value_text E k) False (change_device f)) s = (Inr (), t)"
      unfolding DeauthenticateDevice_def UpdateDeviceConnectionDetails_def by (elim insertE emptyE) auto
    then obtain kvs p where g: "Get E (''deviceref-'' @ a) s = (Inr kvs, p)"
      and rest: "(case kvs of [] \<Rightarrow> raise ''device was not found''
        | (_, k, _) # _ \<Rightarrow> doSafeUpdate E (value_text E k) False (change_device f)) p = (Inr (), t)"
      unfolding ebind_eq_Inr by blast
    from etcd_service.Get_ok [OF assms(1) g] have p: "later s p" "kvs = range_of p [''deviceref-'' @ a]" by simp_all
    from rest obtain k v r kvs' where kvs: "kvs = (k, v, r) # kvs'"
      and upd: "doSafeUpdate E (value_text E v) False (change_device f) p = (Inr (), t)"
      by (cases kvs) auto
    from p(2) kvs have "value_at p (''deviceref-'' @ a) = Some v"
      by (auto simp: range_of_single value_at_def split: option.splits)
    with p(1) upd show ?thesis by blast
  qed
  then obtain p key v where p: "later s p"
      "key = deviceKey n a \<or> value_at p (''deviceref-'' @ a) = Some v \<and> key = value_text E v"
      "doSafeUpdate E key False (change_device f) p = (Inr (), t)" by blast
  from change_device_atomic [OF assms(1) later_wf [OF p(1) assms(2)] p(3) ok] p(1,2) show ?thesis by blast
qed

theorem device_updates_atomic_witness:
  "\<exists>t. SetDeviceAuthenticationAttempts etcd_ref ''ann'' ''10.0.0.2'' 3 demo_store2 = (Inr (), t) \<and>
     (\<exists>d. device_at t (deviceKey ''ann'' ''10.0.0.2'') = Some d \<and> dv_Attempts d = 3)"
proof -
  let ?k = "deviceKey ''ann'' ''10.0.0.2''"
  let ?f = "\<lambda>d. d\<lparr>dv_Attempts := 3\<rparr>"
  obtain j r where rng: "range_of demo_store2 [?k] = [(?k, Json j, r)]" and "dec_device j = Inr demo_device" and nn: "find_key demo_store2 ?k \<noteq> None"
    using device_atE [OF demo_store2_facts(3)] .
  then have mut: "change_device ?f (range_of demo_store2 [?k]) demo_store2 = (Inr (Json (enc_device (?f demo_device))), demo_store2)"
    by (simp add: change_device_def)
  let ?t = "put_key ?k (Json (enc_device (?f demo_device))) demo_store2"
  have run: "SetDeviceAuthenticationAttempts etcd_ref ''ann'' ''10.0.0.2'' 3 demo_store2 = (Inr (), ?t)"
    using etcd_ref.doSafeUpdate_quiet [of "change_device ?f", OF mut, of False] nn
    by (auto simp: SetDeviceAuthenticationAttempts_def)
  have "\<exists>m d key p v. later demo_store2 p \<and> later p m \<and> device_at m key = Some d \<and> device_at ?t key = Some (?f d) \<and>
     (key = ?k \<or> value_at p (''deviceref-'' @ ''10.0.0.2'') = Some v \<and> key = value_text etcd_ref v) \<and>
     (\<forall>k. k \<noteq> key \<longrightarrow> find_key ?t k = find_key m k)"
    by (rule device_updates_atomic [where op = "SetDeviceAuthenticationAttempts etcd_ref ''ann'' ''10.0.0.2'' 3" and f = ?f
          and ep = None and i = 3, OF etcd_ref.etcd_service_axioms demo_store2_facts(1)])
       (simp_all add: int64_def run)
  moreover have "device_at ?t ?k = Some (?f demo_device)"
    using demo_device_ok by (intro trans [OF device_at_put]) (simp_all add: device_ok_def int64_def)
  ultimately show ?thesis using run by auto
qed

lemma evolves_GetLockout: "etcd_service E \<Longrightarrow> evolves (GetLockout E)"
  unfolding GetLockout_def getInt_def get_setting_def by (auto intro!: evolves_intro etcd_service.evolves_ops)

text \<open>
  Failed attempts are counted one by one and the count stops just above the lockout: a success of
  \<open>IncrementAuthenticationAttempt\<close> replaced a current record by the same record with one more
  attempt, unless the count was already above the lockout it read, and then by itself; so a count
  that was at most one above the lockout stays so.
\<close>

theorem attempts_bounded:
  assumes "etcd_service E" and "store_wf s" and "IncrementAuthenticationAttempt E n a s = (Inr (), t)"
  shows "\<exists>m p q l d. later s p \<and> later q m \<and> GetLockout E p = (Inr l, q) \<and> device_at m (deviceKey n a) = Some d \<and>
     value_at t (deviceKey n a) = Some (Json (enc_device (d\<lparr>dv_Attempts := max (dv_Attempts d) (min (dv_Attempts d + 1) (l + 1))\<rparr>))) \<and>
     (\<forall>k. k \<noteq> deviceKey n a \<longrightarrow> find_key t k = find_key m k)"
proof -
  let ?key = "deviceKey n a"
  let ?mut = "\<lambda>gr :: kv list. case gr of
        [(_, v, _)] \<Rightarrow>
          ebind (lift (unmarshal dec_device v)) (\<lambda>userDevice.
          ebind (GetLockout E) (\<lambda>l.
          ret (Json (enc_device (if dv_Attempts userDevice \<le> l
                                 then userDevice\<lparr>dv_Attempts := dv_Attempts userDevice + 1\<rparr> else userDevice)))))
      | _ \<Rightarrow> raise ''invalid number of users''"
  have upd: "doSafeUpdate E ?key False ?mut s = (Inr (), t)" using assms(3) by (simp add: IncrementAuthenticationAttempt_def)
  have ev: "evolves (?mut kvs)" for kvs
    by (auto intro!: evolves_intro evolves_GetLockout [OF assms(1)])
  from etcd_service.doSafeUpdate_atomic_service [OF assms(1) ev upd assms(2)]
  obtain x new w m where x: "later s x" and c: "?mut (range_of m [?key]) x = (Inr new, w)"
    and m: "later w m" and t: "t = put_key ?key new m"
    unfolding atomic_update_def by blast
  from c obtain j r d where rng: "find_key m ?key = Some (Json j, r)" and d: "dec_device j = Inr d"
    and g: "ebind (GetLockout E) (\<lambda>l. ret (Json (enc_device (if dv_Attempts d \<le> l
                                 then d\<lparr>dv_Attempts := dv_Attempts d + 1\<rparr> else d)))) x = (Inr new, w)"
    by (auto simp: range_of_single ebind_eq_Inr unmarshal_def split: option.splits gvalue.splits)
  from g obtain l where l: "GetLockout E x = (Inr l, w)"
    and new: "new = Json (enc_device (if dv_Attempts d \<le> l then d\<lparr>dv_Attempts := dv_Attempts d + 1\<rparr> else d))"
    by (auto simp: ebind_eq_Inr)
  have "device_at m ?key = Some d" using rng d by (simp add: device_at_def value_at_def)
  moreover have "new = Json (enc_device (d\<lparr>dv_Attempts := max (dv_Attempts d) (min (dv_Attempts d + 1) (l + 1))\<rparr>))"
  proof (cases "dv_Attempts d \<le> l")
    case False
    then have "max (dv_Attempts d) (min (dv_Attempts d + 1) (l + 1)) = dv_Attempts d" by simp
    with False show ?thesis by (simp add: new)
  qed (simp add: new)
  ultimately show ?thesis using x m l
    by (intro exI [of _ m] exI [of _ x] exI [of _ w] exI [of _ l] exI [of _ d]) (simp add: t)
qed

lemma GetLockout_quiet:
  "etcd_quiet E \<Longrightarrow> value_at s LockoutKey = Some (Json (JNum l)) \<Longrightarrow> int64 l \<Longrightarrow> GetLockout E s = (Inr l, s)"
  using range_of_value_at [of s LockoutKey "Json (JNum l)"]
  by (auto simp: GetLockout_def getInt_def get_setting_def etcd_quiet.Get_quiet ebind_def int64_def)

theorem attempts_bounded_witness:
  "\<exists>t. IncrementAuthenticationAttempt etcd_ref ''ann'' ''10.0.0.2'' (put_key LockoutKey (Json (JNum 5)) demo_store2) = (Inr (), t) \<and>
     value_at t (deviceKey ''ann'' ''10.0.0.2'') = Some (Json (enc_device (demo_device\<lparr>dv_Attempts := 1\<rparr>)))"
proof -
  let ?k = "deviceKey ''ann'' ''10.0.0.2''" and ?s = "put_key LockoutKey (Json (JNum 5)) demo_store2"
  have ne: "?k \<noteq> LockoutKey" by (simp add: deviceKey_def LockoutKey_def)
  then have dev: "device_at ?s ?k = Some demo_device"
    using demo_store2_facts(3) by (simp add: device_at_def)
  obtain j r where rng: "range_of ?s [?k] = [(?k, Json j, r)]" and j: "dec_device j = Inr demo_device" and nn: "find_key ?s ?k \<noteq> None"
    using device_atE [OF dev] .
  have lock: "GetLockout etcd_ref ?s = (Inr 5, ?s)"
    by (rule GetLockout_quiet [OF etcd_ref.etcd_quiet_axioms]) (simp_all add: int64_def)
  have at0: "dv_Attempts demo_device = 0" by (simp add: demo_device_def new_device_def zero_device_def)
  have run: "IncrementAuthenticationAttempt etcd_ref ''ann'' ''10.0.0.2'' ?s =
      (Inr (), put_key ?k (Json (enc_device (demo_device\<lparr>dv_Attempts := 1\<rparr>))) ?s)"
    unfolding IncrementAuthenticationAttempt_def
    by (subst etcd_ref.doSafeUpdate_quiet [where r = "Inr (Json (enc_device (demo_device\<lparr>dv_Attempts := 1\<rparr>)))"])
       (use rng j nn lock at0 in \<open>auto simp: ebind_def\<close>)
  have wf: "store_wf ?s" using later_wf [OF later_put_key demo_store2_facts(1)] .
  from attempts_bounded [OF etcd_ref.etcd_service_axioms wf run] run show ?thesis by auto
qed

end
