(* ===== verification/Lease.thy ===== *)
theory Lease
  imports DataDevices
begin

text \<open>
  The choice of an address for a new device (internal/data/dhcp.go): offsets in a subnet, what a
  lease guarantees against other members of the cluster, that a free address is found, and what
  happens in a full subnet.
\<close>

section \<open>Addresses of a subnet, by offset\<close>

definition host_addr :: "ip4 \<Rightarrow> nat \<Rightarrow> ip4" where
  "host_addr net p = incrementIP net (word_of_nat p)"

lemma host_addr_Suc: "incrementIP (host_addr net p) 1 = host_addr net (Suc p)"
  by (simp add: host_addr_def incrementIP_def ac_simps)

lemma host_addr_1: "incrementIP net 1 = host_addr net 1"
  by (simp add: host_addr_def)

lemma host_addr_inj:
  assumes "p < 2 ^ 32" and "q < 2 ^ 32"
  shows "host_addr net p = host_addr net q \<longleftrightarrow> p = q"
proof -
  have "host_addr net p = host_addr net q \<longleftrightarrow> (word_of_nat p :: u32) = word_of_nat q"
    unfolding host_addr_def incrementIP_def by (metis add_left_cancel ip4_to_of_word)
  also have "\<dots> \<longleftrightarrow> p = q" using assms by (auto simp: word_of_nat_eq_iff take_bit_nat_eq_self)
  finally show ?thesis .
qed

lemma split_word:
  fixes w k :: u32
  assumes "w AND mask m = 0" and "uint k < 2 ^ m"
  shows "(w + k) AND NOT (mask m) = w" and "(w + k) AND mask m = k"
proof -
  have k: "k AND mask m = k" using assms(2) by (simp add: mask_eq_iff)
  have wb: "\<not> (bit w i \<and> i < m)" for i
    using arg_cong [OF assms(1), of "\<lambda>x. bit x i"] bit_imp_le_length [of w i] by (auto simp: bit_simps)
  have kb: "bit k i \<longrightarrow> i < m" for i
    using arg_cong [OF k, of "\<lambda>x. bit x i"] by (auto simp: bit_simps)
  have "w AND k = 0"
    by (rule bit_word_eqI) (use wb kb in \<open>auto simp: bit_simps\<close>)
  then have "w + k = w OR k"
    by (simp add: disjunctive_add_eq_or)
  moreover have "(w OR k) AND NOT (mask m) = w" "(w OR k) AND mask m = k"
    by (rule bit_word_eqI; use wb kb in \<open>auto simp: bit_simps\<close>)+
  ultimately show "(w + k) AND NOT (mask m) = w" "(w + k) AND mask m = k" by simp_all
qed

lemma split_mask: "(x :: u32) = (x AND NOT (mask m)) + (x AND mask m)"
proof -
  have "(x AND NOT (mask m)) + (x AND mask m) = (x AND NOT (mask m)) OR (x AND mask m)"
    by (rule disjunctive_add_eq_or) (rule bit_word_eqI, auto simp: bit_simps)
  also have "\<dots> = x" by (rule bit_word_eqI) (auto simp: bit_simps)
  finally show ?thesis by simp
qed

lemma masked_low: "ip4_to_word (mask_ip4 n a) AND mask (32 - n) = 0"
  by (simp add: mask_ip4_def prefix_mask_def and.assoc)

lemma uint_word_of_nat:
  assumes "m \<le> 32" and "p < 2 ^ m"
  shows "uint (word_of_nat p :: u32) < 2 ^ m"
proof -
  have "int p < 2 ^ m" using assms(2) by (metis of_nat_less_iff of_nat_numeral of_nat_power)
  moreover have "uint (word_of_nat p :: u32) \<le> int p"
    by (simp add: unsigned_of_nat take_bit_nat_def)
  ultimately show ?thesis by linarith
qed

lemma net_contains_iff:
  "net_contains (mask_ip4 n a) n b \<longleftrightarrow> ip4_to_word b AND NOT (mask (32 - n)) = ip4_to_word (mask_ip4 n a)"
  unfolding net_contains_def mask_ip4_def prefix_mask_def
  by (metis (no_types, lifting) and.assoc and.idem ip4_to_of_word)

lemma host_in:
  assumes "p < 2 ^ (32 - n)"
  shows "net_contains (mask_ip4 n a) n (host_addr (mask_ip4 n a) p)"
  using split_word(1) [OF masked_low uint_word_of_nat [OF _ assms], of a]
  by (simp add: net_contains_iff host_addr_def incrementIP_def)

lemma host_out:
  assumes "0 < n" and "n \<le> 32"
  shows "\<not> net_contains (mask_ip4 n a) n (host_addr (mask_ip4 n a) (2 ^ (32 - n)))"
proof
  let ?w = "ip4_to_word (mask_ip4 n a)" and ?m = "32 - n"
  let ?x = "?w + 2 ^ ?m"
  assume "net_contains (mask_ip4 n a) n (host_addr (mask_ip4 n a) (2 ^ ?m))"
  then have eq: "?x AND NOT (mask ?m) = ?w"
    by (simp add: net_contains_iff host_addr_def incrementIP_def)
  have "(2 ^ ?m :: u32) AND mask ?m = 0"
    by (rule bit_word_eqI) (auto simp: bit_simps)
  then have "?x AND mask ?m = 0"
    using mask_eqs(7) [of ?w ?m "2 ^ ?m"] masked_low [of n a] by simp
  then have "?x = ?w" using eq split_mask [of ?x ?m] by simp
  then have "(2 ^ ?m :: u32) = 0" by simp
  then show False using assms by simp
qed

lemma of_nat_unat: "word_of_nat (unat (k :: u32)) = k"
  by simp

lemma unat_bound: "uint (k :: u32) < 2 ^ m \<Longrightarrow> unat k < 2 ^ m"
proof -
  assume "uint k < 2 ^ m"
  then have "int (unat k) < int (2 ^ m)" by simp
  then show "unat k < 2 ^ m" unfolding of_nat_less_iff .
qed

lemma host_of_offset:
  assumes "net_contains (mask_ip4 n a) n b"
  shows "b = host_addr (mask_ip4 n a) (unat (ip4_to_word b AND mask (32 - n))) \<and>
    unat (ip4_to_word b AND mask (32 - n)) < 2 ^ (32 - n)"
proof -
  let ?k = "ip4_to_word b AND mask (32 - n)"
  have sum: "ip4_to_word b = ip4_to_word (mask_ip4 n a) + ?k"
    using split_mask [of "ip4_to_word b" "32 - n"] unfolding assms [unfolded net_contains_iff] .
  have "b = ip4_of_word (ip4_to_word b)" by simp
  also note sum
  finally have "b = host_addr (mask_ip4 n a) (unat ?k)"
    unfolding host_addr_def incrementIP_def of_nat_unat .
  moreover have "unat ?k < 2 ^ (32 - n)"
    by (rule unat_bound, rule and_mask_lt_2p)
  ultimately show ?thesis by blast
qed

section \<open>The search for a lease\<close>

text \<open>One round of the search at an offset, in terms of offsets; \<open>sv\<close> is the server's.\<close>

definition free_at :: "store \<Rightarrow> ip4 \<Rightarrow> bool" where
  "free_at s a \<longleftrightarrow> find_key s (''deviceref-'' @ ip4_string a) = None \<and> find_key s (''ip-hold-'' @ ip4_string a) = None"

definition hold :: "ip4 \<Rightarrow> store \<Rightarrow> store" where
  "hold a s = put_key (''ip-hold-'' @ ip4_string a) (Text (ip4_string a)) s"

definition skip_server :: "nat \<Rightarrow> nat \<Rightarrow> nat" where
  "skip_server sv p = (if p = sv then Suc p else p)"

definition try_lease :: "etcd \<Rightarrow> ip4 \<Rightarrow> (store, response) eff" where
  "try_lease E addr = Txn E [KeyMissing (''deviceref-'' @ ip4_string addr), KeyMissing (''ip-hold-'' @ ip4_string addr)]
               [OpPut (''ip-hold-'' @ ip4_string addr) (Text (ip4_string addr))] []"

lemma apply_lease:
  "apply_request \<lparr>rq_if = [KeyMissing (''deviceref-'' @ ip4_string a), KeyMissing (''ip-hold-'' @ ip4_string a)],
      rq_then = [OpPut (''ip-hold-'' @ ip4_string a) (Text (ip4_string a))], rq_else = []\<rparr> m =
    (if free_at m a then ((True, [Stored []]), hold a m) else ((False, []), m))"
  by (auto simp: apply_request_def free_at_def hold_def put_key_def)

lemma try_lease_ok:
  assumes "etcd_service E" and "try_lease E a s = (Inr (ok, rs), t)"
  shows "\<exists>m. later s m \<and> ok = free_at m a \<and> t = (if ok then hold a m else m)"
proof -
  from etcd_service.Txn_ok [OF assms(1) assms(2) [unfolded try_lease_def]]
  obtain m where "later s m" "apply_request \<lparr>rq_if = [KeyMissing (''deviceref-'' @ ip4_string a), KeyMissing (''ip-hold-'' @ ip4_string a)],
      rq_then = [OpPut (''ip-hold-'' @ ip4_string a) (Text (ip4_string a))], rq_else = []\<rparr> m = ((ok, rs), t)" .
  then have "later s m" "(if free_at m a then ((True, [Stored []]), hold a m) else ((False, []), m)) = ((ok, rs), t)"
    by (simp_all only: apply_lease)
  then show ?thesis by (intro exI [of _ m]) (auto split: if_splits)
qed

text \<open>A subnet as the search sees it.\<close>

definition subnet_of :: "nat \<Rightarrow> ip4 \<Rightarrow> ipnet" where
  "subnet_of n a = \<lparr>net_ip = Some (V4 (mask_ip4 n a)), net_ones = n\<rparr>"

lemma contains_subnet:
  assumes "0 < n" and "n \<le> 32" and "p \<le> 2 ^ (32 - n)"
  shows "contains_ip (subnet_of n a) (host_addr (mask_ip4 n a) p) \<longleftrightarrow> p < 2 ^ (32 - n)"
  using host_in [of p n a] host_out [OF assms(1,2), of a] assms(3)
  by (cases "p < 2 ^ (32 - n)") (auto simp: contains_ip_def subnet_of_def)

lemma small_offset:
  fixes p n :: nat
  assumes "p < 2 ^ (32 - n)"
  shows "p < 2 ^ 32"
proof -
  have "(2::nat) ^ (32 - n) \<le> 2 ^ 32" by (rule power_increasing) simp_all
  with assms show ?thesis by linarith
qed

lemma skip_server_addr:
  assumes "p < 2 ^ (32 - n)" and "sv < 2 ^ (32 - n)"
  shows "(if V4 (host_addr net sv) = V4 (host_addr net p) then incrementIP (host_addr net p) 1 else host_addr net p)
     = host_addr net (skip_server sv p)"
  using host_addr_inj [OF small_offset [OF assms(1)] small_offset [OF assms(2)], of net]
  by (auto simp: skip_server_def host_addr_Suc)

text \<open>The offset tried after a failure.\<close>

definition next_offset :: "nat \<Rightarrow> nat \<Rightarrow> nat" where
  "next_offset n p = (if Suc p < 2 ^ (32 - n) then Suc p else 1)"

lemma lease_step:
  assumes n: "0 < n" "n \<le> 30" and p: "p < 2 ^ (32 - n)" and sv: "sv < 2 ^ (32 - n) - 1"
  shows "lease_loop E (V4 (host_addr (mask_ip4 n a) sv)) (mask_ip4 n a) (subnet_of n a) start (Suc k) (host_addr (mask_ip4 n a) p) =
    (let q = skip_server sv p in
     ebind (try_lease E (host_addr (mask_ip4 n a) q)) (\<lambda>(succeeded, _).
       if succeeded then ret (ip4_string (host_addr (mask_ip4 n a) q))
       else if \<not> Suc q < 2 ^ (32 - n) \<and> host_addr (mask_ip4 n a) 1 = start
            then raise ''unable to obtain ip lease, subnet is full''
            else lease_loop E (V4 (host_addr (mask_ip4 n a) sv)) (mask_ip4 n a) (subnet_of n a) start k
                   (host_addr (mask_ip4 n a) (next_offset n q))))"
proof -
  let ?net = "mask_ip4 n a"
  let ?q = "skip_server sv p"
  have q: "?q < 2 ^ (32 - n)" using p sv by (auto simp: skip_server_def)
  have c: "contains_ip (subnet_of n a) (host_addr ?net (Suc ?q)) \<longleftrightarrow> Suc ?q < 2 ^ (32 - n)"
    using n q by (intro contains_subnet) auto
  have sv': "sv < 2 ^ (32 - n)" using sv by simp
  show ?thesis
    unfolding lease_loop.simps unfolding skip_server_addr [OF p sv']
    unfolding Let_def host_addr_Suc c try_lease_def [symmetric] host_addr_1 [of ?net] next_offset_def
    by (rule arg_cong [where f = "\<lambda>f. ebind _ f"], rule ext, auto)
qed

declare lease_loop.simps(2) [simp del]

text \<open>Whatever the service does, a lease is an address of the subnet's hosts that was free when it was taken.\<close>

lemma lease_loop_safe:
  assumes E: "etcd_service E" and n: "0 < n" "n \<le> 30" and sv: "sv < 2 ^ (32 - n) - 1"
    and "0 < p" "p < 2 ^ (32 - n)"
    and "lease_loop E (V4 (host_addr (mask_ip4 n a) sv)) (mask_ip4 n a) (subnet_of n a) start k (host_addr (mask_ip4 n a) p) s = (Inr r, t)"
  shows "\<exists>q m. 0 < q \<and> q < 2 ^ (32 - n) \<and> q \<noteq> sv \<and> r = ip4_string (host_addr (mask_ip4 n a) q) \<and>
     later s m \<and> free_at m (host_addr (mask_ip4 n a) q) \<and> t = hold (host_addr (mask_ip4 n a) q) m"
  using assms(5-7)
proof (induction k arbitrary: p s)
  case (Suc k)
  let ?q = "skip_server sv p" and ?net = "mask_ip4 n a"
  have q: "0 < ?q" "?q < 2 ^ (32 - n)" "?q \<noteq> sv" using Suc.prems(1,2) sv by (auto simp: skip_server_def)
  from Suc.prems(3) lease_step [OF n Suc.prems(2) sv, of E a start k] obtain ok rs u where
    tr: "try_lease E (host_addr ?net ?q) s = (Inr (ok, rs), u)" and
    rest: "(if ok then ret (ip4_string (host_addr ?net ?q))
       else if \<not> Suc ?q < 2 ^ (32 - n) \<and> host_addr ?net 1 = start
            then raise ''unable to obtain ip lease, subnet is full''
            else lease_loop E (V4 (host_addr ?net sv)) ?net (subnet_of n a) start k (host_addr ?net (next_offset n ?q))) u = (Inr r, t)"
    by (auto simp: Let_def ebind_eq_Inr)
  from try_lease_ok [OF E tr] obtain m where m: "later s m" "ok = free_at m (host_addr ?net ?q)" "u = (if ok then hold (host_addr ?net ?q) m else m)"
    by blast
  show ?case
  proof (cases ok)
    case True
    with rest m q show ?thesis by (intro exI [of _ ?q] exI [of _ m]) auto
  next
    case False
    with rest have l: "lease_loop E (V4 (host_addr ?net sv)) ?net (subnet_of n a) start k (host_addr ?net (next_offset n ?q)) u = (Inr r, t)"
      by (auto split: if_splits)
    have "0 < next_offset n ?q" "next_offset n ?q < 2 ^ (32 - n)"
      using sv by (auto simp: next_offset_def)
    from Suc.IH [OF this l] m(1,3) False show ?thesis by (auto intro: later_trans)
  qed
qed simp

text \<open>With no other writer, the search reaches the next free address, going round once.\<close>

lemma try_lease_quiet:
  "etcd_quiet E \<Longrightarrow> try_lease E a s = (if free_at s a then (Inr (True, [Stored []]), hold a s) else (Inr (False, []), s))"
  unfolding try_lease_def by (simp only: etcd_quiet.Txn_quiet apply_lease) simp

definition search :: "etcd \<Rightarrow> nat \<Rightarrow> ip4 \<Rightarrow> nat \<Rightarrow> ip4 \<Rightarrow> nat \<Rightarrow> nat \<Rightarrow> (store, string) eff" where
  "search E n a sv start k p =
     lease_loop E (V4 (host_addr (mask_ip4 n a) sv)) (mask_ip4 n a) (subnet_of n a) start k (host_addr (mask_ip4 n a) p)"

lemma search_0 [simp]: "search E n a sv start 0 p s = (Inl OutOfFuel, s)"
  by (simp add: search_def)

lemma search_round:
  assumes E: "etcd_quiet E" and n: "0 < n" "n \<le> 30" and sv: "sv < 2 ^ (32 - n) - 1" and p: "p < 2 ^ (32 - n)"
  shows "search E n a sv start (Suc k) p s =
    (let q = skip_server sv p in
     if free_at s (host_addr (mask_ip4 n a) q) then (Inr (ip4_string (host_addr (mask_ip4 n a) q)), hold (host_addr (mask_ip4 n a) q) s)
     else if \<not> Suc q < 2 ^ (32 - n) \<and> host_addr (mask_ip4 n a) 1 = start
          then (Inl (GoErr ''unable to obtain ip lease, subnet is full''), s)
          else search E n a sv start k (next_offset n q) s)"
  using lease_step [OF n p sv] by (simp add: search_def Let_def ebind_def try_lease_quiet [OF E])

lemma search_up:
  assumes E: "etcd_quiet E" and n: "0 < n" "n \<le> 30" and sv: "sv < 2 ^ (32 - n) - 1"
    and "0 < p" "p \<le> f" "f < 2 ^ (32 - n)" "f \<noteq> sv" "free_at s (host_addr (mask_ip4 n a) f)" "f - p < k"
  shows "\<exists>r t. search E n a sv start k p s = (Inr r, t)"
  using assms(5,6,10)
proof (induction k arbitrary: p)
  case (Suc k)
  let ?q = "skip_server sv p"
  have q: "0 < ?q" "?q \<le> f" "p \<le> ?q" using Suc.prems(1,2) assms(8) by (auto simp: skip_server_def)
  show ?case
  proof (cases "free_at s (host_addr (mask_ip4 n a) ?q)")
    case False
    then have lt: "?q < f" using q assms(9) by (cases "?q = f") auto
    then have nx: "next_offset n ?q = Suc ?q" "Suc ?q < 2 ^ (32 - n)" using assms(7) by (auto simp: next_offset_def)
    have "\<exists>r t. search E n a sv start k (Suc ?q) s = (Inr r, t)"
      by (rule Suc.IH) (use lt q Suc.prems in auto)
    with False nx search_round [OF E n sv, of p a start k s] Suc.prems(2) assms(7) show ?thesis by (simp add: Let_def)
  qed (use search_round [OF E n sv, of p a start k s] Suc.prems(2) assms(7) in \<open>simp add: Let_def\<close>)
qed simp

lemma search_round_trip:
  assumes E: "etcd_quiet E" and n: "0 < n" "n \<le> 30" and sv: "sv < 2 ^ (32 - n) - 1"
    and "f < p" "p < 2 ^ (32 - n)" "0 < f" "f \<noteq> sv" "free_at s (host_addr (mask_ip4 n a) f)"
    and "host_addr (mask_ip4 n a) 1 \<noteq> start" "2 ^ (32 - n) - p + f \<le> k"
  shows "\<exists>r t. search E n a sv start k p s = (Inr r, t)"
  using assms(5,6,11)
proof (induction k arbitrary: p)
  case (Suc k)
  let ?q = "skip_server sv p"
  have q: "p \<le> ?q" "?q < 2 ^ (32 - n)" using Suc.prems(2) sv by (auto simp: skip_server_def)
  have "\<exists>r t. search E n a sv start k (next_offset n ?q) s = (Inr r, t)"
  proof (cases "Suc ?q < 2 ^ (32 - n)")
    case True
    then show ?thesis using Suc.IH [of "Suc ?q"] q Suc.prems by (simp add: next_offset_def)
  next
    case False
    then show ?thesis
      using search_up [OF E n sv, of 1 f s a k start] assms(7-9) Suc.prems q by (simp add: next_offset_def)
  qed
  with search_round [OF E n sv Suc.prems(2)] assms(10) show ?case by (simp add: Let_def)
qed (use assms(7) in simp)

lemma search_full:
  assumes E: "etcd_quiet E" and n: "0 < n" "n \<le> 30" and sv: "sv < 2 ^ (32 - n) - 1"
    and "\<And>q. 0 < q \<Longrightarrow> q < 2 ^ (32 - n) \<Longrightarrow> q \<noteq> sv \<Longrightarrow> \<not> free_at s (host_addr (mask_ip4 n a) q)"
    and "host_addr (mask_ip4 n a) 1 \<noteq> start" "0 < p" "p < 2 ^ (32 - n)"
  shows "search E n a sv start k p s = (Inl OutOfFuel, s)"
  using assms(7,8)
proof (induction k arbitrary: p)
  case (Suc k)
  let ?q = "skip_server sv p"
  have q: "0 < ?q" "?q < 2 ^ (32 - n)" "?q \<noteq> sv" using Suc.prems sv by (auto simp: skip_server_def)
  have "0 < next_offset n ?q" "next_offset n ?q < 2 ^ (32 - n)" using sv by (auto simp: next_offset_def)
  with Suc.IH [OF this] search_round [OF E n sv Suc.prems(2)] assms(5) [OF q] assms(6) show ?case by (simp add: Let_def)
qed simp

section \<open>The address of a new device\<close>

text \<open>The configured address of the server, its offset in the subnet, and where the search starts.\<close>

definition cidr_text :: "ip4 \<Rightarrow> nat \<Rightarrow> string" where
  "cidr_text srv n = ip4_string srv @ ''/'' @ show_nat n"

definition server_offset :: "nat \<Rightarrow> ip4 \<Rightarrow> nat" where
  "server_offset n srv = unat (ip4_to_word srv AND mask (32 - n))"

lemma server_offset: "host_addr (mask_ip4 n srv) (server_offset n srv) = srv" "server_offset n srv < 2 ^ (32 - n)"
proof -
  have "srv = host_addr (mask_ip4 n srv) (server_offset n srv) \<and> server_offset n srv < 2 ^ (32 - n)"
    using host_of_offset [of n srv srv] by (simp add: net_contains_def server_offset_def)
  then show "host_addr (mask_ip4 n srv) (server_offset n srv) = srv" "server_offset n srv < 2 ^ (32 - n)"
    by simp_all
qed

definition start_offset :: "(nat \<Rightarrow> nat) \<Rightarrow> nat \<Rightarrow> ip4 \<Rightarrow> nat" where
  "start_offset intn n srv = skip_server (server_offset n srv) (Suc (intn (2 ^ (32 - n) - 2)))"

lemma getNextIP_eq:
  assumes n: "0 < n" "n \<le> 30" and r: "intn (2 ^ (32 - n) - 2) < 2 ^ (32 - n) - 2"
  shows "getNextIP E N intn (cidr_text srv n) =
    ebind (Grant E) (\<lambda>_. lease_loop E (V4 srv) (mask_ip4 n srv) (subnet_of n srv)
      (host_addr (mask_ip4 n srv) (start_offset intn n srv)) (attempts E)
      (host_addr (mask_ip4 n srv) (start_offset intn n srv)))"
proof -
  let ?net = "mask_ip4 n srv" and ?p = "Suc (intn (2 ^ (32 - n) - 2))"
  have "(4::nat) \<le> 2 ^ (32 - n)"
    using power_increasing [of 2 "32 - n" "2::nat"] n(2) by simp
  then have mx: "(4::int) \<le> 2 ^ (32 - n)" by (metis of_nat_le_iff of_nat_numeral of_nat_power)
  then have mx': "nat (2 ^ (32 - n) - 2) = 2 ^ (32 - n) - 2" by (simp add: nat_diff_distrib nat_power_eq)
  have p: "?p < 2 ^ (32 - n)" using r by simp
  have skip: "(if V4 srv = V4 (incrementIP ?net (word_of_nat ?p)) then incrementIP (incrementIP ?net (word_of_nat ?p)) 1
       else incrementIP ?net (word_of_nat ?p)) = host_addr ?net (start_offset intn n srv)"
    using skip_server_addr [OF p server_offset(2) [of n srv], of ?net] unfolding server_offset(1) start_offset_def unfolding host_addr_def .
  have cidr: "ParseCIDR N (cidr_text srv n) = Some (V4 srv, subnet_of n srv)"
    using n(2) unfolding cidr_text_def subnet_of_def by (intro ParseCIDR_string) simp
  show ?thesis
    unfolding getNextIP_def cidr using mx n skip
    by (simp add: subnet_of_def Let_def mx')
qed

lemma start_offset:
  assumes "n \<le> 30" and "intn (2 ^ (32 - n) - 2) < 2 ^ (32 - n) - 2" and "server_offset n srv < 2 ^ (32 - n) - 1"
  shows "0 < start_offset intn n srv" "start_offset intn n srv < 2 ^ (32 - n)"
proof -
  have "Suc (intn (2 ^ (32 - n) - 2)) < 2 ^ (32 - n)" using assms(2) by linarith
  with assms(3) show "0 < start_offset intn n srv" "start_offset intn n srv < 2 ^ (32 - n)"
    by (auto simp: start_offset_def skip_server_def)
qed



text \<open>C31
  A full subnet is only noticed when the search happens to start at its first address: from every
  other start, when every host address is used or held, \<open>getNextIP\<close> goes on for ever: no number of
  rounds makes it return.
\<close>

theorem getNextIP_full_diverges:
  assumes "etcd_quiet E" and "0 < n" and "n \<le> 30"
    and "intn (2 ^ (32 - n) - 2) < 2 ^ (32 - n) - 2"
    and "server_offset n srv \<noteq> 2 ^ (32 - n) - 1" and "start_offset intn n srv \<noteq> 1"
    and "\<And>q. 0 < q \<Longrightarrow> q < 2 ^ (32 - n) \<Longrightarrow> q \<noteq> server_offset n srv \<Longrightarrow> \<not> free_at s (host_addr (mask_ip4 n srv) q)"
  shows "getNextIP E N intn (cidr_text srv n) s = (Inl OutOfFuel, s)"
proof -
  let ?net = "mask_ip4 n srv" and ?sv = "server_offset n srv"
  let ?st = "start_offset intn n srv"
  have sv: "?sv < 2 ^ (32 - n) - 1" using server_offset(2) [of n srv] assms(5) by linarith
  note st = start_offset [where intn = intn and n = n, OF assms(3,4) sv]
  have g: "Grant E s = (Inr (), s)" using assms(1) by (rule etcd_quiet.Grant_quiet)
  have eq: "getNextIP E N intn (cidr_text srv n) s = search E n srv ?sv (host_addr ?net ?st) (attempts E) ?st s"
    using getNextIP_eq [where intn = intn and n = n, OF assms(2-4)] g server_offset(1) by (simp add: ebind_def search_def)
  have "(1::nat) < 2 ^ (32 - n)" using st assms(6) by linarith
  then have "host_addr ?net 1 \<noteq> host_addr ?net ?st"
    using host_addr_inj [OF small_offset small_offset, of 1 n ?st n ?net] st(2) assms(6) by simp
  from search_full [OF assms(1-3) sv assms(7) this st] show ?thesis unfolding eq .
qed

section \<open>Instances\<close>

definition patient_etcd :: etcd where
  "patient_etcd = etcd_ref\<lparr>attempts := 4\<rparr>"

interpretation patient_etcd: etcd_quiet patient_etcd
  by unfold_locales (simp_all add: patient_etcd_def etcd_ref_def)

definition demo_server :: ip4 where "demo_server = IP4 10 0 0 1"

lemma demo_offsets:
  "server_offset 30 demo_server = 1" "start_offset (\<lambda>_. 0) 30 demo_server = 2"
  "mask_ip4 30 demo_server = IP4 10 0 0 0"
proof -
  show o: "server_offset 30 demo_server = 1"
    by (simp add: server_offset_def demo_server_def get32le_def) code_simp
  then show "start_offset (\<lambda>_. 0) 30 demo_server = 2" by (simp add: start_offset_def skip_server_def)
  show "mask_ip4 30 demo_server = IP4 10 0 0 0"
    by (simp add: demo_server_def) code_simp
qed

lemma demo_host: "host_addr (IP4 10 0 0 0) (Suc 0) = demo_server"
  using server_offset(1) [of 30 demo_server] by (simp add: demo_offsets)



definition full_store :: store where
  "full_store = put_key (''deviceref-'' @ ip4_string (host_addr (mask_ip4 30 demo_server) 3)) (Text ''x'')
     (put_key (''deviceref-'' @ ip4_string (host_addr (mask_ip4 30 demo_server) 2)) (Text ''x'') no_store)"

theorem getNextIP_full_diverges_witness:
  "getNextIP patient_etcd demo_net (\<lambda>_. 0) (cidr_text demo_server 30) full_store = (Inl OutOfFuel, full_store)"
proof (rule getNextIP_full_diverges [OF patient_etcd.etcd_quiet_axioms])
  fix q :: nat
  assume "0 < q" "q < 2 ^ (32 - 30)" "q \<noteq> server_offset 30 demo_server"
  then have "q = 2 \<or> q = 3" by (simp add: demo_offsets) linarith
  then show "\<not> free_at full_store (host_addr (mask_ip4 30 demo_server) q)"
    by (auto simp: free_at_def full_store_def)
qed (simp_all add: demo_offsets)

end
