(* ===== verification/DeviceIndex.thy ===== *)
theory DeviceIndex
  imports Lease
begin

text \<open>
  The consistency of the device table: every reference leads to a device that has the name the
  reference stands for, and every device is reachable by its address and by its public key.
\<close>

section \<open>The invariant\<close>

definition device_ref :: "string \<Rightarrow> string" where
  "device_ref x = ''deviceref-'' @ x"

definition own_key :: "Device \<Rightarrow> string" where
  "own_key d = deviceKey (dv_Username d) (dv_Address d)"

definition index_ok :: "store \<Rightarrow> bool" where
  "index_ok s \<longleftrightarrow>
     (\<forall>x v. value_at s (device_ref x) = Some v \<longrightarrow>
        (\<exists>k d. v = Text k \<and> device_at s k = Some d \<and> k = own_key d \<and> (x = dv_Address d \<or> x = dv_Publickey d))) \<and>
     (\<forall>k d. prefix ''devices-'' k \<longrightarrow> device_at s k = Some d \<longrightarrow>
        k = own_key d \<and> CHR ''-'' \<notin> set (dv_Username d) \<and> CHR ''-'' \<notin> set (dv_Address d) \<and>
        value_at s (device_ref (dv_Address d)) = Some (Text k) \<and>
        value_at s (device_ref (dv_Publickey d)) = Some (Text k))"

lemma index_okD:
  assumes "index_ok s" and "value_at s (device_ref x) = Some v"
  obtains k d where "v = Text k" "device_at s k = Some d" "k = own_key d" "x = dv_Address d \<or> x = dv_Publickey d"
  using assms unfolding index_ok_def by blast

lemma index_okD2:
  assumes "index_ok s" and "prefix ''devices-'' k" and "device_at s k = Some d"
  shows "k = own_key d" "CHR ''-'' \<notin> set (dv_Username d)" "CHR ''-'' \<notin> set (dv_Address d)"
    "value_at s (device_ref (dv_Address d)) = Some (Text k)" "value_at s (device_ref (dv_Publickey d)) = Some (Text k)"
  using assms unfolding index_ok_def by blast+

lemma device_ref_inj [simp]: "device_ref x = device_ref y \<longleftrightarrow> x = y"
  by (simp add: device_ref_def)

lemma deviceKey_prefix [simp]: "prefix ''devices-'' (deviceKey n a)"
  unfolding deviceKey_def by (rule prefixI) simp

lemma ref_not_device [simp]: "\<not> prefix ''devices-'' (device_ref x)" "device_ref x \<noteq> deviceKey n a" "deviceKey n a \<noteq> device_ref x"
  by (simp_all add: device_ref_def deviceKey_def)

lemma deviceKey_inj:
  assumes "CHR ''-'' \<notin> set n" "CHR ''-'' \<notin> set a" "CHR ''-'' \<notin> set n'" "CHR ''-'' \<notin> set a'"
  shows "deviceKey n a = deviceKey n' a' \<longleftrightarrow> n = n' \<and> a = a'"
proof
  assume "deviceKey n a = deviceKey n' a'"
  then have "split_on (CHR ''-'') (deviceKey n a) = split_on (CHR ''-'') (deviceKey n' a')" by (rule arg_cong)
  then show "n = n' \<and> a = a'"
    unfolding split_deviceKey [OF assms(1,2)] split_deviceKey [OF assms(3,4)] by simp
qed simp

lemma device_at_writes:
  "device_at (put_at i k (Text x) s) l = (if l = k then None else device_at s l)"
  "device_ok d \<Longrightarrow> device_at (put_at i k (Json (enc_device d)) s) l = (if l = k then Some d else device_at s l)"
  "device_at (del_at i k s) l = (if l = k then None else device_at s l)"
  by (simp_all add: device_at_def)

text \<open>The invariant looks at the references and at the device records only.\<close>

lemma index_ok_cong:
  assumes ref: "\<And>x. value_at t (device_ref x) = value_at s (device_ref x)"
    and dev: "\<And>k. prefix ''devices-'' k \<Longrightarrow> device_at t k = device_at s k"
    and ok: "index_ok s"
  shows "index_ok t"
  unfolding index_ok_def
proof (intro conjI allI impI)
  fix x v assume "value_at t (device_ref x) = Some v"
  then have "value_at s (device_ref x) = Some v" by (simp only: ref)
  with ok obtain k d where k: "v = Text k" "device_at s k = Some d" "k = own_key d" "x = dv_Address d \<or> x = dv_Publickey d"
    by (rule index_okD)
  have "prefix ''devices-'' k" unfolding k(3) own_key_def by (rule deviceKey_prefix)
  with k dev show "\<exists>k d. v = Text k \<and> device_at t k = Some d \<and> k = own_key d \<and> (x = dv_Address d \<or> x = dv_Publickey d)"
    by metis
next
  fix k d assume k: "prefix ''devices-'' k" "device_at t k = Some d"
  then have "device_at s k = Some d" by (simp only: dev)
  note o = index_okD2 [OF ok k(1) this]
  show "k = own_key d" "CHR ''-'' \<notin> set (dv_Username d)" "CHR ''-'' \<notin> set (dv_Address d)"
    "value_at t (device_ref (dv_Address d)) = Some (Text k)" "value_at t (device_ref (dv_Publickey d)) = Some (Text k)"
    unfolding ref by (rule o)+
qed

section \<open>Adding a device\<close>

text \<open>The store after the three writes of \<open>AddDevice\<close> and \<open>SetDevice\<close>.\<close>

definition add_device :: "Device \<Rightarrow> store \<Rightarrow> store" where
  "add_device d s = (let n = Suc (st_rev s) in
     put_at n (device_ref (dv_Publickey d)) (Text (own_key d))
       (put_at n (device_ref (dv_Address d)) (Text (own_key d)) (put_at n (own_key d) (Json (enc_device d)) s)))"

definition fresh_device :: "store \<Rightarrow> Device \<Rightarrow> bool" where
  "fresh_device s d \<longleftrightarrow> device_ok d \<and> CHR ''-'' \<notin> set (dv_Username d) \<and> CHR ''-'' \<notin> set (dv_Address d) \<and>
     value_at s (device_ref (dv_Address d)) = None \<and> value_at s (device_ref (dv_Publickey d)) = None"

lemma add_device_values:
  "value_at (add_device d s) l =
     (if l = device_ref (dv_Publickey d) \<or> l = device_ref (dv_Address d) then Some (Text (own_key d))
      else if l = own_key d then Some (Json (enc_device d)) else value_at s l)"
  by (simp add: add_device_def)

lemma add_device_device_at:
  "device_ok d \<Longrightarrow> device_at (add_device d s) l =
     (if l = device_ref (dv_Publickey d) \<or> l = device_ref (dv_Address d) then None
      else if l = own_key d then Some d else device_at s l)"
  by (simp add: add_device_def device_at_writes)

lemma index_ok_add:
  assumes "index_ok s" and "fresh_device s d"
  shows "index_ok (add_device d s)"
proof -
  have ok: "device_ok d" "CHR ''-'' \<notin> set (dv_Username d)" "CHR ''-'' \<notin> set (dv_Address d)"
    and free: "value_at s (device_ref (dv_Address d)) = None" "value_at s (device_ref (dv_Publickey d)) = None"
    using assms(2) by (simp_all add: fresh_device_def)
  note dev = add_device_device_at [OF ok(1)]
  have own: "own_key d' \<noteq> device_ref x" "device_ref x \<noteq> own_key d'" for d' x by (simp_all add: own_key_def)
  have notd: "device_at s (own_key d) = None"
  proof (rule ccontr)
    assume "device_at s (own_key d) \<noteq> None"
    then obtain d' where "device_at s (own_key d) = Some d'" by blast
    from index_okD2 [OF assms(1) _ this] have "own_key d = own_key d'" "CHR ''-'' \<notin> set (dv_Username d')"
      "CHR ''-'' \<notin> set (dv_Address d')" "value_at s (device_ref (dv_Address d')) \<noteq> None" by (simp_all add: own_key_def)
    with deviceKey_inj [OF ok(2,3), of "dv_Username d'" "dv_Address d'"] free(1) show False by (simp add: own_key_def)
  qed
  show ?thesis
    unfolding index_ok_def
  proof (intro conjI allI impI)
    fix x v assume v: "value_at (add_device d s) (device_ref x) = Some v"
    show "\<exists>k d'. v = Text k \<and> device_at (add_device d s) k = Some d' \<and> k = own_key d' \<and> (x = dv_Address d' \<or> x = dv_Publickey d')"
    proof (cases "x = dv_Address d \<or> x = dv_Publickey d")
      case True
      with v have "v = Text (own_key d)" by (auto simp: add_device_values)
      with True show ?thesis by (intro exI [of _ "own_key d"] exI [of _ d]) (auto simp: dev own)
    next
      case False
      with v have "value_at s (device_ref x) = Some v" by (auto simp: add_device_values own split: if_splits)
      with assms(1) obtain k d' where k: "v = Text k" "device_at s k = Some d'" "k = own_key d'" "x = dv_Address d' \<or> x = dv_Publickey d'"
        by (rule index_okD)
      with notd have "k \<noteq> own_key d" by auto
      with k show ?thesis by (intro exI [of _ k] exI [of _ d']) (auto simp: dev own)
    qed
  next
    fix k d' assume k: "prefix ''devices-'' k" "device_at (add_device d s) k = Some d'"
    let ?goal = "k = own_key d' \<and> CHR ''-'' \<notin> set (dv_Username d') \<and> CHR ''-'' \<notin> set (dv_Address d') \<and>
        value_at (add_device d s) (device_ref (dv_Address d')) = Some (Text k) \<and>
        value_at (add_device d s) (device_ref (dv_Publickey d')) = Some (Text k)"
    have ?goal
    proof (cases "k = own_key d")
      case True
      with k(2) have "d' = d" by (auto simp: dev own)
      with True ok show ?thesis by (simp add: add_device_values own)
    next
      case False
      with k have old: "device_at s k = Some d'" by (auto simp: dev split: if_splits)
      note o = index_okD2 [OF assms(1) k(1) old]
      have "dv_Address d' \<notin> {dv_Address d, dv_Publickey d}" "dv_Publickey d' \<notin> {dv_Address d, dv_Publickey d}"
        using o(4,5) free by auto
      with o show ?thesis by (simp add: add_device_values own)
    qed
    then show "k = own_key d'" "CHR ''-'' \<notin> set (dv_Username d')" "CHR ''-'' \<notin> set (dv_Address d')"
        "value_at (add_device d s) (device_ref (dv_Address d')) = Some (Text k)"
        "value_at (add_device d s) (device_ref (dv_Publickey d')) = Some (Text k)" by blast+
  qed
qed

section \<open>Removing a device\<close>

definition alloc_key :: "string \<Rightarrow> string" where
  "alloc_key a = ''allocated_ips/'' @ a"

lemma alloc_key_other [simp]:
  "alloc_key a \<noteq> device_ref x" "device_ref x \<noteq> alloc_key a" "alloc_key a \<noteq> own_key d" "own_key d \<noteq> alloc_key a"
  "\<not> prefix ''devices-'' (alloc_key a)"
  by (simp_all add: alloc_key_def device_ref_def own_key_def deviceKey_def)

definition remove_device :: "Device \<Rightarrow> string \<Rightarrow> store \<Rightarrow> store" where
  "remove_device d x s = (let n = Suc (st_rev s) in
     del_at n (alloc_key (dv_Address d))
       (del_at n (if dv_Publickey d = x then device_ref (dv_Address d) else device_ref (dv_Publickey d))
         (del_at n (device_ref x) (del_at n (own_key d) s))))"

lemma remove_device_values:
  assumes "x = dv_Address d \<or> x = dv_Publickey d"
  shows "value_at (remove_device d x s) l =
     (if l \<in> {own_key d, device_ref (dv_Address d), device_ref (dv_Publickey d), alloc_key (dv_Address d)}
      then None else value_at s l)"
    "device_at (remove_device d x s) l =
     (if l \<in> {own_key d, device_ref (dv_Address d), device_ref (dv_Publickey d), alloc_key (dv_Address d)}
      then None else device_at s l)"
  using assms by (auto simp: remove_device_def Let_def device_at_writes)

lemma index_ok_remove:
  assumes "index_ok s" and "device_at s (own_key d) = Some d" and "x = dv_Address d \<or> x = dv_Publickey d"
  shows "index_ok (remove_device d x s)"
proof -
  note val = remove_device_values [OF assms(3)]
  have own: "own_key d' \<noteq> device_ref x" "device_ref x \<noteq> own_key d'" "\<not> prefix ''devices-'' (alloc_key a)" for d' x a
    by (simp_all add: own_key_def)
  note dok = index_okD2 [OF assms(1) _ assms(2), unfolded own_key_def, OF deviceKey_prefix, folded own_key_def]
  show ?thesis
    unfolding index_ok_def
  proof (intro conjI allI impI)
    fix y v assume v: "value_at (remove_device d x s) (device_ref y) = Some v"
    then have y: "y \<noteq> dv_Address d" "y \<noteq> dv_Publickey d" "value_at s (device_ref y) = Some v"
      by (auto simp: val own split: if_splits)
    from assms(1) y(3) obtain k d' where k: "v = Text k" "device_at s k = Some d'" "k = own_key d'" "y = dv_Address d' \<or> y = dv_Publickey d'"
      by (rule index_okD)
    have ne: "k \<noteq> own_key d"
    proof
      assume "k = own_key d"
      with k(2) assms(2) have "d' = d" by simp
      with k(4) y(1,2) show False by blast
    qed
    have "device_at (remove_device d x s) k = Some d'"
      unfolding val(2) using ne k(2) own by (simp add: k(3))
    with k show "\<exists>k d'. v = Text k \<and> device_at (remove_device d x s) k = Some d' \<and> k = own_key d' \<and> (y = dv_Address d' \<or> y = dv_Publickey d')"
      by blast
  next
    fix k d' assume k: "prefix ''devices-'' k" "device_at (remove_device d x s) k = Some d'"
    from k(2) have ne: "k \<noteq> own_key d" and old: "device_at s k = Some d'" by (auto simp: val split: if_splits)
    note o = index_okD2 [OF assms(1) k(1) old]
    have "dv_Address d' \<notin> {dv_Address d, dv_Publickey d}" "dv_Publickey d' \<notin> {dv_Address d, dv_Publickey d}"
      using o(4,5) dok(4,5) ne by (metis gvalue.inject(1) insertE option.inject singletonD)+
    then show "value_at (remove_device d x s) (device_ref (dv_Address d')) = Some (Text k)"
        "value_at (remove_device d x s) (device_ref (dv_Publickey d')) = Some (Text k)"
      using o(4,5) unfolding val by (simp_all add: own)
    show "k = own_key d'" "CHR ''-'' \<notin> set (dv_Username d')" "CHR ''-'' \<notin> set (dv_Address d')" by (rule o)+
  qed
qed

section \<open>The operations in terms of these writes\<close>

context etcd_quiet
begin

lemma SetDevice_quiet:
  assumes "ParseIP N a \<noteq> None"
  shows "SetDevice E N n a pk psk s = (Inr (new_device n a pk psk), add_device (new_device n a pk psk) s)"
  using assms
  by (simp add: SetDevice_def Let_def Txn_quiet ebind_def apply_request_def device_ops_def add_device_def
      own_key_def device_ref_def)

lemma AddDevice_quiet:
  assumes "getNextIP E N intn addr s = (Inr a, u)"
  shows "AddDevice E N intn addr (Inr psk) n pk s = (Inr (new_device n a pk psk), add_device (new_device n a pk psk) u)"
  using assms
  by (simp add: AddDevice_def Let_def Txn_quiet ebind_def apply_request_def device_ops_def add_device_def
      own_key_def device_ref_def)

lemma DeleteDevice_quiet:
  assumes "index_ok s"
  shows "DeleteDevice E n x s = (case value_at s (device_ref x) of
      None \<Rightarrow> (Inl (GoErr ''no reference found''), s)
    | Some v \<Rightarrow> (Inr (), remove_device (the (device_at s (value_text E v))) x s))"
proof (cases "value_at s (device_ref x)")
  case None
  then have "range_of s [device_ref x] = []" by (simp add: range_of_eq_Nil value_at_def)
  with None show ?thesis
    unfolding DeleteDevice_def device_ref_def [symmetric] Let_def by (simp add: Get_quiet ebind_def)
next
  case (Some v)
  with assms obtain k d where k: "v = Text k" "device_at s k = Some d" "k = own_key d" by (rule index_okD)
  obtain r where ref: "range_of s [device_ref x] = [(device_ref x, Text k, r)]"
    using range_of_value_at Some k(1) by blast
  obtain j r' where doc: "range_of s [k] = [(k, Json j, r')]" "dec_device j = Inr d" using device_atE [OF k(2)] by blast
  show ?thesis
    using k(2) Some ref doc unfolding DeleteDevice_def device_ref_def [symmetric] alloc_key_def [symmetric] k(1)
    by (simp add: Let_def Get_quiet ebind_def value_text_def wrap_err_def on_error_def
        Txn_quiet apply_request_def remove_device_def k(3) [symmetric])
qed

end

section \<open>The lease of a new device\<close>

lemma value_at_None: "value_at s k = None \<longleftrightarrow> find_key s k = None"
  by (simp add: value_at_def)

definition lease_result :: "store \<Rightarrow> string res \<times> store \<Rightarrow> bool" where
  "lease_result s r \<longleftrightarrow> snd r = s \<and> \<not> is_ok (fst r) \<or> (\<exists>x. r = (Inr (ip4_string x), hold x s) \<and> free_at s x)"

lemma lease_result_intros [simp]:
  "lease_result s (Inl e, s)" "free_at s x \<Longrightarrow> lease_result s (Inr (ip4_string x), hold x s)"
  by (auto simp: lease_result_def)

lemma lease_loop_quiet:
  assumes "etcd_quiet E"
  shows "lease_result s (lease_loop E srv net cidr start k addr s)"
proof (induction k arbitrary: addr)
  case (Suc k)
  let ?a = "if srv = V4 addr then incrementIP addr 1 else addr"
  have tr: "try_lease E ?a s = (if free_at s ?a then (Inr (True, [Stored []]), hold ?a s) else (Inr (False, []), s))"
    by (rule try_lease_quiet [OF assms])
  show ?case
  proof (cases "free_at s ?a")
    case True
    then have "lease_loop E srv net cidr start (Suc k) addr s = (Inr (ip4_string ?a), hold ?a s)"
      unfolding lease_loop.simps unfolding Let_def try_lease_def [symmetric] using tr by (simp add: ebind_def)
    with True show ?thesis by simp
  next
    case False
    let ?b = "incrementIP ?a 1"
    have "lease_loop E srv net cidr start (Suc k) addr s =
      (if contains_ip cidr ?b then lease_loop E srv net cidr start k ?b s
       else if incrementIP net 1 = start then (Inl (GoErr ''unable to obtain ip lease, subnet is full''), s)
       else lease_loop E srv net cidr start k (incrementIP net 1) s)"
      unfolding lease_loop.simps unfolding Let_def try_lease_def [symmetric] using tr False by (simp add: ebind_def)
    moreover have "lease_result s (if c then lease_loop E srv net cidr start k ?b s
       else if d then (Inl e, s) else lease_loop E srv net cidr start k (incrementIP net 1) s)" for c d e
      using Suc.IH by auto
    ultimately show ?thesis by (simp only:)
  qed
qed simp

lemma getNextIP_quiet:
  assumes "etcd_quiet E"
  shows "lease_result s (getNextIP E N intn addr s)"
  by (auto simp: getNextIP_def Let_def ebind_def etcd_quiet.Grant_quiet [OF assms] lease_loop_quiet [OF assms]
      split: option.split)

lemma index_ok_hold: "index_ok s \<Longrightarrow> index_ok (hold x s)"
proof -
  assume ok: "index_ok s"
  have "\<not> prefix ''devices-'' (''ip-hold-'' @ y)" "device_ref z \<noteq> ''ip-hold-'' @ y" "deviceKey m w \<noteq> ''ip-hold-'' @ y" for y z m w
    by (simp_all add: device_ref_def deviceKey_def)
  then show ?thesis
    by (intro index_ok_cong [OF _ _ ok]) (auto simp: hold_def device_at_def)
qed

section \<open>Properties\<close>

text \<open>C20
  The device table stays consistent: adding a device under an unused address and public key, with a
  user name and address that have no dash, and deleting a device by either of its names keep every
  reference pointing at the device it names and every device reachable by both of its names.
\<close>

theorem device_index_invariant:
  assumes "etcd_quiet E" and "index_ok s" and "CHR ''-'' \<notin> set n" and "value_at s (device_ref pk) = None"
  shows "(CHR ''-'' \<notin> set a \<and> value_at s (device_ref a) = None \<longrightarrow> index_ok (snd (SetDevice E N n a pk psk s))) \<and>
    index_ok (snd (AddDevice E N intn addr (Inr psk) n pk s)) \<and>
    index_ok (snd (DeleteDevice E n x s))"
proof (intro conjI impI)
  have ok: "device_ok (new_device n b pk psk)" for b
    by (simp add: new_device_def zero_device_def device_ok_def int64_def)
  assume a: "CHR ''-'' \<notin> set a \<and> value_at s (device_ref a) = None"
  then have f: "fresh_device s (new_device n a pk psk)"
    using assms(3,4) ok [of a] by (simp add: fresh_device_def new_device_def)
  show "index_ok (snd (SetDevice E N n a pk psk s))"
  proof (cases "ParseIP N a = None")
    case True
    with assms(2) show ?thesis by (simp add: SetDevice_def)
  next
    case False
    with index_ok_add [OF assms(2) f] etcd_quiet.SetDevice_quiet [OF assms(1)] show ?thesis by simp
  qed
next
  have ok: "device_ok (new_device n b pk psk)" for b
    by (simp add: new_device_def zero_device_def device_ok_def int64_def)
  consider (none) e where "getNextIP E N intn addr s = (Inl e, s)"
    | (lease) y where "getNextIP E N intn addr s = (Inr (ip4_string y), hold y s)" "free_at s y"
    using getNextIP_quiet [OF assms(1), of s N intn addr]
    by (cases "getNextIP E N intn addr s"; cases "fst (getNextIP E N intn addr s)") (auto simp: lease_result_def)
  then show "index_ok (snd (AddDevice E N intn addr (Inr psk) n pk s))"
  proof cases
    case none
    with assms(2) show ?thesis by (simp add: AddDevice_def ebind_def)
  next
    case lease
    have "CHR ''-'' \<notin> set (ip4_string y)" by (cases y) simp
    moreover have "device_ref z \<noteq> ''ip-hold-'' @ w" for z w by (simp add: device_ref_def)
    ultimately have "fresh_device (hold y s) (new_device n (ip4_string y) pk psk)"
      using lease(2) assms(3,4) ok
      by (simp add: fresh_device_def new_device_def hold_def free_at_def device_ref_def value_at_None)
    with index_ok_add [OF index_ok_hold [OF assms(2)] this] etcd_quiet.AddDevice_quiet [OF assms(1) lease(1)]
    show ?thesis by simp
  qed
next
  show "index_ok (snd (DeleteDevice E n x s))"
  proof (cases "value_at s (device_ref x)")
    case None
    with assms(2) show ?thesis by (simp add: etcd_quiet.DeleteDevice_quiet [OF assms(1,2)])
  next
    case (Some v)
    with assms(2) obtain k d where k: "v = Text k" "device_at s k = Some d" "k = own_key d" "x = dv_Address d \<or> x = dv_Publickey d"
      by (rule index_okD)
    with Some index_ok_remove [OF assms(2) _ k(4)] show ?thesis
      by (simp add: etcd_quiet.DeleteDevice_quiet [OF assms(1,2)] value_text_def)
  qed
qed

text \<open>
  Deleting a device by one of its names removes it completely: its record and both of its
  references are gone and it can no longer be found by its address, by its public key or under its
  user, while every other device is untouched; a name nobody has is an error that changes nothing.
\<close>

theorem DeleteDevice_complete:
  assumes "etcd_quiet E" and "index_ok s" and "device_at s (own_key d) = Some d"
    and "x = dv_Address d \<or> x = dv_Publickey d"
  shows "\<exists>t. DeleteDevice E n x s = (Inr (), t) \<and>
    GetDeviceByAddress E (dv_Address d) t = (Inl (GoErr (''not device found for address: '' @ dv_Address d)), t) \<and>
    GetDeviceByAddress E (dv_Publickey d) t = (Inl (GoErr (''not device found for address: '' @ dv_Publickey d)), t) \<and>
    GetDevice E (dv_Username d) (dv_Address d) t = (Inl (GoErr ''device was not found''), t) \<and>
    (\<forall>k. prefix ''devices-'' k \<longrightarrow> k \<noteq> own_key d \<longrightarrow> value_at t k = value_at s k) \<and>
    (\<forall>y. y \<noteq> dv_Address d \<longrightarrow> y \<noteq> dv_Publickey d \<longrightarrow> value_at t (device_ref y) = value_at s (device_ref y))"
proof -
  let ?t = "remove_device d x s"
  have "value_at s (device_ref x) = Some (Text (own_key d))"
    using index_okD2(4,5) [OF assms(2) _ assms(3)] assms(4) by (auto simp: own_key_def)
  then have del: "DeleteDevice E n x s = (Inr (), ?t)"
    by (simp add: etcd_quiet.DeleteDevice_quiet [OF assms(1,2)] value_text_def assms(3))
  have gone: "range_of ?t [device_ref (dv_Address d)] = []" "range_of ?t [device_ref (dv_Publickey d)] = []"
      "range_of ?t [own_key d] = []"
    unfolding range_of_eq_Nil value_at_None [symmetric] remove_device_values(1) [OF assms(4)] by simp_all
  have by_ref: "GetDeviceByAddress E y ?t = (Inl (GoErr (''not device found for address: '' @ y)), ?t)"
    if "range_of ?t [device_ref y] = []" for y
    using that unfolding GetDeviceByAddress_def device_ref_def [symmetric]
    by (simp add: etcd_quiet.Get_quiet [OF assms(1)] ebind_def)
  have by_user: "GetDevice E (dv_Username d) (dv_Address d) ?t = (Inl (GoErr ''device was not found''), ?t)"
    using gone(3) unfolding GetDevice_def own_key_def [symmetric]
    by (simp add: etcd_quiet.Get_quiet [OF assms(1)] ebind_def)
  have "k \<noteq> device_ref y" "k \<noteq> alloc_key y" if "prefix ''devices-'' k" for k y
    using that by auto
  then have rest: "\<forall>k. prefix ''devices-'' k \<longrightarrow> k \<noteq> own_key d \<longrightarrow> value_at ?t k = value_at s k"
    using remove_device_values(1) [OF assms(4), of s] by simp
  have "device_ref y \<noteq> own_key d" for y
    by (simp add: own_key_def)
  then have refs: "\<forall>y. y \<noteq> dv_Address d \<longrightarrow> y \<noteq> dv_Publickey d \<longrightarrow> value_at ?t (device_ref y) = value_at s (device_ref y)"
    using remove_device_values(1) [OF assms(4), of s] by simp
  show ?thesis using del by_ref [OF gone(1)] by_ref [OF gone(2)] by_user rest refs by blast
qed

text \<open>
  A device that was registered is found: after \<open>SetDevice\<close> with a valid address, the device is
  returned for its address, for its public key and for its user, whatever was stored before.
\<close>

theorem SetDevice_found:
  assumes "etcd_quiet E" and "ParseIP N a \<noteq> None"
  shows "\<exists>t. SetDevice E N n a pk psk s = (Inr (new_device n a pk psk), t) \<and>
    GetDeviceByAddress E a t = (Inr (new_device n a pk psk), t) \<and>
    GetDeviceByAddress E pk t = (Inr (new_device n a pk psk), t) \<and>
    GetDevice E n a t = (Inr (new_device n a pk psk), t)"
proof -
  let ?d = "new_device n a pk psk"
  let ?t = "add_device ?d s"
  have ok: "device_ok ?d" by (simp add: new_device_def zero_device_def device_ok_def int64_def)
  have fields: "dv_Address ?d = a" "dv_Publickey ?d = pk" "dv_Username ?d = n" by (simp_all add: new_device_def)
  have own: "own_key ?d = deviceKey n a" by (simp add: own_key_def fields)
  obtain r where doc: "range_of ?t [deviceKey n a] = [(deviceKey n a, Json (enc_device ?d), r)]"
    using range_of_value_at [of ?t "deviceKey n a"] by (auto simp: add_device_values fields own)
  have by_ref: "GetDeviceByAddress E y ?t = (Inr ?d, ?t)" if "y = a \<or> y = pk" for y
  proof -
    have "value_at ?t (device_ref y) = Some (Text (deviceKey n a))"
      using that by (auto simp: add_device_values fields own)
    then obtain r' where "range_of ?t [device_ref y] = [(device_ref y, Text (deviceKey n a), r')]"
      using range_of_value_at by blast
    then show ?thesis
      unfolding GetDeviceByAddress_def device_ref_def [symmetric]
      by (simp add: etcd_quiet.Get_quiet [OF assms(1)] ebind_def value_text_def doc ok)
  qed
  have "GetDevice E n a ?t = (Inr ?d, ?t)"
    unfolding GetDevice_def by (simp add: etcd_quiet.Get_quiet [OF assms(1)] ebind_def doc ok)
  with etcd_quiet.SetDevice_quiet [OF assms] by_ref show ?thesis by blast
qed

section \<open>Instances\<close>

lemma index_ok_no_store [simp]: "index_ok no_store"
  by (simp add: index_ok_def device_at_def)

definition one_device :: store where
  "one_device = add_device demo_device no_store"

lemma demo_fresh: "fresh_device no_store demo_device"
  by (simp add: fresh_device_def demo_device_def new_device_def device_ok_def zero_device_def int64_def)

lemma index_ok_one [simp]: "index_ok one_device"
  unfolding one_device_def by (rule index_ok_add [OF index_ok_no_store demo_fresh])

lemma one_device_at: "device_at one_device (own_key demo_device) = Some demo_device"
  by (simp add: one_device_def add_device_device_at own_key_def)

theorem device_index_invariant_witness:
  "index_ok (snd (AddDevice etcd_ref demo_net (\<lambda>_. 0) ''10.0.0.1/24'' (Inr ''psk'') ''bob'' ''pk2'' one_device))"
  using device_index_invariant [OF etcd_ref.etcd_quiet_axioms index_ok_one, of "''bob''" "''pk2''"]
  by (simp add: one_device_def add_device_values demo_device_def new_device_def own_key_def del: index_ok_one)

theorem DeleteDevice_complete_witness:
  "\<exists>t. DeleteDevice etcd_ref ''ann'' ''pk'' one_device = (Inr (), t) \<and>
     GetDevice etcd_ref ''ann'' ''10.0.0.2'' t = (Inl (GoErr ''device was not found''), t)"
  using DeleteDevice_complete [OF etcd_ref.etcd_quiet_axioms index_ok_one one_device_at, of "''pk''" "''ann''"]
  by (auto simp: demo_device_def new_device_def)

theorem SetDevice_found_witness:
  "\<exists>t. GetDeviceByAddress etcd_ref ''10.0.0.2'' t = (Inr demo_device, t)"
proof -
  have "''10.0.0.2'' = ip4_string (IP4 10 0 0 2)" by code_simp
  then have "ParseIP demo_net ''10.0.0.2'' \<noteq> None" by (metis ParseIP_string option.distinct(1))
  from SetDevice_found [OF etcd_ref.etcd_quiet_axioms this, of "''ann''" "''pk''" "''psk''" no_store]
  show ?thesis unfolding demo_device_def by blast
qed

end
