(* ===== verification/DataGroups.thy ===== *)
theory DataGroups
  imports DataUsers
begin

text \<open>
  internal/data/groups.go. A group is the list of its members under \<open>wag-groups-NAME\<close>; the groups
  of a user are kept a second time under \<open>wag-membership-USER\<close>. A nil slice and an empty one are
  the same list here: both are read back as empty.
\<close>

definition GroupsPrefix :: string where "GroupsPrefix = ''wag-groups-''"

definition group_key :: "string \<Rightarrow> string" where
  "group_key g = GroupsPrefix @ g"

definition member_key :: "string \<Rightarrow> string" where
  "member_key u = MembershipKey @ ''-'' @ u"

section \<open>Operations\<close>

definition join_group :: "string \<Rightarrow> mutator" where
  "join_group grp gr = (case gr of
      [] \<Rightarrow> ret (Json (enc_strings [grp]))
    | [(_, v, _)] \<Rightarrow> lift (rbind (unmarshal dec_strings v) (\<lambda>memberCurrentGroups.
        Inr (Json (enc_strings (if grp \<in> set memberCurrentGroups then memberCurrentGroups
                                else memberCurrentGroups @ [grp])))))
    | _ \<Rightarrow> raise ''bad number of membership keys'')"

definition leave_group :: "string \<Rightarrow> mutator" where
  "leave_group grp gr = (case gr of
      [(_, v, _)] \<Rightarrow> lift (rbind (unmarshal dec_strings v) (\<lambda>memberCurrentGroups.
        Inr (Json (enc_strings (filter (\<lambda>x. x \<noteq> grp) memberCurrentGroups)))))
    | _ \<Rightarrow> raise ''removing user bad number of member keys'')"

text \<open>\<open>fmt\<close> of a list of errors.\<close>

definition errors_text :: "error list \<Rightarrow> error" where
  "errors_text es = ''['' @ join_str '' '' es @ '']''"

definition SetGroup :: "etcd \<Rightarrow> string \<Rightarrow> string list \<Rightarrow> bool \<Rightarrow> (store, unit) eff" where
  "SetGroup E grp members overwrite =
     ebind (Get E (GroupsPrefix @ grp)) (\<lambda>response.
     if response \<noteq> [] \<and> \<not> overwrite then raise ''group already exists''
     else
       ebind (PutPrev E (GroupsPrefix @ grp) (Json (enc_strings members))) (\<lambda>prev.
       ebind (case prev of [] \<Rightarrow> ret [] | (_, v, _) # _ \<Rightarrow> lift (unmarshal dec_strings v)) (\<lambda>existingMembers.
       let removedMembers = filter (\<lambda>x. x \<notin> set members) existingMembers;
           addedMembers = filter (\<lambda>x. x \<notin> set existingMembers) members in
       ebind (for_collect (\<lambda>x. doSafeUpdate E (MembershipKey @ ''-'' @ x) True (join_group grp)) addedMembers) (\<lambda>errs1.
       ebind (for_collect (\<lambda>x. doSafeUpdate E (MembershipKey @ ''-'' @ x) True (leave_group grp)) removedMembers) (\<lambda>errs2.
       if errs1 @ errs2 \<noteq> [] then raise (''updating group information failed: '' @ errors_text (errs1 @ errs2))
       else ret ())))))"

record GroupData =
  gd_Group :: string
  gd_Members :: "string list"

definition GetGroups :: "etcd \<Rightarrow> (store, GroupData list) eff" where
  "GetGroups E =
     ebind (wrap_err (\<lambda>e. ''failed to get group from etcd: '' @ e) (GetPrefix E True GroupsPrefix)) (\<lambda>kvs.
     lift (rmap (\<lambda>(k, v, _). rbind (unmarshal dec_strings v) (\<lambda>groupMembers.
       Inr \<lparr>gd_Group = trim_prefix k GroupsPrefix, gd_Members = groupMembers\<rparr>)) kvs))"

definition RemoveGroup :: "etcd \<Rightarrow> string \<Rightarrow> (store, unit) eff" where
  "RemoveGroup E groupName =
     (if groupName = ''*'' then raise ''cannot delete default group''
      else
        ebind (wrap_err (\<lambda>e. ''failed to delete group: '' @ e) (DeletePrev E (GroupsPrefix @ groupName))) (\<lambda>prev.
        ebind (case prev of
             [(_, v, _)] \<Rightarrow> wrap_err (\<lambda>e. ''failed to unmarshal old members: '' @ e) (lift (unmarshal dec_strings v))
           | _ \<Rightarrow> ret []) (\<lambda>oldMembers.
        ebind (for_collect (\<lambda>x. doSafeUpdate E (MembershipKey @ ''-'' @ x) False (leave_group groupName)) oldMembers) (\<lambda>errs.
        if errs \<noteq> [] then raise (''changing membership information failed: '' @ errors_text errs) else ret ()))))"

definition GetUserGroupMembership :: "etcd \<Rightarrow> string \<Rightarrow> (store, string list) eff" where
  "GetUserGroupMembership E username =
     ebind (wrap_err (\<lambda>e. ''failed to get membership information: '' @ e) (Get E (MembershipKey @ ''-'' @ username))) (\<lambda>response.
     case response of
       [] \<Rightarrow> ret []
     | (_, v, _) # _ \<Rightarrow>
         ebind (wrap_err (\<lambda>e. ''failed to unmarshal group membership: '' @ e) (lift (unmarshal dec_strings v))) (\<lambda>groupMembership.
         ret (groupMembership @ [''*''])))"

definition SetUserGroupMembership :: "etcd \<Rightarrow> string \<Rightarrow> string list \<Rightarrow> (store, unit) eff" where
  "SetUserGroupMembership E username newGroups =
     wrap_err (\<lambda>e. ''failed to update group membership: '' @ e)
       (doSafeUpdate E (MembershipKey @ ''-'' @ username) True (\<lambda>gr. case gr of
           [_] \<Rightarrow> ret (Json (enc_strings newGroups))
         | _ \<Rightarrow> raise ''bad number of membership keys''))"

section \<open>Groups and members as a relation\<close>

definition strings_at :: "store \<Rightarrow> string \<Rightarrow> string list option" where
  "strings_at s k = (case value_at s k of
      Some (Json j) \<Rightarrow> (case dec_strings j of Inr xs \<Rightarrow> Some xs | Inl _ \<Rightarrow> None)
    | _ \<Rightarrow> None)"

definition listed :: "store \<Rightarrow> string \<Rightarrow> string set" where
  "listed s k = (case strings_at s k of Some xs \<Rightarrow> set xs | None \<Rightarrow> {})"

text \<open>Every document of this part decodes.\<close>

definition groups_wf :: "store \<Rightarrow> bool" where
  "groups_wf s \<longleftrightarrow> (\<forall>k. (prefix GroupsPrefix k \<or> prefix (MembershipKey @ ''-'') k) \<longrightarrow> value_at s k \<noteq> None \<longrightarrow> strings_at s k \<noteq> None)"

text \<open>The two directions agree.\<close>

definition groups_ok :: "store \<Rightarrow> bool" where
  "groups_ok s \<longleftrightarrow> groups_wf s \<and> (\<forall>g u. u \<in> listed s (group_key g) \<longleftrightarrow> g \<in> listed s (member_key u))"

lemma group_keys [simp]:
  "group_key g = group_key h \<longleftrightarrow> g = h" "member_key u = member_key v \<longleftrightarrow> u = v"
  "group_key g \<noteq> member_key u" "member_key u \<noteq> group_key g"
  by (simp_all add: group_key_def member_key_def GroupsPrefix_def MembershipKey_def)

lemma group_key_eqs: "GroupsPrefix @ g = group_key g" "MembershipKey @ ''-'' @ u = member_key u"
  by (simp_all add: group_key_def member_key_def)

lemma strings_at_put [simp]:
  "strings_at (put_key k (Json (enc_strings xs)) s) l = (if l = k then Some xs else strings_at s l)"
  by (simp add: strings_at_def)

lemma listed_put [simp]:
  "listed (put_key k (Json (enc_strings xs)) s) l = (if l = k then set xs else listed s l)"
  by (simp add: listed_def)

lemma strings_atE:
  assumes "strings_at s k = Some xs"
  obtains j r where "range_of s [k] = [(k, Json j, r)]" and "dec_strings j = Inr xs" and "find_key s k \<noteq> None"
  using assms by (auto simp: strings_at_def value_at_def range_of_single split: option.splits gvalue.splits sum.splits)

lemma groups_wf_put [simp]: "groups_wf s \<Longrightarrow> groups_wf (put_key k (Json (enc_strings xs)) s)"
  by (auto simp: groups_wf_def)

text \<open>One user joins or leaves one group, in the reverse direction.\<close>

definition joined :: "string \<Rightarrow> string \<Rightarrow> store \<Rightarrow> store" where
  "joined g u s = put_key (member_key u) (Json (enc_strings
     (case strings_at s (member_key u) of None \<Rightarrow> [g] | Some gs \<Rightarrow> if g \<in> set gs then gs else gs @ [g]))) s"

definition left :: "string \<Rightarrow> string \<Rightarrow> store \<Rightarrow> store" where
  "left g u s = put_key (member_key u) (Json (enc_strings
     (filter (\<lambda>x. x \<noteq> g) (case strings_at s (member_key u) of None \<Rightarrow> [] | Some gs \<Rightarrow> gs)))) s"

lemma listed_joined: "listed (joined g u s) k = (if k = member_key u then insert g (listed s k) else listed s k)"
  by (auto simp: joined_def listed_def split: option.split)

lemma listed_left: "listed (left g u s) k = (if k = member_key u then listed s k - {g} else listed s k)"
  by (auto simp: left_def listed_def split: option.split)

lemma groups_wf_steps: "groups_wf s \<Longrightarrow> groups_wf (joined g u s)" "groups_wf s \<Longrightarrow> groups_wf (left g u s)"
  by (simp_all add: joined_def left_def)

lemma strings_at_None:
  assumes "groups_wf s"
  shows "strings_at s (member_key u) = None \<longleftrightarrow> find_key s (member_key u) = None"
    "strings_at s (group_key g) = None \<longleftrightarrow> find_key s (group_key g) = None"
proof -
  have *: "strings_at s k = None \<longleftrightarrow> find_key s k = None"
    if "prefix GroupsPrefix k \<or> prefix (MembershipKey @ ''-'') k" for k
  proof -
    have "value_at s k \<noteq> None \<longrightarrow> strings_at s k \<noteq> None" using that assms unfolding groups_wf_def by blast
    moreover have "value_at s k = None \<longrightarrow> strings_at s k = None" by (simp add: strings_at_def)
    ultimately show ?thesis by (cases "find_key s k") (auto simp: value_at_def)
  qed
  show "strings_at s (member_key u) = None \<longleftrightarrow> find_key s (member_key u) = None"
    by (rule *) (simp add: member_key_def)
  show "strings_at s (group_key g) = None \<longleftrightarrow> find_key s (group_key g) = None"
    by (rule *) (simp add: group_key_def)
qed

lemma join_quiet:
  assumes "etcd_quiet E" and "groups_wf s"
  shows "doSafeUpdate E (member_key u) True (join_group g) s = (Inr (), joined g u s)"
proof (cases "strings_at s (member_key u)")
  case None
  then have nk: "find_key s (member_key u) = None" by (simp add: strings_at_None [OF assms(2)])
  then have "join_group g (range_of s [member_key u]) s = (Inr (Json (enc_strings [g])), s)"
    by (simp add: join_group_def range_of_single)
  from etcd_quiet.doSafeUpdate_quiet [of E "join_group g", OF assms(1) this] nk None show ?thesis
    by (simp add: joined_def)
next
  case (Some gs)
  then obtain j r where rng: "range_of s [member_key u] = [(member_key u, Json j, r)]" "dec_strings j = Inr gs"
      "find_key s (member_key u) \<noteq> None" by (rule strings_atE)
  then have "join_group g (range_of s [member_key u]) s = (Inr (Json (enc_strings (if g \<in> set gs then gs else gs @ [g]))), s)"
    by (simp add: join_group_def)
  from etcd_quiet.doSafeUpdate_quiet [of E "join_group g", OF assms(1) this] rng(3) Some show ?thesis
    by (simp add: joined_def)
qed

lemma leave_quiet:
  assumes "etcd_quiet E" and "groups_wf s" and "g \<in> listed s (member_key u) \<or> strings_at s (member_key u) \<noteq> None"
  shows "doSafeUpdate E (member_key u) c (leave_group g) s = (Inr (), left g u s)"
proof -
  from assms(3) obtain gs where Some: "strings_at s (member_key u) = Some gs" by (auto simp: listed_def split: option.splits)
  then obtain j r where rng: "range_of s [member_key u] = [(member_key u, Json j, r)]" "dec_strings j = Inr gs"
      "find_key s (member_key u) \<noteq> None" by (rule strings_atE)
  then have "leave_group g (range_of s [member_key u]) s = (Inr (Json (enc_strings (filter (\<lambda>x. x \<noteq> g) gs))), s)"
    by (simp add: leave_group_def)
  from etcd_quiet.doSafeUpdate_quiet [of E "leave_group g", OF assms(1) this] rng(3) Some show ?thesis
    by (simp add: left_def)
qed

text \<open>A loop over users in which no update fails.\<close>

lemma for_collect_total:
  assumes "\<And>x s. x \<in> set xs \<Longrightarrow> P s \<Longrightarrow> f x s = (Inr (), h x s) \<and> P (h x s)" and "P s"
  shows "for_collect f xs s = (Inr [], fold h xs s) \<and> P (fold h xs s)"
  using assms
proof (induction xs arbitrary: s)
  case (Cons x xs)
  then have fx: "f x s = (Inr (), h x s)" and p: "P (h x s)" by simp_all
  have "for_collect f xs (h x s) = (Inr [], fold h xs (h x s)) \<and> P (fold h xs (h x s))"
    using Cons.prems(1) p by (intro Cons.IH) auto
  with fx show ?case by simp
qed simp

lemma listed_decodes: "x \<in> listed s k \<Longrightarrow> strings_at s k \<noteq> None"
  by (auto simp: listed_def split: option.splits)

text \<open>What the two loops leave.\<close>

lemma old_listed: "set (case strings_at s k of None \<Rightarrow> [] | Some xs \<Rightarrow> xs) = listed s k"
  by (auto simp: listed_def split: option.split)

lemma listed_joins:
  "listed (fold (joined g) us s) k = listed s k \<union> {g' . g' = g \<and> (\<exists>u \<in> set us. k = member_key u)}"
  by (induction us arbitrary: s) (auto simp: listed_joined)

lemma listed_leaves:
  "listed (fold (left g) us s) k = listed s k - {g' . g' = g \<and> (\<exists>u \<in> set us. k = member_key u)}"
  by (induction us arbitrary: s) (auto simp: listed_left)

lemma joins_quiet:
  assumes "etcd_quiet E" and "groups_wf s"
  shows "for_collect (\<lambda>x. doSafeUpdate E (member_key x) True (join_group g)) us s = (Inr [], fold (joined g) us s) \<and>
    groups_wf (fold (joined g) us s)"
  by (rule for_collect_total) (simp_all add: join_quiet [OF assms(1)] groups_wf_steps assms(2))

lemma strings_at_left: "strings_at s k \<noteq> None \<Longrightarrow> strings_at (left g u s) k \<noteq> None"
  by (simp add: left_def)

lemma leaves_quiet:
  assumes "etcd_quiet E" and "groups_wf s" and "\<And>u. u \<in> set us \<Longrightarrow> strings_at s (member_key u) \<noteq> None"
  shows "for_collect (\<lambda>x. doSafeUpdate E (member_key x) c (leave_group g)) us s = (Inr [], fold (left g) us s) \<and>
    groups_wf (fold (left g) us s)"
proof -
  let ?P = "\<lambda>s. groups_wf s \<and> (\<forall>u \<in> set us. strings_at s (member_key u) \<noteq> None)"
  have "for_collect (\<lambda>x. doSafeUpdate E (member_key x) c (leave_group g)) us s = (Inr [], fold (left g) us s) \<and>
     ?P (fold (left g) us s)"
    by (rule for_collect_total [where P = ?P])
       (auto simp: leave_quiet [OF assms(1)] groups_wf_steps strings_at_left assms(2,3))
  then show ?thesis by blast
qed

lemma wf_decode:
  assumes "groups_wf s" and "find_key s (group_key g) = Some (v, r)"
  shows "\<exists>xs. unmarshal dec_strings v = Inr xs \<and> strings_at s (group_key g) = Some xs"
proof -
  have "strings_at s (group_key g) \<noteq> None" using strings_at_None(2) [OF assms(1), of g] assms(2) by simp
  then show ?thesis using assms(2)
    by (auto simp: strings_at_def value_at_def unmarshal_def split: gvalue.splits sum.splits)
qed

text \<open>The store after \<open>SetGroup\<close>, and after \<open>RemoveGroup\<close>, when nothing goes wrong.\<close>

definition group_set :: "string \<Rightarrow> string list \<Rightarrow> store \<Rightarrow> store" where
  "group_set g ms s = (let old = (case strings_at s (group_key g) of None \<Rightarrow> [] | Some xs \<Rightarrow> xs) in
     fold (left g) (filter (\<lambda>x. x \<notin> set ms) old)
       (fold (joined g) (filter (\<lambda>x. x \<notin> set old) ms) (put_key (group_key g) (Json (enc_strings ms)) s)))"

lemma SetGroup_quiet:
  assumes "etcd_quiet E" and ok: "groups_ok s" and "overwrite \<or> find_key s (group_key g) = None"
  shows "SetGroup E g ms overwrite s = (Inr (), group_set g ms s) \<and> groups_wf (group_set g ms s)"
proof -
  have wf: "groups_wf s" using ok by (simp add: groups_ok_def)
  let ?old = "case strings_at s (group_key g) of None \<Rightarrow> [] | Some xs \<Rightarrow> xs"
  let ?s1 = "put_key (group_key g) (Json (enc_strings ms)) s"
  let ?add = "filter (\<lambda>x. x \<notin> set ?old) ms" and ?rem = "filter (\<lambda>x. x \<notin> set ms) ?old"
  let ?s2 = "fold (joined g) ?add ?s1"
  have old: "(case range_of s [group_key g] of [] \<Rightarrow> ret [] | (_, v, _) # _ \<Rightarrow> lift (unmarshal dec_strings v)) ?s1 = (Inr ?old, ?s1)"
  proof (cases "find_key s (group_key g)")
    case None
    then show ?thesis using strings_at_None(2) [OF wf, of g] by (simp add: range_of_single)
  next
    case (Some x)
    then obtain v r where x: "find_key s (group_key g) = Some (v, r)" by (cases x) auto
    from wf_decode [OF wf x] x show ?thesis by (auto simp: range_of_single)
  qed
  have j: "for_collect (\<lambda>x. doSafeUpdate E (member_key x) True (join_group g)) ?add ?s1 = (Inr [], ?s2)" "groups_wf ?s2"
    using joins_quiet [OF assms(1), of ?s1 g ?add] wf by simp_all
  have "strings_at ?s2 (member_key u) \<noteq> None" if "u \<in> set ?rem" for u
  proof -
    have "u \<in> listed s (group_key g)" using that old_listed [of s "group_key g"] by auto
    then have "g \<in> listed s (member_key u)" using ok by (simp add: groups_ok_def)
    then have "g \<in> listed ?s2 (member_key u)" by (simp add: listed_joins)
    then show ?thesis by (rule listed_decodes)
  qed
  from leaves_quiet [OF assms(1) j(2) this, of ?rem] have l:
    "for_collect (\<lambda>x. doSafeUpdate E (member_key x) True (leave_group g)) ?rem ?s2 = (Inr [], fold (left g) ?rem ?s2)"
    "groups_wf (fold (left g) ?rem ?s2)" by simp_all
  have put: "PutPrev E (group_key g) (Json (enc_strings ms)) s = (Inr (range_of s [group_key g]), ?s1)"
    by (simp add: etcd_quiet.PutPrev_quiet [OF assms(1)] put_key_def)
  have ow: "\<not> (range_of s [group_key g] \<noteq> [] \<and> \<not> overwrite)" using assms(3) by (auto simp: range_of_eq_Nil)
  have "SetGroup E g ms overwrite s = (Inr (), fold (left g) ?rem ?s2)"
    unfolding SetGroup_def group_key_eqs ebind_def Let_def etcd_quiet.Get_quiet [OF assms(1)]
    by (simp only: prod.case sum.case ow if_False put old j(1) l(1)) simp
  with l(2) show ?thesis by (simp add: group_set_def Let_def)
qed

lemma group_set_listed:
  assumes ok: "groups_ok s"
  shows "listed (group_set g ms s) (group_key h) = (if h = g then set ms else listed s (group_key h))"
    and "listed (group_set g ms s) (member_key u) = listed s (member_key u) - {g} \<union> (if u \<in> set ms then {g} else {})"
proof -
  let ?old = "case strings_at s (group_key g) of None \<Rightarrow> [] | Some xs \<Rightarrow> xs"
  have old: "set ?old = listed s (group_key g)" by (rule old_listed)
  show "listed (group_set g ms s) (group_key h) = (if h = g then set ms else listed s (group_key h))"
    by (simp add: group_set_def Let_def listed_joins listed_leaves)
  have "u \<in> set ?old \<longleftrightarrow> g \<in> listed s (member_key u)" using ok by (simp add: old groups_ok_def)
  then show "listed (group_set g ms s) (member_key u) = listed s (member_key u) - {g} \<union> (if u \<in> set ms then {g} else {})"
    unfolding group_set_def Let_def listed_joins listed_leaves by auto
qed

definition group_removed :: "string \<Rightarrow> store \<Rightarrow> store" where
  "group_removed g s = fold (left g) (case strings_at s (group_key g) of None \<Rightarrow> [] | Some xs \<Rightarrow> xs)
     (del_at (Suc (st_rev s)) (group_key g) s)"

lemma del_group [simp]:
  "strings_at (del_at n k s) l = (if l = k then None else strings_at s l)"
  "listed (del_at n k s) l = (if l = k then {} else listed s l)"
  by (simp_all add: strings_at_def listed_def)

lemma RemoveGroup_quiet:
  assumes "etcd_quiet E" and ok: "groups_ok s" and "g \<noteq> ''*''"
  shows "RemoveGroup E g s = (Inr (), group_removed g s) \<and> groups_wf (group_removed g s)"
proof -
  have wf: "groups_wf s" using ok by (simp add: groups_ok_def)
  let ?old = "case strings_at s (group_key g) of None \<Rightarrow> [] | Some xs \<Rightarrow> xs"
  let ?s1 = "del_at (Suc (st_rev s)) (group_key g) s"
  have wf1: "groups_wf ?s1" using wf by (auto simp: groups_wf_def)
  have old: "(case range_of s [group_key g] of
             [(_, v, _)] \<Rightarrow> wrap_err (\<lambda>e. ''failed to unmarshal old members: '' @ e) (lift (unmarshal dec_strings v))
           | _ \<Rightarrow> ret []) ?s1 = (Inr ?old, ?s1)"
  proof (cases "find_key s (group_key g)")
    case None
    then show ?thesis using strings_at_None(2) [OF wf, of g] by (simp add: range_of_single)
  next
    case (Some x)
    then obtain v r where x: "find_key s (group_key g) = Some (v, r)" by (cases x) auto
    from wf_decode [OF wf x] x show ?thesis by (auto simp: range_of_single wrap_err_def on_error_def)
  qed
  have "strings_at ?s1 (member_key u) \<noteq> None" if "u \<in> set ?old" for u
  proof -
    have "u \<in> listed s (group_key g)" using that old_listed [of s "group_key g"] by auto
    then have "g \<in> listed s (member_key u)" using ok by (simp add: groups_ok_def)
    then have "strings_at s (member_key u) \<noteq> None" by (rule listed_decodes)
    then show ?thesis by simp
  qed
  from leaves_quiet [OF assms(1) wf1 this, of ?old] have l:
    "for_collect (\<lambda>x. doSafeUpdate E (member_key x) False (leave_group g)) ?old ?s1 = (Inr [], group_removed g s)"
    "groups_wf (group_removed g s)" by (simp_all add: group_removed_def)
  have del: "wrap_err (\<lambda>e. ''failed to delete group: '' @ e) (DeletePrev E (group_key g)) s = (Inr (range_of s [group_key g]), ?s1)"
    by (simp add: etcd_quiet.DeletePrev_quiet [OF assms(1)] wrap_err_def on_error_def)
  have "RemoveGroup E g s = (Inr (), group_removed g s)"
    unfolding RemoveGroup_def group_key_eqs ebind_def
    by (simp only: assms(3) if_False prod.case sum.case del old l(1)) simp
  with l(2) show ?thesis by simp
qed

lemma group_removed_listed:
  assumes ok: "groups_ok s"
  shows "listed (group_removed g s) (group_key h) = (if h = g then {} else listed s (group_key h))"
    and "listed (group_removed g s) (member_key u) = listed s (member_key u) - {g}"
proof -
  let ?old = "case strings_at s (group_key g) of None \<Rightarrow> [] | Some xs \<Rightarrow> xs"
  have old: "set ?old = listed s (group_key g)" by (rule old_listed)
  show "listed (group_removed g s) (group_key h) = (if h = g then {} else listed s (group_key h))"
    by (simp add: group_removed_def listed_leaves)
  have "u \<in> set ?old \<longleftrightarrow> g \<in> listed s (member_key u)" using ok by (simp add: old groups_ok_def)
  then show "listed (group_removed g s) (member_key u) = listed s (member_key u) - {g}"
    unfolding group_removed_def listed_leaves by auto
qed

lemma SetGroup_cases:
  assumes "etcd_quiet E" and "groups_ok s"
  shows "if \<not> overwrite \<and> find_key s (group_key g) \<noteq> None
    then SetGroup E g ms overwrite s = (Inl (GoErr ''group already exists''), s)
    else SetGroup E g ms overwrite s = (Inr (), group_set g ms s) \<and> groups_ok (group_set g ms s)"
proof (cases "\<not> overwrite \<and> find_key s (group_key g) \<noteq> None")
  case True
  then have "range_of s [group_key g] \<noteq> []" by (simp add: range_of_eq_Nil)
  with True show ?thesis unfolding SetGroup_def group_key_eqs
    by (simp add: ebind_def etcd_quiet.Get_quiet [OF assms(1)])
next
  case False
  then have o: "overwrite \<or> find_key s (group_key g) = None" by blast
  note q = SetGroup_quiet [OF assms o, of ms]
  moreover have "groups_ok (group_set g ms s)"
    using q assms(2) by (auto simp: groups_ok_def group_set_listed [OF assms(2)])
  ultimately show ?thesis using False by auto
qed

lemma RemoveGroup_cases:
  assumes "etcd_quiet E" and "groups_ok s"
  shows "if g = ''*'' then RemoveGroup E g s = (Inl (GoErr ''cannot delete default group''), s)
    else RemoveGroup E g s = (Inr (), group_removed g s) \<and> groups_ok (group_removed g s)"
proof (cases "g = ''*''")
  case False
  note q = RemoveGroup_quiet [OF assms False]
  moreover have "groups_ok (group_removed g s)"
    using q assms(2) by (auto simp: groups_ok_def group_removed_listed [OF assms(2)])
  ultimately show ?thesis using False by simp
qed (simp add: RemoveGroup_def)

section \<open>Properties\<close>

text \<open>C19
  Groups and memberships are one relation: when nobody else writes and the two stored directions
  agree, \<open>SetGroup\<close> (for a new group, or with overwrite) and \<open>RemoveGroup\<close> succeed, leave the two
  directions agreeing, and change the relation as asked: the group has exactly the given members, or
  none, every other group keeps its members, and every user keeps all other groups. Setting an
  existing group without overwrite, and removing the default group, are errors that change nothing.
\<close>

theorem groups_refine_relation:
  assumes "etcd_quiet E" and "groups_ok s"
  shows "(if \<not> overwrite \<and> find_key s (group_key g) \<noteq> None
          then SetGroup E g ms overwrite s = (Inl (GoErr ''group already exists''), s)
          else \<exists>t. SetGroup E g ms overwrite s = (Inr (), t) \<and> groups_ok t \<and> listed t (group_key g) = set ms \<and>
             (\<forall>h. h \<noteq> g \<longrightarrow> listed t (group_key h) = listed s (group_key h)) \<and>
             (\<forall>u. listed t (member_key u) - {g} = listed s (member_key u) - {g})) \<and>
    (if g = ''*'' then RemoveGroup E g s = (Inl (GoErr ''cannot delete default group''), s)
     else \<exists>t. RemoveGroup E g s = (Inr (), t) \<and> groups_ok t \<and> listed t (group_key g) = {} \<and>
             (\<forall>h. h \<noteq> g \<longrightarrow> listed t (group_key h) = listed s (group_key h)) \<and>
             (\<forall>u. listed t (member_key u) = listed s (member_key u) - {g}))"
  apply (rule conjI)
  subgoal
    using SetGroup_cases [OF assms, of overwrite g ms]
    by (cases "\<not> overwrite \<and> find_key s (group_key g) \<noteq> None") (auto simp: group_set_listed [OF assms(2)])
  subgoal
    using RemoveGroup_cases [OF assms, of g]
    by (cases "g = ''*''") (auto simp: group_removed_listed [OF assms(2)])
  done

definition demo_groups :: store where
  "demo_groups = put_key (member_key ''ann'') (Json (enc_strings [''group:ops'']))
     (put_key (group_key ''group:ops'') (Json (enc_strings [''ann''])) no_store)"

lemma demo_groups_ok: "groups_ok demo_groups"
proof -
  have "groups_wf no_store" by (simp add: groups_wf_def)
  moreover have "listed no_store k = {}" for k by (simp add: listed_def strings_at_def)
  ultimately show ?thesis by (auto simp: groups_ok_def demo_groups_def)
qed

lemma demo_groups_ann: "listed demo_groups (member_key ''ann'') = {''group:ops''}"
  by (simp add: demo_groups_def)

theorem groups_refine_relation_witness:
  "\<exists>t. RemoveGroup etcd_ref ''group:ops'' demo_groups = (Inr (), t) \<and> listed t (member_key ''ann'') = {}"
proof -
  have ne: "''group:ops'' \<noteq> ''*''" by simp
  from groups_refine_relation [OF etcd_ref.etcd_quiet_axioms demo_groups_ok, of False "''group:ops''" "[]",
      THEN conjunct2, unfolded if_not_P [OF ne]]
  obtain t where t: "RemoveGroup etcd_ref ''group:ops'' demo_groups = (Inr (), t)"
    and l: "\<forall>u. listed t (member_key u) = listed demo_groups (member_key u) - {''group:ops''}"
    by (elim exE conjE) (rule that)
  from l have "listed t (member_key ''ann'') = {}" by (simp only: demo_groups_ann) simp
  with t show ?thesis by (intro exI conjI)
qed

end
