(* ===== verification/DataAcls.thy ===== *)
theory DataAcls
  imports DataGroups ParserInv
begin

text \<open>
  internal/data/acls.go: the stored policies, and the effective access list of a user. Policies are
  checked by the rule parser before they are stored, so these operations run on the parser's caches
  and the store together. Also the error log of internal/data/events.go that a failure goes to.
\<close>

section \<open>Reporting errors\<close>

text \<open>What an operation takes from the host: the time, a random text, the name of this member.\<close>

record host =
  hs_now :: int
  hs_random :: "error + string"
  hs_id :: string

record EventError =
  ee_NodeID :: string
  ee_ErrorID :: string
  ee_FailedEventData :: string
  ee_Error :: string
  ee_Time :: int

definition NodeErrors :: string where "NodeErrors = ''wag/node/errors''"

definition enc_event_error :: "EventError \<Rightarrow> json" where
  "enc_event_error e = JObj [(''NodeID'', JStr (ee_NodeID e)), (''ErrorID'', JStr (ee_ErrorID e)),
     (''FailedEventData'', JStr (ee_FailedEventData e)), (''Error'', JStr (ee_Error e)), (''Time'', JTime (ee_Time e))]"

definition dec_event_error :: "json \<Rightarrow> EventError res" where
  "dec_event_error = dec_struct (\<lambda>ms.
     rbind (dec_field dec_string ''NodeID'' '''' ms) (\<lambda>a.
     rbind (dec_field dec_string ''ErrorID'' '''' ms) (\<lambda>b.
     rbind (dec_field dec_string ''FailedEventData'' '''' ms) (\<lambda>c.
     rbind (dec_field dec_string ''Error'' '''' ms) (\<lambda>d.
     rbind (dec_field dec_time ''Time'' 0 ms) (\<lambda>e.
     Inr \<lparr>ee_NodeID = a, ee_ErrorID = b, ee_FailedEventData = c, ee_Error = d, ee_Time = e\<rparr>))))))
     \<lparr>ee_NodeID = '''', ee_ErrorID = '''', ee_FailedEventData = '''', ee_Error = '''', ee_Time = 0\<rparr>"

lemma dec_enc_event_error [simp]: "dec_event_error (enc_event_error e) = Inr e"
  by (simp add: dec_event_error_def enc_event_error_def name_eval)

text \<open>The random text is hexadecimal, so the path needs no cleaning.\<close>

definition RaiseError :: "etcd \<Rightarrow> host \<Rightarrow> error \<Rightarrow> string \<Rightarrow> (store, unit) eff" where
  "RaiseError E H raisedError val =
     (case hs_random H of
        Inl e \<Rightarrow> raise e
      | Inr ident \<Rightarrow> Put E (NodeErrors @ ''/'' @ ident) (Json (enc_event_error
          \<lparr>ee_NodeID = hs_id H, ee_ErrorID = ident, ee_FailedEventData = val, ee_Error = raisedError, ee_Time = hs_now H\<rparr>)))"

definition GetAllErrors :: "etcd \<Rightarrow> (store, EventError list) eff" where
  "GetAllErrors E = ebind (GetPrefix E True NodeErrors) (\<lambda>kvs. lift (decode_all dec_event_error kvs))"

section \<open>Policies\<close>

definition acl_key :: "string \<Rightarrow> string" where
  "acl_key effects = ''wag-acls-'' @ effects"

text \<open>The two halves of the state.\<close>

abbreviation on_parser :: "(pstate, 'a) eff \<Rightarrow> (pstate \<times> store, 'a) eff" where
  "on_parser \<equiv> zoom fst (\<lambda>x s. (x, snd s))"

abbreviation on_store :: "(store, 'a) eff \<Rightarrow> (pstate \<times> store, 'a) eff" where
  "on_store \<equiv> zoom snd (\<lambda>x s. (fst s, x))"

text \<open>The parser sorts the slices it is given in place, so what is stored afterwards is sorted.\<close>

definition sort_acl :: "Acl \<Rightarrow> Acl" where
  "sort_acl a = \<lparr>acl_Mfa = sort (acl_Mfa a), acl_Allow = sort (acl_Allow a), acl_Deny = sort (acl_Deny a)\<rparr>"

definition SetAcl :: "etcd \<Rightarrow> parse_env \<Rightarrow> string \<Rightarrow> Acl \<Rightarrow> bool \<Rightarrow> (pstate \<times> store, unit) eff" where
  "SetAcl E P effects policy overwrite =
     ebind (on_parser (ValidateRules P (acl_Mfa policy) (acl_Allow policy) (acl_Deny policy))) (\<lambda>_.
     let policyJson = Json (enc_acl (sort_acl policy)) in
     on_store
       (if overwrite then Put E (''wag-acls-'' @ effects) policyJson
        else ebind (Txn E [KeyMissing (''wag-acls-'' @ effects)] [OpPut (''wag-acls-'' @ effects) policyJson] [])
          (\<lambda>(succeeded, _). if \<not> succeeded then raise ''acl already exists'' else ret ())))"

record PolicyData =
  pd_Effects :: string
  pd_PublicRoutes :: "string list"
  pd_MfaRoutes :: "string list"
  pd_DenyRoutes :: "string list"

definition GetPolicies :: "etcd \<Rightarrow> (store, PolicyData list) eff" where
  "GetPolicies E = ebind (GetPrefix E True ''wag-acls-'') (\<lambda>kvs.
     lift (rmap (\<lambda>(k, v, _). rbind (unmarshal dec_acl v) (\<lambda>policy.
       Inr \<lparr>pd_Effects = trim_prefix k ''wag-acls-'', pd_PublicRoutes = acl_Allow policy,
            pd_MfaRoutes = acl_Mfa policy, pd_DenyRoutes = acl_Deny policy\<rparr>)) kvs))"

definition RemoveAcl :: "etcd \<Rightarrow> string \<Rightarrow> (store, unit) eff" where
  "RemoveAcl E effects = Delete E (''wag-acls-'' @ effects)"

section \<open>The effective access list\<close>

text \<open>The three sets are kept as lists; \<open>Keys\<close> and the final sort make sorted lists of them.\<close>

definition add_acl :: "Acl \<Rightarrow> Acl \<Rightarrow> Acl" where
  "add_acl acl sets = sets\<lparr>acl_Allow := acl_Allow sets @ acl_Allow acl, acl_Mfa := acl_Mfa sets @ acl_Mfa acl,
     acl_Deny := acl_Deny sets @ acl_Deny acl\<rparr>"

definition sorted_keys :: "string list \<Rightarrow> string list" where
  "sorted_keys xs = sort (remdups xs)"

definition sorted_acl :: "Acl \<Rightarrow> Acl" where
  "sorted_acl a = \<lparr>acl_Mfa = sorted_keys (acl_Mfa a), acl_Allow = sorted_keys (acl_Allow a), acl_Deny = sorted_keys (acl_Deny a)\<rparr>"

fun fault_text :: "fault \<Rightarrow> error" where
  "fault_text (GoErr e) = e"
| "fault_text (GoPanic e) = e"
| "fault_text OutOfFuel = ''''"

text \<open>A policy that does not decode is left out, after \<open>report\<close>.\<close>

definition add_response :: "(error \<Rightarrow> (store, unit) eff) \<Rightarrow> kv list \<Rightarrow> Acl \<Rightarrow> (store, Acl) eff" where
  "add_response report kvs sets = (case kvs of
      [] \<Rightarrow> ret sets
    | (_, v, _) # _ \<Rightarrow> (case unmarshal dec_acl v of
          Inr acl \<Rightarrow> ret (add_acl acl sets)
        | Inl e \<Rightarrow> ebind (attempt (report (fault_text e))) (\<lambda>_. ret sets)))"

fun add_groups :: "op_result list \<Rightarrow> Acl \<Rightarrow> Acl" where
  "add_groups [] sets = sets"
| "add_groups (r # rs) sets =
     add_groups rs (case range_kvs r of
        [] \<Rightarrow> sets
      | (_, v, _) # _ \<Rightarrow> (case unmarshal dec_acl v of Inr acl \<Rightarrow> add_acl acl sets | Inl _ \<Rightarrow> sets))"

definition add_dns :: "kv list \<Rightarrow> Acl \<Rightarrow> Acl" where
  "add_dns kvs sets = (case kvs of
      [] \<Rightarrow> sets
    | (_, v, _) # _ \<Rightarrow> (case unmarshal dec_strings v of
          Inr dns \<Rightarrow> sets\<lparr>acl_Allow := acl_Allow sets @ map (\<lambda>server. server @ '' 53/any'') dns\<rparr>
        | Inl _ \<Rightarrow> sets))"

definition quiet_report :: "error \<Rightarrow> (store, unit) eff" where
  "quiet_report e = ret ()"

text \<open>\<open>server\<close> is the printed address of the server's interface.\<close>

definition GetEffectiveAcl :: "etcd \<Rightarrow> host \<Rightarrow> string \<Rightarrow> string \<Rightarrow> (store, Acl) eff" where
  "GetEffectiveAcl E H server username =
     ebind (attempt (Txn E [] [OpGet ''wag-acls-*'', OpGet (''wag-acls-'' @ username),
        OpGet (MembershipKey @ ''-'' @ username), OpGet dnsKey] [])) (\<lambda>resp. case resp of
       Inl err \<Rightarrow> ret (zero_acl\<lparr>acl_Allow := [server @ ''/32'']\<rparr>)
     | Inr (_, rs) \<Rightarrow>
        ebind (add_response (\<lambda>e. RaiseError E H e ''failed to unmarshal default acls policy'') (range_kvs (rs ! 0))
                 (zero_acl\<lparr>acl_Allow := [server @ ''/32'']\<rparr>)) (\<lambda>sets.
        ebind (add_response quiet_report (range_kvs (rs ! 1)) sets) (\<lambda>sets.
        let with_dns = (\<lambda>sets. ret (sorted_acl (add_dns (range_kvs (rs ! 3)) sets))) in
        case range_kvs (rs ! 2) of
          [] \<Rightarrow> with_dns sets
        | (_, v, _) # _ \<Rightarrow> (case unmarshal dec_strings v of
             Inl _ \<Rightarrow> with_dns sets
           | Inr userGroups \<Rightarrow>
               ebind (attempt (Txn E [] (map (\<lambda>g. OpGet (''wag-acls-'' @ g)) userGroups) [])) (\<lambda>resp. case resp of
                 Inl err \<Rightarrow> ebind (attempt (RaiseError E H err ''failed to determine acls from groups'')) (\<lambda>_. ret zero_acl)
               | Inr (_, grs) \<Rightarrow> with_dns (add_groups grs sets))))))"

section \<open>Policies as an abstract map\<close>

definition policy_at :: "store \<Rightarrow> string \<Rightarrow> Acl option" where
  "policy_at s effects = (case value_at s (acl_key effects) of
      Some (Json j) \<Rightarrow> (case dec_acl j of Inr a \<Rightarrow> Some a | Inl _ \<Rightarrow> None)
    | _ \<Rightarrow> None)"

text \<open>The policies in force for a user: the default one, their own, and those of their groups.\<close>

definition policies_of :: "store \<Rightarrow> string \<Rightarrow> Acl set" where
  "policies_of s u = {a. \<exists>n \<in> insert ''*'' (insert u (listed s (member_key u))). policy_at s n = Some a}"

definition dns_of :: "store \<Rightarrow> string set" where
  "dns_of s = listed s dnsKey"

lemma acl_key_eqs: "''wag-acls-'' @ n = acl_key n" "''wag-acls-*'' = acl_key ''*''"
  by (simp_all add: acl_key_def)

lemma response_policy:
  "policy_at s n = (case range_of s [acl_key n] of [] \<Rightarrow> None
     | (_, v, _) # _ \<Rightarrow> (case unmarshal dec_acl v of Inr a \<Rightarrow> Some a | Inl _ \<Rightarrow> None))"
  by (auto simp: policy_at_def value_at_def range_of_single unmarshal_def split: option.splits gvalue.splits sum.splits)

lemma response_strings:
  "strings_at s k = (case range_of s [k] of [] \<Rightarrow> None
     | (_, v, _) # _ \<Rightarrow> (case unmarshal dec_strings v of Inr a \<Rightarrow> Some a | Inl _ \<Rightarrow> None))"
  by (auto simp: strings_at_def value_at_def range_of_single unmarshal_def split: option.splits gvalue.splits sum.splits)

lemma range_of_cases:
  obtains "range_of s [k] = []" | v r where "range_of s [k] = [(k, v, r)]"
  by (cases "find_key s k") (auto simp: range_of_single)

definition opt_add :: "Acl option \<Rightarrow> Acl \<Rightarrow> Acl" where
  "opt_add p sets = (case p of None \<Rightarrow> sets | Some a \<Rightarrow> add_acl a sets)"

lemma opt_add_sets:
  "set (acl_Allow (opt_add p sets)) = set (acl_Allow sets) \<union> (\<Union>a \<in> set_option p. set (acl_Allow a))"
  "set (acl_Mfa (opt_add p sets)) = set (acl_Mfa sets) \<union> (\<Union>a \<in> set_option p. set (acl_Mfa a))"
  "set (acl_Deny (opt_add p sets)) = set (acl_Deny sets) \<union> (\<Union>a \<in> set_option p. set (acl_Deny a))"
  by (auto simp: opt_add_def add_acl_def split: option.split)

lemma fold_opt_add_sets:
  "set (acl_Allow (fold (\<lambda>g. opt_add (f g)) gs sets)) = set (acl_Allow sets) \<union> (\<Union>g \<in> set gs. \<Union>a \<in> set_option (f g). set (acl_Allow a))"
  "set (acl_Mfa (fold (\<lambda>g. opt_add (f g)) gs sets)) = set (acl_Mfa sets) \<union> (\<Union>g \<in> set gs. \<Union>a \<in> set_option (f g). set (acl_Mfa a))"
  "set (acl_Deny (fold (\<lambda>g. opt_add (f g)) gs sets)) = set (acl_Deny sets) \<union> (\<Union>g \<in> set gs. \<Union>a \<in> set_option (f g). set (acl_Deny a))"
  by (induction gs arbitrary: sets) (auto simp: opt_add_sets)

lemma run_ops_gets: "run_ops n (map (\<lambda>g. OpGet (f g)) gs) s = (map (\<lambda>g. Range (range_of s [f g])) gs, s)"
  by (induction gs) simp_all

lemma add_groups_eq:
  "add_groups (map (\<lambda>g. Range (range_of s [acl_key g])) gs) sets = fold (\<lambda>g. opt_add (policy_at s g)) gs sets"
proof (induction gs arbitrary: sets)
  case (Cons g gs)
  have "(case range_of s [acl_key g] of [] \<Rightarrow> sets
      | (_, v, _) # _ \<Rightarrow> (case unmarshal dec_acl v of Inr acl \<Rightarrow> add_acl acl sets | Inl _ \<Rightarrow> sets)) = opt_add (policy_at s g) sets"
    by (cases rule: range_of_cases [of s "acl_key g"]) (auto simp: response_policy opt_add_def split: sum.split)
  then show ?case by (simp add: Cons.IH)
qed simp

lemma attempt_Put: "\<exists>x t. attempt (Put E k v) s = (Inr x, t)"
  by (auto simp: attempt_def Put_def Txn_def Commit_def ebind_def split: prod.split sum.split)

lemma attempt_RaiseError: "\<exists>x t. attempt (RaiseError E H e d) s = (Inr x, t)"
  using attempt_Put by (cases "hs_random H") (auto simp: RaiseError_def attempt_def)

text \<open>In a quiet store a report touches only the error log.\<close>

definition same_but_errors :: "store \<Rightarrow> store \<Rightarrow> bool" where
  "same_but_errors s t \<longleftrightarrow> (\<forall>k. \<not> prefix NodeErrors k \<longrightarrow> find_key t k = find_key s k)"

lemma RaiseError_quiet:
  assumes "etcd_quiet E"
  shows "\<exists>x t. attempt (RaiseError E H e d) s = (Inr x, t) \<and> same_but_errors s t"
  by (auto simp: RaiseError_def attempt_def etcd_quiet.Put_quiet [OF assms] same_but_errors_def split: sum.split)

lemma add_response_eq:
  assumes "\<And>e. \<exists>x t. attempt (report e) s = (Inr x, t) \<and> same_but_errors s t"
  shows "\<exists>t. add_response report (range_of s [acl_key n]) sets s = (Inr (opt_add (policy_at s n) sets), t) \<and> same_but_errors s t"
proof (cases rule: range_of_cases [of s "acl_key n"])
  case 1
  then show ?thesis by (simp add: add_response_def response_policy opt_add_def same_but_errors_def)
next
  case (2 v r)
  show ?thesis
  proof (cases "unmarshal dec_acl v")
    case (Inl e)
    obtain x t where "attempt (report (fault_text e)) s = (Inr x, t)" "same_but_errors s t" using assms by blast
    with Inl 2 show ?thesis by (simp add: add_response_def response_policy opt_add_def ebind_def)
  next
    case (Inr a)
    with 2 show ?thesis by (simp add: add_response_def response_policy opt_add_def same_but_errors_def)
  qed
qed

lemma same_but_errors_keys:
  assumes "same_but_errors s t"
  shows "range_of t [acl_key n] = range_of s [acl_key n]" "range_of t [member_key n] = range_of s [member_key n]"
    "range_of t [dnsKey] = range_of s [dnsKey]" "policy_at t n = policy_at s n"
proof -
  have "\<not> prefix NodeErrors (acl_key n)" "\<not> prefix NodeErrors (member_key n)" "\<not> prefix NodeErrors dnsKey"
    by (simp_all add: NodeErrors_def acl_key_def member_key_def MembershipKey_def dnsKey_def)
  then have "find_key t (acl_key n) = find_key s (acl_key n)" "find_key t (member_key n) = find_key s (member_key n)"
    "find_key t dnsKey = find_key s dnsKey"
    using assms by (simp_all add: same_but_errors_def)
  then show "range_of t [acl_key n] = range_of s [acl_key n]" "range_of t [member_key n] = range_of s [member_key n]"
    "range_of t [dnsKey] = range_of s [dnsKey]" "policy_at t n = policy_at s n"
    by (simp_all add: range_of_single response_policy)
qed

lemma add_dns_eq:
  "add_dns (range_of s [dnsKey]) sets = sets\<lparr>acl_Allow := acl_Allow sets @ map (\<lambda>d. d @ '' 53/any'')
     (case strings_at s dnsKey of None \<Rightarrow> [] | Some ds \<Rightarrow> ds)\<rparr>"
  by (cases rule: range_of_cases [of s dnsKey]) (auto simp: add_dns_def response_strings split: sum.split)

definition effective_sets :: "store \<Rightarrow> string \<Rightarrow> string \<Rightarrow> Acl" where
  "effective_sets s server u =
     (let gs = (case strings_at s (member_key u) of None \<Rightarrow> [] | Some gs \<Rightarrow> gs) in
      add_dns (range_of s [dnsKey]) (fold (\<lambda>g. opt_add (policy_at s g)) gs
        (opt_add (policy_at s u) (opt_add (policy_at s ''*'') (zero_acl\<lparr>acl_Allow := [server @ ''/32'']\<rparr>)))))"

lemma GetEffectiveAcl_quiet:
  assumes "etcd_quiet E"
  shows "\<exists>t. GetEffectiveAcl E H server u s = (Inr (sorted_acl (effective_sets s server u)), t) \<and> same_but_errors s t"
proof -
  let ?s0 = "zero_acl\<lparr>acl_Allow := [server @ ''/32'']\<rparr>"
  let ?s1 = "opt_add (policy_at s ''*'') ?s0"
  let ?s2 = "opt_add (policy_at s u) ?s1"
  have txn: "attempt (Txn E [] [OpGet (acl_key ''*''), OpGet (acl_key u), OpGet (member_key u), OpGet dnsKey] []) s =
      (Inr (Inr (True, map (\<lambda>k. Range (range_of s [k])) [acl_key ''*'', acl_key u, member_key u, dnsKey])), s)"
    by (simp add: attempt_def etcd_quiet.Txn_quiet [OF assms] apply_request_def)
  obtain t where t: "add_response (\<lambda>e. RaiseError E H e ''failed to unmarshal default acls policy'') (range_of s [acl_key ''*'']) ?s0 s = (Inr ?s1, t)"
    "same_but_errors s t"
    using add_response_eq [of "\<lambda>e. RaiseError E H e ''failed to unmarshal default acls policy''" s "''*''" ?s0]
      RaiseError_quiet [OF assms] by blast
  have r2: "add_response quiet_report (range_of s [acl_key u]) ?s1 t = (Inr ?s2, t)"
    by (cases rule: range_of_cases [of s "acl_key u"])
       (auto simp: add_response_def response_policy opt_add_def quiet_report_def attempt_def ebind_def split: sum.split)
  have grp: "attempt (Txn E [] (map (\<lambda>g. OpGet (acl_key g)) gs) []) t =
      (Inr (Inr (True, map (\<lambda>g. Range (range_of s [acl_key g])) gs)), t)" for gs
    by (simp add: attempt_def etcd_quiet.Txn_quiet [OF assms] apply_request_def run_ops_gets same_but_errors_keys [OF t(2)])
  have body: "GetEffectiveAcl E H server u s =
     (case range_of s [member_key u] of
          [] \<Rightarrow> ret (sorted_acl (add_dns (range_of s [dnsKey]) ?s2))
        | (_, v, _) # _ \<Rightarrow> (case unmarshal dec_strings v of
             Inl _ \<Rightarrow> ret (sorted_acl (add_dns (range_of s [dnsKey]) ?s2))
           | Inr userGroups \<Rightarrow>
               ebind (attempt (Txn E [] (map (\<lambda>g. OpGet (acl_key g)) userGroups) [])) (\<lambda>resp. case resp of
                 Inl err \<Rightarrow> ebind (attempt (RaiseError E H err ''failed to determine acls from groups'')) (\<lambda>_. ret zero_acl)
               | Inr (_, grs) \<Rightarrow> ret (sorted_acl (add_dns (range_of s [dnsKey]) (add_groups grs ?s2)))))) t"
    unfolding GetEffectiveAcl_def acl_key_eqs group_key_eqs Let_def
    by (simp add: ebind_def txn t(1) r2 cong: list.case_cong sum.case_cong prod.case_cong)
  show ?thesis
  proof (cases "strings_at s (member_key u)")
    case None
    then have "GetEffectiveAcl E H server u s = (Inr (sorted_acl (add_dns (range_of s [dnsKey]) ?s2)), t)"
      unfolding body response_strings
      by (cases rule: range_of_cases [of s "member_key u"]) (auto split: sum.splits)
    with None t(2) show ?thesis by (simp add: effective_sets_def)
  next
    case (Some gs)
    then have "GetEffectiveAcl E H server u s =
        (Inr (sorted_acl (add_dns (range_of s [dnsKey]) (fold (\<lambda>g. opt_add (policy_at s g)) gs ?s2))), t)"
      unfolding body response_strings
      by (cases rule: range_of_cases [of s "member_key u"]) (auto simp: ebind_def grp add_groups_eq split: sum.splits)
    with Some t(2) show ?thesis by (simp add: effective_sets_def)
  qed
qed

lemma sorted_keys: "set (sorted_keys xs) = set xs" "sorted (sorted_keys xs)" "distinct (sorted_keys xs)"
  by (simp_all add: sorted_keys_def)

lemma effective_sets_sets:
  "set (acl_Allow (effective_sets s server u)) = insert (server @ ''/32'')
     ((\<Union>a \<in> policies_of s u. set (acl_Allow a)) \<union> (\<lambda>d. d @ '' 53/any'') ` dns_of s)"
  "set (acl_Mfa (effective_sets s server u)) = (\<Union>a \<in> policies_of s u. set (acl_Mfa a))"
  "set (acl_Deny (effective_sets s server u)) = (\<Union>a \<in> policies_of s u. set (acl_Deny a))"
proof -
  have pol: "policies_of s u = set_option (policy_at s ''*'') \<union> set_option (policy_at s u) \<union>
     (\<Union>g \<in> set (case strings_at s (member_key u) of None \<Rightarrow> [] | Some gs \<Rightarrow> gs). set_option (policy_at s g))"
    unfolding old_listed by (auto simp: policies_of_def)
  show "set (acl_Allow (effective_sets s server u)) = insert (server @ ''/32'')
     ((\<Union>a \<in> policies_of s u. set (acl_Allow a)) \<union> (\<lambda>d. d @ '' 53/any'') ` dns_of s)"
    unfolding effective_sets_def Let_def add_dns_eq pol dns_of_def old_listed [symmetric]
    by (simp add: opt_add_sets fold_opt_add_sets zero_acl_def UN_Un Un_assoc)
  show "set (acl_Mfa (effective_sets s server u)) = (\<Union>a \<in> policies_of s u. set (acl_Mfa a))"
    unfolding effective_sets_def Let_def add_dns_eq pol
    by (simp add: opt_add_sets fold_opt_add_sets zero_acl_def UN_Un Un_assoc)
  show "set (acl_Deny (effective_sets s server u)) = (\<Union>a \<in> policies_of s u. set (acl_Deny a))"
    unfolding effective_sets_def Let_def add_dns_eq pol
    by (simp add: opt_add_sets fold_opt_add_sets zero_acl_def UN_Un Un_assoc)
qed

section \<open>Properties\<close>

text \<open>C12
  The effective access list of a user is exactly what the stored policies say: when nobody else
  writes, \<open>GetEffectiveAcl\<close> always answers, and each of the three lists is sorted, without
  duplicates, and consists of the rules of the default policy, the user's own policy and the
  policies of the user's groups, where a policy that is missing or malformed contributes nothing;
  the allowed routes also have the server's address and each DNS server on port 53.
\<close>

theorem GetEffectiveAcl_spec:
  assumes "etcd_quiet E"
  shows "\<exists>a t. GetEffectiveAcl E H server u s = (Inr a, t) \<and>
    set (acl_Allow a) = insert (server @ ''/32'')
      ((\<Union>p \<in> policies_of s u. set (acl_Allow p)) \<union> (\<lambda>d. d @ '' 53/any'') ` dns_of s) \<and>
    set (acl_Mfa a) = (\<Union>p \<in> policies_of s u. set (acl_Mfa p)) \<and>
    set (acl_Deny a) = (\<Union>p \<in> policies_of s u. set (acl_Deny p)) \<and>
    list_all (\<lambda>l. sorted l \<and> distinct l) [acl_Allow a, acl_Mfa a, acl_Deny a] \<and>
    same_but_errors s t"
proof -
  obtain t where t: "GetEffectiveAcl E H server u s = (Inr (sorted_acl (effective_sets s server u)), t)" "same_but_errors s t"
    using GetEffectiveAcl_quiet [OF assms] by blast
  then show ?thesis
    by (intro exI [of _ "sorted_acl (effective_sets s server u)"] exI [of _ t])
       (simp add: sorted_acl_def sorted_keys effective_sets_sets)
qed

theorem GetEffectiveAcl_spec_witness:
  "\<exists>a t. GetEffectiveAcl etcd_ref \<lparr>hs_now = 0, hs_random = Inr ''aa'', hs_id = ''1''\<rparr> ''10.0.0.1'' ''ann''
      (put_key (acl_key ''ann'') (Json (enc_acl \<lparr>acl_Mfa = [''10.0.0.0/8''], acl_Allow = [], acl_Deny = []\<rparr>)) no_store) = (Inr a, t) \<and>
     ''10.0.0.1/32'' \<in> set (acl_Allow a)"
  using GetEffectiveAcl_spec [OF etcd_ref.etcd_quiet_axioms,
    of "\<lparr>hs_now = 0, hs_random = Inr ''aa'', hs_id = ''1''\<rparr>" "''10.0.0.1''" "''ann''"
       "put_key (acl_key ''ann'') (Json (enc_acl \<lparr>acl_Mfa = [''10.0.0.0/8''], acl_Allow = [], acl_Deny = []\<rparr>)) no_store"]
  by auto

lemma policy_at_put [simp]:
  "policy_at (put_key (acl_key n) (Json (enc_acl a)) s) m = (if m = n then Some a else policy_at s m)"
  by (simp add: policy_at_def acl_key_def)

text \<open>
  Only policies the rule parser accepts are stored: whatever the service does, when \<open>SetAcl\<close>
  succeeds, parsing the policy's rules produced no error, and the store is one that other members
  may have brought about with exactly this policy, its rules in order, put in place; without
  overwrite there was none before. When the parser rejects a rule, the store is untouched.
\<close>

theorem SetAcl_validated:
  assumes "etcd_service E"
  shows "(SetAcl E P n policy overwrite (p, s) = (Inr (), (q, t)) \<longrightarrow>
      (\<exists>rules m. ParseRules P (acl_Mfa policy) (acl_Allow policy) (acl_Deny policy) p = (Inr (rules, []), q) \<and>
         later s m \<and> policy_at t n = Some (sort_acl policy) \<and>
         (\<forall>k. k \<noteq> acl_key n \<longrightarrow> find_key t k = find_key m k) \<and>
         (\<not> overwrite \<longrightarrow> find_key m (acl_key n) = None))) \<and>
    (ParseRules P (acl_Mfa policy) (acl_Allow policy) (acl_Deny policy) p = (Inr (rules', e # es), q') \<longrightarrow>
      snd (snd (SetAcl E P n policy overwrite (p, s))) = s \<and> \<not> is_ok (fst (SetAcl E P n policy overwrite (p, s))))"
proof (intro conjI impI)
  let ?d = "Json (enc_acl (sort_acl policy))"
  assume run: "SetAcl E P n policy overwrite (p, s) = (Inr (), (q, t))"
  then obtain q1 where v: "ValidateRules P (acl_Mfa policy) (acl_Allow policy) (acl_Deny policy) p = (Inr (), q1)"
    and w: "(if overwrite then Put E (acl_key n) ?d
        else ebind (Txn E [KeyMissing (acl_key n)] [OpPut (acl_key n) ?d] [])
          (\<lambda>(succeeded, _). if \<not> succeeded then raise ''acl already exists'' else ret ())) s = (Inr (), t)" "q = q1"
    unfolding SetAcl_def acl_key_eqs by (auto simp: ebind_eq_Inr zoom_eq_Inr Let_def)
  from v obtain rules where r: "ParseRules P (acl_Mfa policy) (acl_Allow policy) (acl_Deny policy) p = (Inr (rules, []), q)"
    using w(2) by (auto simp: ValidateRules_def ebind_eq_Inr split: if_splits)
  have "\<exists>m. later s m \<and> t = put_key (acl_key n) ?d m \<and> (\<not> overwrite \<longrightarrow> find_key m (acl_key n) = None)"
  proof (cases overwrite)
    case True
    with w(1) obtain rs where "Txn E [] [OpPut (acl_key n) ?d] [] s = (Inr rs, t)"
      by (auto simp: Put_def ebind_eq_Inr)
    then obtain m where "later s m" "apply_request \<lparr>rq_if = [], rq_then = [OpPut (acl_key n) ?d], rq_else = []\<rparr> m = (rs, t)"
      by (rule etcd_service.Txn_ok [OF assms])
    with True show ?thesis by (auto simp: apply_request_def put_key_def)
  next
    case False
    with w(1) obtain rs where "Txn E [KeyMissing (acl_key n)] [OpPut (acl_key n) ?d] [] s = (Inr (True, rs), t)"
      by (auto simp: ebind_eq_Inr split: if_splits)
    then obtain m where m: "later s m" "apply_request \<lparr>rq_if = [KeyMissing (acl_key n)], rq_then = [OpPut (acl_key n) ?d], rq_else = []\<rparr> m = ((True, rs), t)"
      by (rule etcd_service.Txn_ok [OF assms])
    from m(2) have "find_key m (acl_key n) = None" "t = put_key (acl_key n) ?d m"
      by (cases "find_key m (acl_key n)"; simp add: apply_request_def put_key_def)+
    with m(1) show ?thesis by blast
  qed
  then obtain m where m: "later s m" "t = put_key (acl_key n) ?d m" "\<not> overwrite \<longrightarrow> find_key m (acl_key n) = None" by blast
  with r show "\<exists>rules m. ParseRules P (acl_Mfa policy) (acl_Allow policy) (acl_Deny policy) p = (Inr (rules, []), q) \<and>
         later s m \<and> policy_at t n = Some (sort_acl policy) \<and>
         (\<forall>k. k \<noteq> acl_key n \<longrightarrow> find_key t k = find_key m k) \<and>
         (\<not> overwrite \<longrightarrow> find_key m (acl_key n) = None)"
    by (intro exI [of _ rules] exI [of _ m]) simp
next
  assume "ParseRules P (acl_Mfa policy) (acl_Allow policy) (acl_Deny policy) p = (Inr (rules', e # es), q')"
  then have "\<exists>x. SetAcl E P n policy overwrite (p, s) = (Inl (GoErr x), (q', s))"
    by (simp add: SetAcl_def ebind_def zoom_def ValidateRules_def)
  then show "snd (snd (SetAcl E P n policy overwrite (p, s))) = s" "\<not> is_ok (fst (SetAcl E P n policy overwrite (p, s)))"
    by auto
qed

definition demo_policy :: Acl where
  "demo_policy = \<lparr>acl_Mfa = [''10.0.0.1 22/tcp''], acl_Allow = [], acl_Deny = [''10.0.0.1 80-90/any'']\<rparr>"

lemma demo_policy_parses:
  "\<exists>rules q. ParseRules demo_env (acl_Mfa demo_policy) (acl_Allow demo_policy) (acl_Deny demo_policy) empty_pstate = (Inr (rules, []), q)"
proof -
  have "\<forall>kp \<in> set (spec_rules (pe_net demo_env) [''10.0.0.1 22/tcp''] [] [''10.0.0.1 80-90/any'']). length (snd kp) \<le> MAX_POLICIES"
    by (auto simp: spec_rules_mem policies_for_def demo_rule_list MAX_POLICIES_def split: if_splits)
  with ParseRules_literal [of demo_env "[''10.0.0.1 22/tcp'']" "[]" "[''10.0.0.1 80-90/any'']" empty_pstate] demo_rule_list(1)
  show ?thesis by (auto simp: demo_policy_def)
qed

theorem SetAcl_validated_witness:
  "\<exists>q t. SetAcl etcd_ref demo_env ''ann'' demo_policy False (empty_pstate, no_store) = (Inr (), (q, t)) \<and>
     policy_at t ''ann'' = Some demo_policy"
proof -
  obtain rules q where r: "ParseRules demo_env (acl_Mfa demo_policy) (acl_Allow demo_policy) (acl_Deny demo_policy) empty_pstate = (Inr (rules, []), q)"
    using demo_policy_parses by blast
  obtain t where run: "SetAcl etcd_ref demo_env ''ann'' demo_policy False (empty_pstate, no_store) = (Inr (), (q, t))"
    using r by (simp add: SetAcl_def ebind_def zoom_def ValidateRules_def Let_def etcd_ref.Txn_quiet apply_request_def)
  from SetAcl_validated [OF etcd_ref.etcd_service_axioms, THEN conjunct1, THEN mp, OF run]
  have "policy_at t ''ann'' = Some (sort_acl demo_policy)" by blast
  then show ?thesis using run by (simp add: sort_acl_def demo_policy_def)
qed

end
