(* ===== verification/DataTokens.thy ===== *)
theory DataTokens
  imports DataAcls
begin

text \<open>
  Registration tokens (internal/data/registration.go) and what the cluster keeps about its nodes
  (internal/data/clustering.go, the ping and the error log of events.go). Random texts, the time and
  the membership calls of the etcd server are arguments; the one-second delay of
  \<open>GetRegistrationToken\<close> is not observable here.
\<close>

section \<open>Registration tokens\<close>

definition restrationKey :: "string \<Rightarrow> string" where
  "restrationKey token = ''tokens-'' @ token"

definition GetRegistrationToken :: "etcd \<Rightarrow> string \<Rightarrow> (store, string \<times> string \<times> string list) eff" where
  "GetRegistrationToken E token =
     ebind (Get E (restrationKey token)) (\<lambda>kvs. case kvs of
        [(_, v, _)] \<Rightarrow> ebind (lift (unmarshal dec_token v)) (\<lambda>result.
          ret (rr_Username result, rr_Overwrites result, rr_Groups result))
      | _ \<Rightarrow> raise ''invalid token'')"

definition GetRegistrationTokens :: "etcd \<Rightarrow> (store, RegistrationResult list) eff" where
  "GetRegistrationTokens E = ebind (GetPrefix E True ''tokens-'') (\<lambda>kvs. lift (decode_all dec_token kvs))"

definition DeleteRegistrationToken :: "etcd \<Rightarrow> string \<Rightarrow> (store, unit) eff" where
  "DeleteRegistrationToken E identifier = Delete E (restrationKey identifier)"

text \<open>A 64-bit \<open>int\<close>.\<close>

definition wrap64 :: "int \<Rightarrow> int" where
  "wrap64 i = (i + 2 ^ 63) mod 2 ^ 64 - 2 ^ 63"

definition use_token :: mutator where
  "use_token gr = (case gr of
      [] \<Rightarrow> panic ''index out of range''
    | (_, v, _) # _ \<Rightarrow>
        ebind (lift (unmarshal dec_token v)) (\<lambda>result.
        let result = result\<lparr>rr_NumUses := wrap64 (rr_NumUses result - 1)\<rparr> in
        if rr_NumUses result \<le> 0 then raise ''registration token has expired''
        else ret (Json (enc_token result))))"

definition FinaliseRegistration :: "etcd \<Rightarrow> string \<Rightarrow> (store, unit) eff" where
  "FinaliseRegistration E token =
     on_error (doSafeUpdate E (''tokens-'' @ token) False use_token)
       (\<lambda>err. if err = ''registration token has expired'' then DeleteRegistrationToken E token else raise err)"

text \<open>The pattern of allowed characters is not anchored: one such character is enough.\<close>

definition token_char :: "char \<Rightarrow> bool" where
  "token_char c = (let n = of_char c :: nat in
     97 \<le> n \<and> n \<le> 122 \<or> 65 \<le> n \<and> n \<le> 90 \<or> is_digit c \<or> c = CHR ''-'' \<or> c = CHR ''_'' \<or> c = CHR ''.'')"

definition AddRegistrationToken :: "etcd \<Rightarrow> string \<Rightarrow> string \<Rightarrow> string \<Rightarrow> string list \<Rightarrow> int \<Rightarrow> (store, unit) eff" where
  "AddRegistrationToken E token username overwrite groups uses =
     (if length token < 32 then raise ''registration token is too short''
      else if \<not> list_ex token_char token
      then raise ''registration token contains illegal characters (allowed characters a-z A-Z - . _ )''
      else if contains username ''-'' then raise ''usernames cannot contain '-' ''
      else
        ebind (if overwrite = '''' then ret ()
               else ebind (Get E (''device-ref-'' @ overwrite)) (\<lambda>response. case response of
                    [] \<Rightarrow> panic ''index out of range''
                  | (_, v, _) # _ \<Rightarrow>
                      if \<not> contains (value_text E v) username
                      then raise ''could not find device that this token is intended to overwrite''
                      else ret ())) (\<lambda>_.
        Put E (''tokens-'' @ token) (Json (enc_token \<lparr>rr_Token = token, rr_Username = username, rr_Groups = groups,
          rr_Overwrites = overwrite, rr_NumUses = uses\<rparr>))))"

definition GenerateToken :: "etcd \<Rightarrow> error + string \<Rightarrow> string \<Rightarrow> string \<Rightarrow> string list \<Rightarrow> int \<Rightarrow> (store, string) eff" where
  "GenerateToken E random username overwrite groups uses =
     (case random of Inl e \<Rightarrow> raise e
      | Inr token \<Rightarrow> ebind (AddRegistrationToken E token username overwrite groups uses) (\<lambda>_. ret token))"

section \<open>Paths and member identifiers\<close>

text \<open>\<open>path.Join\<close>: empty elements are dropped, then the path is cleaned.\<close>

fun clean_segments :: "bool \<Rightarrow> string list \<Rightarrow> string list \<Rightarrow> string list" where
  "clean_segments rooted done [] = rev done"
| "clean_segments rooted done (w # ws) =
     (if w = '''' \<or> w = ''.'' then clean_segments rooted done ws
      else if w = ''..'' then
        (case done of
           [] \<Rightarrow> if rooted then clean_segments rooted [] ws else clean_segments rooted [w] ws
         | d # ds \<Rightarrow> if d = ''..'' then clean_segments rooted (w # done) ws else clean_segments rooted ds ws)
      else clean_segments rooted (w # done) ws)"

definition path_join :: "string list \<Rightarrow> string" where
  "path_join elems =
     (let p = join_str ''/'' (filter (\<lambda>w. w \<noteq> '''') elems) in
      if p = '''' then ''''
      else
        let rooted = (hd p = CHR ''/'');
            body = join_str ''/'' (clean_segments rooted [] (split_on (CHR ''/'') p))
        in if rooted then CHR ''/'' # body else if body = '''' then ''.'' else body)"

definition hex_val :: "char \<Rightarrow> nat option" where
  "hex_val c = (let n = of_char c :: nat in
     if is_digit c then Some (n - 48)
     else if 97 \<le> n \<and> n \<le> 102 then Some (n - 87)
     else if 65 \<le> n \<and> n \<le> 70 then Some (n - 55)
     else None)"

text \<open>\<open>strconv.ParseUint\<close> in base 16 for 64 bits.\<close>

fun hex_number :: "nat \<Rightarrow> string \<Rightarrow> nat option" where
  "hex_number a [] = Some a"
| "hex_number a (c # cs) = (case hex_val c of None \<Rightarrow> None | Some v \<Rightarrow> hex_number (16 * a + v) cs)"

definition ParseUint16 :: "string \<Rightarrow> error + u64" where
  "ParseUint16 s = (if s = '''' then Inl ''invalid syntax'' else
     (case hex_number 0 s of None \<Rightarrow> Inl ''invalid syntax''
      | Some n \<Rightarrow> if n < 2 ^ 64 then Inr (word_of_nat n) else Inl ''value out of range''))"

definition check_id :: "(error \<Rightarrow> error) \<Rightarrow> string \<Rightarrow> ('s, u64) eff" where
  "check_id w idHex = (case ParseUint16 idHex of Inl e \<Rightarrow> raise (w e) | Inr n \<Rightarrow> ret n)"

definition bad_member :: "error \<Rightarrow> error" where
  "bad_member e = ''bad member ID arg ('' @ e @ ''), expecting ID in Hex''"

section \<open>Node state\<close>

definition NodeInfo :: string where "NodeInfo = ''wag/node/''"

definition bool_text :: "bool \<Rightarrow> string" where
  "bool_text b = (if b then ''true'' else ''false'')"

definition GetLastPing :: "etcd \<Rightarrow> (u64 \<Rightarrow> bool) \<Rightarrow> (string \<Rightarrow> error + int) \<Rightarrow> string \<Rightarrow> (store, int) eff" where
  "GetLastPing E is_member parse_time idHex =
     ebind (check_id (\<lambda>e. e) idHex) (\<lambda>n.
     if \<not> is_member n then raise ''id is not part of cluster''
     else
       ebind (Get E (path_join [NodeInfo, idHex, ''ping''])) (\<lambda>lastPing. case lastPing of
          [] \<Rightarrow> raise ''node missing''
        | [(_, v, _)] \<Rightarrow> (case parse_time (value_text E v) of Inl e \<Rightarrow> raise e | Inr t \<Rightarrow> ret t)
        | _ \<Rightarrow> raise ''multiple keys match ping''))"

text \<open>\<open>H\<close> names this member.\<close>

definition SetWitness :: "etcd \<Rightarrow> host \<Rightarrow> bool \<Rightarrow> (store, unit) eff" where
  "SetWitness E H on =
     (if on then Put E (path_join [NodeInfo, hs_id H, ''witness'']) (Text (bool_text on))
      else Delete E (path_join [NodeInfo, hs_id H, ''witness'']))"

definition IsWitness :: "etcd \<Rightarrow> string \<Rightarrow> (store, bool) eff" where
  "IsWitness E idHex =
     ebind (check_id bad_member idHex) (\<lambda>_.
     ebind (Get E (path_join [NodeInfo, idHex, ''witness''])) (\<lambda>isDrained. ret (isDrained \<noteq> [])))"

definition GetVersion :: "etcd \<Rightarrow> string \<Rightarrow> (store, string) eff" where
  "GetVersion E idHex =
     ebind (check_id bad_member idHex) (\<lambda>_. getString E (path_join [NodeInfo, idHex, ''version'']))"

definition SetVersion :: "etcd \<Rightarrow> host \<Rightarrow> string \<Rightarrow> (store, unit) eff" where
  "SetVersion E H version = Put E (path_join [NodeInfo, hs_id H, ''version'']) (Json (JStr version))"

definition SetDrained :: "etcd \<Rightarrow> string \<Rightarrow> bool \<Rightarrow> (store, unit) eff" where
  "SetDrained E idHex on =
     ebind (IsWitness E idHex) (\<lambda>isWitness.
     if isWitness then raise ''cannot set drained on witness node, this node is not serving clients''
     else
       ebind (check_id (\<lambda>e. e) idHex) (\<lambda>_.
       if on then Put E (path_join [NodeInfo, idHex, ''drain'']) (Text (bool_text on))
       else Delete E (path_join [NodeInfo, idHex, ''drain''])))"

definition IsDrained :: "etcd \<Rightarrow> string \<Rightarrow> (store, bool) eff" where
  "IsDrained E idHex =
     ebind (check_id bad_member idHex) (\<lambda>_.
     ebind (Get E (path_join [NodeInfo, idHex, ''drain''])) (\<lambda>isDrained. ret (isDrained \<noteq> [])))"

text \<open>Removing a member; \<open>member_remove\<close> is the call of the etcd server.\<close>

definition RemoveMember :: "etcd \<Rightarrow> (u64 \<Rightarrow> (store, unit) eff) \<Rightarrow> string \<Rightarrow> (store, unit) eff" where
  "RemoveMember E member_remove idHex =
     ebind (check_id bad_member idHex) (\<lambda>n.
     ebind (DeletePrefix E (path_join [NodeInfo, idHex])) (\<lambda>_. member_remove n))"

definition PromoteMember :: "(u64 \<Rightarrow> (store, unit) eff) \<Rightarrow> string \<Rightarrow> (store, unit) eff" where
  "PromoteMember member_promote idHex = ebind (check_id bad_member idHex) (\<lambda>n. member_promote n)"

definition ResolveError :: "etcd \<Rightarrow> string \<Rightarrow> (store, unit) eff" where
  "ResolveError E errorId = Delete E (path_join [NodeErrors, errorId])"

section \<open>The uses of a token\<close>

definition token_at :: "store \<Rightarrow> string \<Rightarrow> RegistrationResult option" where
  "token_at s token = (case value_at s (restrationKey token) of
      Some (Json j) \<Rightarrow> (case dec_token j of Inr r \<Rightarrow> Some r | Inl _ \<Rightarrow> None)
    | _ \<Rightarrow> None)"

fun finalise_times :: "etcd \<Rightarrow> string \<Rightarrow> nat \<Rightarrow> (store, unit) eff" where
  "finalise_times E token 0 = ret ()"
| "finalise_times E token (Suc k) = ebind (FinaliseRegistration E token) (\<lambda>_. finalise_times E token k)"

lemma doSafeUpdate_missing:
  assumes "etcd_quiet E" and "find_key s key = None"
  shows "doSafeUpdate E key False mutate s = (Inl (GoErr ''no record found''), s)"
proof -
  obtain n where "attempts E = Suc n" using etcd_quiet.some_attempt [OF assms(1)] by (cases "attempts E") auto
  with assms(2) show ?thesis
    by (simp add: doSafeUpdate_def ebind_def etcd_quiet.Get_quiet [OF assms(1)] range_of_single)
qed

lemma token_key_eq: "''tokens-'' @ t = restrationKey t"
  by (simp add: restrationKey_def)

lemma wrap64_id: "int64 i \<Longrightarrow> wrap64 i = i"
  by (simp add: wrap64_def int64_def)

lemma int64_pred: "int64 i \<Longrightarrow> 0 < i \<Longrightarrow> int64 (i - 1)"
  by (simp add: int64_def)

lemma Finalise_quiet:
  assumes "etcd_quiet E" and "value_at s (restrationKey tok) = Some (Json (enc_token r))" and "int64 (rr_NumUses r)"
    and "- (2 ^ 63) < rr_NumUses r"
  shows "FinaliseRegistration E tok s =
    (if rr_NumUses r \<le> 1 then (Inr (), del_at (Suc (st_rev s)) (restrationKey tok) s)
     else (Inr (), put_key (restrationKey tok) (Json (enc_token (r\<lparr>rr_NumUses := rr_NumUses r - 1\<rparr>))) s))"
proof -
  obtain v where rng: "range_of s [restrationKey tok] = [(restrationKey tok, Json (enc_token r), v)]"
    using range_of_value_at assms(2) by blast
  have w: "wrap64 (rr_NumUses r - 1) = rr_NumUses r - 1"
    using assms(3,4) by (intro wrap64_id) (simp add: int64_def)
  have u: "use_token (range_of s [restrationKey tok]) s =
      ((if rr_NumUses r \<le> 1 then Inl (GoErr ''registration token has expired'')
        else Inr (Json (enc_token (r\<lparr>rr_NumUses := rr_NumUses r - 1\<rparr>)))), s)"
    using assms(3) by (simp add: use_token_def rng Let_def w ebind_def)
  have nn: "find_key s (restrationKey tok) \<noteq> None" using assms(2) by (auto simp: value_at_def)
  have "doSafeUpdate E (restrationKey tok) False use_token s =
      (if rr_NumUses r \<le> 1 then (Inl (GoErr ''registration token has expired''), s)
       else (Inr (), put_key (restrationKey tok) (Json (enc_token (r\<lparr>rr_NumUses := rr_NumUses r - 1\<rparr>))) s))"
    using etcd_quiet.doSafeUpdate_quiet [of E use_token, OF assms(1) u, of False] nn by auto
  then show ?thesis
    unfolding FinaliseRegistration_def token_key_eq
    by (simp add: on_error_def DeleteRegistrationToken_def etcd_quiet.Delete_quiet [OF assms(1)])
qed

lemma token_at_value: "int64 (rr_NumUses r) \<Longrightarrow> value_at s (restrationKey tok) = Some (Json (enc_token r)) \<Longrightarrow> token_at s tok = Some r"
  by (simp add: token_at_def)

lemma finalise_some:
  assumes "etcd_quiet E" and "value_at s (restrationKey tok) = Some (Json (enc_token r))" and "int64 (rr_NumUses r)"
    and "int k < rr_NumUses r"
  shows "\<exists>t. finalise_times E tok k s = (Inr (), t) \<and>
    value_at t (restrationKey tok) = Some (Json (enc_token (r\<lparr>rr_NumUses := rr_NumUses r - int k\<rparr>))) \<and>
    (\<forall>l. l \<noteq> restrationKey tok \<longrightarrow> value_at t l = value_at s l)"
  using assms(2-4)
proof (induction k arbitrary: s r)
  case (Suc k)
  let ?r = "r\<lparr>rr_NumUses := rr_NumUses r - 1\<rparr>"
  let ?s = "put_key (restrationKey tok) (Json (enc_token ?r)) s"
  have lo: "- (2 ^ 63) < rr_NumUses r" using Suc.prems(3) by simp
  have step: "FinaliseRegistration E tok s = (Inr (), ?s)"
    using Finalise_quiet [OF assms(1) Suc.prems(1,2) lo] Suc.prems(3) by simp
  have "int64 (rr_NumUses ?r)" using int64_pred [OF Suc.prems(2)] Suc.prems(3) by simp
  moreover have "int k < rr_NumUses ?r" using Suc.prems(3) by simp
  ultimately obtain t where "finalise_times E tok k ?s = (Inr (), t)"
    "value_at t (restrationKey tok) = Some (Json (enc_token (?r\<lparr>rr_NumUses := rr_NumUses ?r - int k\<rparr>)))"
    "\<forall>l. l \<noteq> restrationKey tok \<longrightarrow> value_at t l = value_at ?s l"
    using Suc.IH [of ?s ?r] by auto
  then show ?case using step by (intro exI [of _ t]) (simp add: ebind_def algebra_simps)
qed (simp_all)

lemma finalise_append:
  "finalise_times E tok (m + k) s = ebind (finalise_times E tok m) (\<lambda>_. finalise_times E tok k) s"
  by (induction m arbitrary: s) (auto simp: ebind_def split: prod.split sum.split)

text \<open>C18
  A token registers as many devices as it was made for and no more: a token added with \<open>uses\<close> is
  given out unchanged to each of the first registrations, it survives as long as fewer than
  \<open>uses\<close> registrations were finalised (at least one is always allowed), the last one removes it,
  and from then on it is invalid and finalising it is an error; nothing else in the store changes.
\<close>

theorem token_uses:
  assumes "etcd_quiet E" and "AddRegistrationToken E tok user overwrite grps uses s = (Inr (), t)"
    and "int64 uses" and "- (2 ^ 63) < uses"
  shows "(\<forall>k. int k < uses \<longrightarrow> (\<exists>u. finalise_times E tok k t = (Inr (), u) \<and>
       GetRegistrationToken E tok u = (Inr (user, overwrite, grps), u))) \<and>
    (\<exists>u. finalise_times E tok (max 1 (nat uses)) t = (Inr (), u) \<and>
       GetRegistrationToken E tok u = (Inl (GoErr ''invalid token''), u) \<and>
       FinaliseRegistration E tok u = (Inl (GoErr ''no record found''), u) \<and>
       (\<forall>l. l \<noteq> restrationKey tok \<longrightarrow> value_at u l = value_at s l))"
proof -
  let ?key = "restrationKey tok"
  let ?r = "\<lparr>rr_Token = tok, rr_Username = user, rr_Groups = grps, rr_Overwrites = overwrite, rr_NumUses = uses\<rparr>"
  have "\<exists>s'. s' = s \<and> Put E ?key (Json (enc_token ?r)) s' = (Inr (), t)"
    using assms(2) unfolding AddRegistrationToken_def token_key_eq
    by (auto simp: ebind_eq_Inr etcd_quiet.Get_quiet [OF assms(1)] split: if_splits list.splits)
  then have t: "t = put_key ?key (Json (enc_token ?r)) s"
    by (simp add: etcd_quiet.Put_quiet [OF assms(1)] put_key_def)
  have val: "value_at t ?key = Some (Json (enc_token ?r))" and other: "l \<noteq> ?key \<Longrightarrow> value_at t l = value_at s l" for l
    by (simp_all add: t)
  have get: "GetRegistrationToken E tok u = (Inr (user, overwrite, grps), u)"
    if "value_at u ?key = Some (Json (enc_token (?r\<lparr>rr_NumUses := n\<rparr>)))" "int64 n" for u n
    using range_of_value_at [OF that(1)] that(2)
    by (auto simp: GetRegistrationToken_def etcd_quiet.Get_quiet [OF assms(1)] ebind_def)
  have some: "\<exists>u. finalise_times E tok k t = (Inr (), u) \<and>
       value_at u ?key = Some (Json (enc_token (?r\<lparr>rr_NumUses := uses - int k\<rparr>))) \<and>
       (\<forall>l. l \<noteq> ?key \<longrightarrow> value_at u l = value_at s l)" if "int k < uses" for k
    using finalise_some [OF assms(1) val] that assms(3) other by simp
  have "\<exists>u. finalise_times E tok k t = (Inr (), u) \<and> GetRegistrationToken E tok u = (Inr (user, overwrite, grps), u)"
    if "int k < uses" for k
  proof -
    from some [OF that] obtain u where "finalise_times E tok k t = (Inr (), u)"
      "value_at u ?key = Some (Json (enc_token (?r\<lparr>rr_NumUses := uses - int k\<rparr>)))" by blast
    moreover have "int64 (uses - int k)" using assms(3) that by (simp add: int64_def)
    ultimately show ?thesis using get by blast
  qed
  moreover have "\<exists>u. finalise_times E tok (max 1 (nat uses)) t = (Inr (), u) \<and>
       GetRegistrationToken E tok u = (Inl (GoErr ''invalid token''), u) \<and>
       FinaliseRegistration E tok u = (Inl (GoErr ''no record found''), u) \<and>
       (\<forall>l. l \<noteq> ?key \<longrightarrow> value_at u l = value_at s l)"
  proof -
    let ?m = "max 1 (nat uses) - 1"
    obtain u n where u: "finalise_times E tok ?m t = (Inr (), u)"
      "value_at u ?key = Some (Json (enc_token (?r\<lparr>rr_NumUses := n\<rparr>)))" "int64 n" "- (2 ^ 63) < n" "n \<le> 1"
      "\<forall>l. l \<noteq> ?key \<longrightarrow> value_at u l = value_at s l"
    proof (cases "1 < uses")
      case True
      then have "int ?m < uses" "uses - int ?m = 1" by simp_all
      with some [of ?m] that [of _ 1] show thesis by (auto simp: int64_def)
    next
      case False
      then have "?m = 0" by simp
      with that [of t uses] val other assms(3,4) False show thesis by simp
    qed
    let ?u = "del_at (Suc (st_rev u)) ?key u"
    have "FinaliseRegistration E tok u = (Inr (), ?u)"
      using Finalise_quiet [OF assms(1) u(2)] u(3-5) by simp
    moreover have "max 1 (nat uses) = ?m + 1" by simp
    ultimately have "finalise_times E tok (max 1 (nat uses)) t = (Inr (), ?u)"
      using u(1) finalise_append [of E tok ?m 1 t] by (simp add: ebind_def)
    moreover have none: "find_key ?u ?key = None" by simp
    then have "range_of ?u [?key] = []" by (simp add: range_of_eq_Nil)
    then have "GetRegistrationToken E tok ?u = (Inl (GoErr ''invalid token''), ?u)"
      by (simp add: GetRegistrationToken_def etcd_quiet.Get_quiet [OF assms(1)] ebind_def)
    moreover have "doSafeUpdate E ?key False use_token ?u = (Inl (GoErr ''no record found''), ?u)"
      using none by (simp add: doSafeUpdate_missing [OF assms(1)])
    then have "FinaliseRegistration E tok ?u = (Inl (GoErr ''no record found''), ?u)"
      unfolding FinaliseRegistration_def token_key_eq by (simp add: on_error_def)
    ultimately show ?thesis using u(6) by (intro exI [of _ ?u]) simp
  qed
  ultimately show ?thesis by blast
qed

theorem token_uses_witness:
  "\<exists>t u. AddRegistrationToken etcd_ref (replicate 32 (CHR ''a'')) ''ann'' '''' [] 2 no_store = (Inr (), t) \<and>
     finalise_times etcd_ref (replicate 32 (CHR ''a'')) 2 t = (Inr (), u) \<and>
     GetRegistrationToken etcd_ref (replicate 32 (CHR ''a'')) u = (Inl (GoErr ''invalid token''), u)"
proof -
  let ?tok = "replicate 32 (CHR ''a'')"
  have c: "list_ex token_char ?tok" "length ?tok = 32" "\<not> contains ''ann'' ''-''"
    by (simp_all add: list_ex_iff token_char_def contains_char)
  obtain t where run: "AddRegistrationToken etcd_ref ?tok ''ann'' '''' [] 2 no_store = (Inr (), t)"
    using c unfolding AddRegistrationToken_def by (simp add: etcd_ref.Put_quiet ebind_def)
  from token_uses [OF etcd_ref.etcd_quiet_axioms run] have "\<exists>u. finalise_times etcd_ref ?tok (max 1 (nat 2)) t = (Inr (), u) \<and>
       GetRegistrationToken etcd_ref ?tok u = (Inl (GoErr ''invalid token''), u)"
    by (auto simp: int64_def)
  moreover have "max 1 (nat 2) = 2" by simp
  ultimately show ?thesis using run by (simp only:) blast
qed

section \<open>Node state\<close>

definition node_key :: "string \<Rightarrow> string \<Rightarrow> string" where
  "node_key x what = ''wag/node/'' @ x @ ''/'' @ what"

lemma hex_number_chars: "hex_number a s = Some n \<Longrightarrow> c \<in> set s \<Longrightarrow> hex_val c \<noteq> None"
  by (induction s arbitrary: a) (auto split: option.splits)

lemma valid_id:
  assumes "ParseUint16 x = Inr n"
  shows "x \<noteq> ''''" "CHR ''/'' \<notin> set x" "CHR ''.'' \<notin> set x"
proof -
  from assms have x: "x \<noteq> ''''" "\<exists>m. hex_number 0 x = Some m"
    by (auto simp: ParseUint16_def split: if_splits option.splits)
  have "hex_val (CHR ''/'') = None" "hex_val (CHR ''.'') = None"
    by (simp_all add: hex_val_def is_digit_def Let_def)
  with x hex_number_chars show "x \<noteq> ''''" "CHR ''/'' \<notin> set x" "CHR ''.'' \<notin> set x" by metis+
qed

lemma split_seg: "sep \<notin> set a \<Longrightarrow> split_on sep (a @ [sep] @ b) = a # split_on sep b"
  using split_on_append [of sep a b] by simp

lemma node_path:
  assumes "ParseUint16 x = Inr n" and "what \<noteq> ''''" "CHR ''/'' \<notin> set what" "CHR ''.'' \<notin> set what"
  shows "path_join [NodeInfo, x, what] = node_key x what" "path_join [NodeInfo, x] = ''wag/node/'' @ x"
proof -
  note v = valid_id [OF assms(1)]
  have dots: "x \<noteq> ''.''" "x \<noteq> ''..''" "what \<noteq> ''.''" "what \<noteq> ''..''" using v(3) assms(4) by auto
  have s1: "split_on (CHR ''/'') (''wag/node/'' @ ''/'' @ x @ ''/'' @ what) = [''wag'', ''node'', '''', x, what]"
    using v(2) assms(3) by (simp add: split_on_append split_on_none)
  have s2: "split_on (CHR ''/'') (''wag/node/'' @ ''/'' @ x) = [''wag'', ''node'', '''', x]"
    using v(2) by (simp add: split_on_none)
  have j: "join_str ''/'' (filter (\<lambda>w. w \<noteq> '''') [NodeInfo, x, what]) = ''wag/node/'' @ ''/'' @ x @ ''/'' @ what"
    "join_str ''/'' (filter (\<lambda>w. w \<noteq> '''') [NodeInfo, x]) = ''wag/node/'' @ ''/'' @ x"
    using v(1) assms(2) by (simp_all add: NodeInfo_def)
  have c: "clean_segments False [] [''wag'', ''node'', '''', x, what] = [''wag'', ''node'', x, what]"
    "clean_segments False [] [''wag'', ''node'', '''', x] = [''wag'', ''node'', x]"
    using dots v(1) assms(2) by simp_all
  have h: "hd (''wag/node/'' @ ''/'' @ y) \<noteq> CHR ''/''" "''wag/node/'' @ ''/'' @ y \<noteq> ''''" for y by simp_all
  have r: "(hd (''wag/node/'' @ ''/'' @ y) = CHR ''/'') = False" for y by simp
  show "path_join [NodeInfo, x, what] = node_key x what"
    unfolding path_join_def Let_def j s1 r c using v(1) by (simp add: node_key_def)
  show "path_join [NodeInfo, x] = ''wag/node/'' @ x"
    unfolding path_join_def Let_def j s2 r c using v(1) by simp
qed

lemma node_paths:
  assumes "ParseUint16 x = Inr n"
  shows "path_join [NodeInfo, x, ''drain''] = node_key x ''drain''"
    "path_join [NodeInfo, x, ''witness''] = node_key x ''witness''" "path_join [NodeInfo, x] = ''wag/node/'' @ x"
  using node_path [OF assms, of "''drain''"] node_path [OF assms, of "''witness''"] by simp_all

lemma IsDrained_quiet:
  assumes "etcd_quiet E" and "ParseUint16 x = Inr n"
  shows "IsDrained E x s = (Inr (find_key s (node_key x ''drain'') \<noteq> None), s)"
    "IsWitness E x s = (Inr (find_key s (node_key x ''witness'') \<noteq> None), s)"
  by (simp_all add: IsDrained_def IsWitness_def check_id_def node_paths [OF assms(2)] assms(2)
      etcd_quiet.Get_quiet [OF assms(1)] ebind_def range_of_eq_Nil)

text \<open>
  Removing a member clears the state of every member whose identifier it is a prefix of: the prefix
  of the deletion has no separator at its end, and identifiers are printed without leading zeros.
\<close>

lemma RemoveMember_clears_others:
  assumes "etcd_quiet E" and "ParseUint16 x = Inr n" and "ParseUint16 (x @ y) = Inr m"
    and "\<And>k s. remove k s = (Inr (), s)"
  shows "\<exists>t. RemoveMember E remove x s = (Inr (), t) \<and> IsDrained E (x @ y) t = (Inr False, t)"
proof -
  let ?t = "del_prefix_at (Suc (st_rev s)) (''wag/node/'' @ x) s"
  have "RemoveMember E remove x s = (Inr (), ?t)"
    by (simp add: RemoveMember_def check_id_def assms(2,4) node_paths [OF assms(2)]
        etcd_quiet.DeletePrefix_quiet [OF assms(1)] ebind_def)
  moreover have "prefix (''wag/node/'' @ x) (node_key (x @ y) ''drain'')" by (simp add: node_key_def)
  then have "IsDrained E (x @ y) ?t = (Inr False, ?t)"
    by (simp add: IsDrained_quiet [OF assms(1,3)])
  ultimately show ?thesis by blast
qed

end
