(* ===== verification/Config.thy ===== *)
theory Config
  imports ParserInv DataSettings
begin

text \<open>
  internal/config/config.go: the configuration, and the checks and defaults applied once the JSON
  file has been decoded. Decoding the file itself, the operating system's answer about the
  interface and the template directory, and the parser of WireGuard keys are parameters.
\<close>

record webserverDetails =
  CertPath :: string
  KeyPath :: string

definition SupportsTLS :: "webserverDetails \<Rightarrow> bool" where
  "SupportsTLS wb = (length (CertPath wb) > 0 \<and> length (KeyPath wb) > 0)"

record tunnelWeb =
  tw_details :: webserverDetails
  tw_Port :: string

record usualWeb =
  uw_ListenAddress :: string
  uw_details :: webserverDetails

text \<open>Go maps are association lists, read by their first entry; the order is that of iteration.\<close>

record Acls =
  ac_Groups :: "(string \<times> string list) list"
  ac_rGroupLookup :: "(string \<times> string) list"
  ac_Policies :: "(string \<times> Acl) list"

record ClusteringDetails =
  cd_Name :: string
  cd_ListenAddresses :: "string list"
  cd_Peers :: "(string \<times> string list) list"
  cd_DatabaseLocation :: string
  cd_ETCDLogLevel :: string
  cd_Witness :: bool
  cd_ClusterState :: string
  cd_TLSManagerStorage :: string
  cd_TLSManagerListenURL :: string

record Authenticators =
  au_DefaultMethod :: string
  au_Issuer :: string
  au_Methods :: "string list"
  au_DomainURL :: string
  au_OIDC :: OIDC
  au_PAM :: PAM

record Wireguard =
  wg_DevName :: string
  wg_ListenPort :: int
  wg_PrivateKey :: string
  wg_Address :: string
  wg_MTU :: int
  wg_External :: bool
  wg_Range :: "ipnet option"
  wg_ServerAddress :: "goip option"
  wg_ServerPersistentKeepAlive :: int
  wg_DNS :: "string list"

record Config =
  cf_Socket :: string
  cf_CheckUpdates :: bool
  cf_NumberProxies :: int
  cf_Proxied :: bool
  cf_ExposePorts :: "string list"
  cf_NAT :: "bool option"
  cf_MFATemplatesDirectory :: string
  cf_HelpMail :: string
  cf_Lockout :: int
  cf_ExternalAddress :: string
  cf_MaxSessionLifetimeMinutes :: int
  cf_SessionInactivityTimeoutMinutes :: int
  cf_DownloadConfigFileName :: string
  cf_ManagementEnabled :: bool
  cf_Public :: usualWeb
  cf_Tunnel :: tunnelWeb
  cf_Clustering :: ClusteringDetails
  cf_Authenticators :: Authenticators
  cf_Wireguard :: Wireguard
  cf_DatabaseLocation :: string
  cf_Acls :: Acls

text \<open>What the checks ask of the outside: the addresses of an existing interface, whether a path is
  a directory, and whether a text is a WireGuard key.\<close>

record config_env =
  ce_parse :: parse_env
  ce_interface :: "string \<Rightarrow> (error + string list) option"
  ce_stat :: "string \<Rightarrow> error + bool"
  ce_key :: "string \<Rightarrow> error option"

section \<open>Addresses\<close>

text \<open>
  \<open>net.SplitHostPort\<close>: the last colon separates the port; the host is in brackets exactly when it
  contains a colon.
\<close>

definition SplitHostPort :: "string \<Rightarrow> (string \<times> string) option" where
  "SplitHostPort hp =
     (if CHR '':'' \<notin> set hp then None
      else
        let port = rev (takeWhile (\<lambda>c. c \<noteq> CHR '':'') (rev hp));
            host = take (length hp - length port - 1) hp
        in if hp \<noteq> [] \<and> hd hp = CHR ''['' then
             (let inner = takeWhile (\<lambda>c. c \<noteq> CHR '']'') (tl hp)
              in if Suc (Suc (length inner)) = length host \<and> CHR ''['' \<notin> set inner \<and>
                    last host = CHR '']'' \<and> CHR ''['' \<notin> set port \<and> CHR '']'' \<notin> set port
                 then Some (inner, port) else None)
           else if CHR '':'' \<in> set host \<or> CHR ''['' \<in> set hp \<or> CHR '']'' \<in> set hp then None
           else Some (host, port))"

definition ValidExternalAddresses :: "net_env \<Rightarrow> string \<Rightarrow> unit res" where
  "ValidExternalAddresses N ExternalAddress =
     (if length ExternalAddress = 0 then Inl (GoErr ''invalid ExternalAddress is empty'')
      else
        let ExternalAddress = (case SplitHostPort ExternalAddress of Some (host, _) \<Rightarrow> host | None \<Rightarrow> ExternalAddress)
        in if ParseIP N ExternalAddress = None then
             (case lookup_ip N ExternalAddress of
                Inl _ \<Rightarrow> Inl (GoErr (''invalid ExternalAddress: '' @ ExternalAddress @ '' unable to lookup as domain''))
              | Inr as \<Rightarrow> if as = [] then Inl (GoErr (''invalid ExternalAddress: '' @ ExternalAddress @
                            '' not IPv4 or IPv6 external addresses found'')) else Inr ())
           else Inr ())"

definition ipnet_string :: "ipnet \<Rightarrow> string" where
  "ipnet_string n = (case net_ip n of
      Some (V4 a) \<Rightarrow> ip4_string a @ ''/'' @ show_nat (net_ones n)
    | _ \<Rightarrow> ''<nil>'')"

text \<open>An address of a configured name server: a host route, a network, or the addresses of a name.\<close>

definition config_parseAddress :: "net_env \<Rightarrow> string \<Rightarrow> string list res" where
  "config_parseAddress N address =
     (case ParseIP N address of
        Some ip \<Rightarrow> Inr [(case to4 ip of Some a \<Rightarrow> ip4_string a | None \<Rightarrow> ''<nil>'') @ ''/32'']
      | None \<Rightarrow>
     (case ParseCIDR N address of
        Some (_, cidr) \<Rightarrow> Inr [ipnet_string cidr]
      | None \<Rightarrow>
     (case lookup_ip N address of
        Inl _ \<Rightarrow> Inl (GoErr (''unable to resolve address from: '' @ address))
      | Inr as \<Rightarrow>
          if as = [] then Inl (GoErr (''no addresses for '' @ address))
          else let output = map (\<lambda>a. ip4_string a @ ''/32'') (List.map_filter to4 as)
               in if output = [] then Inl (GoErr (''no addresses for domain '' @ address @
                    '' were added, potentially because they were all ipv6 which is unsupported''))
                  else Inr output)))"

definition validateDns :: "net_env \<Rightarrow> string list \<Rightarrow> string list res" where
  "validateDns N input = rbind (rmap (config_parseAddress N) input) (\<lambda>xss. Inr (concat xss))"

section \<open>Loading\<close>

definition default_to :: "string \<Rightarrow> string \<Rightarrow> string" where
  "default_to d x = (if x = '''' then d else x)"

definition load_defaults :: "Config \<Rightarrow> Config res" where
  "load_defaults c =
     (let c = c\<lparr>cf_Socket := default_to ''/tmp/wag.sock'' (cf_Socket c)\<rparr>;
          c = c\<lparr>cf_DownloadConfigFileName := default_to ''wg0.conf'' (cf_DownloadConfigFileName c)\<rparr>;
          c = (if cf_Proxied c then c\<lparr>cf_NumberProxies := 1\<rparr> else c);
          k = (cf_Clustering c)\<lparr>cd_TLSManagerStorage := default_to ''certificates'' (cd_TLSManagerStorage (cf_Clustering c))\<rparr>;
          c = c\<lparr>cf_Clustering := k\<rparr>
      in if cd_TLSManagerListenURL k = '''' then
           Inl (GoErr ''no listen url was specified for the etcd cluster TLS manager, new wag servers will not be able to join'')
         else if \<not> has_prefix (cd_TLSManagerListenURL k) ''https://'' then
           Inl (GoErr ''tls manager listen url must be https://'')
         else Inr c)"

text \<open>The text before the last colon or slash, unless that is the first character (also \<open>utils.GetIP\<close>).\<close>

definition GetIP :: "string \<Rightarrow> string" where
  "GetIP addr =
     (let tail = takeWhile (\<lambda>c. c \<noteq> CHR '':'' \<and> c \<noteq> CHR ''/'') (rev addr);
          i = length addr - length tail - 1
      in if length tail < length addr \<and> 0 < i then take i addr else addr)"

definition load_wireguard :: "config_env \<Rightarrow> Config \<Rightarrow> Config res" where
  "load_wireguard E c =
     (let w = cf_Wireguard c; N = pe_net (ce_parse E) in
      case ce_interface E (wg_DevName w) of
        Some (Inl e) \<Rightarrow> Inl (GoErr (''unable to get address for interface '' @ wg_DevName w @ '': '' @ e))
      | Some (Inr addrs) \<Rightarrow>
          if length addrs < 1 then Inl (GoErr ''wireguard interface does not have an ip address'')
          else
            (case ParseIP N (GetIP (addrs ! 0)) of
               None \<Rightarrow> Inl (GoErr (''unable to find server address from tunnel interface:  '' @ [CHR 0x27] @ GetIP (addrs ! 0) @ [CHR 0x27]))
             | Some ip \<Rightarrow>
            (case ParseCIDR N (addrs ! 0) of
               None \<Rightarrow> Inl (GoErr (''unable to parse VPN range from tune device address: '' @ addrs ! 0 @
                 '' : invalid CIDR address: '' @ addrs ! 0))
             | Some (_, net) \<Rightarrow>
                 Inr (c\<lparr>cf_Wireguard := w\<lparr>wg_External := True, wg_ServerAddress := Some ip, wg_Range := Some net\<rparr>\<rparr>)))
      | None \<Rightarrow>
          (case ParseCIDR N (wg_Address w) of
             None \<Rightarrow> Inl (GoErr (''wireguard address invalid: invalid CIDR address: '' @ wg_Address w))
           | Some (ip, net) \<Rightarrow>
               (case ce_key E (wg_PrivateKey w) of Some e \<Rightarrow> Inl (GoErr (''cannot parse wireguard key: '' @ e))
               | None \<Rightarrow> if wg_ListenPort w = 0 then Inl (GoErr ''wireguard ListenPort not set'')
               else Inr (c\<lparr>cf_Wireguard := w\<lparr>wg_ServerAddress := Some ip, wg_Range := Some net\<rparr>\<rparr>))))"

definition load_policy :: "net_env \<Rightarrow> Config \<Rightarrow> Config res" where
  "load_policy N c =
     (let k = cf_Clustering c;
          k = k\<lparr>cd_Name := default_to ''default'' (cd_Name k),
                cd_ListenAddresses := (if cd_ListenAddresses k = [] then [''https://localhost:2380''] else cd_ListenAddresses k),
                cd_ClusterState := default_to ''new'' (cd_ClusterState k)\<rparr>;
          c = c\<lparr>cf_Clustering := k, cf_NAT := (case cf_NAT c of None \<Rightarrow> Some True | n \<Rightarrow> n)\<rparr>
      in rbind (ValidExternalAddresses N (cf_ExternalAddress c)) (\<lambda>_.
         if cf_Lockout c \<le> 0 then Inl (GoErr ''lockout policy unconfigured'')
         else if cf_MaxSessionLifetimeMinutes c = 0 then
           Inl (GoErr ''session max lifetime policy is not set (may be disabled by setting it to -1)'')
         else if cf_SessionInactivityTimeoutMinutes c = 0 then
           Inl (GoErr ''session inactivity timeout policy is not set (may be disabled by setting it to -1)'')
         else if tw_Port (cf_Tunnel c) = '''' then
           Inl (GoErr ''tunnel listener port is not set (Tunnel.ListenAddress.Port)'')
         else if uw_ListenAddress (cf_Public c) = '''' then
           Inl (GoErr ''public listen address is not set (Public.ListenAddress)'')
         else rbind (validateDns N (wg_DNS (cf_Wireguard c))) (\<lambda>dns.
           let c = c\<lparr>cf_Wireguard := (cf_Wireguard c)\<lparr>wg_DNS := dns\<rparr>\<rparr>
           in if cf_NumberProxies c > 0 \<and> cf_ExposePorts c = [] then
                Inl (GoErr (''you have set 'NumberProxies' mode which disables adding the tunnel port to iptables but not '' @
                  ''defined any ExposedPorts (iptables rules added on the wag vpn host) thus clients would not be able '' @
                  ''to access the MFA portal''))
              else Inr c)))"

definition check_port :: "Config \<Rightarrow> string \<Rightarrow> unit res" where
  "check_port c port =
     (let parts = split_on (CHR ''/'') port in
      if length parts < 2 then Inl (GoErr (port @ '' is not in a valid port format. E.g 80/tcp, 100-200/udp''))
      else if cf_NumberProxies c > 0 \<and>
              (case SplitHostPort (uw_ListenAddress (cf_Public c)) of Some (_, p) \<Rightarrow> p | None \<Rightarrow> '''') = parts ! 0 then
        Inl (GoErr (''you have tried to expose the vpn service (with ExposedPorts) while also having 'Proxied' set to '' @
          ''true, this will cause wag to respect X-Forwarded-For from an external source which will result in a '' @
          ''security vulnerablity, as such this is an error''))
      else if to_lower (parts ! 1) = ''tcp'' \<or> to_lower (parts ! 1) = ''udp'' then
        (let scope = split_on (CHR ''-'') (parts ! 0) in
         if length scope = 2 then
           (case (atoi (scope ! 0), atoi (scope ! 1)) of
              (Some start, Some stop) \<Rightarrow>
                if stop < start then Inl (GoErr (parts ! 0 @ '' port have to be smaller than end port . E.g 100-200/udp''))
                else Inr ()
            | _ \<Rightarrow> Inl (GoErr (parts ! 0 @ '' Could not convert lower port or upper port to number. E.g 100:200/udp'')))
         else if atoi (parts ! 0) = None then
           Inl (GoErr (parts ! 0 @ '' is not in a valid port number. E.g 80/tcp, 100-200/udp''))
         else Inr ())
      else Inl (GoErr (port @ '' invalid protocol (supports tcp/udp)'')))"

definition load_groups :: "Config \<Rightarrow> Config res" where
  "load_groups c =
     rbind (rmap (\<lambda>(group, members).
        if \<not> has_prefix group ''group:'' then Inl (GoErr (''group does not have 'group:' prefix: '' @ group))
        else Inr (map (\<lambda>user. (user, group)) members)) (ac_Groups (cf_Acls c))) (\<lambda>lookups.
     Inr (c\<lparr>cf_Acls := (cf_Acls c)\<lparr>ac_rGroupLookup := concat lookups\<rparr>\<rparr>))"

definition load_policies :: "config_env \<Rightarrow> Config \<Rightarrow> (pstate, unit) eff" where
  "load_policies E c =
     for_each (\<lambda>(_, acl). wrap_err (\<lambda>e. ''policy was invalid: '' @ e)
        (ValidateRules (ce_parse E) (acl_Mfa acl) (acl_Allow acl) (acl_Deny acl))) (ac_Policies (cf_Acls c))"

definition load_finish :: "config_env \<Rightarrow> Config \<Rightarrow> Config res" where
  "load_finish E c =
     (let dir = cf_MFATemplatesDirectory c;
          a = cf_Authenticators c;
          c = (if length (au_Methods a) = 1 then c\<lparr>cf_Authenticators := a\<lparr>au_DefaultMethod := last (au_Methods a)\<rparr>\<rparr> else c)
      in if dir = '''' then Inr c
         else (case ce_stat E dir of
             Inl e \<Rightarrow> Inl (GoErr (''could not check MFATemplatesDirectory ('' @ dir @ ''): '' @ e))
           | Inr isDir \<Rightarrow> if isDir then Inr c
               else Inl (GoErr (''MFATemplatesDirectory ('' @ dir @ '') was not a directory, please check your configuration''))))"

definition load :: "config_env \<Rightarrow> (error + Config) \<Rightarrow> (pstate, Config) eff" where
  "load E decoded =
     (case decoded of
        Inl e \<Rightarrow> raise (''unable to load configuration file: '' @ e)
      | Inr c \<Rightarrow>
          ebind (lift (rbind (load_defaults c) (\<lambda>c. rbind (load_wireguard E c) (\<lambda>c.
                       rbind (load_policy (pe_net (ce_parse E)) c) (\<lambda>c.
                       rbind (rmap (check_port c) (cf_ExposePorts c)) (\<lambda>_. load_groups c)))))) (\<lambda>c.
          ebind (load_policies E c) (\<lambda>_. lift (load_finish E c))))"

section \<open>What a loaded configuration guarantees\<close>

definition config_ok :: "Config \<Rightarrow> bool" where
  "config_ok c \<longleftrightarrow> cf_Lockout c > 0 \<and> cf_MaxSessionLifetimeMinutes c \<noteq> 0 \<and>
     cf_SessionInactivityTimeoutMinutes c \<noteq> 0 \<and> tw_Port (cf_Tunnel c) \<noteq> '''' \<and>
     uw_ListenAddress (cf_Public c) \<noteq> '''' \<and> cf_NAT c \<noteq> None \<and>
     wg_ServerAddress (cf_Wireguard c) \<noteq> None \<and> wg_Range (cf_Wireguard c) \<noteq> None \<and>
     has_prefix (cd_TLSManagerListenURL (cf_Clustering c)) ''https://'' \<and>
     (cf_NumberProxies c > 0 \<longrightarrow> cf_ExposePorts c \<noteq> []) \<and>
     (\<forall>port \<in> set (cf_ExposePorts c). check_port c port = Inr ()) \<and>
     (\<forall>(group, members) \<in> set (ac_Groups (cf_Acls c)). has_prefix group ''group:'') \<and>
     set (ac_rGroupLookup (cf_Acls c)) =
       {(user, group). \<exists>members. (group, members) \<in> set (ac_Groups (cf_Acls c)) \<and> user \<in> set members}"

lemma rmap_Inr_iff: "(\<exists>ys. rmap f xs = Inr ys) \<longleftrightarrow> (\<forall>x \<in> set xs. \<exists>y. f x = Inr y)"
  by (induction xs) auto

lemma rmap_set: "rmap f xs = Inr ys \<Longrightarrow> set ys = {y. \<exists>x \<in> set xs. f x = Inr y}"
  by (induction xs arbitrary: ys) auto

lemma load_defaults_ok:
  "load_defaults c = Inr c' \<Longrightarrow> has_prefix (cd_TLSManagerListenURL (cf_Clustering c')) ''https://''"
  by (auto simp: load_defaults_def Let_def split: if_splits)

lemma load_wireguard_ok:
  "load_wireguard E c = Inr c' \<Longrightarrow> wg_ServerAddress (cf_Wireguard c') \<noteq> None \<and> wg_Range (cf_Wireguard c') \<noteq> None \<and>
     cf_Clustering c' = cf_Clustering c"
  by (auto simp: load_wireguard_def Let_def split: option.splits sum.splits if_splits)

lemma load_policy_ok:
  "load_policy N c = Inr c' \<Longrightarrow>
     cf_Lockout c' > 0 \<and> cf_MaxSessionLifetimeMinutes c' \<noteq> 0 \<and> cf_SessionInactivityTimeoutMinutes c' \<noteq> 0 \<and>
     tw_Port (cf_Tunnel c') \<noteq> '''' \<and> uw_ListenAddress (cf_Public c') \<noteq> '''' \<and> cf_NAT c' \<noteq> None \<and>
     (cf_NumberProxies c' > 0 \<longrightarrow> cf_ExposePorts c' \<noteq> []) \<and>
     wg_ServerAddress (cf_Wireguard c') = wg_ServerAddress (cf_Wireguard c) \<and>
     wg_Range (cf_Wireguard c') = wg_Range (cf_Wireguard c) \<and>
     cd_TLSManagerListenURL (cf_Clustering c') = cd_TLSManagerListenURL (cf_Clustering c)"
  by (auto simp: load_policy_def Let_def split: if_splits option.splits)

lemma load_groups_ok:
  assumes "load_groups c = Inr c'"
  shows "(\<forall>(group, members) \<in> set (ac_Groups (cf_Acls c')). has_prefix group ''group:'') \<and>
     set (ac_rGroupLookup (cf_Acls c')) =
       {(user, group). \<exists>members. (group, members) \<in> set (ac_Groups (cf_Acls c')) \<and> user \<in> set members} \<and>
     (\<exists>a. c' = c\<lparr>cf_Acls := a\<rparr>)"
proof -
  define f where "f = (\<lambda>(group :: string, members :: string list).
     if \<not> has_prefix group ''group:'' then Inl (GoErr (''group does not have 'group:' prefix: '' @ group))
     else Inr (map (\<lambda>user. (user, group)) members))"
  from assms obtain lookups where r: "rmap f (ac_Groups (cf_Acls c)) = Inr lookups"
    and c': "c' = c\<lparr>cf_Acls := (cf_Acls c)\<lparr>ac_rGroupLookup := concat lookups\<rparr>\<rparr>"
    by (auto simp: load_groups_def f_def)
  have groups: "ac_Groups (cf_Acls c') = ac_Groups (cf_Acls c)" by (simp add: c')
  have "\<forall>x \<in> set (ac_Groups (cf_Acls c)). \<exists>y. f x = Inr y" using r rmap_Inr_iff by metis
  then have pre: "\<forall>(group, members) \<in> set (ac_Groups (cf_Acls c)). has_prefix group ''group:''"
    by (fastforce simp: f_def split: if_splits)
  have "set (ac_rGroupLookup (cf_Acls c')) = \<Union> (set ` set lookups)" by (simp add: c')
  also have "set lookups = {y. \<exists>x \<in> set (ac_Groups (cf_Acls c)). f x = Inr y}" using r by (rule rmap_set)
  also have "\<Union> (set ` {y. \<exists>x \<in> set (ac_Groups (cf_Acls c)). f x = Inr y}) =
      {(user, group). \<exists>members. (group, members) \<in> set (ac_Groups (cf_Acls c)) \<and> user \<in> set members}" (is "?L = ?R")
  proof (rule set_eqI)
    fix p :: "string \<times> string"
    obtain u g where p: "p = (u, g)" by (cases p)
    have f: "f (h, ms) = Inr y \<longleftrightarrow> has_prefix h ''group:'' \<and> y = map (\<lambda>user. (user, h)) ms" for h ms y
      by (auto simp: f_def)
    have pre': "has_prefix h ''group:''" if "(h, ms) \<in> set (ac_Groups (cf_Acls c))" for h ms
      using pre that by auto
    have "p \<in> ?L \<longleftrightarrow> (\<exists>x \<in> set (ac_Groups (cf_Acls c)). \<exists>y. f x = Inr y \<and> p \<in> set y)" by blast
    also have "\<dots> \<longleftrightarrow> (\<exists>h ms. (h, ms) \<in> set (ac_Groups (cf_Acls c)) \<and> (\<exists>y. f (h, ms) = Inr y \<and> p \<in> set y))"
      by (simp only: Bex_def split_paired_Ex)
    also have "\<dots> \<longleftrightarrow> (\<exists>h ms. (h, ms) \<in> set (ac_Groups (cf_Acls c)) \<and> has_prefix h ''group:'' \<and>
        p \<in> set (map (\<lambda>user. (user, h)) ms))"
      by (simp only: f conj_assoc simp_thms ex_simps)
    also have "\<dots> \<longleftrightarrow> (\<exists>ms. (g, ms) \<in> set (ac_Groups (cf_Acls c)) \<and> u \<in> set ms)"
    proof -
      have "p \<in> set (map (\<lambda>user. (user, h)) ms) \<longleftrightarrow> h = g \<and> u \<in> set ms" for h ms
        by (auto simp: p)
      then show ?thesis using pre' by metis
    qed
    also have "\<dots> \<longleftrightarrow> p \<in> ?R" by (simp add: p)
    finally show "p \<in> ?L \<longleftrightarrow> p \<in> ?R" .
  qed
  finally have "set (ac_rGroupLookup (cf_Acls c')) =
      {(user, group). \<exists>members. (group, members) \<in> set (ac_Groups (cf_Acls c)) \<and> user \<in> set members}" .
  with pre c' show ?thesis unfolding groups by blast
qed

lemma load_finish_ok: "load_finish E c = Inr c' \<Longrightarrow> \<exists>a. c' = c\<lparr>cf_Authenticators := a\<rparr>"
  by (auto simp: load_finish_def Let_def split: if_splits sum.splits intro: exI [of _ "cf_Authenticators c"])

lemma check_port_update [simp]:
  "check_port (c\<lparr>cf_Acls := a\<rparr>) p = check_port c p" "check_port (c\<lparr>cf_Authenticators := b\<rparr>) p = check_port c p"
  by (simp_all add: check_port_def Let_def)


definition demo_config :: Config where
  "demo_config = \<lparr>cf_Socket = '''', cf_CheckUpdates = False, cf_NumberProxies = 0, cf_Proxied = False,
     cf_ExposePorts = [''53/udp''], cf_NAT = None, cf_MFATemplatesDirectory = '''', cf_HelpMail = ''help@vpn.test'',
     cf_Lockout = 5, cf_ExternalAddress = ''192.0.2.1'', cf_MaxSessionLifetimeMinutes = 60,
     cf_SessionInactivityTimeoutMinutes = -1, cf_DownloadConfigFileName = '''', cf_ManagementEnabled = False,
     cf_Public = \<lparr>uw_ListenAddress = '':8080'', uw_details = \<lparr>CertPath = '''', KeyPath = ''''\<rparr>\<rparr>,
     cf_Tunnel = \<lparr>tw_details = \<lparr>CertPath = '''', KeyPath = ''''\<rparr>, tw_Port = ''8081''\<rparr>,
     cf_Clustering = \<lparr>cd_Name = '''', cd_ListenAddresses = [], cd_Peers = [], cd_DatabaseLocation = '''',
        cd_ETCDLogLevel = '''', cd_Witness = False, cd_ClusterState = '''', cd_TLSManagerStorage = '''',
        cd_TLSManagerListenURL = ''https://vpn.test''\<rparr>,
     cf_Authenticators = \<lparr>au_DefaultMethod = '''', au_Issuer = ''vpn'', au_Methods = [''totp''],
        au_DomainURL = '''', au_OIDC = zero_oidc, au_PAM = \<lparr>pam_ServiceName = ''''\<rparr>\<rparr>,
     cf_Wireguard = \<lparr>wg_DevName = ''wg0'', wg_ListenPort = 51820, wg_PrivateKey = ''k'', wg_Address = ''10.2.43.1/24'',
        wg_MTU = 0, wg_External = False, wg_Range = None, wg_ServerAddress = None,
        wg_ServerPersistentKeepAlive = 0, wg_DNS = []\<rparr>,
     cf_DatabaseLocation = '''',
     cf_Acls = \<lparr>ac_Groups = [(''group:ops'', [''ann''])], ac_rGroupLookup = [], ac_Policies = []\<rparr>\<rparr>"

definition demo_config_env :: config_env where
  "demo_config_env = \<lparr>ce_parse = demo_env, ce_interface = (\<lambda>_. None), ce_stat = (\<lambda>_. Inr True), ce_key = (\<lambda>_. None)\<rparr>"

lemma demo_config_fields:
  "cf_Socket demo_config = ''''" "cf_NumberProxies demo_config = 0" "\<not> cf_Proxied demo_config"
  "cf_ExposePorts demo_config = [''53/udp'']" "cf_NAT demo_config = None" "cf_MFATemplatesDirectory demo_config = ''''"
  "cf_Lockout demo_config = 5" "cf_ExternalAddress demo_config = ''192.0.2.1''"
  "cf_MaxSessionLifetimeMinutes demo_config = 60" "cf_SessionInactivityTimeoutMinutes demo_config = -1"
  "cf_DownloadConfigFileName demo_config = ''''" "uw_ListenAddress (cf_Public demo_config) = '':8080''"
  "tw_Port (cf_Tunnel demo_config) = ''8081''"
  "cd_TLSManagerListenURL (cf_Clustering demo_config) = ''https://vpn.test''"
  "cd_TLSManagerStorage (cf_Clustering demo_config) = ''''" "cd_Name (cf_Clustering demo_config) = ''''"
  "cd_ClusterState (cf_Clustering demo_config) = ''''" "cd_ListenAddresses (cf_Clustering demo_config) = []"
  "au_Methods (cf_Authenticators demo_config) = [''totp'']" "wg_Address (cf_Wireguard demo_config) = ''10.2.43.1/24''"
  "wg_ListenPort (cf_Wireguard demo_config) = 51820" "wg_DNS (cf_Wireguard demo_config) = []"
  "ac_Groups (cf_Acls demo_config) = [(''group:ops'', [''ann''])]" "ac_Policies (cf_Acls demo_config) = []"
  by (simp_all add: demo_config_def)

lemma demo_addresses:
  "ParseCIDR demo_net ''10.2.43.1/24'' = Some (V4 (IP4 10 2 43 1), \<lparr>net_ip = Some (V4 (mask_ip4 24 (IP4 10 2 43 1))), net_ones = 24\<rparr>)"
  "ValidExternalAddresses demo_net ''192.0.2.1'' = Inr ()"
  by (simp_all add: ParseCIDR_def parse_prefix_len_def ValidExternalAddresses_def SplitHostPort_def parse_eval)

lemma demo_port: "cf_NumberProxies c = 0 \<Longrightarrow> check_port c ''53/udp'' = Inr ()"
  by (simp add: check_port_def parse_eval)

lemma demo_config_loads: "\<exists>c. load demo_config_env (Inr demo_config) empty_pstate = (Inr c, empty_pstate)"
proof -
  let ?E = demo_config_env
  have env: "ce_interface ?E = (\<lambda>_. None)" "pe_net (ce_parse ?E) = demo_net" "ce_key ?E = (\<lambda>_. None)"
    by (simp_all add: demo_config_env_def)
  note f = demo_config_fields demo_addresses env
  obtain c1 where c1: "load_defaults demo_config = Inr c1" "c1 = demo_config\<lparr>cf_Socket := ''/tmp/wag.sock'',
      cf_DownloadConfigFileName := ''wg0.conf'',
      cf_Clustering := (cf_Clustering demo_config)\<lparr>cd_TLSManagerStorage := ''certificates''\<rparr>\<rparr>"
    by (simp add: load_defaults_def f default_to_def has_prefix_def)
  obtain w where w: "load_wireguard ?E c1 = Inr (c1\<lparr>cf_Wireguard := w\<rparr>)" "wg_DNS w = []"
    by (simp add: load_wireguard_def c1(2) f)
  define k where "k = (cf_Clustering c1)\<lparr>cd_Name := ''default'', cd_ListenAddresses := [''https://localhost:2380''],
      cd_ClusterState := ''new''\<rparr>"
  have k: "load_policy demo_net (c1\<lparr>cf_Wireguard := w\<rparr>) = Inr (c1\<lparr>cf_Wireguard := w\<lparr>wg_DNS := []\<rparr>,
      cf_Clustering := k, cf_NAT := Some True\<rparr>)"
    by (simp add: load_policy_def c1(2) w(2) f Let_def validateDns_def k_def default_to_def)
  let ?c3 = "c1\<lparr>cf_Wireguard := w\<lparr>wg_DNS := []\<rparr>, cf_Clustering := k, cf_NAT := Some True\<rparr>"
  have "rmap (check_port ?c3) (cf_ExposePorts ?c3) = Inr [()]"
    by (simp add: c1(2) f demo_port)
  moreover obtain a where "load_groups ?c3 = Inr (?c3\<lparr>cf_Acls := a\<rparr>)" "ac_Policies a = []"
    by (simp add: load_groups_def c1(2) f has_prefix_def)
  ultimately show ?thesis
    using c1(1) w(1) k by (simp add: load_def env ebind_def load_policies_def load_finish_def Let_def c1(2) f)
qed


end
