(* ===== verification/Iptables.thy ===== *)
theory Iptables
  imports Config
begin

text \<open>
  internal/router/iptables.go: the rules around the tunnel. The firewall itself is reached through
  go-iptables, the parameter \<open>ipt\<close>; the locale \<open>iptables_service\<close> states the documented effect of
  a call that succeeds, and that a failing call changes nothing.
\<close>

type_synonym chain = "string \<times> string"

record fw_tables =
  fw_rules :: "chain \<Rightarrow> string list list"
  fw_policy :: "chain \<Rightarrow> string"

record ipt =
  ipt_New :: "error option"
  ipt_ChangePolicy :: "chain \<Rightarrow> string \<Rightarrow> fw_tables \<Rightarrow> error option \<times> fw_tables"
  ipt_Append :: "chain \<Rightarrow> string list \<Rightarrow> fw_tables \<Rightarrow> error option \<times> fw_tables"
  ipt_Delete :: "chain \<Rightarrow> string list \<Rightarrow> fw_tables \<Rightarrow> error option \<times> fw_tables"

definition add_rule :: "chain \<Rightarrow> string list \<Rightarrow> fw_tables \<Rightarrow> fw_tables" where
  "add_rule c r t = t\<lparr>fw_rules := (fw_rules t)(c := fw_rules t c @ [r])\<rparr>"

definition drop_rule :: "chain \<Rightarrow> string list \<Rightarrow> fw_tables \<Rightarrow> fw_tables" where
  "drop_rule c r t = t\<lparr>fw_rules := (fw_rules t)(c := remove1 r (fw_rules t c))\<rparr>"

locale iptables_service =
  fixes I :: ipt
  assumes append_ok: "ipt_Append I c r t = (None, t') \<Longrightarrow> t' = add_rule c r t"
    and append_err: "ipt_Append I c r t = (Some e, t') \<Longrightarrow> t' = t"
    and delete_present: "r \<in> set (fw_rules t c) \<Longrightarrow> ipt_Delete I c r t = (None, drop_rule c r t)"
    and delete_absent: "r \<notin> set (fw_rules t c) \<Longrightarrow> \<exists>e. ipt_Delete I c r t = (Some e, t)"
    and policy_ok: "ipt_ChangePolicy I c p t = (None, t') \<Longrightarrow> t' = t\<lparr>fw_policy := (fw_policy t)(c := p)\<rparr>"
    and policy_err: "ipt_ChangePolicy I c p t = (Some e, t') \<Longrightarrow> t' = t"

definition ipt_ref :: ipt where
  "ipt_ref = \<lparr>ipt_New = None,
     ipt_ChangePolicy = (\<lambda>c p t. (None, t\<lparr>fw_policy := (fw_policy t)(c := p)\<rparr>)),
     ipt_Append = (\<lambda>c r t. (None, add_rule c r t)),
     ipt_Delete = (\<lambda>c r t. if r \<in> set (fw_rules t c) then (None, drop_rule c r t) else (Some ''Bad rule'', t))\<rparr>"

interpretation ipt_ref: iptables_service ipt_ref
  by unfold_locales (simp_all add: ipt_ref_def)

definition act :: "(fw_tables \<Rightarrow> error option \<times> fw_tables) \<Rightarrow> (fw_tables, unit) eff" where
  "act f t = (case f t of (None, t') \<Rightarrow> (Inr (), t') | (Some e, t') \<Rightarrow> (Inl (GoErr e), t'))"

text \<open>A call whose error is only logged.\<close>

definition logged :: "('s, unit) eff \<Rightarrow> ('s, unit) eff" where
  "logged m = on_error m (\<lambda>_. ret ())"

definition FORWARD :: chain where "FORWARD = (''filter'', ''FORWARD'')"
definition POSTROUTING :: chain where "POSTROUTING = (''nat'', ''POSTROUTING'')"
definition INPUT :: chain where "INPUT = (''filter'', ''INPUT'')"

definition shouldNAT :: "Config \<Rightarrow> bool" where
  "shouldNAT c = (cf_NAT c = None \<or> cf_NAT c = Some True)"

definition range_string :: "Config \<Rightarrow> string" where
  "range_string c = (case wg_Range (cf_Wireguard c) of Some n \<Rightarrow> ipnet_string n | None \<Rightarrow> ''<nil>'')"

fun replace_first :: "char \<Rightarrow> char \<Rightarrow> string \<Rightarrow> string" where
  "replace_first a b [] = []"
| "replace_first a b (c # cs) = (if c = a then b # cs else c # replace_first a b cs)"

text \<open>The rule texts that setup and teardown both spell out.\<close>

definition related_rule :: "string list" where
  "related_rule = [''-m'', ''conntrack'', ''--ctstate'', ''RELATED,ESTABLISHED'', ''-j'', ''ACCEPT'']"

definition port_rule :: "string \<Rightarrow> string \<Rightarrow> string \<Rightarrow> string list" where
  "port_rule devName proto dport = [''-m'', proto, ''-p'', proto, ''-i'', devName, ''--dport'', dport, ''-j'', ''ACCEPT'']"

definition exposed_rule :: "string \<Rightarrow> string \<Rightarrow> string list" where
  "exposed_rule devName port = (let parts = split_on (CHR ''/'') port in
     port_rule devName (parts ! 1) (replace_first (CHR ''-'') (CHR '':'') (parts ! 0)))"

definition setupIptables :: "ipt \<Rightarrow> Config \<Rightarrow> (fw_tables, unit) eff" where
  "setupIptables I c = (case ipt_New I of Some e \<Rightarrow> raise e | None \<Rightarrow>
     (let devName = wg_DevName (cf_Wireguard c) in
      andthen (act (ipt_ChangePolicy I FORWARD ''DROP''))
     (andthen (act (ipt_Append I FORWARD related_rule))
     (andthen (act (ipt_Append I FORWARD [''-i'', devName, ''-j'', ''ACCEPT'']))
     (andthen (act (ipt_Append I FORWARD [''-o'', devName, ''-j'', ''ACCEPT'']))
     (andthen (if shouldNAT c then act (ipt_Append I POSTROUTING [''-s'', range_string c, ''-j'', ''MASQUERADE'']) else ret ())
     (andthen (if cf_NumberProxies c = 0 then
                 andthen (act (ipt_Append I INPUT (port_rule devName ''tcp'' (tw_Port (cf_Tunnel c)))))
                   (if SupportsTLS (tw_details (cf_Tunnel c))
                    then act (ipt_Append I INPUT (port_rule devName ''tcp'' ''80'')) else ret ())
               else ret ())
     (andthen (for_each (\<lambda>port.
                 if length (split_on (CHR ''/'') port) < 2
                 then raise (port @ '' is not in a valid port format. E.g 80/tcp or 80-100/tcp'')
                 else act (ipt_Append I INPUT (exposed_rule devName port))) (cf_ExposePorts c))
     (andthen (act (ipt_Append I INPUT [''-p'', ''icmp'', ''-i'', devName, ''-j'', ''ACCEPT'']))
     (andthen (act (ipt_Append I INPUT ([''-i'', devName] @ related_rule)))
              (act (ipt_Append I INPUT [''-i'', devName, ''-j'', ''DROP'']))))))))))))"

text \<open>Teardown logs every failure and goes on; a port without a protocol panics.\<close>

definition teardownIptables :: "ipt \<Rightarrow> Config \<Rightarrow> (fw_tables, unit) eff" where
  "teardownIptables I c = (case ipt_New I of Some e \<Rightarrow> ret () | None \<Rightarrow>
     (let devName = wg_DevName (cf_Wireguard c) in
      andthen (logged (act (ipt_Delete I FORWARD related_rule)))
     (andthen (logged (act (ipt_Delete I FORWARD [''-i'', devName, ''-j'', ''ACCEPT''])))
     (andthen (logged (act (ipt_Delete I FORWARD [''-o'', devName, ''-j'', ''ACCEPT''])))
     (andthen (if shouldNAT c then logged (act (ipt_Delete I POSTROUTING [''-s'', range_string c, ''-j'', ''MASQUERADE'']))
               else ret ())
     (andthen (if cf_NumberProxies c = 0 then
                 andthen (logged (act (ipt_Delete I INPUT (port_rule devName ''tcp'' (tw_Port (cf_Tunnel c))))))
                   (if SupportsTLS (tw_details (cf_Tunnel c))
                    then logged (act (ipt_Delete I INPUT (port_rule devName ''tcp'' ''80''))) else ret ())
               else ret ())
     (andthen (for_each (\<lambda>port.
                 if length (split_on (CHR ''/'') port) < 2 then panic ''index out of range''
                 else logged (act (ipt_Delete I INPUT (exposed_rule devName port)))) (cf_ExposePorts c))
     (andthen (logged (act (ipt_Delete I INPUT [''-p'', ''icmp'', ''-i'', devName, ''-j'', ''ACCEPT''])))
     (andthen (logged (act (ipt_Delete I INPUT ([''-i'', devName] @ related_rule))))
              (logged (act (ipt_Delete I INPUT [''-i'', devName, ''-j'', ''DROP'']))))))))))))"

section \<open>Teardown undoes setup\<close>

text \<open>The rules of a configuration, chain by chain, in the order they are appended.\<close>

definition wag_rules :: "Config \<Rightarrow> (chain \<times> string list) list" where
  "wag_rules c = (let devName = wg_DevName (cf_Wireguard c) in
     [(FORWARD, related_rule), (FORWARD, [''-i'', devName, ''-j'', ''ACCEPT'']), (FORWARD, [''-o'', devName, ''-j'', ''ACCEPT''])] @
     (if shouldNAT c then [(POSTROUTING, [''-s'', range_string c, ''-j'', ''MASQUERADE''])] else []) @
     (if cf_NumberProxies c = 0 then
        (INPUT, port_rule devName ''tcp'' (tw_Port (cf_Tunnel c))) #
        (if SupportsTLS (tw_details (cf_Tunnel c)) then [(INPUT, port_rule devName ''tcp'' ''80'')] else [])
      else []) @
     map (\<lambda>port. (INPUT, exposed_rule devName port)) (cf_ExposePorts c) @
     [(INPUT, [''-p'', ''icmp'', ''-i'', devName, ''-j'', ''ACCEPT'']), (INPUT, [''-i'', devName] @ related_rule),
      (INPUT, [''-i'', devName, ''-j'', ''DROP''])])"

definition ports_ok :: "Config \<Rightarrow> bool" where
  "ports_ok c \<longleftrightarrow> (\<forall>port \<in> set (cf_ExposePorts c). 2 \<le> length (split_on (CHR ''/'') port))"

fun add_all :: "(chain \<times> string list) list \<Rightarrow> fw_tables \<Rightarrow> fw_tables" where
  "add_all [] t = t"
| "add_all ((c, r) # rs) t = add_all rs (add_rule c r t)"

fun drop_all :: "(chain \<times> string list) list \<Rightarrow> fw_tables \<Rightarrow> fw_tables" where
  "drop_all [] t = t"
| "drop_all ((c, r) # rs) t = drop_all rs (drop_rule c r t)"

lemma add_all_append: "add_all (xs @ ys) t = add_all ys (add_all xs t)"
  by (induction xs arbitrary: t) auto

lemma drop_all_append: "drop_all (xs @ ys) t = drop_all ys (drop_all xs t)"
  by (induction xs arbitrary: t) auto

lemma add_all_rules: "fw_rules (add_all rs t) c = fw_rules t c @ map snd (filter (\<lambda>e. fst e = c) rs)"
  by (induction rs arbitrary: t) (auto simp: add_rule_def)

lemma add_all_policy [simp]: "fw_policy (add_all rs t) = fw_policy t"
  by (induction rs arbitrary: t) (auto simp: add_rule_def)

lemma drop_all_policy [simp]: "fw_policy (drop_all rs t) = fw_policy t"
  by (induction rs arbitrary: t) (auto simp: drop_rule_def)

lemma drop_all_rules: "fw_rules (drop_all rs t) c = fold remove1 (map snd (filter (\<lambda>e. fst e = c) rs)) (fw_rules t c)"
  by (induction rs arbitrary: t) (auto simp: drop_rule_def)

lemma fold_remove1_append:
  "\<forall>r \<in> set rs. r \<notin> set xs \<Longrightarrow> fold remove1 rs (xs @ rs) = xs"
  by (induction rs) (auto simp: remove1_append)

lemma undo_all:
  assumes "\<forall>(c, r) \<in> set rs. r \<notin> set (fw_rules t c)"
  shows "fw_rules (drop_all rs (add_all rs t)) = fw_rules t"
proof
  fix c
  have "\<forall>r \<in> set (map snd (filter (\<lambda>e. fst e = c) rs)). r \<notin> set (fw_rules t c)" using assms by auto
  then show "fw_rules (drop_all rs (add_all rs t)) c = fw_rules t c"
    by (simp only: drop_all_rules add_all_rules fold_remove1_append)
qed

text \<open>Each step of setup and teardown, over any service that behaves as documented.\<close>

context iptables_service
begin

lemma act_append: "act (ipt_Append I c r) t = (Inr (), t') \<Longrightarrow> t' = add_rule c r t"
  by (auto simp: act_def dest: append_ok split: prod.splits option.splits)

lemma act_policy: "act (ipt_ChangePolicy I c p) t = (Inr (), t') \<Longrightarrow> t' = t\<lparr>fw_policy := (fw_policy t)(c := p)\<rparr>"
  by (auto simp: act_def dest: policy_ok split: prod.splits option.splits)

lemma logged_delete: "logged (act (ipt_Delete I c r)) t = (Inr (), drop_rule c r t)"
proof (cases "r \<in> set (fw_rules t c)")
  case True
  then show ?thesis by (simp add: logged_def act_def on_error_def delete_present)
next
  case False
  then obtain e where "ipt_Delete I c r t = (Some e, t)" using delete_absent by blast
  moreover have "drop_rule c r t = t"
    using False by (simp add: drop_rule_def remove1_idem)
  ultimately show ?thesis by (simp add: logged_def act_def on_error_def)
qed

lemma setup_ports:
  "for_each (\<lambda>port. if length (split_on (CHR ''/'') port) < 2
       then raise (port @ '' is not in a valid port format. E.g 80/tcp or 80-100/tcp'')
       else act (ipt_Append I INPUT (exposed_rule d port))) ports t = (Inr (), t') \<Longrightarrow>
     t' = add_all (map (\<lambda>port. (INPUT, exposed_rule d port)) ports) t"
proof (induction ports arbitrary: t)
  case (Cons p ps)
  from Cons.prems have np: "\<not> length (split_on (CHR ''/'') p) < 2" by (auto split: if_splits)
  then obtain t1 where "act (ipt_Append I INPUT (exposed_rule d p)) t = (Inr (), t1)"
    using Cons.prems by (cases "act (ipt_Append I INPUT (exposed_rule d p)) t") (auto split: sum.splits)
  with Cons np show ?case by (auto dest: act_append)
qed auto

lemma teardown_ports:
  "\<forall>port \<in> set ports. 2 \<le> length (split_on (CHR ''/'') port) \<Longrightarrow>
   for_each (\<lambda>port. if length (split_on (CHR ''/'') port) < 2 then panic ''index out of range''
       else logged (act (ipt_Delete I INPUT (exposed_rule d port)))) ports t =
     (Inr (), drop_all (map (\<lambda>port. (INPUT, exposed_rule d port)) ports) t)"
  by (induction ports arbitrary: t) (auto simp: logged_delete)

lemma setup_ports_ok:
  "for_each (\<lambda>port. if length (split_on (CHR ''/'') port) < 2
       then raise (port @ '' is not in a valid port format. E.g 80/tcp or 80-100/tcp'')
       else act (ipt_Append I INPUT (exposed_rule d port))) ports t = (Inr (), t') \<Longrightarrow>
     \<forall>port \<in> set ports. 2 \<le> length (split_on (CHR ''/'') port)"
proof (induction ports arbitrary: t)
  case (Cons p ps)
  then show ?case by (auto split: if_splits prod.splits sum.splits)
qed simp

lemma setup_success: "setupIptables I c t = (Inr (), t') \<Longrightarrow> ipt_New I = None \<and> ports_ok c"
  by (auto simp: setupIptables_def Let_def andthen_eq_Inr ports_ok_def dest!: setup_ports_ok split: option.splits)

lemma setup_tables:
  assumes "setupIptables I c t = (Inr (), t')"
  shows "t' = add_all (wag_rules c) (t\<lparr>fw_policy := (fw_policy t)(FORWARD := ''DROP'')\<rparr>)"
  using assms
  by (auto simp: setupIptables_def Let_def andthen_eq_Inr wag_rules_def add_all_append
      dest!: act_append act_policy setup_ports split: option.splits if_splits)

lemma teardown_tables:
  assumes "ipt_New I = None" and "ports_ok c"
  shows "teardownIptables I c t = (Inr (), drop_all (wag_rules c) t)"
  using assms
  by (simp add: teardownIptables_def Let_def andthen_def ebind_def wag_rules_def drop_all_append logged_delete
      teardown_ports ports_ok_def)

end

section \<open>Properties\<close>

text \<open>
  When the setup succeeds, forwarding is denied by default and the rules of the configuration stand
  at the end of their chains in the order of the code, so the last rule for packets from the tunnel
  to the host is to drop them.
\<close>

theorem setupIptables_closes:
  assumes "iptables_service I" and "setupIptables I c t = (Inr (), t')"
  shows "fw_policy t' FORWARD = ''DROP'' \<and>
     (\<forall>ch. fw_rules t' ch = fw_rules t ch @ map snd (filter (\<lambda>e. fst e = ch) (wag_rules c))) \<and>
     last (fw_rules t' INPUT) = [''-i'', wg_DevName (cf_Wireguard c), ''-j'', ''DROP'']"
proof -
  have rules: "fw_rules t' ch = fw_rules t ch @ map snd (filter (\<lambda>e. fst e = ch) (wag_rules c))" for ch
    using iptables_service.setup_tables [OF assms] by (simp add: add_all_rules)
  have "last (map snd (filter (\<lambda>e. fst e = INPUT) (wag_rules c))) = [''-i'', wg_DevName (cf_Wireguard c), ''-j'', ''DROP'']"
    "map snd (filter (\<lambda>e. fst e = INPUT) (wag_rules c)) \<noteq> []"
    by (simp_all add: wag_rules_def Let_def)
  with rules show ?thesis
    using iptables_service.setup_tables [OF assms] by simp
qed

definition no_rules :: fw_tables where
  "no_rules = \<lparr>fw_rules = (\<lambda>_. []), fw_policy = (\<lambda>_. ''ACCEPT'')\<rparr>"

lemma act_ref [simp]:
  "act (ipt_Append ipt_ref c r) t = (Inr (), add_rule c r t)"
  "act (ipt_ChangePolicy ipt_ref c p) t = (Inr (), t\<lparr>fw_policy := (fw_policy t)(c := p)\<rparr>)"
  by (simp_all add: act_def ipt_ref_def)

lemma setup_ref: "\<exists>t'. setupIptables ipt_ref demo_config t = (Inr (), t')"
proof -
  have "split_on (CHR ''/'') ''53/udp'' = [''53'', ''udp'']" by simp
  then show ?thesis
    by (simp add: setupIptables_def Let_def andthen_def ebind_def ipt_ref_def [THEN arg_cong, of ipt_New] demo_config_fields)
qed

theorem setupIptables_closes_witness:
  "\<exists>t'. setupIptables ipt_ref demo_config no_rules = (Inr (), t') \<and> fw_policy t' FORWARD = ''DROP'' \<and>
     last (fw_rules t' INPUT) = [''-i'', ''wg0'', ''-j'', ''DROP'']"
proof -
  obtain t' where t': "setupIptables ipt_ref demo_config no_rules = (Inr (), t')" using setup_ref by blast
  have "wg_DevName (cf_Wireguard demo_config) = ''wg0''" by (simp add: demo_config_def)
  with setupIptables_closes [OF ipt_ref.iptables_service_axioms t'] t' show ?thesis by auto
qed

text \<open>C29
  Teardown removes exactly what setup added: on tables that had none of the rules before, after a
  successful setup, teardown returns without a panic and every chain holds its former rules again.
  The forwarding policy is not restored.
\<close>

theorem teardown_undoes_setup:
  assumes "iptables_service I" and "setupIptables I c t = (Inr (), t')"
    and "\<forall>(ch, r) \<in> set (wag_rules c). r \<notin> set (fw_rules t ch)"
  shows "\<exists>u. teardownIptables I c t' = (Inr (), u) \<and> fw_rules u = fw_rules t \<and> fw_policy u FORWARD = ''DROP''"
proof -
  let ?t = "t\<lparr>fw_policy := (fw_policy t)(FORWARD := ''DROP'')\<rparr>"
  have t': "t' = add_all (wag_rules c) ?t" using iptables_service.setup_tables [OF assms(1,2)] .
  from iptables_service.setup_success [OF assms(1,2)]
  have "teardownIptables I c t' = (Inr (), drop_all (wag_rules c) t')"
    using iptables_service.teardown_tables [OF assms(1)] by blast
  moreover have "fw_rules (drop_all (wag_rules c) t') = fw_rules t"
    using undo_all [of "wag_rules c" ?t] assms(3) by (simp add: t')
  ultimately show ?thesis by (simp add: t')
qed

theorem teardown_undoes_setup_witness:
  "\<exists>t' u. setupIptables ipt_ref demo_config no_rules = (Inr (), t') \<and>
     teardownIptables ipt_ref demo_config t' = (Inr (), u) \<and> fw_rules u = (\<lambda>_. [])"
proof -
  obtain t' where t': "setupIptables ipt_ref demo_config no_rules = (Inr (), t')" using setup_ref by blast
  from teardown_undoes_setup [OF ipt_ref.iptables_service_axioms t'] t' show ?thesis
    by (auto simp: no_rules_def)
qed

end
