(* ===== verification/Encodings.thy ===== *)
theory Encodings
  imports Prelude
begin

text \<open>
  Texts of byte strings: encoding/hex, and encoding/base64 with the standard alphabet and no
  padding. Decoding is base64's: line breaks are skipped, any other character outside the alphabet
  is an error, a single left-over character is an error, and left-over bits are not looked at.
\<close>

section \<open>Bytes of a text\<close>

definition bytes_of :: "string \<Rightarrow> bytes" where
  "bytes_of s = map (\<lambda>c. word_of_nat (of_char c)) s"

lemma length_bytes_of [simp]: "length (bytes_of s) = length s"
  by (simp add: bytes_of_def)

section \<open>Hexadecimal\<close>

definition hex_digit :: "nat \<Rightarrow> char" where
  "hex_digit n = (if n < 10 then char_of (48 + n) else char_of (87 + n))"

definition hex_encode :: "bytes \<Rightarrow> string" where
  "hex_encode bs = concat (map (\<lambda>b. [hex_digit (unat b div 16), hex_digit (unat b mod 16)]) bs)"

lemma length_hex_encode [simp]: "length (hex_encode bs) = 2 * length bs"
  by (induction bs) (simp_all add: hex_encode_def)

section \<open>Base 64\<close>

definition b64_alphabet :: string where
  "b64_alphabet = ''ABCDEFGHIJKLMNOPQRSTUVWXYZabcdefghijklmnopqrstuvwxyz0123456789+/''"

definition b64_char :: "nat \<Rightarrow> char" where
  "b64_char n = b64_alphabet ! n"

definition b64_val :: "char \<Rightarrow> nat option" where
  "b64_val c = map_of (zip b64_alphabet [0..<64]) c"

fun sextets :: "bytes \<Rightarrow> nat list" where
  "sextets [] = []"
| "sextets [a] = [unat a div 4, unat a mod 4 * 16]"
| "sextets [a, b] = [unat a div 4, unat a mod 4 * 16 + unat b div 16, unat b mod 16 * 4]"
| "sextets (a # b # c # bs) =
     [unat a div 4, unat a mod 4 * 16 + unat b div 16, unat b mod 16 * 4 + unat c div 64, unat c mod 64] @ sextets bs"

fun octets :: "nat list \<Rightarrow> bytes option" where
  "octets [] = Some []"
| "octets [_] = None"
| "octets [a, b] = Some [word_of_nat (a * 4 + b div 16)]"
| "octets [a, b, c] = Some [word_of_nat (a * 4 + b div 16), word_of_nat (b mod 16 * 16 + c div 4)]"
| "octets (a # b # c # d # xs) =
     map_option (\<lambda>bs. [word_of_nat (a * 4 + b div 16), word_of_nat (b mod 16 * 16 + c div 4),
                       word_of_nat (c mod 4 * 64 + d)] @ bs) (octets xs)"

definition b64_encode :: "bytes \<Rightarrow> string" where
  "b64_encode bs = map b64_char (sextets bs)"

definition newline :: "char \<Rightarrow> bool" where
  "newline c \<longleftrightarrow> (of_char c :: nat) = 10 \<or> (of_char c :: nat) = 13"

definition b64_decode :: "string \<Rightarrow> error + bytes" where
  "b64_decode s = (case those (map b64_val (filter (\<lambda>c. \<not> newline c) s)) of
      None \<Rightarrow> Inl ''illegal base64 data''
    | Some ns \<Rightarrow> (case octets ns of None \<Rightarrow> Inl ''illegal base64 data'' | Some bs \<Rightarrow> Inr bs))"

lemma unat_byte: "unat (a :: 8 word) < 256"
  using unsigned_less [of a] by simp

lemma sextets_bound: "n \<in> set (sextets bs) \<Longrightarrow> n < 64"
proof (induction bs rule: sextets.induct)
  case (2 a)
  then show ?case using unat_byte [of a] by auto
next
  case (3 a b)
  then show ?case using unat_byte [of a] unat_byte [of b] by auto
next
  case (4 a b c bs)
  then show ?case using unat_byte [of a] unat_byte [of b] unat_byte [of c] by auto
qed simp

lemma octets_sextets: "octets (sextets bs) = Some bs"
proof (induction bs rule: sextets.induct)
  case (2 a)
  then show ?case using unat_byte [of a] by simp
next
  case (3 a b)
  have "(unat a mod 4 * 16 + unat b div 16) div 16 = unat a mod 4" "(unat a mod 4 * 16 + unat b div 16) mod 16 = unat b div 16"
    using unat_byte [of b] by auto
  then show ?case by simp
next
  case (4 a b c bs)
  have "(unat a mod 4 * 16 + unat b div 16) div 16 = unat a mod 4" "(unat a mod 4 * 16 + unat b div 16) mod 16 = unat b div 16"
    "(unat b mod 16 * 4 + unat c div 64) div 4 = unat b mod 16" "(unat b mod 16 * 4 + unat c div 64) mod 4 = unat c div 64"
    using unat_byte [of b] unat_byte [of c] by auto
  with 4 show ?case by simp
qed simp

lemma b64_alphabet_ok: "list_all (\<lambda>n. b64_val (b64_char n) = Some n \<and> \<not> newline (b64_char n)) [0..<64]"
  by code_simp

lemma b64_val_char: "n < 64 \<Longrightarrow> b64_val (b64_char n) = Some n" and newline_char: "n < 64 \<Longrightarrow> \<not> newline (b64_char n)"
  using b64_alphabet_ok by (simp_all add: list_all_iff)

lemma those_map: "(\<And>x. x \<in> set xs \<Longrightarrow> f x = Some (g x)) \<Longrightarrow> those (map f xs) = Some (map g xs)"
  by (induction xs) auto

lemma b64_roundtrip [simp]: "b64_decode (b64_encode bs) = Inr bs"
proof -
  have "filter (\<lambda>c. \<not> newline c) (b64_encode bs) = b64_encode bs"
    unfolding b64_encode_def by (rule filter_True) (auto dest: sextets_bound newline_char)
  moreover have "those (map b64_val (b64_encode bs)) = Some (map (\<lambda>n. n) (sextets bs))"
    unfolding b64_encode_def map_map by (rule those_map) (simp add: b64_val_char sextets_bound)
  ultimately show ?thesis by (simp add: b64_decode_def octets_sextets)
qed

end
