(* ===== verification/Netlink.thy ===== *)
theory Netlink
  imports GoNet Encodings
begin

text \<open>
  The netlink requests of internal/router/wireguard.go: creating the WireGuard interface, giving it its
  address, and deleting it. The package mdlayher/netlink, which encodes attributes and exchanges
  messages, and the system's table of interfaces are the argument \<open>N\<close>; the locale \<open>rtnetlink\<close> states what
  rtnetlink(7) documents of the three requests. Numbers are in the byte order of the host, which is
  little-endian, as the code that reads the answers takes for granted.
\<close>

section \<open>Messages\<close>

record IfInfomsg =
  ii_Family :: byte
  ii_Type :: u16
  ii_Index :: u32
  ii_Flags :: u32
  ii_Change :: u32

definition IfInfomsg_Serialize :: "IfInfomsg \<Rightarrow> bytes" where
  "IfInfomsg_Serialize m = [ii_Family m, 0] @ put16le (ii_Type m) @ put32le (ii_Index m) @ put32le (ii_Flags m) @ put32le (ii_Change m)"

record IfAddrmsg =
  ia_Family :: byte
  ia_Prefixlen :: byte
  ia_Flags :: byte
  ia_Scope :: byte
  ia_Index :: u32

definition IfAddrmsg_Serialize :: "IfAddrmsg \<Rightarrow> bytes" where
  "IfAddrmsg_Serialize m = [ia_Family m, ia_Prefixlen m, ia_Flags m, ia_Scope m] @ put32le (ia_Index m)"

datatype nl_attr =
    AInt32 u16 u32
  | AString u16 string
  | ABytes u16 bytes
  | ANested u16 "nl_attr list"

record nl_message =
  nm_Type :: u16
  nm_Flags :: u16
  nm_Data :: bytes

text \<open>Numbers of the interface of the kernel.\<close>

definition AF_UNSPEC :: byte where "AF_UNSPEC = 0"
definition AF_INET :: byte where "AF_INET = 2"
definition IFF_UP :: u32 where "IFF_UP = 1"
definition IFF_LOWER_UP :: u32 where "IFF_LOWER_UP = 0x10000"
definition IFLA_IFNAME :: u16 where "IFLA_IFNAME = 3"
definition IFLA_MTU :: u16 where "IFLA_MTU = 4"
definition IFLA_LINKINFO :: u16 where "IFLA_LINKINFO = 18"
definition IFLA_INFO_KIND :: u16 where "IFLA_INFO_KIND = 1"
definition IFA_LOCAL :: u16 where "IFA_LOCAL = 2"
definition RTM_NEWLINK :: u16 where "RTM_NEWLINK = 16"
definition RTM_DELLINK :: u16 where "RTM_DELLINK = 17"
definition RTM_NEWADDR :: u16 where "RTM_NEWADDR = 20"
definition nl_Error :: u16 where "nl_Error = 2"
definition nl_Request :: u16 where "nl_Request = 1"
definition nl_Acknowledge :: u16 where "nl_Acknowledge = 4"
definition nl_Excl :: u16 where "nl_Excl = 0x200"
definition nl_Create :: u16 where "nl_Create = 0x400"

section \<open>The interfaces of the host\<close>

record link =
  lk_index :: u32
  lk_kind :: string
  lk_up :: bool
  lk_mtu :: "u32 option"
  lk_addresses :: "(ip4 \<times> nat) list"

type_synonym links = "(string \<times> link) list"

record netlink =
  nk_Encode :: "nl_attr list \<Rightarrow> error + bytes"
  nk_Execute :: "nl_message \<Rightarrow> (links, nl_message list) eff"
  nk_InterfaceByName :: "string \<Rightarrow> links \<Rightarrow> error + int"

section \<open>Operations\<close>

text \<open>A request and its answer; the ends of addWg, setIp and delWg are the same.\<close>

definition nl_run :: "netlink \<Rightarrow> error \<Rightarrow> nl_message \<Rightarrow> nl_attr list \<Rightarrow> (links, unit) eff" where
  "nl_run N what req ne =
     ebind (case nk_Encode N ne of Inl e \<Rightarrow> raise (what @ '': '' @ e) | Inr msg \<Rightarrow> ret msg) (\<lambda>msg.
     ebind (wrap_err (\<lambda>e. ''failed to execute message: '' @ e)
       (nk_Execute N (req\<lparr>nm_Data := nm_Data req @ msg\<rparr>))) (\<lambda>resp. case resp of
         [] \<Rightarrow> panic ''index out of range''
       | m # _ \<Rightarrow>
           if nm_Type m = nl_Error then (case nm_Data m of
               a # b # c # d # _ \<Rightarrow>
                 let errCode = get32le a b c d
                 in if errCode \<noteq> 0 then raise (''got netlink error: '' @ show_nat (unat errCode)) else ret ()
             | _ \<Rightarrow> panic ''index out of range'')
           else ret ()))"

definition wg_infomsg :: IfInfomsg where
  "wg_infomsg = \<lparr>ii_Family = AF_UNSPEC, ii_Type = 0, ii_Index = 0, ii_Flags = IFF_UP OR IFF_LOWER_UP,
     ii_Change = IFF_UP OR IFF_LOWER_UP\<rparr>"

definition wg_attrs :: "string \<Rightarrow> nl_attr list" where
  "wg_attrs name = [AString IFLA_IFNAME name, ANested IFLA_LINKINFO [AString IFLA_INFO_KIND ''wireguard'']]"

definition setIp :: "netlink \<Rightarrow> string \<Rightarrow> ip4 \<Rightarrow> nat \<Rightarrow> (links, unit) eff" where
  "setIp N name address ones = (\<lambda>k.
     case nk_InterfaceByName N name k of
       Inl e \<Rightarrow> raise (''wireguard network iface '' @ name @ '' does not exist: '' @ e) k
     | Inr index \<Rightarrow>
         nl_run N ''failed to encode af''
           \<lparr>nm_Type = RTM_NEWADDR, nm_Flags = nl_Request OR nl_Acknowledge,
            nm_Data = IfAddrmsg_Serialize \<lparr>ia_Family = AF_INET, ia_Prefixlen = word_of_nat ones, ia_Flags = 0,
              ia_Scope = 0, ia_Index = word_of_int index\<rparr>\<rparr>
           [ABytes IFA_LOCAL (ip4_bytes address)] k)"

definition new_attrs :: "string \<Rightarrow> int \<Rightarrow> nl_attr list" where
  "new_attrs name mtu = (if mtu \<noteq> 0 then [AInt32 IFLA_MTU (word_of_int mtu)] else []) @ wg_attrs name"

definition addWg :: "netlink \<Rightarrow> string \<Rightarrow> ip4 \<Rightarrow> nat \<Rightarrow> int \<Rightarrow> (links, unit) eff" where
  "addWg N name address ones mtu =
     ebind (nl_run N ''failed to encode''
       \<lparr>nm_Type = RTM_NEWLINK, nm_Flags = nl_Request OR nl_Create OR nl_Excl OR nl_Acknowledge,
        nm_Data = IfInfomsg_Serialize wg_infomsg\<rparr>
       (new_attrs name mtu)) (\<lambda>_.
     setIp N name address ones)"

definition delWg :: "netlink \<Rightarrow> string \<Rightarrow> (links, unit) eff" where
  "delWg N name =
     nl_run N ''failed to encode''
       \<lparr>nm_Type = RTM_DELLINK, nm_Flags = nl_Request OR nl_Acknowledge, nm_Data = IfInfomsg_Serialize wg_infomsg\<rparr>
       (wg_attrs name)"

section \<open>What the kernel does\<close>

fun attr_string :: "u16 \<Rightarrow> nl_attr list \<Rightarrow> string option" where
  "attr_string t [] = None"
| "attr_string t (AString u s # as) = (if u = t then Some s else attr_string t as)"
| "attr_string t (_ # as) = attr_string t as"

fun attr_nested :: "u16 \<Rightarrow> nl_attr list \<Rightarrow> nl_attr list option" where
  "attr_nested t [] = None"
| "attr_nested t (ANested u xs # as) = (if u = t then Some xs else attr_nested t as)"
| "attr_nested t (_ # as) = attr_nested t as"

fun attr_number :: "u16 \<Rightarrow> nl_attr list \<Rightarrow> u32 option" where
  "attr_number t [] = None"
| "attr_number t (AInt32 u n # as) = (if u = t then Some n else attr_number t as)"
| "attr_number t (_ # as) = attr_number t as"

fun attr_bytes :: "u16 \<Rightarrow> nl_attr list \<Rightarrow> bytes option" where
  "attr_bytes t [] = None"
| "attr_bytes t (ABytes u b # as) = (if u = t then Some b else attr_bytes t as)"
| "attr_bytes t (_ # as) = attr_bytes t as"

text \<open>A message taken apart: the flags of an ifinfomsg, the prefix length and index of an ifaddrmsg.\<close>

fun read_ifinfo :: "bytes \<Rightarrow> (u32 \<times> u32 \<times> bytes) option" where
  "read_ifinfo (_ # _ # _ # _ # _ # _ # _ # _ # a # b # c # d # e # f # g # h # rest) =
     Some (get32le a b c d, get32le e f g h, rest)"
| "read_ifinfo _ = None"

fun read_ifaddr :: "bytes \<Rightarrow> (byte \<times> byte \<times> u32 \<times> bytes) option" where
  "read_ifaddr (family # prefixlen # _ # _ # a # b # c # d # rest) = Some (family, prefixlen, get32le a b c d, rest)"
| "read_ifaddr _ = None"

definition indices :: "links \<Rightarrow> u32 set" where
  "indices k = (lk_index \<circ> snd) ` set k"

text \<open>
  The three requests, \<open>index\<close> being the number a new interface gets: a new link is refused when there is one
  of that name, deleting when there is none, an address when it is already there.
\<close>

definition new_link :: "(bytes \<Rightarrow> nl_attr list option) \<Rightarrow> u32 \<Rightarrow> bytes \<Rightarrow> links \<Rightarrow> links option" where
  "new_link decode index payload k =
     Option.bind (read_ifinfo payload) (\<lambda>(flags, change, rest).
     Option.bind (decode rest) (\<lambda>as.
     Option.bind (attr_string IFLA_IFNAME as) (\<lambda>name.
     Option.bind (attr_nested IFLA_LINKINFO as) (\<lambda>info.
     Option.bind (attr_string IFLA_INFO_KIND info) (\<lambda>kind.
       if name \<in> fst ` set k then None
       else Some ((name, \<lparr>lk_index = index, lk_kind = kind, lk_up = (flags AND change AND IFF_UP \<noteq> 0),
         lk_mtu = attr_number IFLA_MTU as, lk_addresses = []\<rparr>) # k))))))"

definition del_link :: "(bytes \<Rightarrow> nl_attr list option) \<Rightarrow> bytes \<Rightarrow> links \<Rightarrow> links option" where
  "del_link decode payload k =
     Option.bind (read_ifinfo payload) (\<lambda>(_, _, rest).
     Option.bind (decode rest) (\<lambda>as.
     Option.bind (attr_string IFLA_IFNAME as) (\<lambda>name.
       if name \<in> fst ` set k then Some (filter (\<lambda>(n, _). n \<noteq> name) k) else None)))"

definition new_addr :: "(bytes \<Rightarrow> nl_attr list option) \<Rightarrow> bytes \<Rightarrow> links \<Rightarrow> links option" where
  "new_addr decode payload k =
     Option.bind (read_ifaddr payload) (\<lambda>(family, prefixlen, index, rest).
     Option.bind (decode rest) (\<lambda>as. case attr_bytes IFA_LOCAL as of
       Some [a, b, c, d] \<Rightarrow>
         let x = (IP4 a b c d, unat prefixlen)
         in if family = AF_INET \<and> index \<in> indices k \<and> (\<forall>(n, l) \<in> set k. lk_index l = index \<longrightarrow> x \<notin> set (lk_addresses l))
            then Some (map (\<lambda>(n, l). if lk_index l = index then (n, l\<lparr>lk_addresses := lk_addresses l @ [x]\<rparr>) else (n, l)) k)
            else None
     | _ \<Rightarrow> None))"

type_synonym decoder = "bytes \<Rightarrow> nl_attr list option"

definition rtnl :: "decoder \<Rightarrow> decoder \<Rightarrow> u32 \<Rightarrow> nl_message \<Rightarrow> links \<Rightarrow> links option" where
  "rtnl dl da index m k =
     (if nm_Type m = RTM_NEWLINK then new_link dl index (nm_Data m) k
      else if nm_Type m = RTM_DELLINK then del_link dl (nm_Data m) k
      else if nm_Type m = RTM_NEWADDR then new_addr da (nm_Data m) k
      else None)"

text \<open>The kernel reads the attributes of a link and of an address by their numbers; a text ends at a NUL.\<close>

locale rtnetlink =
  fixes N :: netlink and dl da :: decoder
  assumes decodes_link: "nk_Encode N (new_attrs name mtu) = Inr bs \<Longrightarrow> CHR 0x00 \<notin> set name \<Longrightarrow> dl bs = Some (new_attrs name mtu)"
    and decodes_addr: "nk_Encode N [ABytes IFA_LOCAL b] = Inr bs \<Longrightarrow> da bs = Some [ABytes IFA_LOCAL b]"
    and answers: "nk_Execute N m k = (Inr resp, k') \<Longrightarrow> nm_Flags m AND nl_Acknowledge \<noteq> 0 \<Longrightarrow>
      \<exists>t rest a b c d es. resp = t # rest \<and> nm_Type t = nl_Error \<and> nm_Data t = a # b # c # d # es \<and>
        (if get32le a b c d = 0 then \<exists>i. i \<notin> indices k \<and> rtnl dl da i m k = Some k' else k' = k)"
    and refuses: "nk_Execute N m k = (Inl f, k') \<Longrightarrow> k' = k \<and> (\<exists>e. f = GoErr e)"
    and interface: "nk_InterfaceByName N name k = Inr i \<Longrightarrow> \<exists>l. map_of k name = Some l \<and> i = uint (lk_index l)"

lemma read_serialized [simp]:
  "read_ifinfo (IfInfomsg_Serialize m @ bs) = Some (ii_Flags m, ii_Change m, bs)"
  "read_ifaddr (IfAddrmsg_Serialize n @ bs) = Some (ia_Family n, ia_Prefixlen n, ia_Index n, bs)"
  by (simp_all add: IfInfomsg_Serialize_def IfAddrmsg_Serialize_def put16le_def put32le_def get32le_put32le)

text \<open>The attributes of the requests.\<close>

lemma wg_attrs_read [simp]:
  "attr_string IFLA_IFNAME (wg_attrs name) = Some name"
  "attr_nested IFLA_LINKINFO (wg_attrs name) = Some [AString IFLA_INFO_KIND ''wireguard'']"
  "attr_number IFLA_MTU (wg_attrs name) = None"
  by (simp_all add: wg_attrs_def)

lemma new_attrs_read [simp]:
  "attr_string IFLA_IFNAME (new_attrs name mtu) = Some name"
  "attr_nested IFLA_LINKINFO (new_attrs name mtu) = Some [AString IFLA_INFO_KIND ''wireguard'']"
  "attr_number IFLA_MTU (new_attrs name mtu) = (if mtu = 0 then None else Some (word_of_int mtu))"
  by (simp_all add: new_attrs_def)

lemma wg_up: "ii_Flags wg_infomsg AND ii_Change wg_infomsg AND IFF_UP \<noteq> 0"
  by (simp add: wg_infomsg_def IFF_UP_def IFF_LOWER_UP_def)

definition wg_link :: "u32 \<Rightarrow> int \<Rightarrow> (ip4 \<times> nat) list \<Rightarrow> link" where
  "wg_link index mtu as = \<lparr>lk_index = index, lk_kind = ''wireguard'', lk_up = True,
     lk_mtu = (if mtu = 0 then None else Some (word_of_int mtu)), lk_addresses = as\<rparr>"

context rtnetlink
begin

lemma nl_run_effect:
  assumes "nl_run N what req ne k = (r, k')" and "nm_Flags req AND nl_Acknowledge \<noteq> 0"
  shows "(\<exists>e. r = Inl (GoErr e)) \<and> k' = k \<or>
    r = Inr () \<and> (\<exists>i bs. i \<notin> indices k \<and> nk_Encode N ne = Inr bs \<and> rtnl dl da i (req\<lparr>nm_Data := nm_Data req @ bs\<rparr>) k = Some k')"
proof (cases "nk_Encode N ne")
  case (Inl e)
  with assms show ?thesis by (auto simp: nl_run_def)
next
  case (Inr bs)
  let ?m = "req\<lparr>nm_Data := nm_Data req @ bs\<rparr>"
  obtain a u where a: "nk_Execute N ?m k = (a, u)" by (cases "nk_Execute N ?m k")
  show ?thesis
  proof (cases a)
    case (Inl f)
    with refuses a obtain e where "f = GoErr e" "u = k" by blast
    with assms(1) Inl Inr a show ?thesis by (auto simp: nl_run_def ebind_def wrap_err_def on_error_def)
  next
    case r: (Inr resp)
    have ack: "nm_Flags ?m AND nl_Acknowledge \<noteq> 0" using assms(2) by simp
    from answers [OF a [unfolded r] ack] obtain t rest c1 c2 c3 c4 es where
      t: "resp = t # rest" "nm_Type t = nl_Error" "nm_Data t = c1 # c2 # c3 # c4 # es"
        "if get32le c1 c2 c3 c4 = 0 then \<exists>i. i \<notin> indices k \<and> rtnl dl da i ?m k = Some u else u = k"
      by (elim exE conjE) (rule that)
    from assms(1) Inr a r t(1-3) have "(if get32le c1 c2 c3 c4 \<noteq> 0 then
        raise (''got netlink error: '' @ show_nat (unat (get32le c1 c2 c3 c4))) else ret ()) u = (r, k')"
      by (simp add: nl_run_def ebind_def wrap_err_def on_error_def Let_def)
    with t(4) Inr show ?thesis by (cases "get32le c1 c2 c3 c4 = 0") auto
  qed
qed


lemma setIp_effect:
  assumes "setIp N name a ones k = (r, k')" and "ones \<le> 32" and "inj_on (lk_index \<circ> snd) (set k)"
  shows "(\<exists>e. r = Inl (GoErr e)) \<and> k' = k \<or>
    r = Inr () \<and> name \<in> fst ` set k \<and>
      k' = map (\<lambda>(n, l). if (n, l) \<in> set k \<and> Some l = map_of k name \<and> n = name
        then (n, l\<lparr>lk_addresses := lk_addresses l @ [(a, ones)]\<rparr>) else (n, l)) k"
proof (cases "nk_InterfaceByName N name k")
  case (Inl e)
  with assms(1) have "(\<exists>e. r = Inl (GoErr e)) \<and> k' = k" by (auto simp: setIp_def)
  then show ?thesis by blast
next
  case (Inr i)
  from interface [OF this] obtain l where l: "map_of k name = Some l" "i = uint (lk_index l)" by blast
  then have mem: "(name, l) \<in> set k" by (simp add: map_of_SomeD)
  let ?hdr = "\<lparr>ia_Family = AF_INET, ia_Prefixlen = word_of_nat ones, ia_Flags = 0, ia_Scope = 0, ia_Index = lk_index l\<rparr>"
  let ?req = "\<lparr>nm_Type = RTM_NEWADDR, nm_Flags = nl_Request OR nl_Acknowledge, nm_Data = IfAddrmsg_Serialize ?hdr\<rparr>"
  have run: "nl_run N ''failed to encode af'' ?req [ABytes IFA_LOCAL (ip4_bytes a)] k = (r, k')"
    using assms(1) Inr l by (simp add: setIp_def)
  have ack: "nm_Flags ?req AND nl_Acknowledge \<noteq> 0" by (simp add: nl_Request_def nl_Acknowledge_def)
  have ones: "unat (word_of_nat ones :: byte) = ones" using assms(2) by (simp add: unat_of_nat)
  obtain c1 c2 c3 c4 where a: "a = IP4 c1 c2 c3 c4" by (cases a)
  have new: "k' = map (\<lambda>(n, m). if lk_index m = lk_index l then (n, m\<lparr>lk_addresses := lk_addresses m @ [(a, ones)]\<rparr>) else (n, m)) k"
    if "nk_Encode N [ABytes IFA_LOCAL (ip4_bytes a)] = Inr bs" "rtnl dl da j (?req\<lparr>nm_Data := nm_Data ?req @ bs\<rparr>) k = Some k'" for j bs
    using that decodes_addr [OF that(1)] ones by (auto simp: rtnl_def RTM_NEWADDR_def RTM_NEWLINK_def RTM_DELLINK_def new_addr_def a Let_def split: if_splits)
  have same: "lk_index m = lk_index l \<longleftrightarrow> Some m = map_of k name \<and> n = name" if "(n, m) \<in> set k" for n m
    using inj_onD [OF assms(3), of "(n, m)" "(name, l)"] that mem l(1) by auto
  from nl_run_effect [OF run ack] show ?thesis
  proof (elim disjE conjE exE)
    fix j bs
    assume r: "r = Inr ()" and "nk_Encode N [ABytes IFA_LOCAL (ip4_bytes a)] = Inr bs"
      "rtnl dl da j (?req\<lparr>nm_Data := nm_Data ?req @ bs\<rparr>) k = Some k'"
    then have "k' = map (\<lambda>(n, m). if lk_index m = lk_index l then (n, m\<lparr>lk_addresses := lk_addresses m @ [(a, ones)]\<rparr>) else (n, m)) k"
      using new by blast
    also have "\<dots> = map (\<lambda>(n, m). if (n, m) \<in> set k \<and> Some m = map_of k name \<and> n = name
        then (n, m\<lparr>lk_addresses := lk_addresses m @ [(a, ones)]\<rparr>) else (n, m)) k"
      using same by (auto intro!: map_cong)
    finally show ?thesis using r mem by force
  qed simp
qed

lemma delWg_effect:
  assumes "delWg N name k = (r, k')" and "CHR 0x00 \<notin> set name"
  shows "(\<exists>e. r = Inl (GoErr e)) \<and> k' = k \<or>
    r = Inr () \<and> name \<in> fst ` set k \<and> k' = filter (\<lambda>(n, _). n \<noteq> name) k"
proof -
  let ?req = "\<lparr>nm_Type = RTM_DELLINK, nm_Flags = nl_Request OR nl_Acknowledge, nm_Data = IfInfomsg_Serialize wg_infomsg\<rparr>"
  have ack: "nm_Flags ?req AND nl_Acknowledge \<noteq> 0" by (simp add: nl_Request_def nl_Acknowledge_def)
  have zero: "wg_attrs name = new_attrs name 0" by (simp add: new_attrs_def)
  from nl_run_effect [OF assms(1) [unfolded delWg_def zero] ack] show ?thesis
    using decodes_link [of name 0] assms(2)
    by (auto simp: rtnl_def RTM_NEWLINK_def RTM_DELLINK_def del_link_def split: if_splits)
qed

lemma addWg_effect:
  assumes "addWg N name a ones mtu k = (r, k')" and "ones \<le> 32" and "inj_on (lk_index \<circ> snd) (set k)"
    and "CHR 0x00 \<notin> set name"
  shows "name \<notin> fst ` set k \<and> r = Inr () \<and> (\<exists>i. i \<notin> indices k \<and> k' = (name, wg_link i mtu [(a, ones)]) # k) \<or>
    (\<exists>e. r = Inl (GoErr e)) \<and>
      (k' = k \<or> name \<notin> fst ` set k \<and> (\<exists>i. i \<notin> indices k \<and> k' = (name, wg_link i mtu []) # k))"
proof -
  let ?as = "new_attrs name mtu"
  let ?req = "\<lparr>nm_Type = RTM_NEWLINK, nm_Flags = nl_Request OR nl_Create OR nl_Excl OR nl_Acknowledge,
        nm_Data = IfInfomsg_Serialize wg_infomsg\<rparr>"
  obtain b u where b: "nl_run N ''failed to encode'' ?req ?as k = (b, u)"
    by (cases "nl_run N ''failed to encode'' ?req ?as k")
  have ack: "nm_Flags ?req AND nl_Acknowledge \<noteq> 0"
    by (simp add: nl_Request_def nl_Acknowledge_def nl_Create_def nl_Excl_def)
  have made: "name \<notin> fst ` set k \<and> u = (name, wg_link i mtu []) # k"
    if "nk_Encode N ?as = Inr bs" "rtnl dl da i (?req\<lparr>nm_Data := nm_Data ?req @ bs\<rparr>) k = Some u" for i bs
    using that decodes_link [OF that(1) assms(4)] wg_up by (simp add: rtnl_def new_link_def wg_link_def split: if_splits)
  from nl_run_effect [OF b ack] show ?thesis
  proof (elim disjE conjE exE)
    fix e assume "b = Inl (GoErr e)" "u = k"
    with assms(1) b show ?thesis by (auto simp: addWg_def ebind_def)
  next
    fix i bs
    assume ok: "b = Inr ()" and i: "i \<notin> indices k" and "nk_Encode N ?as = Inr bs"
      "rtnl dl da i (?req\<lparr>nm_Data := nm_Data ?req @ bs\<rparr>) k = Some u"
    with made have u: "name \<notin> fst ` set k" "u = (name, wg_link i mtu []) # k" by auto
    have "setIp N name a ones u = (r, k')" using assms(1) b ok by (simp add: addWg_def ebind_def)
    moreover have "inj_on (lk_index \<circ> snd) (set u)"
      using assms(3) i u by (auto simp: inj_on_def indices_def wg_link_def)
    ultimately have S: "(\<exists>e. r = Inl (GoErr e)) \<and> k' = u \<or> r = Inr () \<and>
       k' = map (\<lambda>(n, l). if (n, l) \<in> set u \<and> Some l = map_of u name \<and> n = name
        then (n, l\<lparr>lk_addresses := lk_addresses l @ [(a, ones)]\<rparr>) else (n, l)) u"
      using setIp_effect assms(2) by blast
    from u(1) have ne: "(name, l) \<notin> set k" for l by force
    have "map (\<lambda>(n, l). if (n, l) \<in> set u \<and> Some l = map_of u name \<and> n = name
        then (n, l\<lparr>lk_addresses := lk_addresses l @ [(a, ones)]\<rparr>) else (n, l)) u = (name, wg_link i mtu [(a, ones)]) # k"
      by (auto simp: u(2) wg_link_def ne intro!: map_idI)
    with S u i show ?thesis by auto
  qed
qed

end

section \<open>A reference host\<close>

definition encode_ref :: "nl_attr list \<Rightarrow> error + bytes" where
  "encode_ref as = (case attr_string IFLA_IFNAME as of
      Some name \<Rightarrow> Inr ((case attr_number IFLA_MTU as of None \<Rightarrow> [0, 0, 0, 0, 0] | Some n \<Rightarrow> 1 # put32le n) @ bytes_of name)
    | None \<Rightarrow> (case attr_bytes IFA_LOCAL as of Some b \<Rightarrow> Inr b | None \<Rightarrow> Inl ''unsupported''))"

fun link_attrs_ref :: decoder where
  "link_attrs_ref (t # a # b # c # d # name) =
     Some ((if t = 0 then [] else [AInt32 IFLA_MTU (get32le a b c d)]) @ wg_attrs (map (\<lambda>x. char_of (unat x)) name))"
| "link_attrs_ref _ = None"

definition execute_ref :: "nl_message \<Rightarrow> (links, nl_message list) eff" where
  "execute_ref m k =
     (case find (\<lambda>i. i \<notin> indices k) (map word_of_nat [1..<length k + 2]) of
        None \<Rightarrow> (Inl (GoErr ''no index''), k)
      | Some i \<Rightarrow> (case rtnl link_attrs_ref (\<lambda>b. Some [ABytes IFA_LOCAL b]) i m k of
          None \<Rightarrow> (Inl (GoErr ''refused''), k)
        | Some k' \<Rightarrow> (Inr [\<lparr>nm_Type = nl_Error, nm_Flags = 0, nm_Data = [0, 0, 0, 0]\<rparr>], k')))"

definition netlink_ref :: netlink where
  "netlink_ref = \<lparr>nk_Encode = encode_ref, nk_Execute = execute_ref,
     nk_InterfaceByName = (\<lambda>name k. case map_of k name of None \<Rightarrow> Inl ''no such network interface'' | Some l \<Rightarrow> Inr (uint (lk_index l)))\<rparr>"

lemma char_of_bytes: "map (\<lambda>x. char_of (unat x)) (bytes_of s) = s"
proof -
  have "char_of (unat (word_of_nat (of_char c) :: byte)) = c" for c :: char
    by (simp add: unat_of_nat of_char_mod_256)
  then show ?thesis by (simp add: bytes_of_def comp_def)
qed

interpretation netlink_ref: rtnetlink netlink_ref link_attrs_ref "\<lambda>b. Some [ABytes IFA_LOCAL b]"
proof
  show "link_attrs_ref bs = Some (new_attrs name mtu)"
    if "nk_Encode netlink_ref (new_attrs name mtu) = Inr bs" for name mtu bs
    using that
    by (auto simp: netlink_ref_def encode_ref_def put32le_def get32le_put32le char_of_bytes new_attrs_def)
  show "(\<lambda>b. Some [ABytes IFA_LOCAL b]) bs = Some [ABytes IFA_LOCAL b]"
    if "nk_Encode netlink_ref [ABytes IFA_LOCAL b] = Inr bs" for b bs
    using that by (simp add: netlink_ref_def encode_ref_def)
  show "\<exists>t rest a b c d es. resp = t # rest \<and> nm_Type t = nl_Error \<and> nm_Data t = a # b # c # d # es \<and>
      (if get32le a b c d = 0 then \<exists>i. i \<notin> indices k \<and> rtnl link_attrs_ref (\<lambda>b. Some [ABytes IFA_LOCAL b]) i m k = Some k' else k' = k)"
    if "nk_Execute netlink_ref m k = (Inr resp, k')" for m k resp k'
  proof -
    from that obtain i where i: "find (\<lambda>i. i \<notin> indices k) (map word_of_nat [1..<length k + 2]) = Some i"
      "rtnl link_attrs_ref (\<lambda>b. Some [ABytes IFA_LOCAL b]) i m k = Some k'"
      "resp = [\<lparr>nm_Type = nl_Error, nm_Flags = 0, nm_Data = [0, 0, 0, 0]\<rparr>]"
      unfolding netlink_ref_def execute_ref_def netlink.select_convs
      by (auto simp del: upt_Suc split: option.splits)
    then have "i \<notin> indices k" by (metis (no_types, lifting) find_Some_iff)
    moreover have "get32le 0 0 0 0 = 0" by (simp add: get32le_def)
    ultimately show ?thesis using i by force
  qed
qed (auto simp: netlink_ref_def execute_ref_def split: option.splits)

end
