(* ===== verification/Router.thy ===== *)
theory Router
  imports DataTokens DataDevices XdpSpec Iptables Netlink
begin

text \<open>
  internal/router/bpf.go: how the server fills the maps of the kernel program.

  The state has the kernel's maps, the package's own tables, the WireGuard device, the parser's
  caches and the cluster store. A call into the kernel is \<open>kmap\<close>: it may fail, as
  \<open>re_fault\<close> says for its name and the maps it finds, and a call that fails changes nothing. What
  the outside decides is the environment: the digest of user names, the order in which Go ranges
  over a map, the order in which a kernel map is iterated, the batch update of the map of maps, and
  the WireGuard control calls of wireguard.go.
\<close>

section \<open>State and environment\<close>

record peer_config =
  pc_PublicKey :: string
  pc_Remove :: bool
  pc_UpdateOnly :: bool
  pc_ReplaceAllowedIPs :: bool
  pc_AllowedIPs :: "ipnet list"
  pc_PresharedKey :: "string option"
  pc_Endpoint :: "udp_addr option"
  pc_Keepalive :: "int option"

record wg_config =
  wc_PrivateKey :: "string option"
  wc_ListenPort :: "int option"
  wc_Peers :: "peer_config list"

record wg_peer =
  wp_AllowedIPs :: "ipnet list"
  wp_PresharedKey :: "string option"
  wp_Endpoint :: "udp_addr option"

text \<open>A WireGuard device: its peers by public key.\<close>

type_synonym wgdev = "(string \<times> wg_peer) list"

record renv =
  re_conf :: Config
  re_etcd :: etcd
  re_host :: host
  re_parse :: parse_env
  re_server :: string
  re_sha1 :: "string \<Rightarrow> bytes"
  re_fault :: "string \<Rightarrow> kmaps \<Rightarrow> error option"
  re_order :: "string list \<Rightarrow> string list"
  re_iter :: "kmaps \<Rightarrow> ip4 list"
  re_batch :: "(userid \<times> nat) list \<Rightarrow> (userid \<rightharpoonup> nat) \<Rightarrow> error option \<times> nat \<times> (userid \<rightharpoonup> nat)"
  re_attach :: "nat \<Rightarrow> error option"
  re_configure :: "wg_config \<Rightarrow> wgdev \<Rightarrow> (error + unit) \<times> wgdev"
  re_parse_key :: "string \<Rightarrow> error + string"
  re_sys :: "string \<Rightarrow> error option"
  re_ipt :: ipt
  re_netlink :: netlink
  re_ip6 :: "bytes \<Rightarrow> string"

record router =
  rt_maps :: kmaps
  rt_user_maps :: "userid \<rightharpoonup> nat"
  rt_next :: nat
  rt_u2a :: "string \<rightharpoonup> (string \<times> string) list"
  rt_a2u :: "string \<rightharpoonup> string"
  rt_wg :: wgdev
  rt_parser :: pstate
  rt_store :: store
  rt_fw :: fw_tables
  rt_links :: links

abbreviation in_store :: "(store, 'a) eff \<Rightarrow> (router, 'a) eff" where
  "in_store \<equiv> zoom rt_store (\<lambda>x s. s\<lparr>rt_store := x\<rparr>)"

abbreviation in_fw :: "(fw_tables, 'a) eff \<Rightarrow> (router, 'a) eff" where
  "in_fw \<equiv> zoom rt_fw (\<lambda>x s. s\<lparr>rt_fw := x\<rparr>)"

abbreviation in_links :: "(links, 'a) eff \<Rightarrow> (router, 'a) eff" where
  "in_links \<equiv> zoom rt_links (\<lambda>x s. s\<lparr>rt_links := x\<rparr>)"

abbreviation in_parser :: "(pstate, 'a) eff \<Rightarrow> (router, 'a) eff" where
  "in_parser \<equiv> zoom rt_parser (\<lambda>x s. s\<lparr>rt_parser := x\<rparr>)"

definition gets :: "('s \<Rightarrow> 'a) \<Rightarrow> ('s, 'a) eff" where
  "gets f s = (Inr (f s), s)"

definition modify :: "('s \<Rightarrow> 's) \<Rightarrow> ('s, unit) eff" where
  "modify f s = (Inr (), f s)"

lemma gets_apply [simp]: "gets f s = (Inr (f s), s)" by (simp add: gets_def)
lemma modify_apply [simp]: "modify f s = (Inr (), f s)" by (simp add: modify_def)

section \<open>The maps of the kernel program\<close>

definition ErrKeyNotExist :: error where "ErrKeyNotExist = ''key does not exist''"
definition ErrKeyExist :: error where "ErrKeyExist = ''key already exists''"

definition kmap :: "renv \<Rightarrow> string \<Rightarrow> (kmaps \<Rightarrow> (error + 'a) \<times> kmaps) \<Rightarrow> (router, 'a) eff" where
  "kmap R operation f s = (case re_fault R operation (rt_maps s) of
      Some e \<Rightarrow> (Inl (GoErr e), s)
    | None \<Rightarrow> (case f (rt_maps s) of
         (Inl e, _) \<Rightarrow> (Inl (GoErr e), s)
       | (Inr x, k) \<Rightarrow> (Inr x, s\<lparr>rt_maps := k\<rparr>)))"

text \<open>A key that is not four bytes long is refused.\<close>

definition dev_key :: "goip \<Rightarrow> (router, ip4) eff" where
  "dev_key ip = (case to4 ip of None \<Rightarrow> raise ''can't marshal key'' | Some a \<Rightarrow> ret a)"

definition devices_LookupBytes :: "ip4 \<Rightarrow> kmaps \<Rightarrow> (error + bytes) \<times> kmaps" where
  "devices_LookupBytes a k = (Inr (case k_devices k a of None \<Rightarrow> [] | Some d \<Rightarrow> d), k)"

definition devices_Lookup :: "ip4 \<Rightarrow> kmaps \<Rightarrow> (error + bytes) \<times> kmaps" where
  "devices_Lookup a k = (case k_devices k a of None \<Rightarrow> (Inl ErrKeyNotExist, k) | Some d \<Rightarrow> (Inr d, k))"

definition devices_Put :: "ip4 \<Rightarrow> bytes \<Rightarrow> kmaps \<Rightarrow> (error + unit) \<times> kmaps" where
  "devices_Put a d k = (Inr (), k\<lparr>k_devices := (k_devices k)(a \<mapsto> d)\<rparr>)"

definition devices_UpdateExist :: "ip4 \<Rightarrow> bytes \<Rightarrow> kmaps \<Rightarrow> (error + unit) \<times> kmaps" where
  "devices_UpdateExist a d k = (case k_devices k a of None \<Rightarrow> (Inl ErrKeyNotExist, k)
     | Some _ \<Rightarrow> (Inr (), k\<lparr>k_devices := (k_devices k)(a \<mapsto> d)\<rparr>))"

definition devices_LookupAndDelete :: "ip4 \<Rightarrow> kmaps \<Rightarrow> (error + unit) \<times> kmaps" where
  "devices_LookupAndDelete a k = (case k_devices k a of None \<Rightarrow> (Inl ErrKeyNotExist, k)
     | Some _ \<Rightarrow> (Inr (), k\<lparr>k_devices := (k_devices k)(a := None)\<rparr>))"

definition locked_Lookup :: "userid \<Rightarrow> kmaps \<Rightarrow> (error + u32) \<times> kmaps" where
  "locked_Lookup u k = (case k_locked k u of None \<Rightarrow> (Inl ErrKeyNotExist, k) | Some l \<Rightarrow> (Inr l, k))"

definition locked_Put :: "userid \<Rightarrow> u32 \<Rightarrow> kmaps \<Rightarrow> (error + unit) \<times> kmaps" where
  "locked_Put u l k = (Inr (), k\<lparr>k_locked := (k_locked k)(u \<mapsto> l)\<rparr>)"

definition locked_Delete :: "userid \<Rightarrow> kmaps \<Rightarrow> (error + unit) \<times> kmaps" where
  "locked_Delete u k = (case k_locked k u of None \<Rightarrow> (Inl ErrKeyNotExist, k)
     | Some _ \<Rightarrow> (Inr (), k\<lparr>k_locked := (k_locked k)(u := None)\<rparr>))"

definition policies_Insert :: "userid \<Rightarrow> nat \<Rightarrow> kmaps \<Rightarrow> (error + unit) \<times> kmaps" where
  "policies_Insert u m k = (case k_policies k u of Some _ \<Rightarrow> (Inl ErrKeyExist, k)
     | None \<Rightarrow> (Inr (), k\<lparr>k_policies := (k_policies k)(u \<mapsto> m)\<rparr>))"

definition policies_Lookup :: "userid \<Rightarrow> kmaps \<Rightarrow> (error + nat) \<times> kmaps" where
  "policies_Lookup u k = (case k_policies k u of None \<Rightarrow> (Inl ErrKeyNotExist, k) | Some m \<Rightarrow> (Inr m, k))"

definition policies_Delete :: "userid \<Rightarrow> kmaps \<Rightarrow> (error + unit) \<times> kmaps" where
  "policies_Delete u k = (case k_policies k u of None \<Rightarrow> (Inl ErrKeyNotExist, k)
     | Some _ \<Rightarrow> (Inr (), k\<lparr>k_policies := (k_policies k)(u := None)\<rparr>))"

definition inner_Put :: "nat \<Rightarrow> Key \<Rightarrow> Policy list \<Rightarrow> kmaps \<Rightarrow> (error + unit) \<times> kmaps" where
  "inner_Put m key ps k = (Inr (), k\<lparr>k_inner := (k_inner k)(m := AList.update key ps (k_inner k m))\<rparr>)"

definition inner_Delete :: "nat \<Rightarrow> Key \<Rightarrow> kmaps \<Rightarrow> (error + unit) \<times> kmaps" where
  "inner_Delete m key k =
     (if key \<in> fst ` set (k_inner k m)
      then (Inr (), k\<lparr>k_inner := (k_inner k)(m := AList.delete key (k_inner k m))\<rparr>)
      else (Inl ErrKeyNotExist, k))"

definition inner_Keys :: "nat \<Rightarrow> kmaps \<Rightarrow> (error + Key list) \<times> kmaps" where
  "inner_Keys m k = (Inr (map fst (k_inner k m)), k)"

definition inner_Entries :: "nat \<Rightarrow> kmaps \<Rightarrow> (error + trie) \<times> kmaps" where
  "inner_Entries m k = (Inr (k_inner k m), k)"

text \<open>A new inner table, with a number of its own.\<close>

definition NewMap :: "renv \<Rightarrow> (router, nat) eff" where
  "NewMap R =
     ebind (gets rt_next) (\<lambda>m.
     ebind (kmap R ''NewMap'' (\<lambda>k. (Inr (), k\<lparr>k_inner := (k_inner k)(m := [])\<rparr>))) (\<lambda>_.
     ebind (modify (\<lambda>s. s\<lparr>rt_next := Suc m\<rparr>)) (\<lambda>_. ret m)))"

section \<open>Devices\<close>

definition ipv4_of :: "renv \<Rightarrow> string \<Rightarrow> goip option" where
  "ipv4_of R address = ParseIP (pe_net (re_parse R)) address"

definition minutes :: "int \<Rightarrow> u64" where
  "minutes n = word_of_int n * 60000000000"

text \<open>Every error is the answer no.\<close>

definition isAuthed :: "renv \<Rightarrow> u64 \<Rightarrow> string \<Rightarrow> (router, bool) eff" where
  "isAuthed R currentTime address =
     (case ipv4_of R address of
        None \<Rightarrow> ret False
      | Some ip \<Rightarrow>
          on_error
            (ebind (dev_key ip) (\<lambda>a.
             ebind (kmap R ''Devices.LookupBytes'' (devices_LookupBytes a)) (\<lambda>deviceBytes.
             ebind (lift (fwentry_Unpack deviceBytes)) (\<lambda>deviceStruct.
             ebind (kmap R ''AccountLocked.Lookup'' (locked_Lookup (user_id deviceStruct))) (\<lambda>isAccountLocked.
             ebind (in_store (GetSessionInactivityTimeoutMinutes (re_etcd R))) (\<lambda>inactivityTimeoutMinutes.
             let sessionValid = (sessionExpiry deviceStruct > currentTime \<or> sessionExpiry deviceStruct = - 1);
                 sessionActive = (currentTime - lastPacketTime deviceStruct < minutes inactivityTimeoutMinutes \<or>
                                  inactivityTimeoutMinutes < 0)
             in ret (isAccountLocked = 0 \<and> sessionValid \<and> sessionActive)))))))
            (\<lambda>_. ret False))"

definition xdpRemoveDevice :: "renv \<Rightarrow> string \<Rightarrow> (router, unit) eff" where
  "xdpRemoveDevice R address =
     (case ipv4_of R address of
        None \<Rightarrow> raise (''Address '' @ address @ '' is not parsable as an IP address'')
      | Some ip \<Rightarrow>
          on_error (ebind (dev_key ip) (\<lambda>a. kmap R ''Devices.LookupAndDelete'' (devices_LookupAndDelete a)))
            (\<lambda>e. if contains e ErrKeyNotExist then ret ()
                 else raise (''remove device failed: removing from devices table failed: '' @ e @ '' '')))"

definition xdpUserExists :: "renv \<Rightarrow> userid \<Rightarrow> (router, unit) eff" where
  "xdpUserExists R userid = ebind (kmap R ''AccountLocked.Lookup'' (locked_Lookup userid)) (\<lambda>_. ret ())"

definition new_entry :: "renv \<Rightarrow> string \<Rightarrow> u64 \<Rightarrow> fwentry" where
  "new_entry R username node = \<lparr>sessionExpiry = 0, lastPacketTime = 0, user_id = re_sha1 R username,
     fw_pad = 0, associatedNode = node\<rparr>"

definition xdpAddDevice :: "renv \<Rightarrow> string \<Rightarrow> string \<Rightarrow> u64 \<Rightarrow> (router, unit) eff" where
  "xdpAddDevice R username address node =
     (case ipv4_of R address of
        None \<Rightarrow> raise (''Device '' @ username @ '' does not have an internal IP address assigned to it, this is a big bug'')
      | Some ip \<Rightarrow>
          ebind (attempt (ebind (dev_key ip) (\<lambda>a. kmap R ''Devices.Lookup'' (devices_Lookup a)))) (\<lambda>found.
          case found of
            Inr _ \<Rightarrow> raise ''attempted to add a device with address that already exists''
          | Inl _ \<Rightarrow>
              ebind (xdpUserExists R (re_sha1 R username)) (\<lambda>_.
              ebind (dev_key ip) (\<lambda>a.
              kmap R ''Devices.Put'' (devices_Put a (fwentry_Bytes (new_entry R username node)))))))"

definition deauthenticate :: "renv \<Rightarrow> string \<Rightarrow> (router, unit) eff" where
  "deauthenticate R address =
     (case ipv4_of R address of
        None \<Rightarrow> raise (''Unable to get IP address from: '' @ address)
      | Some ip \<Rightarrow> (case to4 ip of
          None \<Rightarrow> raise ''IP address was not ipv4''
        | Some a \<Rightarrow>
            ebind (kmap R ''Devices.LookupBytes'' (devices_LookupBytes a)) (\<lambda>deviceBytes.
            ebind (lift (fwentry_Unpack deviceBytes)) (\<lambda>devicesStruct.
            kmap R ''Devices.Update'' (devices_UpdateExist a
              (fwentry_Bytes (devicesStruct\<lparr>lastPacketTime := 0, sessionExpiry := 0\<rparr>)))))))"

definition addresses_of :: "renv \<Rightarrow> string \<Rightarrow> router \<Rightarrow> string list" where
  "addresses_of R username s = (case rt_u2a s username of None \<Rightarrow> [] | Some m \<Rightarrow> re_order R (map fst m))"

definition SetLockAccount :: "renv \<Rightarrow> string \<Rightarrow> u32 \<Rightarrow> (router, unit) eff" where
  "SetLockAccount R username locked =
     ebind (gets (addresses_of R username)) (\<lambda>as.
     ebind (for_each (\<lambda>address. on_error (deauthenticate R address) (\<lambda>_. ret ())) as) (\<lambda>_.
     kmap R ''AccountLocked.Put'' (locked_Put (re_sha1 R username) locked)))"

definition DeauthenticateAllDevices :: "renv \<Rightarrow> string \<Rightarrow> (router, unit) eff" where
  "DeauthenticateAllDevices R username =
     ebind (gets (addresses_of R username)) (\<lambda>as. for_each (deauthenticate R) as)"

definition SetAuthorized :: "renv \<Rightarrow> u64 \<Rightarrow> u64 \<Rightarrow> string \<Rightarrow> string \<Rightarrow> u64 \<Rightarrow> (router, unit) eff" where
  "SetAuthorized R now1 now2 internalAddress username node =
     (case Option.bind (ipv4_of R internalAddress) to4 of
        None \<Rightarrow> raise ''internalAddress could not be parsed as an IPv4 address''
      | Some a \<Rightarrow>
          ebind (in_store (GetSessionLifetimeMinutes (re_etcd R))) (\<lambda>maxSession.
          kmap R ''Devices.Update'' (devices_UpdateExist a (fwentry_Bytes
            \<lparr>sessionExpiry = (if maxSession < 0 then - 1 else now2 + minutes maxSession),
             lastPacketTime = now1, user_id = re_sha1 R username, fw_pad = 0, associatedNode = node\<rparr>))))"

definition GetAllAuthorised :: "renv \<Rightarrow> u64 \<Rightarrow> (router, string list) eff" where
  "GetAllAuthorised R now =
     ebind (in_store (GetAllDevices (re_etcd R))) (\<lambda>devices.
     (\<lambda>s. foldl (\<lambda>(r, s) d. case r of
          Inl f \<Rightarrow> (Inl f, s)
        | Inr l \<Rightarrow> (case isAuthed R now (dv_Address d) s of
             (Inl f, t) \<Rightarrow> (Inl f, t)
           | (Inr b, t) \<Rightarrow> (Inr (if b then l @ [dv_Address d] else l), t))) (Inr [], s) devices))"

section \<open>Policies\<close>

definition xdpAddRoute :: "renv \<Rightarrow> nat \<Rightarrow> Acl \<Rightarrow> (router, unit) eff" where
  "xdpAddRoute R usersRouteTable userAcls =
     ebind (in_parser (ParseRules (re_parse R) (acl_Mfa userAcls) (acl_Allow userAcls) (acl_Deny userAcls))) (\<lambda>(rules, errs).
     for_each (\<lambda>rule. for_each (\<lambda>key.
       wrap_err (\<lambda>e. ''error putting route key in inner map: '' @ e)
         (kmap R ''Inner.Put'' (inner_Put usersRouteTable key (Values rule)))) (Keys rule)) rules)"

text \<open>
  Deleting key after key. A deletion that fails with another error than a missing key is passed
  over: the next key is then the one after it.
\<close>

fun clear_keys :: "renv \<Rightarrow> nat \<Rightarrow> Key list \<Rightarrow> (router, unit) eff" where
  "clear_keys R m [] = ret ()"
| "clear_keys R m (key # ks) =
     ebind (attempt (kmap R ''Inner.Delete'' (inner_Delete m key))) (\<lambda>r.
     if r = Inl ErrKeyNotExist then raise ErrKeyNotExist
     else ebind (kmap R ''Inner.NextKey'' (inner_Keys m)) (\<lambda>_. clear_keys R m ks))"

definition clearPolicyMap :: "renv \<Rightarrow> nat \<Rightarrow> (router, unit) eff" where
  "clearPolicyMap R toClear =
     ebind (kmap R ''Inner.NextKey'' (inner_Keys toClear)) (\<lambda>ks. clear_keys R toClear ks)"

text \<open>The table of a user who has none.\<close>

definition create_table :: "renv \<Rightarrow> userid \<Rightarrow> (router, nat) eff" where
  "create_table R userid =
     ebind (wrap_err (\<lambda>e. ''policies_table creating new map: '' @ e) (NewMap R)) (\<lambda>m.
     ebind (wrap_err (\<lambda>e. ''policies_table adding new map to table: '' @ e)
       (kmap R ''PoliciesTable.Update'' (policies_Insert userid m))) (\<lambda>_.
     ebind (modify (\<lambda>s. s\<lparr>rt_user_maps := (rt_user_maps s)(userid \<mapsto> m)\<rparr>)) (\<lambda>_. ret m)))"

definition setSingleUserMap :: "renv \<Rightarrow> userid \<Rightarrow> Acl \<Rightarrow> (router, unit) eff" where
  "setSingleUserMap R userid userAcls =
     ebind (\<lambda>s. case rt_user_maps s userid of Some m \<Rightarrow> (Inr m, s) | None \<Rightarrow> create_table R userid s) (\<lambda>mapRef.
     ebind (clearPolicyMap R mapRef) (\<lambda>_. xdpAddRoute R mapRef userAcls))"

definition AddUser :: "renv \<Rightarrow> string \<Rightarrow> Acl \<Rightarrow> (router, unit) eff" where
  "AddUser R username userAcls =
     (let userid = re_sha1 R username in
      ebind (attempt (xdpUserExists R userid)) (\<lambda>found. case found of
        Inr _ \<Rightarrow> raise ''user already exists''
      | Inl _ \<Rightarrow>
          ebind (kmap R ''AccountLocked.Put'' (locked_Put userid 0)) (\<lambda>_.
          ebind (setSingleUserMap R userid userAcls) (\<lambda>_.
          modify (\<lambda>s. s\<lparr>rt_u2a := (rt_u2a s)(username \<mapsto> [])\<rparr>)))))"

definition effective_acl :: "renv \<Rightarrow> string \<Rightarrow> (router, Acl) eff" where
  "effective_acl R username = in_store (GetEffectiveAcl (re_etcd R) (re_host R) (re_server R) username)"

definition RefreshUserAcls :: "renv \<Rightarrow> string \<Rightarrow> (router, unit) eff" where
  "RefreshUserAcls R username =
     ebind (effective_acl R username) (\<lambda>a. setSingleUserMap R (re_sha1 R username) a)"

text \<open>
  The first loop of \<open>bulkCreateUserMaps\<close>: the pairs to insert, the new tables by user name and the
  errors so far; the left result is an early return. A user who has a table gets its old table
  refilled, and a new one as well.
\<close>

record bulk =
  bk_pairs :: "(userid \<times> nat) list"
  bk_maps :: "(string \<times> nat) list"
  bk_errors :: "error list"

definition refill :: "renv \<Rightarrow> string \<Rightarrow> nat \<Rightarrow> (router, error option \<times> bool) eff" where
  "refill R username m =
     ebind (attempt (clearPolicyMap R m)) (\<lambda>r. case r of
       Inl e \<Rightarrow> ret (Some e, False)
     | Inr _ \<Rightarrow>
         ebind (effective_acl R username) (\<lambda>a.
         ebind (attempt (xdpAddRoute R m a)) (\<lambda>r. case r of
           Inl e \<Rightarrow> ret (Some e, True)
         | Inr _ \<Rightarrow> ret (None, True))))"

definition new_table :: "renv \<Rightarrow> UserModel \<Rightarrow> bulk \<Rightarrow> (router, error list + bulk) eff" where
  "new_table R user b =
     (let userid = re_sha1 R (um_Username user) in
      ebind (attempt (kmap R ''AccountLocked.Put'' (locked_Put userid (if um_Locked user then 1 else 0)))) (\<lambda>r. case r of
        Inl e \<Rightarrow> ret (Inl [e])
      | Inr _ \<Rightarrow>
          ebind (attempt (NewMap R)) (\<lambda>r. case r of
            Inl e \<Rightarrow> ret (Inl [''policies_table creating new map: '' @ e])
          | Inr m \<Rightarrow>
              ebind (modify (\<lambda>s. s\<lparr>rt_user_maps := (rt_user_maps s)(userid \<mapsto> m)\<rparr>)) (\<lambda>_.
              ret (Inr (b\<lparr>bk_pairs := bk_pairs b @ [(userid, m)],
                          bk_maps := AList.update (um_Username user) m (bk_maps b)\<rparr>))))))"

definition add_error :: "error option \<Rightarrow> bulk \<Rightarrow> bulk" where
  "add_error err b = (case err of None \<Rightarrow> b | Some e \<Rightarrow> b\<lparr>bk_errors := bk_errors b @ [e]\<rparr>)"

fun bulk_users :: "renv \<Rightarrow> UserModel list \<Rightarrow> bulk \<Rightarrow> (router, error list + bulk) eff" where
  "bulk_users R [] b = ret (Inr b)"
| "bulk_users R (user # users) b =
     ebind (gets (\<lambda>s. rt_user_maps s (re_sha1 R (um_Username user)))) (\<lambda>known.
     ebind (case known of None \<Rightarrow> ret (None, True) | Some m \<Rightarrow> refill R (um_Username user) m) (\<lambda>(err, go).
     if \<not> go then bulk_users R users (add_error err b)
     else ebind (new_table R user (add_error err b)) (\<lambda>r. case r of
        Inl errs \<Rightarrow> ret (Inl errs)
      | Inr b \<Rightarrow> bulk_users R users b)))"

text \<open>A batch that fails may have written some of its entries.\<close>

definition policies_Batch :: "renv \<Rightarrow> (userid \<times> nat) list \<Rightarrow> (router, error option \<times> nat) eff" where
  "policies_Batch R pairs s = (case re_batch R pairs (k_policies (rt_maps s)) of
      (err, n, P) \<Rightarrow> (Inr (err, n), s\<lparr>rt_maps := (rt_maps s)\<lparr>k_policies := P\<rparr>\<rparr>))"

fun bulk_routes :: "renv \<Rightarrow> (string \<times> nat) list \<Rightarrow> string list \<Rightarrow> error list \<Rightarrow> (router, error list) eff" where
  "bulk_routes R maps [] errs = ret errs"
| "bulk_routes R maps (username # us) errs =
     (case map_of maps username of
        None \<Rightarrow> bulk_routes R maps us errs
      | Some m \<Rightarrow>
          ebind (effective_acl R username) (\<lambda>a.
          ebind (attempt (xdpAddRoute R m a)) (\<lambda>r.
          bulk_routes R maps us (case r of Inl e \<Rightarrow> errs @ [e] | Inr _ \<Rightarrow> errs))))"

definition bulkCreateUserMaps :: "renv \<Rightarrow> UserModel list \<Rightarrow> (router, error list) eff" where
  "bulkCreateUserMaps R users =
     ebind (bulk_users R users \<lparr>bk_pairs = [], bk_maps = [], bk_errors = []\<rparr>) (\<lambda>r. case r of
       Inl errs \<Rightarrow> ret errs
     | Inr b \<Rightarrow>
         ebind (policies_Batch R (bk_pairs b)) (\<lambda>(err, n). case err of
           Some e \<Rightarrow> ret [''policies_table adding new map to table: '' @ e]
         | None \<Rightarrow>
             if n \<noteq> length (bk_pairs b)
             then ret [''batch update could not write all keys to map: expected '' @ show_nat (length (bk_pairs b)) @
                       '' got '' @ show_nat n]
             else bulk_routes R (bk_maps b) (re_order R (map fst (bk_maps b))) (bk_errors b)))"

definition setInactivityTimeout :: "renv \<Rightarrow> int \<Rightarrow> (router, unit) eff" where
  "setInactivityTimeout R inactivityTimeoutMinutes =
     wrap_err (\<lambda>e. ''could not set inactivity timeout: '' @ e)
       (kmap R ''InactivityTimeoutMinutes.Put'' (\<lambda>k. (Inr (), k\<lparr>k_timeout :=
          (if inactivityTimeoutMinutes < 0 then - 1 else minutes inactivityTimeoutMinutes)\<rparr>)))"

definition SetInactivityTimeout :: "renv \<Rightarrow> int \<Rightarrow> (router, unit) eff" where
  "SetInactivityTimeout R inactivityTimeoutMinutes = setInactivityTimeout R inactivityTimeoutMinutes"

definition RefreshConfiguration :: "renv \<Rightarrow> (router, error list) eff" where
  "RefreshConfiguration R =
     on_error
       (ebind (in_store (GetAllUsers (re_etcd R))) (\<lambda>users.
        ebind (in_store (GetSessionInactivityTimeoutMinutes (re_etcd R))) (\<lambda>inactivityTimeoutMinutes.
        ebind (setInactivityTimeout R inactivityTimeoutMinutes) (\<lambda>_.
        bulkCreateUserMaps R users))))
       (\<lambda>e. ret [e])"

end
