(* ===== verification/RouterPeers.thy ===== *)
theory RouterPeers
  imports Router Encodings
begin

text \<open>
  internal/router/wireguard.go, and what of bpf.go involves peers or reads the tables back. A
  public key is its canonical text; \<open>re_parse_key\<close> is \<open>wgtypes.ParseKey\<close>, \<open>re_configure\<close> the
  \<open>ConfigureDevice\<close> of the WireGuard control client, and \<open>re_sys\<close> says which of the other system
  calls fail. The interface is made and deleted by the requests of Netlink.
\<close>

section \<open>Peers\<close>

definition sys :: "renv \<Rightarrow> string \<Rightarrow> ('s, unit) eff" where
  "sys R call = (case re_sys R call of None \<Rightarrow> ret () | Some e \<Rightarrow> raise e)"

definition ParseKey :: "renv \<Rightarrow> string \<Rightarrow> ('s, string) eff" where
  "ParseKey R k = (case re_parse_key R k of Inl e \<Rightarrow> raise e | Inr pk \<Rightarrow> ret pk)"

text \<open>A key whose parse error is not looked at: the zero key when there was one.\<close>

definition zero_key :: string where "zero_key = replicate 43 (CHR ''A'') @ ''=''"

definition key_or_zero :: "renv \<Rightarrow> string \<Rightarrow> string" where
  "key_or_zero R k = (case re_parse_key R k of Inl _ \<Rightarrow> zero_key | Inr pk \<Rightarrow> pk)"

definition ConfigureDevice :: "renv \<Rightarrow> wg_config \<Rightarrow> (router, unit) eff" where
  "ConfigureDevice R c s = (case re_configure R c (rt_wg s) of
      (Inl e, w) \<Rightarrow> (Inl (GoErr e), s\<lparr>rt_wg := w\<rparr>)
    | (Inr _, w) \<Rightarrow> (Inr (), s\<lparr>rt_wg := w\<rparr>))"

definition no_peer :: peer_config where
  "no_peer = \<lparr>pc_PublicKey = zero_key, pc_Remove = False, pc_UpdateOnly = False, pc_ReplaceAllowedIPs = False,
     pc_AllowedIPs = [], pc_PresharedKey = None, pc_Endpoint = None, pc_Keepalive = None\<rparr>"

definition peers_only :: "peer_config list \<Rightarrow> wg_config" where
  "peers_only ps = \<lparr>wc_PrivateKey = None, wc_ListenPort = None, wc_Peers = ps\<rparr>"

definition host_net :: "renv \<Rightarrow> string \<Rightarrow> ipnet option" where
  "host_net R address = map_option snd (ParseCIDR (pe_net (re_parse R)) (address @ ''/32''))"

definition remember_peer :: "string \<Rightarrow> string \<Rightarrow> string \<Rightarrow> router \<Rightarrow> router" where
  "remember_peer username address pk s =
     s\<lparr>rt_u2a := (rt_u2a s)(username \<mapsto> AList.update address pk (case rt_u2a s username of None \<Rightarrow> [] | Some m \<Rightarrow> m)),
       rt_a2u := (rt_a2u s)(address \<mapsto> username)\<rparr>"

text \<open>One device of the start-up loop; an address that is no address is dereferenced as nil.\<close>

fun initial_peers :: "renv \<Rightarrow> Device list \<Rightarrow> peer_config list \<Rightarrow> (router, peer_config list) eff" where
  "initial_peers R [] ps = ret ps"
| "initial_peers R (device # ds) ps =
     (let pk = key_or_zero R (dv_Publickey device);
          psk = (case re_parse_key R (dv_PresharedKey device) of
                   Inr k \<Rightarrow> if dv_PresharedKey device \<noteq> ''unset'' then Some k else None
                 | Inl _ \<Rightarrow> None);
          keepalive = wg_ServerPersistentKeepAlive (cf_Wireguard (re_conf R))
      in case host_net R (dv_Address device) of
           None \<Rightarrow> panic ''nil pointer dereference''
         | Some network \<Rightarrow>
             let pc = no_peer\<lparr>pc_PublicKey := pk, pc_ReplaceAllowedIPs := True, pc_AllowedIPs := [network],
                        pc_PresharedKey := psk,
                        pc_Endpoint := (if dv_AssociatedNode device = GetServerID (re_etcd R) then dv_Endpoint device else None),
                        pc_Keepalive := (if keepalive > 0 then Some keepalive else None)\<rparr>
             in ebind (modify (remember_peer (dv_Username device) (dv_Address device) pk)) (\<lambda>_.
                initial_peers R ds (ps @ [pc])))"

definition setupWireguard :: "renv \<Rightarrow> Device list \<Rightarrow> (router, unit) eff" where
  "setupWireguard R devices =
     (let w = cf_Wireguard (re_conf R) in
      ebind (if wg_External w then ret (peers_only [])
        else
          ebind (wrap_err (\<lambda>e. ''failed to connect to netlink: err: '' @ e) (sys R ''netlink.Dial'')) (\<lambda>_.
          case ParseCIDR (pe_net (re_parse R)) (wg_Address w) of
            None \<Rightarrow> raise ''failed to parse wireguard address: err: invalid CIDR address''
          | Some (ip, network) \<Rightarrow> (case to4 ip of
              None \<Rightarrow> panic ''slice bounds out of range''
            | Some a \<Rightarrow>
                ebind (wrap_err (\<lambda>e. ''failed to create wireguard device: err: '' @ e) 
                  (in_links (addWg (re_netlink R) (wg_DevName w) a (net_ones network) (wg_MTU w)))) (\<lambda>_.
                ebind (wrap_err (\<lambda>e. ''failed to parse wireguard private key: err: '' @ e) (ParseKey R (wg_PrivateKey w))) (\<lambda>key.
                ret \<lparr>wc_PrivateKey = Some key, wc_ListenPort = Some (wg_ListenPort w), wc_Peers = []\<rparr>))))) (\<lambda>c.
      ebind (initial_peers R devices []) (\<lambda>ps.
      ebind (wrap_err (\<lambda>e. ''cannot start wireguard control: err: '' @ e) (sys R ''wgctrl.New'')) (\<lambda>_.
      wrap_err (\<lambda>e. ''cannot configure wireguard device: err: '' @ e)
        (ConfigureDevice R (c\<lparr>wc_Peers := ps\<rparr>))))))"

text \<open>
  Both removals are tried. When only the second fails, the first one's result, which is nil, is
  returned, and the tables keep the peer.
\<close>

definition forget_peer :: "string \<Rightarrow> router \<Rightarrow> router" where
  "forget_peer address s =
     (let user = (case rt_a2u s address of None \<Rightarrow> '''' | Some u \<Rightarrow> u);
          addr = (case rt_u2a s user of None \<Rightarrow> [] | Some m \<Rightarrow> m)
      in s\<lparr>rt_u2a := (rt_u2a s)(user \<mapsto> AList.delete address addr)\<rparr>)"

definition removePeer :: "renv \<Rightarrow> string \<Rightarrow> string \<Rightarrow> (router, unit) eff" where
  "removePeer R publickey address =
     ebind (ParseKey R publickey) (\<lambda>pubkey.
     ebind (attempt (ConfigureDevice R (peers_only [no_peer\<lparr>pc_PublicKey := pubkey, pc_Remove := True\<rparr>]))) (\<lambda>err1.
     ebind (attempt (xdpRemoveDevice R address)) (\<lambda>err2.
     case err1 of Inl e \<Rightarrow> raise e
     | Inr _ \<Rightarrow> (case err2 of Inl _ \<Rightarrow> ret () | Inr _ \<Rightarrow> modify (forget_peer address)))))"

definition RemovePeer :: "renv \<Rightarrow> string \<Rightarrow> string \<Rightarrow> (router, unit) eff" where
  "RemovePeer R publickey address = removePeer R publickey address"

definition ReplacePeer :: "renv \<Rightarrow> Device \<Rightarrow> string \<Rightarrow> (router, unit) eff" where
  "ReplacePeer R device newPublicKey =
     ebind (ParseKey R (dv_Publickey device)) (\<lambda>oldPublicKey.
     ebind (ConfigureDevice R (peers_only [no_peer\<lparr>pc_PublicKey := oldPublicKey, pc_Remove := True\<rparr>])) (\<lambda>_.
     case host_net R (dv_Address device) of
       None \<Rightarrow> raise (''invalid CIDR address: '' @ dv_Address device @ ''/32'')
     | Some network \<Rightarrow>
         ebind (ConfigureDevice R (peers_only [no_peer\<lparr>pc_PublicKey := newPublicKey, pc_ReplaceAllowedIPs := True,
                  pc_AllowedIPs := [network]\<rparr>])) (\<lambda>_ s.
         case rt_u2a s (dv_Username device) of
           None \<Rightarrow> panic ''assignment to entry in nil map'' s
         | Some addrs \<Rightarrow>
             modify (\<lambda>s. s\<lparr>rt_u2a := (rt_u2a s)(dv_Username device \<mapsto> AList.update (dv_Address device) newPublicKey addrs)\<rparr>) s)))"

definition setPeerEndpoint :: "renv \<Rightarrow> Device \<Rightarrow> udp_addr option \<Rightarrow> (router, unit) eff" where
  "setPeerEndpoint R device endpoint =
     ebind (ParseKey R (dv_Publickey device)) (\<lambda>ident.
     ConfigureDevice R (peers_only [no_peer\<lparr>pc_UpdateOnly := True, pc_PublicKey := ident, pc_Endpoint := endpoint\<rparr>]))"

definition ListPeers :: "renv \<Rightarrow> (router, wgdev) eff" where
  "ListPeers R = ebind (sys R ''wgctrl.Device'') (\<lambda>_. gets rt_wg)"

definition AddPeer :: "renv \<Rightarrow> string \<Rightarrow> string \<Rightarrow> string \<Rightarrow> string \<Rightarrow> u64 \<Rightarrow> (router, unit) eff" where
  "AddPeer R public username addresss presharedKey node =
     ebind (ParseKey R presharedKey) (\<lambda>preshared_key.
     case host_net R addresss of
       None \<Rightarrow> raise (''invalid CIDR address: '' @ addresss @ ''/32'')
     | Some network \<Rightarrow>
         ebind (xdpAddDevice R username addresss node) (\<lambda>_.
         ebind (ConfigureDevice R (peers_only [no_peer\<lparr>pc_PublicKey := public, pc_ReplaceAllowedIPs := True,
                  pc_AllowedIPs := [network], pc_PresharedKey := Some preshared_key\<rparr>])) (\<lambda>_.
         modify (remember_peer username addresss public))))"

section \<open>Users and nodes\<close>

definition RemoveUser :: "renv \<Rightarrow> string \<Rightarrow> (router, unit) eff" where
  "RemoveUser R username =
     (let userid = re_sha1 R username in
      ebind (kmap R ''AccountLocked.Delete'' (locked_Delete userid)) (\<lambda>_.
      ebind (on_error (kmap R ''PoliciesTable.Delete'' (policies_Delete userid))
        (\<lambda>e. if contains e ErrKeyNotExist then ret () else raise (''removing user from policies table failed: '' @ e))) (\<lambda>_.
      ebind (modify (\<lambda>s. s\<lparr>rt_user_maps := (rt_user_maps s)(userid := None)\<rparr>)) (\<lambda>_.
      ebind (gets (\<lambda>s. (addresses_of R username s, case rt_u2a s username of None \<Rightarrow> [] | Some m \<Rightarrow> m))) (\<lambda>(as, m).
      for_each (\<lambda>address. on_error (removePeer R (the (map_of m address)) address) (\<lambda>_. ret ())) as)))))"

definition UpdateNodeAssociation :: "renv \<Rightarrow> Device \<Rightarrow> (router, unit) eff" where
  "UpdateNodeAssociation R device =
     ebind (setPeerEndpoint R device
       (if dv_AssociatedNode device = GetServerID (re_etcd R) then dv_Endpoint device else None)) (\<lambda>_.
     ebind (case ipv4_of R (dv_Address device) of None \<Rightarrow> raise ''can't marshal key'' | Some ip \<Rightarrow> dev_key ip) (\<lambda>a.
     ebind (kmap R ''Devices.LookupBytes'' (devices_LookupBytes a)) (\<lambda>deviceBytes.
     ebind (lift (fwentry_Unpack deviceBytes)) (\<lambda>deviceStruct.
     kmap R ''Devices.Update'' (devices_UpdateExist a
       (fwentry_Bytes (deviceStruct\<lparr>associatedNode := dv_AssociatedNode device\<rparr>)))))))"

section \<open>Start-up\<close>

definition empty_maps :: kmaps where
  "empty_maps = \<lparr>k_devices = Map.empty, k_locked = Map.empty, k_policies = Map.empty, k_inner = (\<lambda>_. []),
     k_node = 0, k_timeout = 0\<rparr>"

definition loadXDP :: "renv \<Rightarrow> (router, unit) eff" where
  "loadXDP R =
     ebind (sys R ''RemoveMemlock'') (\<lambda>_.
     ebind (wrap_err (\<lambda>e. ''loading spec: '' @ e) (sys R ''loadBpf'')) (\<lambda>_.
     ebind (wrap_err (\<lambda>e. ''loading objects: '' @ e)
       (kmap R ''LoadAndAssign'' (\<lambda>k. (Inr (), empty_maps)))) (\<lambda>_.
     ebind (wrap_err (\<lambda>e. ''could not set node id: '' @ e)
       (kmap R ''NodeId.Put'' (\<lambda>k. (Inr (), k\<lparr>k_node := GetServerID (re_etcd R)\<rparr>)))) (\<lambda>_.
     ebind (in_store (GetSessionInactivityTimeoutMinutes (re_etcd R))) (\<lambda>n.
     wrap_err (\<lambda>e. ''could not set inactivity timeout: '' @ e)
       (kmap R ''InactivityTimeoutMinutes.Put'' (\<lambda>k. (Inr (), k\<lparr>k_timeout := (if n < 0 then - 1 else minutes n)\<rparr>))))))))"

text \<open>Five attempts on a busy interface; when the last one is busy too, the loop just ends.\<close>

fun attach_loop :: "renv \<Rightarrow> nat \<Rightarrow> nat \<Rightarrow> ('s, unit) eff" where
  "attach_loop R 0 i = ret ()"
| "attach_loop R (Suc n) i = (case re_attach R i of
      None \<Rightarrow> ret ()
    | Some e \<Rightarrow> if contains e ''device or resource busy'' then attach_loop R n (Suc i)
                else raise (''could not attach XDP program: '' @ e))"

definition attachXDP :: "renv \<Rightarrow> (router, unit) eff" where
  "attachXDP R =
     ebind (wrap_err (\<lambda>e. ''lookup network iface '' @ wg_DevName (cf_Wireguard (re_conf R)) @ '': '' @ e)
       (sys R ''InterfaceByName'')) (\<lambda>_. attach_loop R 5 0)"

definition setupXDP :: "renv \<Rightarrow> UserModel list \<Rightarrow> Device list \<Rightarrow> (router, unit) eff" where
  "setupXDP R users knownDevices =
     ebind (loadXDP R) (\<lambda>_.
     ebind (attachXDP R) (\<lambda>_.
     ebind (bulkCreateUserMaps R users) (\<lambda>errs.
     if errs \<noteq> [] then raise (errors_text errs)
     else for_each (\<lambda>device. wrap_err (\<lambda>e. ''xdp setup add device to user: '' @ e)
            (xdpAddDevice R (dv_Username device) (dv_Address device) (dv_AssociatedNode device))) knownDevices)))"

text \<open>
  \<open>Setup\<close> up to the start of the event listeners; the endpoint watcher is in RouterEvents. The
  deferred teardown is declared after the last step that can fail, so it never runs.
\<close>

definition Setup :: "renv \<Rightarrow> bool \<Rightarrow> (router, unit) eff" where
  "Setup R iptables =
     ebind (wrap_err (\<lambda>e. ''xdp setup get all users and devices: '' @ e) (in_store (GetInitialData (re_etcd R)))) (\<lambda>(initialUsers, knownDevices).
     ebind (setupWireguard R knownDevices) (\<lambda>_.
     ebind (if iptables then in_fw (setupIptables (re_ipt R) (re_conf R)) else ret ()) (\<lambda>_.
     setupXDP R initialUsers knownDevices)))"

definition TearDown :: "renv \<Rightarrow> (router, unit) eff" where
  "TearDown R =
     ebind (attempt (sys R ''netlink.Dial'')) (\<lambda>r. case r of Inl _ \<Rightarrow> ret () | Inr _ \<Rightarrow>
     ebind (attempt (in_links (delWg (re_netlink R) (wg_DevName (cf_Wireguard (re_conf R)))))) (\<lambda>r. case r of Inl _ \<Rightarrow> ret () | Inr _ \<Rightarrow>
     in_fw (teardownIptables (re_ipt R) (re_conf R))))"

section \<open>Reading the tables back\<close>

fun show_hex :: "nat \<Rightarrow> string" where
  "show_hex n = (if n < 16 then [hex_digit n] else show_hex (n div 16) @ [hex_digit (n mod 16)])"

declare show_hex.simps [simp del]

definition GetRoutes :: "renv \<Rightarrow> string \<Rightarrow> (router, string list) eff" where
  "GetRoutes R username =
     ebind (attempt (kmap R ''PoliciesTable.Lookup'' (policies_Lookup (re_sha1 R username)))) (\<lambda>r. case r of
       Inl _ \<Rightarrow> ret []
     | Inr innerMapID \<Rightarrow>
         ebind (wrap_err (\<lambda>e. ''map from id: '' @ e) (kmap R ''NewMapFromID'' (inner_Entries innerMapID))) (\<lambda>entries.
         ret (re_order R (remdups (map (\<lambda>(k, _). Key_String k) entries)))))"

record fwDevice =
  fd_LastPacketTimestamp :: u64
  fd_Expiry :: u64
  fd_IP :: string
  fd_Authorized :: bool
  fd_AssociatedNode :: string

record FirewallRules =
  fr_Policies :: "string list"
  fr_Devices :: "fwDevice list"
  fr_AccountLocked :: u32

definition no_rules_yet :: FirewallRules where
  "no_rules_yet = \<lparr>fr_Policies = [], fr_Devices = [], fr_AccountLocked = 0\<rparr>"

text \<open>The policies before the first stop marker; without a marker none at all.\<close>

definition actual_policies :: "Policy list \<Rightarrow> Policy list" where
  "actual_policies ps = (if list_ex (\<lambda>p. PolicyType p = STOP) (take MAX_POLICIES ps)
     then takeWhile (\<lambda>p. PolicyType p \<noteq> STOP) ps else [])"

definition rule_text :: "Key \<Rightarrow> Policy list \<Rightarrow> string" where
  "rule_text k ps = Key_String k @ '' policy ['' @ join_str '' '' (map Policy_String (actual_policies ps)) @ '']''"

text \<open>
  One entry of the device table. The record of a user is only stored at the end, so an entry whose
  account or policies cannot be read is left out. The lookup of the account's lock writes into the
  copy of the record.
\<close>

definition rules_of_device :: "renv \<Rightarrow> u64 \<Rightarrow> (string \<times> string) list \<Rightarrow> ip4 \<Rightarrow> (string \<times> FirewallRules) list \<Rightarrow>
    (router, (string \<times> FirewallRules) list) eff" where
  "rules_of_device R now hashToUsername a result =
     ebind (gets (\<lambda>s. case k_devices (rt_maps s) a of None \<Rightarrow> [] | Some d \<Rightarrow> d)) (\<lambda>deviceBytes.
     ebind (lift (fwentry_Unpack deviceBytes)) (\<lambda>deviceStruct.
     case map_of hashToUsername (hex_encode (user_id deviceStruct)) of
       None \<Rightarrow> ret result
     | Some res \<Rightarrow>
         ebind (isAuthed R now (ip4_string a)) (\<lambda>authorized.
         let fwRule = (case map_of result res of None \<Rightarrow> no_rules_yet | Some x \<Rightarrow> x);
             fwRule = fwRule\<lparr>fr_Devices := fr_Devices fwRule @ [\<lparr>fd_LastPacketTimestamp = lastPacketTime deviceStruct,
               fd_Expiry = sessionExpiry deviceStruct, fd_IP = ip4_string a, fd_Authorized = authorized,
               fd_AssociatedNode = show_hex (unat (associatedNode deviceStruct)) @ '' ('' @ show_nat (unat (associatedNode deviceStruct)) @ '')''\<rparr>]\<rparr>
         in ebind (attempt (kmap R ''AccountLocked.Lookup'' (locked_Lookup (user_id deviceStruct)))) (\<lambda>r. case r of
              Inl _ \<Rightarrow> ret result
            | Inr locked \<Rightarrow>
                let fwRule = fwRule\<lparr>fr_AccountLocked := locked\<rparr> in
                ebind (attempt (kmap R ''PoliciesTable.Lookup'' (policies_Lookup (user_id deviceStruct)))) (\<lambda>r. case r of
                  Inl _ \<Rightarrow> ret (AList.update res fwRule result)
                | Inr m \<Rightarrow>
                    ebind (attempt (kmap R ''NewMapFromID'' (inner_Entries m))) (\<lambda>r. case r of
                      Inl _ \<Rightarrow> ret result
                    | Inr entries \<Rightarrow>
                        ret (AList.update res (fwRule\<lparr>fr_Policies := map (\<lambda>(k, ps). rule_text k ps) entries\<rparr>) result)))))))"

fun rules_of_devices :: "renv \<Rightarrow> u64 \<Rightarrow> (string \<times> string) list \<Rightarrow> ip4 list \<Rightarrow> (string \<times> FirewallRules) list \<Rightarrow>
    (router, (string \<times> FirewallRules) list) eff" where
  "rules_of_devices R now h [] result = ret result"
| "rules_of_devices R now h (a # as) result =
     ebind (rules_of_device R now h a result) (\<lambda>result. rules_of_devices R now h as result)"

definition GetRules :: "renv \<Rightarrow> u64 \<Rightarrow> (router, (string \<times> FirewallRules) list) eff" where
  "GetRules R now =
     ebind (wrap_err (\<lambda>e. ''fw rule get all users: '' @ e) (in_store (GetAllUsers (re_etcd R)))) (\<lambda>users.
     let hashToUsername = rev (map (\<lambda>u. (hex_encode (re_sha1 R (um_Username u)), um_Username u)) users) in
     ebind (gets (\<lambda>s. re_iter R (rt_maps s))) (\<lambda>as.
     ebind (rules_of_devices R now hashToUsername as []) (\<lambda>result.
     ebind (sys R ''Devices.Iterate'') (\<lambda>_. ret result))))"

end
