(* ===== verification/RouterEvents.thy ===== *)
theory RouterEvents
  imports RouterPeers
begin

text \<open>
  internal/router/statemachine.go, with what surrounds it: the decoding and the error report of a
  watch event (internal/data/events.go), the challenge over the device's websocket
  (session_manager.go), and one round of the endpoint watcher (init.go). A moment holds what the
  outside answers while one event is handled: the kernel clock, the wall clock, and how each use of
  the websocket of the device goes; successive readings are numbered.
\<close>

datatype EventType = CREATED | DELETED | MODIFIED

record wsconn =
  ws_SetWriteDeadline :: "error option"
  ws_WriteJSON :: "error option"
  ws_SetReadDeadline :: "error option"
  ws_ReadJSON :: "error + string"

record moment =
  mo_stamp :: "nat \<Rightarrow> u64"
  mo_wall :: "nat \<Rightarrow> int"
  mo_ws :: "nat \<Rightarrow> wsconn option"

section \<open>The challenge\<close>

definition ws_call :: "error option \<Rightarrow> ('s, unit) eff" where
  "ws_call r = (case r of None \<Rightarrow> ret () | Some e \<Rightarrow> raise e)"

text \<open>Durations are 64-bit nanoseconds.\<close>

definition Challenge :: "renv \<Rightarrow> int \<Rightarrow> wsconn option \<Rightarrow> string \<Rightarrow> (router, unit) eff" where
  "Challenge R now conn address = (case conn of
      None \<Rightarrow> raise (''no connection found for device: '' @ address)
    | Some c \<Rightarrow>
        ebind (ws_call (ws_SetWriteDeadline c)) (\<lambda>_.
        ebind (ws_call (ws_WriteJSON c)) (\<lambda>_.
        ebind (ws_call (ws_SetReadDeadline c)) (\<lambda>_.
        ebind (case ws_ReadJSON c of Inl e \<Rightarrow> raise e | Inr m \<Rightarrow> ret m) (\<lambda>msg.
        ebind (wrap_err (\<lambda>e. ''failed to get device address for ws challenge: '' @ e)
          (in_store (GetDeviceByAddress (re_etcd R) address))) (\<lambda>deviceDetails.
        ebind (wrap_err (\<lambda>e. ''failed max lifetime: '' @ e)
          (in_store (GetSessionLifetimeMinutes (re_etcd R)))) (\<lambda>maxLifetimeMinutes.
        if now > dv_Authorised deviceDetails + wrap64 (maxLifetimeMinutes * 60000000000)
        then raise ''challenge came from expired session''
        else if dv_Challenge deviceDetails \<noteq> msg then raise ''challenge does not match''
        else ret ())))))))"

text \<open>Up to \<open>n\<close> attempts; the result is the last error.\<close>

fun try_challenge :: "renv \<Rightarrow> moment \<Rightarrow> string \<Rightarrow> nat \<Rightarrow> nat \<Rightarrow> error option \<Rightarrow> (router, error option) eff" where
  "try_challenge R M address i 0 err = ret err"
| "try_challenge R M address i (Suc n) err =
     ebind (attempt (Challenge R (mo_wall M i) (mo_ws M i) address)) (\<lambda>r. case r of
       Inr _ \<Rightarrow> ret None
     | Inl e \<Rightarrow> try_challenge R M address (Suc i) n (Some e))"

section \<open>Events\<close>

definition goip_string :: "renv \<Rightarrow> goip option \<Rightarrow> string" where
  "goip_string R a = (case a of None \<Rightarrow> '''' | Some (V4 b) \<Rightarrow> ip4_string b | Some (V6 b) \<Rightarrow> re_ip6 R b)"

definition udp_string :: "renv \<Rightarrow> udp_addr option \<Rightarrow> string" where
  "udp_string R a = (case a of None \<Rightarrow> ''<nil>'' | Some u \<Rightarrow>
     let host = goip_string R (ua_IP u) @ (if ua_Zone u = '''' then '''' else CHR ''%'' # ua_Zone u)
     in (if CHR '':'' \<in> set host then ''['' @ host @ '']'' else host) @ '':'' @ show_int (ua_Port u))"

definition inactivityTimeoutChanges :: "renv \<Rightarrow> int \<Rightarrow> EventType \<Rightarrow> (router, unit) eff" where
  "inactivityTimeoutChanges R current et =
     (if et = DELETED then ret ()
      else wrap_err (\<lambda>e. ''unable to set inactivity timeout: '' @ e) (SetInactivityTimeout R current))"

text \<open>
  The five parts of the handler of a changed device, in order. The condition of the third groups as
  Go reads it: an explicit deauthorisation counts whether or not the device is authorised. Times
  are compared as instants; the location that Go's comparison of two times also looks at is left out.
\<close>

definition replace_step :: "renv \<Rightarrow> Device \<Rightarrow> Device \<Rightarrow> (router, unit) eff" where
  "replace_step R current previous =
     (if dv_Publickey current \<noteq> dv_Publickey previous
      then wrap_err (\<lambda>e. ''failed to replace peer pub key: '' @ e)
             (ReplacePeer R previous (key_or_zero R (dv_Publickey current)))
      else ret ())"

definition challenge_step :: "renv \<Rightarrow> moment \<Rightarrow> Device \<Rightarrow> Device \<Rightarrow> (router, unit) eff" where
  "challenge_step R M current previous =
     ebind (if udp_string R (dv_Endpoint current) \<noteq> udp_string R (dv_Endpoint previous)
            then isAuthed R (mo_stamp M 0) (dv_Address current) else ret False) (\<lambda>moved.
     if \<not> moved then ret ()
     else ebind (try_challenge R M (dv_Address current) 0 3 None) (\<lambda>err. case err of
        None \<Rightarrow> ret ()
      | Some _ \<Rightarrow> wrap_err (\<lambda>e. ''cannot deauthenticate device '' @ dv_Address current @ '': '' @ e)
                    (deauthenticate R (dv_Address current))))"

definition lockout_step :: "renv \<Rightarrow> moment \<Rightarrow> int \<Rightarrow> Device \<Rightarrow> (router, unit) eff" where
  "lockout_step R M lockout current =
     ebind (isAuthed R (mo_stamp M 1) (dv_Address current)) (\<lambda>authed.
     if authed \<and> dv_Attempts current > lockout \<or> dv_Authorised current = 0
     then wrap_err (\<lambda>e. ''cannot deauthenticate device '' @ dv_Address current @ '': '' @ e)
            (deauthenticate R (dv_Address current))
     else ret ())"

definition node_step :: "renv \<Rightarrow> Device \<Rightarrow> Device \<Rightarrow> (router, unit) eff" where
  "node_step R current previous =
     (if dv_AssociatedNode current \<noteq> dv_AssociatedNode previous
      then wrap_err (\<lambda>e. ''cannot change device node association '' @ dv_Address current @ '':'' @ dv_Username current @ '': '' @ e)
             (UpdateNodeAssociation R current)
      else ret ())"

definition authorise_step :: "renv \<Rightarrow> moment \<Rightarrow> int \<Rightarrow> Device \<Rightarrow> Device \<Rightarrow> (router, unit) eff" where
  "authorise_step R M lockout current previous =
     (if dv_Authorised current \<noteq> dv_Authorised previous \<and> dv_Authorised current \<noteq> 0 \<and>
         dv_Attempts current \<le> lockout \<and> dv_AssociatedNode current = dv_AssociatedNode previous
      then wrap_err (\<lambda>e. ''cannot authorize device '' @ dv_Address current @ '': '' @ e)
             (SetAuthorized R (mo_stamp M 2) (mo_stamp M 3) (dv_Address current) (dv_Username current) (dv_AssociatedNode current))
      else ret ())"

definition deviceChanges :: "renv \<Rightarrow> moment \<Rightarrow> Device \<Rightarrow> Device \<Rightarrow> EventType \<Rightarrow> (router, unit) eff" where
  "deviceChanges R M current previous et = (case et of
      DELETED \<Rightarrow> wrap_err (\<lambda>e. ''unable to remove peer: '' @ dv_Address current @ '': err: '' @ e)
        (RemovePeer R (dv_Publickey current) (dv_Address current))
    | CREATED \<Rightarrow> wrap_err (\<lambda>e. ''unable to create peer: '' @ dv_Address current @ '': err: '' @ e)
        (AddPeer R (key_or_zero R (dv_Publickey current)) (dv_Username current) (dv_Address current)
           (dv_PresharedKey current) (dv_AssociatedNode current))
    | MODIFIED \<Rightarrow>
        ebind (replace_step R current previous) (\<lambda>_.
        ebind (wrap_err (\<lambda>e. ''cannot get lockout: '' @ e) (in_store (GetLockout (re_etcd R)))) (\<lambda>lockout.
        ebind (challenge_step R M current previous) (\<lambda>_.
        ebind (lockout_step R M lockout current) (\<lambda>_.
        ebind (node_step R current previous) (\<lambda>_.
        authorise_step R M lockout current previous))))))"

definition membershipChanges :: "renv \<Rightarrow> string \<Rightarrow> EventType \<Rightarrow> (router, unit) eff" where
  "membershipChanges R key et =
     (if et = DELETED then ret ()
      else wrap_err (\<lambda>e. ''could not refresh acls: '' @ e) (RefreshUserAcls R (trim_prefix key (MembershipKey @ ''-''))))"

definition userChanges :: "renv \<Rightarrow> UserModel \<Rightarrow> UserModel \<Rightarrow> EventType \<Rightarrow> (router, unit) eff" where
  "userChanges R current previous et = (case et of
      CREATED \<Rightarrow>
        ebind (effective_acl R (um_Username current)) (\<lambda>newUserAcls.
        wrap_err (\<lambda>e. ''cannot create user '' @ um_Username current @ '': '' @ e)
          (AddUser R (um_Username current) newUserAcls))
    | DELETED \<Rightarrow> wrap_err (\<lambda>e. ''cannot remove user '' @ um_Username current @ '': '' @ e)
        (RemoveUser R (um_Username current))
    | MODIFIED \<Rightarrow>
        ebind (if um_Locked current \<noteq> um_Locked previous \<or> um_Locked current
               then wrap_err (\<lambda>e. ''cannot lock user '' @ um_Username current @ '': '' @ e)
                      (SetLockAccount R (um_Username current) (if um_Locked current then 1 else 0))
               else ret ()) (\<lambda>_.
        if um_Mfa current \<noteq> um_Mfa previous \<or> um_MfaType current \<noteq> um_MfaType previous \<or>
           \<not> um_Enforcing current \<or> um_MfaType current = ''unset''
        then wrap_err (\<lambda>e. ''cannot deauthenticate user '' @ um_Username current @ '': '' @ e)
               (DeauthenticateAllDevices R (um_Username current))
        else ret ()))"

definition aclsChanges :: "renv \<Rightarrow> (router, unit) eff" where
  "aclsChanges R =
     ebind (RefreshConfiguration R) (\<lambda>errs.
     if errs \<noteq> [] then raise (''failed to refresh configuration: '' @ errors_text errs) else ret ())"

definition groupChanges :: "renv \<Rightarrow> string list \<Rightarrow> (router, unit) eff" where
  "groupChanges R current =
     for_each (\<lambda>username. wrap_err (\<lambda>e. ''failed to refresh acls for user '' @ username @ '': '' @ e)
       (RefreshUserAcls R username)) current"

section \<open>Watching the store\<close>

record watch_event =
  we_delete :: bool
  we_key :: string
  we_value :: gvalue
  we_prev :: "gvalue option"

text \<open>
  The body of a listener: the type of the event, the two values, then the handler; an event that
  does not decode is skipped, and an error of the handler is raised with the cluster. A deletion
  without the previous value is a nil dereference.
\<close>

definition listener :: "renv \<Rightarrow> (json \<Rightarrow> 'a res) \<Rightarrow> 'a \<Rightarrow> (string \<Rightarrow> 'a \<Rightarrow> 'a \<Rightarrow> EventType \<Rightarrow> (router, unit) eff) \<Rightarrow>
    watch_event \<Rightarrow> (router, unit) eff" where
  "listener R dec zero f ev =
     ebind (if we_delete ev then (case we_prev ev of None \<Rightarrow> panic ''nil pointer dereference'' | Some v \<Rightarrow> ret (DELETED, v))
            else ret (if we_prev ev = None then CREATED else MODIFIED, we_value ev)) (\<lambda>(state, val).
     ebind (attempt (lift (unmarshal dec val))) (\<lambda>r. case r of Inl _ \<Rightarrow> ret () | Inr currentValue \<Rightarrow>
     ebind (attempt (case we_prev ev of None \<Rightarrow> ret zero | Some v \<Rightarrow> lift (unmarshal dec v))) (\<lambda>r. case r of
       Inl _ \<Rightarrow> ret ()
     | Inr previousValue \<Rightarrow>
         on_error (f (we_key ev) currentValue previousValue state)
           (\<lambda>err. on_error (in_store (RaiseError (re_etcd R) (re_host R) err (value_text (re_etcd R) val))) (\<lambda>_. ret ())))))"

text \<open>The listeners that \<open>handleEvents\<close> registers; no key has two of the prefixes.\<close>

definition handleEvents :: "renv \<Rightarrow> moment \<Rightarrow> watch_event \<Rightarrow> (router, unit) eff" where
  "handleEvents R M ev =
     (let k = we_key ev in
      if has_prefix k ''devices-'' then listener R dec_device zero_device (\<lambda>_ c p et. deviceChanges R M c p et) ev
      else if has_prefix k (MembershipKey @ ''-'')
        then listener R dec_strings [] (\<lambda>key _ _ et. membershipChanges R key et) ev
      else if has_prefix k ''users-'' then listener R (dec_user zero_user) zero_user (\<lambda>_ c p et. userChanges R c p et) ev
      else if has_prefix k ''wag-acls-'' then listener R dec_acl zero_acl (\<lambda>_ _ _ _. aclsChanges R) ev
      else if has_prefix k GroupsPrefix then listener R dec_strings [] (\<lambda>_ c _ _. groupChanges R c) ev
      else if has_prefix k InactivityTimeoutKey
        then listener R (dec_or dec_int 0) 0 (\<lambda>_ c _ et. inactivityTimeoutChanges R c et) ev
      else ret ())"

section \<open>The endpoint watcher\<close>

text \<open>One peer: the remembered endpoints by address, as text.\<close>

definition watch_peer :: "renv \<Rightarrow> (string \<rightharpoonup> Device) \<Rightarrow> wg_peer \<Rightarrow> (string \<rightharpoonup> string) \<Rightarrow>
    (router, string \<rightharpoonup> string) eff" where
  "watch_peer R devices p ours = (case wp_AllowedIPs p of
      [n] \<Rightarrow> (case devices (goip_string R (net_ip n)) of
          None \<Rightarrow> ret ours
        | Some device \<Rightarrow>
            let text = udp_string R (wp_Endpoint p); a = dv_Address device;
                ours = (if ours a = None \<or> wp_Endpoint p = None then ours(a \<mapsto> text) else ours)
            in if ours a \<noteq> Some text \<and> wp_Endpoint p \<noteq> None
               then ebind (attempt (in_store (UpdateDeviceConnectionDetails (re_etcd R) (goip_string R (net_ip n)) (wp_Endpoint p))))
                      (\<lambda>_. ret (ours(a \<mapsto> text)))
               else ret ours)
    | _ \<Rightarrow> ret ours)"

fun watch_peers :: "renv \<Rightarrow> (string \<rightharpoonup> Device) \<Rightarrow> wg_peer list \<Rightarrow> (string \<rightharpoonup> string) \<Rightarrow>
    (router, string \<rightharpoonup> string) eff" where
  "watch_peers R devices [] ours = ret ours"
| "watch_peers R devices (p # ps) ours =
     ebind (watch_peer R devices p ours) (\<lambda>ours. watch_peers R devices ps ours)"

definition watch_round :: "renv \<Rightarrow> (string \<rightharpoonup> string) \<Rightarrow> (router, string \<rightharpoonup> string) eff" where
  "watch_round R ours =
     ebind (wrap_err (\<lambda>e. ''endpoint watcher: '' @ e) (ListPeers R)) (\<lambda>dev.
     ebind (wrap_err (\<lambda>e. ''endpoint watcher: failed to retrieve devices from etcd: '' @ e)
       (in_store (GetAllDevicesAsMap (re_etcd R)))) (\<lambda>devices.
     watch_peers R devices (map snd dev) ours))"

end
