(* ===== verification/RouterInv.thy ===== *)
theory RouterInv
  imports RouterEvents
begin

text \<open>
  Invariants of the router, through every operation, event and packet, in any order: the layout of
  what the kernel maps hold, and that no two users share a policy table. The law of the batch update
  is the locale \<open>kernel_batch\<close>.
\<close>

section \<open>Well-formed states\<close>

definition maps_wf :: "kmaps \<Rightarrow> bool" where
  "maps_wf k \<longleftrightarrow> devices_wf k \<and>
     (\<forall>m. distinct (map fst (k_inner k m)) \<and> (\<forall>e \<in> set (k_inner k m). length (snd e) = MAX_POLICIES))"

text \<open>A table belongs to a user in the kernel, in the package's own list, or in a pending batch.\<close>

definition owns :: "(userid \<times> nat) list \<Rightarrow> router \<Rightarrow> userid \<Rightarrow> nat \<Rightarrow> bool" where
  "owns ps s u m \<longleftrightarrow> k_policies (rt_maps s) u = Some m \<or> rt_user_maps s u = Some m \<or> (u, m) \<in> set ps"

definition tables_ok :: "(userid \<times> nat) list \<Rightarrow> router \<Rightarrow> bool" where
  "tables_ok ps s \<longleftrightarrow> (\<forall>u m. owns ps s u m \<longrightarrow> m < rt_next s) \<and>
     (\<forall>u u' m. owns ps s u m \<and> owns ps s u' m \<longrightarrow> u = u')"

definition router_wf :: "(userid \<times> nat) list \<Rightarrow> router \<Rightarrow> bool" where
  "router_wf ps s \<longleftrightarrow> maps_wf (rt_maps s) \<and> cache_shape (rt_parser s) \<and> tables_ok ps s"

locale kernel_batch =
  fixes R :: renv
  assumes batch_sound: "re_batch R pairs P = (err, n, P') \<Longrightarrow>
      P' u = P u \<or> (\<exists>m. (u, m) \<in> set pairs \<and> P' u = Some m)"
    and batch_complete: "re_batch R pairs P = (None, length pairs, P') \<Longrightarrow> distinct (map fst pairs) \<Longrightarrow>
      P' = P ++ map_of pairs"

text \<open>A reference environment: nothing fails, and the batch replaces what is there.\<close>

definition batch_ref :: "(userid \<times> nat) list \<Rightarrow> (userid \<rightharpoonup> nat) \<Rightarrow> error option \<times> nat \<times> (userid \<rightharpoonup> nat)" where
  "batch_ref pairs P = (None, length pairs, P ++ map_of (rev pairs))"

definition apply_peer :: "peer_config \<Rightarrow> wgdev \<Rightarrow> wgdev" where
  "apply_peer p w =
     (let k = pc_PublicKey p; old = map_of w k in
      if pc_Remove p then AList.delete k w
      else if pc_UpdateOnly p \<and> old = None then w
      else
        let q = (case old of None \<Rightarrow> \<lparr>wp_AllowedIPs = [], wp_PresharedKey = None, wp_Endpoint = None\<rparr> | Some q \<Rightarrow> q)
        in AList.update k \<lparr>wp_AllowedIPs = (if pc_ReplaceAllowedIPs p then [] else wp_AllowedIPs q) @ pc_AllowedIPs p,
             wp_PresharedKey = (case pc_PresharedKey p of None \<Rightarrow> wp_PresharedKey q | x \<Rightarrow> x),
             wp_Endpoint = (case pc_Endpoint p of None \<Rightarrow> wp_Endpoint q | x \<Rightarrow> x)\<rparr> w)"

definition renv_ref :: renv where
  "renv_ref = \<lparr>re_conf = demo_config, re_etcd = etcd_ref, re_host = \<lparr>hs_now = 1, hs_random = Inr ''aa'', hs_id = ''1''\<rparr>,
     re_parse = demo_env, re_server = ''10.0.0.1'', re_sha1 = (\<lambda>n. take 20 (map of_char n @ replicate 20 0)),
     re_fault = (\<lambda>_ _. None), re_order = (\<lambda>xs. xs), re_iter = (\<lambda>_. []), re_batch = batch_ref,
     re_attach = (\<lambda>_. None), re_configure = (\<lambda>c w. (Inr (), fold apply_peer (wc_Peers c) w)),
     re_parse_key = Inr, re_sys = (\<lambda>_. None), re_ipt = ipt_ref, re_netlink = netlink_ref, re_ip6 = (\<lambda>_. '''')\<rparr>"

interpretation renv_ref: kernel_batch renv_ref
proof
  fix pairs P err n P' u
  assume "re_batch renv_ref pairs P = (err, n, P')"
  then have P': "P' = P ++ map_of (rev pairs)" by (simp add: renv_ref_def batch_ref_def)
  show "P' u = P u \<or> (\<exists>m. (u, m) \<in> set pairs \<and> P' u = Some m)"
  proof (cases "map_of (rev pairs) u")
    case (Some m)
    then show ?thesis using map_of_SomeD [OF Some] by (simp add: P' map_add_def)
  qed (simp add: P' map_add_def)
next
  fix pairs P P'
  assume r: "re_batch renv_ref pairs P = (None, length pairs, P')" and d: "distinct (map fst pairs)"
  from d have "map_of (rev pairs) = map_of pairs" by (subst map_of_inject_set) (simp_all add: rev_map [symmetric])
  with r show "P' = P ++ map_of pairs" by (simp add: renv_ref_def batch_ref_def)
qed

text \<open>Calls that keep a predicate, whatever their result.\<close>

definition preserves :: "('s \<Rightarrow> bool) \<Rightarrow> ('s, 'a) eff \<Rightarrow> bool" where
  "preserves I m \<longleftrightarrow> triple I m (\<lambda>_. I) I"

named_theorems pres \<open>rules for calls that keep a predicate\<close>

lemma preserves_iff: "preserves I m \<longleftrightarrow> (\<forall>s. I s \<longrightarrow> I (snd (m s)))"
  unfolding preserves_def triple_def by (auto split: sum.splits) (metis obj_sumE prod.collapse)+

lemma preservesD: "preserves I m \<Longrightarrow> I s \<Longrightarrow> m s = (r, t) \<Longrightarrow> I t"
  by (metis preserves_iff snd_conv)

lemma preserves_pure [pres]:
  "preserves I (ret x)" "preserves I (raise e)" "preserves I (panic e)" "preserves I (lift r)" "preserves I (gets f)"
  by (simp_all add: preserves_iff)

lemma preserves_bind [pres]: "preserves I m \<Longrightarrow> (\<And>x. preserves I (f x)) \<Longrightarrow> preserves I (ebind m f)"
  unfolding preserves_def by (rule triple_bind)

lemma preserves_on_error [pres]: "preserves I m \<Longrightarrow> (\<And>e. preserves I (h e)) \<Longrightarrow> preserves I (on_error m h)"
  unfolding preserves_def by (rule triple_on_error)

lemma preserves_wrap [pres]: "preserves I m \<Longrightarrow> preserves I (wrap_err w m)"
  unfolding preserves_def by (rule triple_wrap)

lemma preserves_attempt [pres]: "preserves I m \<Longrightarrow> preserves I (attempt m)"
  by (auto simp: preserves_iff attempt_def split: prod.splits sum.splits fault.splits)

lemma preserves_andthen [pres]: "preserves I m \<Longrightarrow> preserves I n \<Longrightarrow> preserves I (andthen m n)"
  unfolding andthen_def by (intro pres)

lemma preserves_for_each [pres]: "(\<And>x. preserves I (f x)) \<Longrightarrow> preserves I (for_each f xs)"
  unfolding preserves_def by (intro triple_for_each)

lemma preserves_if [pres]: "(b \<Longrightarrow> preserves I m) \<Longrightarrow> (\<not> b \<Longrightarrow> preserves I n) \<Longrightarrow> preserves I (if b then m else n)"
  by simp

lemma preserves_option [pres]:
  "preserves I m \<Longrightarrow> (\<And>y. preserves I (f y)) \<Longrightarrow> preserves I (case x of None \<Rightarrow> m | Some y \<Rightarrow> f y)"
  by (cases x) simp_all

lemma preserves_sum [pres]:
  "(\<And>y. preserves I (f y)) \<Longrightarrow> (\<And>y. preserves I (g y)) \<Longrightarrow> preserves I (case x of Inl y \<Rightarrow> f y | Inr y \<Rightarrow> g y)"
  by (cases x) simp_all

lemma preserves_prod [pres]: "(\<And>y z. preserves I (f y z)) \<Longrightarrow> preserves I (case x of (y, z) \<Rightarrow> f y z)"
  by (cases x) simp

lemma preserves_list [pres]:
  "preserves I m \<Longrightarrow> (\<And>y ys. preserves I (f y ys)) \<Longrightarrow> preserves I (case x of [] \<Rightarrow> m | y # ys \<Rightarrow> f y ys)"
  by (cases x) simp_all

lemma preserves_Let [pres]: "(\<And>x. preserves I (f x)) \<Longrightarrow> preserves I (let x = v in f x)"
  by simp

lemma preserves_modify: "(\<And>s. I s \<Longrightarrow> I (f s)) \<Longrightarrow> preserves I (modify f)"
  by (simp add: preserves_iff)

lemma preserves_zoom: "(\<And>s t. I s \<Longrightarrow> I (put t s)) \<Longrightarrow> preserves I (zoom get put m)"
  by (auto simp: preserves_iff zoom_def split: prod.splits)

lemma preserves_kmap:
  assumes "\<And>s x k. I s \<Longrightarrow> f (rt_maps s) = (Inr x, k) \<Longrightarrow> I (s\<lparr>rt_maps := k\<rparr>)"
  shows "preserves I (kmap R n f)"
  unfolding preserves_iff
proof (intro allI impI)
  fix s assume s: "I s"
  obtain r k where f: "f (rt_maps s) = (r, k)" by (cases "f (rt_maps s)")
  with assms [OF s] s show "I (snd (kmap R n f s))"
    by (cases r) (auto simp: kmap_def split: option.split)
qed

section \<open>The operations on single maps\<close>

lemma router_wf_store [simp]:
  "router_wf ps (s\<lparr>rt_store := x\<rparr>) = router_wf ps s" "router_wf ps (s\<lparr>rt_wg := w\<rparr>) = router_wf ps s"
  "router_wf ps (s\<lparr>rt_fw := y\<rparr>) = router_wf ps s" "router_wf ps (s\<lparr>rt_u2a := z\<rparr>) = router_wf ps s"
  "router_wf ps (s\<lparr>rt_a2u := v\<rparr>) = router_wf ps s" "router_wf ps (s\<lparr>rt_links := l\<rparr>) = router_wf ps s"
  by (simp_all add: router_wf_def tables_ok_def owns_def)

lemma wf_in_store [pres]: "preserves (router_wf ps) (in_store m)"
  and wf_in_fw [pres]: "preserves (router_wf ps) (in_fw n)"
  and wf_in_links [pres]: "preserves (router_wf ps) (in_links l)"
  by (rule preserves_zoom, simp)+

text \<open>A change of the maps that keeps the policy tables' owners.\<close>

lemma router_wf_maps:
  assumes "router_wf ps s" and "maps_wf k" and "k_policies k = k_policies (rt_maps s)"
  shows "router_wf ps (s\<lparr>rt_maps := k\<rparr>)"
  using assms by (simp add: router_wf_def tables_ok_def owns_def)

lemma wf_kmap:
  assumes "\<And>k x k'. maps_wf k \<Longrightarrow> f k = (Inr x, k') \<Longrightarrow> maps_wf k' \<and> k_policies k' = k_policies k"
  shows "preserves (router_wf ps) (kmap R n f)"
proof (rule preserves_kmap)
  fix s x k assume s: "router_wf ps s" and f: "f (rt_maps s) = (Inr x, k)"
  then have "maps_wf k \<and> k_policies k = k_policies (rt_maps s)" using assms by (auto simp: router_wf_def)
  with s show "router_wf ps (s\<lparr>rt_maps := k\<rparr>)" by (simp add: router_wf_maps)
qed

lemma maps_wf_update [simp]:
  "maps_wf (k\<lparr>k_locked := l\<rparr>) = maps_wf k" "maps_wf (k\<lparr>k_policies := p\<rparr>) = maps_wf k"
  "maps_wf (k\<lparr>k_node := n\<rparr>) = maps_wf k" "maps_wf (k\<lparr>k_timeout := t\<rparr>) = maps_wf k"
  by (simp_all add: maps_wf_def devices_wf_def)

lemma maps_wf_put: "maps_wf k \<Longrightarrow> length d = 48 \<Longrightarrow> maps_wf (k\<lparr>k_devices := (k_devices k)(a \<mapsto> d)\<rparr>)"
  unfolding maps_wf_def devices_wf_def by (simp add: ran_def) blast

lemma maps_wf_del: "maps_wf k \<Longrightarrow> maps_wf (k\<lparr>k_devices := (k_devices k)(a := None)\<rparr>)"
  unfolding maps_wf_def devices_wf_def by (simp add: ran_def) blast

lemma maps_wf_inner:
  assumes "maps_wf k" and "distinct (map fst t)" and "\<And>e. e \<in> set t \<Longrightarrow> length (snd e) = MAX_POLICIES"
  shows "maps_wf (k\<lparr>k_inner := (k_inner k)(m := t)\<rparr>)"
  using assms unfolding maps_wf_def devices_wf_def by simp

lemma maps_wf_innerD:
  assumes "maps_wf k"
  shows "distinct (map fst (k_inner k m))" "e \<in> set (k_inner k m) \<Longrightarrow> length (snd e) = MAX_POLICIES"
  using assms unfolding maps_wf_def by blast+

lemma set_update_cases: "e \<in> set (AList.update key v t) \<Longrightarrow> e = (key, v) \<or> e \<in> set t"
  by (induction t) (auto split: if_splits)

lemma set_delete_cases: "e \<in> set (AList.delete key t) \<Longrightarrow> e \<in> set t"
  by (simp add: AList.delete_eq)

lemmas map_ops = devices_LookupBytes_def devices_Lookup_def locked_Lookup_def locked_Put_def locked_Delete_def
  policies_Lookup_def inner_Keys_def inner_Entries_def devices_LookupAndDelete_def devices_Put_def
  devices_UpdateExist_def

lemma wf_single_maps [pres]:
  "preserves (router_wf ps) (kmap R n (devices_LookupBytes a))"
  "preserves (router_wf ps) (kmap R n (devices_Lookup a))"
  "preserves (router_wf ps) (kmap R n (locked_Lookup u))"
  "preserves (router_wf ps) (kmap R n (locked_Put u l))"
  "preserves (router_wf ps) (kmap R n (locked_Delete u))"
  "preserves (router_wf ps) (kmap R n (policies_Lookup u))"
  "preserves (router_wf ps) (kmap R n (inner_Keys m))"
  "preserves (router_wf ps) (kmap R n (inner_Entries m))"
  "preserves (router_wf ps) (kmap R n (devices_LookupAndDelete a))"
  "preserves (router_wf ps) (kmap R n (\<lambda>k. (Inr (), k\<lparr>k_node := i\<rparr>)))"
  "preserves (router_wf ps) (kmap R n (\<lambda>k. (Inr (), k\<lparr>k_timeout := j\<rparr>)))"
  by (rule wf_kmap, auto simp: map_ops maps_wf_del split: option.splits)+

lemma wf_device_writes [pres]:
  "preserves (router_wf ps) (kmap R n (devices_Put a (fwentry_Bytes d)))"
  "preserves (router_wf ps) (kmap R n (devices_UpdateExist a (fwentry_Bytes d)))"
  by (rule wf_kmap, auto simp: map_ops maps_wf_put split: option.splits)+

lemma wf_inner_Delete [pres]: "preserves (router_wf ps) (kmap R n (inner_Delete m key))"
proof (rule wf_kmap)
  fix k x k' assume k: "maps_wf k" and d: "inner_Delete m key k = (Inr x, k')"
  have "maps_wf (k\<lparr>k_inner := (k_inner k)(m := AList.delete key (k_inner k m))\<rparr>)"
    using maps_wf_innerD [OF k] by (intro maps_wf_inner k distinct_delete) (auto dest: set_delete_cases)
  with k d show "maps_wf k' \<and> k_policies k' = k_policies k" by (auto simp: inner_Delete_def split: if_splits)
qed

lemma wf_inner_Put:
  assumes "length v = MAX_POLICIES"
  shows "preserves (router_wf ps) (kmap R n (inner_Put m key v))"
proof (rule wf_kmap)
  fix k x k' assume k: "maps_wf k" and d: "inner_Put m key v k = (Inr x, k')"
  have "maps_wf (k\<lparr>k_inner := (k_inner k)(m := AList.update key v (k_inner k m))\<rparr>)"
    using maps_wf_innerD [OF k] assms by (intro maps_wf_inner k distinct_update) (auto dest!: set_update_cases)
  with k d show "maps_wf k' \<and> k_policies k' = k_policies k" by (auto simp: inner_Put_def)
qed

section \<open>Every operation\<close>

lemma wf_env [pres]: "preserves I (sys R n)" "preserves I (ParseKey R k)" "preserves I (dev_key ip)" "preserves I (ws_call r)"
  unfolding sys_def ParseKey_def dev_key_def ws_call_def by (intro pres)+

lemma wf_isAuthed [pres]: "preserves (router_wf ps) (isAuthed R now a)"
  unfolding isAuthed_def by (intro pres)

lemma wf_xdpRemoveDevice [pres]: "preserves (router_wf ps) (xdpRemoveDevice R a)"
  unfolding xdpRemoveDevice_def by (intro pres)

lemma wf_xdpUserExists [pres]: "preserves (router_wf ps) (xdpUserExists R u)"
  unfolding xdpUserExists_def by (intro pres)

lemma wf_xdpAddDevice [pres]: "preserves (router_wf ps) (xdpAddDevice R u a n)"
  unfolding xdpAddDevice_def by (intro pres)

lemma wf_deauthenticate [pres]: "preserves (router_wf ps) (deauthenticate R a)"
  unfolding deauthenticate_def by (intro pres)

lemma wf_SetLockAccount [pres]: "preserves (router_wf ps) (SetLockAccount R u l)"
  unfolding SetLockAccount_def by (intro pres)

lemma wf_DeauthenticateAllDevices [pres]: "preserves (router_wf ps) (DeauthenticateAllDevices R u)"
  unfolding DeauthenticateAllDevices_def by (intro pres)

lemma wf_SetAuthorized [pres]: "preserves (router_wf ps) (SetAuthorized R n1 n2 a u node)"
  unfolding SetAuthorized_def by (intro pres)

lemma wf_setInactivityTimeout [pres]: "preserves (router_wf ps) (setInactivityTimeout R n)"
  unfolding setInactivityTimeout_def by (intro pres)

lemma wf_clear_keys [pres]: "preserves (router_wf ps) (clear_keys R m ks)"
  by (induction ks; simp only: clear_keys.simps) ((intro pres | assumption)+)

lemma wf_clearPolicyMap [pres]: "preserves (router_wf ps) (clearPolicyMap R m)"
  unfolding clearPolicyMap_def by (intro pres)

lemma wf_effective_acl [pres]: "preserves (router_wf ps) (effective_acl R u)"
  unfolding effective_acl_def by (intro pres)

text \<open>The rules the parser returns fit the tables.\<close>

lemma wf_ParseRules:
  "triple (router_wf ps) (in_parser (ParseRules E mfa public deny))
     (\<lambda>(rules, errs) s. router_wf ps s \<and> (\<forall>x \<in> set rules. rule_shape x)) (router_wf ps)"
proof (rule tripleI)
  fix s r t
  assume s: "router_wf ps s" and z: "in_parser (ParseRules E mfa public deny) s = (r, t)"
  then obtain q where q: "ParseRules E mfa public deny (rt_parser s) = (r, q)" and t: "t = s\<lparr>rt_parser := q\<rparr>"
    by (auto simp: zoom_def split: prod.splits)
  have c: "cache_shape (rt_parser s)" using s by (simp add: router_wf_def)
  have wf: "cache_shape q \<Longrightarrow> router_wf ps t"
    using s t by (simp add: router_wf_def tables_ok_def owns_def)
  show "case r of Inr x \<Rightarrow> (case x of (rules, errs) \<Rightarrow> \<lambda>s. router_wf ps s \<and> (\<forall>x \<in> set rules. rule_shape x)) t
      | Inl e \<Rightarrow> router_wf ps t"
  proof (cases r)
    case (Inl e)
    then show ?thesis using wf tripleD_Inl [OF ParseRules_triple c] q by simp
  next
    case (Inr x)
    obtain rules errs where "x = (rules, errs)" by (cases x)
    then show ?thesis using Inr wf tripleD_Inr [OF ParseRules_triple c] q by auto
  qed
qed

lemma wf_xdpAddRoute [pres]: "preserves (router_wf ps) (xdpAddRoute R m acl)"
proof -
  have put: "preserves (router_wf ps) (for_each (\<lambda>rule. for_each (\<lambda>key. wrap_err w
      (kmap R n (inner_Put m key (Values rule)))) (Keys rule)) rules)"
    if "\<forall>x \<in> set rules. rule_shape x" for rules w n
    unfolding preserves_def
  proof (rule triple_for_each)
    fix rule assume "rule \<in> set rules"
    with that have "length (Values rule) = MAX_POLICIES" by (simp add: rule_shape_def)
    then show "triple (router_wf ps) (for_each (\<lambda>key. wrap_err w (kmap R n (inner_Put m key (Values rule))))
        (Keys rule)) (\<lambda>_. router_wf ps) (router_wf ps)"
      unfolding preserves_def [symmetric] by (intro pres wf_inner_Put)
  qed
  show ?thesis
    unfolding preserves_def xdpAddRoute_def
  proof (rule triple_bind [OF wf_ParseRules])
    fix x :: "Rule list \<times> error list"
    obtain rules errs where x: "x = (rules, errs)" by (cases x)
    show "triple ((case x of (rules, errs) \<Rightarrow> \<lambda>s. router_wf ps s \<and> (\<forall>x \<in> set rules. rule_shape x)))
        (case x of (rules, errs) \<Rightarrow> for_each (\<lambda>rule. for_each (\<lambda>key. wrap_err
          (\<lambda>e. ''error putting route key in inner map: '' @ e)
          (kmap R ''Inner.Put'' (inner_Put m key (Values rule)))) (Keys rule)) rules) (\<lambda>_. router_wf ps) (router_wf ps)"
    proof (rule tripleI)
      fix s r t
      assume "(case x of (rules, errs) \<Rightarrow> \<lambda>s. router_wf ps s \<and> (\<forall>x \<in> set rules. rule_shape x)) s"
        and m: "(case x of (rules, errs) \<Rightarrow> for_each (\<lambda>rule. for_each (\<lambda>key. wrap_err
          (\<lambda>e. ''error putting route key in inner map: '' @ e)
          (kmap R ''Inner.Put'' (inner_Put m key (Values rule)))) (Keys rule)) rules) s = (r, t)"
      then have "router_wf ps s" "\<forall>x \<in> set rules. rule_shape x" by (simp_all add: x)
      with m have "router_wf ps t" by (auto simp: x intro: preservesD [OF put])
      then show "case r of Inr y \<Rightarrow> router_wf ps t | Inl e \<Rightarrow> router_wf ps t" by (cases r) simp_all
    qed
  qed
qed

text \<open>A new table has no owner yet.\<close>

definition unowned :: "(userid \<times> nat) list \<Rightarrow> router \<Rightarrow> nat \<Rightarrow> bool" where
  "unowned ps s m \<longleftrightarrow> m < rt_next s \<and> (\<forall>u. \<not> owns ps s u m)"

lemma wf_NewMap: "triple (router_wf ps) (NewMap R) (\<lambda>m s. router_wf ps s \<and> unowned ps s m) (router_wf ps)"
proof (rule tripleI)
  fix s r t
  assume s: "router_wf ps s" and n: "NewMap R s = (r, t)"
  let ?k = "(rt_maps s)\<lparr>k_inner := (k_inner (rt_maps s))(rt_next s := [])\<rparr>"
  have wf: "router_wf ps (s\<lparr>rt_maps := ?k\<rparr>)"
    using s by (intro router_wf_maps maps_wf_inner) (simp_all add: router_wf_def)
  then have "router_wf ps (s\<lparr>rt_maps := ?k, rt_next := Suc (rt_next s)\<rparr>)"
    by (auto simp: router_wf_def tables_ok_def owns_def less_Suc_eq)
  moreover have "unowned ps (s\<lparr>rt_maps := ?k, rt_next := Suc (rt_next s)\<rparr>) (rt_next s)"
    using s by (auto simp: router_wf_def tables_ok_def owns_def unowned_def)
  ultimately show "case r of Inr m \<Rightarrow> router_wf ps t \<and> unowned ps t m | Inl e \<Rightarrow> router_wf ps t"
    using n s by (auto simp: NewMap_def ebind_def kmap_def split: option.splits)
qed

text \<open>Giving an unowned table to a user, or one of the user's own; taking tables away.\<close>

lemma tables_ok_give:
  assumes "tables_ok ps s" and "owns ps s u m \<or> unowned ps s m" and "rt_next t = rt_next s"
    and "\<And>v n. owns qs t v n \<Longrightarrow> owns ps s v n \<or> v = u \<and> n = m"
  shows "tables_ok qs t"
proof -
  have old: "n < rt_next s" if "owns ps s v n" for v n using assms(1) that by (simp add: tables_ok_def)
  have inj: "v = w" if "owns ps s v n" "owns ps s w n" for v w n
    using assms(1) that unfolding tables_ok_def by blast
  have m: "m < rt_next s" using assms(2) old by (auto simp: unowned_def)
  have u: "v = u" if "owns ps s v m" for v using assms(2) inj that by (auto simp: unowned_def)
  have "n < rt_next t" if "owns qs t v n" for v n using assms(4) [OF that] old m assms(3) by auto
  moreover have "v = w" if "owns qs t v n" "owns qs t w n" for v w n
    using assms(4) [OF that(1)] assms(4) [OF that(2)] inj u by auto
  ultimately show ?thesis unfolding tables_ok_def by blast
qed

lemma wf_give:
  assumes "router_wf ps s" and "owns ps s u m \<or> unowned ps s m"
  shows "router_wf ps (s\<lparr>rt_maps := (rt_maps s)\<lparr>k_policies := (k_policies (rt_maps s))(u \<mapsto> m)\<rparr>\<rparr>)"
    and "router_wf (ps @ [(u, m)]) (s\<lparr>rt_user_maps := (rt_user_maps s)(u \<mapsto> m)\<rparr>)"
    and "router_wf ps (s\<lparr>rt_user_maps := (rt_user_maps s)(u \<mapsto> m)\<rparr>)"
proof -
  have t: "tables_ok ps s" using assms(1) by (simp add: router_wf_def)
  show "router_wf ps (s\<lparr>rt_maps := (rt_maps s)\<lparr>k_policies := (k_policies (rt_maps s))(u \<mapsto> m)\<rparr>\<rparr>)"
    using assms(1) by (auto simp: router_wf_def owns_def split: if_splits intro!: tables_ok_give [OF t assms(2)])
  show "router_wf (ps @ [(u, m)]) (s\<lparr>rt_user_maps := (rt_user_maps s)(u \<mapsto> m)\<rparr>)"
    using assms(1) by (auto simp: router_wf_def owns_def split: if_splits intro!: tables_ok_give [OF t assms(2)])
  show "router_wf ps (s\<lparr>rt_user_maps := (rt_user_maps s)(u \<mapsto> m)\<rparr>)"
    using assms(1) by (auto simp: router_wf_def owns_def split: if_splits intro!: tables_ok_give [OF t assms(2)])
qed

lemma tables_ok_less:
  assumes "tables_ok ps s" and "rt_next t = rt_next s" and "\<And>v n. owns qs t v n \<Longrightarrow> owns ps s v n"
  shows "tables_ok qs t"
  using assms unfolding tables_ok_def by (metis (no_types))

lemma wf_forget:
  "router_wf ps s \<Longrightarrow> router_wf ps (s\<lparr>rt_maps := (rt_maps s)\<lparr>k_policies := (k_policies (rt_maps s))(u := None)\<rparr>\<rparr>)"
  "router_wf ps s \<Longrightarrow> router_wf ps (s\<lparr>rt_user_maps := (rt_user_maps s)(u := None)\<rparr>)"
  "router_wf ps s \<Longrightarrow> router_wf [] s"
  by (auto simp: router_wf_def owns_def split: if_splits elim!: tables_ok_less)

lemma wf_create_table [pres]: "preserves (router_wf ps) (create_table R u)"
  unfolding preserves_def create_table_def
proof (rule triple_bind [OF triple_wrap [OF wf_NewMap]])
  fix m
  let ?n = "''PoliciesTable.Update''"
  let ?O = "\<lambda>s. router_wf ps s \<and> owns ps s u m"
  have ins: "triple (\<lambda>s. router_wf ps s \<and> unowned ps s m) (kmap R ?n (policies_Insert u m)) (\<lambda>_. ?O) (router_wf ps)"
  proof (rule tripleI)
    fix s r t
    assume s: "router_wf ps s \<and> unowned ps s m" and k: "kmap R ?n (policies_Insert u m) s = (r, t)"
    have "owns ps (s\<lparr>rt_maps := (rt_maps s)\<lparr>k_policies := (k_policies (rt_maps s))(u \<mapsto> m)\<rparr>\<rparr>) u m"
      by (simp add: owns_def)
    with s k wf_give(1) [of ps s u m] show "case r of Inr x \<Rightarrow> ?O t | Inl e \<Rightarrow> router_wf ps t"
      by (auto simp: kmap_def policies_Insert_def split: option.splits)
  qed
  show "triple (\<lambda>s. router_wf ps s \<and> unowned ps s m)
      (ebind (wrap_err (\<lambda>e. ''policies_table adding new map to table: '' @ e) (kmap R ?n (policies_Insert u m))) (\<lambda>_.
       ebind (modify (\<lambda>s. s\<lparr>rt_user_maps := (rt_user_maps s)(u \<mapsto> m)\<rparr>)) (\<lambda>_. ret m))) (\<lambda>_. router_wf ps) (router_wf ps)"
    by (rule triple_bind [OF triple_wrap [OF ins]]) (auto simp: triple_def ebind_def dest: wf_give(3))
qed

lemma wf_setSingleUserMap [pres]: "preserves (router_wf ps) (setSingleUserMap R u acl)"
proof -
  have "preserves (router_wf ps) (\<lambda>s. case rt_user_maps s u of Some m \<Rightarrow> (Inr m, s) | None \<Rightarrow> create_table R u s)"
    using wf_create_table [of ps R u] by (auto simp: preserves_iff split: option.split)
  then show ?thesis unfolding setSingleUserMap_def by (intro pres)
qed

lemma wf_RefreshUserAcls [pres]: "preserves (router_wf ps) (RefreshUserAcls R u)"
  unfolding RefreshUserAcls_def by (intro pres)

lemma wf_u2a [pres]: "preserves (router_wf ps) (modify (\<lambda>s. s\<lparr>rt_u2a := f s\<rparr>))"
  by (simp add: preserves_iff)

lemma wf_AddUser [pres]: "preserves (router_wf ps) (AddUser R u acl)"
  unfolding AddUser_def by (intro pres)

lemma wf_refill [pres]: "preserves (router_wf ps) (refill R u m)"
  unfolding refill_def by (intro pres)

section \<open>Filling all tables at once\<close>

definition bulk_ok :: "error list + bulk \<Rightarrow> router \<Rightarrow> bool" where
  "bulk_ok r s \<longleftrightarrow> (case r of Inl _ \<Rightarrow> router_wf [] s | Inr b \<Rightarrow> router_wf (bk_pairs b) s)"

lemma bulk_ok_sum: "bulk_ok (Inr b) = router_wf (bk_pairs b)" "triple (bulk_ok (Inl es)) (ret (Inl es)) bulk_ok X"
  by (auto simp: bulk_ok_def triple_def)

lemma pres_triple: "preserves (router_wf ps) m \<Longrightarrow> triple (router_wf ps) m (\<lambda>_. router_wf ps) (router_wf [])"
  unfolding preserves_def by (erule triple_weaken) (auto dest: wf_forget(3))

lemma wf_new_table: "triple (router_wf (bk_pairs b)) (new_table R user b) bulk_ok (router_wf [])"
proof -
  let ?u = "re_sha1 R (um_Username user)"
  have early: "triple (router_wf ps) (ret (Inl es)) bulk_ok (router_wf [])" for ps es
    by (auto simp: triple_def bulk_ok_def dest: wf_forget(3))
  have give: "triple (\<lambda>s. router_wf (bk_pairs b) s \<and> unowned (bk_pairs b) s m)
      (ebind (modify (\<lambda>s. s\<lparr>rt_user_maps := (rt_user_maps s)(?u \<mapsto> m)\<rparr>)) (\<lambda>_.
        ret (Inr (b\<lparr>bk_pairs := bk_pairs b @ [(?u, m)], bk_maps := M\<rparr>)))) bulk_ok (router_wf [])" for m M
    by (auto simp: triple_def ebind_def bulk_ok_def intro: wf_give(2))
  have map: "triple (router_wf (bk_pairs b)) (attempt (NewMap R))
      (\<lambda>r s. case r of Inl _ \<Rightarrow> router_wf (bk_pairs b) s | Inr m \<Rightarrow> router_wf (bk_pairs b) s \<and> unowned (bk_pairs b) s m)
      (router_wf [])"
    by (rule triple_weaken [OF triple_attempt [OF wf_NewMap [of "bk_pairs b"]]]) (auto split: sum.splits dest: wf_forget(3))
  show ?thesis
    unfolding new_table_def Let_def
  proof (rule triple_bind [OF pres_triple], intro pres, goal_cases)
    case (1 r)
    show ?case
      by (cases r) (auto simp: early give split: sum.split intro!: triple_bind [OF map])
  qed
qed

lemma bk_pairs_add_error [simp]: "bk_pairs (add_error err b) = bk_pairs b"
  by (simp add: add_error_def split: option.split)

lemma wf_bulk_users: "triple (router_wf (bk_pairs b)) (bulk_users R users b) bulk_ok (router_wf [])"
proof (induction users arbitrary: b)
  case Nil
  show ?case by (simp add: triple_def bulk_ok_def)
next
  case (Cons user users)
  have tab: "triple (router_wf (bk_pairs b)) (ebind (new_table R user b) (\<lambda>r. case r of
      Inl errs \<Rightarrow> ret (Inl errs) | Inr b \<Rightarrow> bulk_users R users b)) bulk_ok (router_wf [])" for b
  proof (rule triple_bind [OF wf_new_table])
    fix r show "triple (bulk_ok r) (case r of Inl errs \<Rightarrow> ret (Inl errs) | Inr b \<Rightarrow> bulk_users R users b) bulk_ok (router_wf [])"
      using Cons.IH by (cases r) (simp_all add: bulk_ok_sum)
  qed
  show ?case
    unfolding bulk_users.simps
    by (intro triple_bind [OF pres_triple] pres)
       (use Cons.IH [of "add_error _ b"] tab [of "add_error _ b"] in \<open>auto split: prod.split\<close>)
qed

lemma wf_bulk_routes [pres]: "preserves (router_wf ps) (bulk_routes R maps us errs)"
  by (induction us arbitrary: errs; simp only: bulk_routes.simps) ((intro pres | assumption)+)

context kernel_batch
begin

lemma wf_Batch: "triple (router_wf ps) (policies_Batch R ps) (\<lambda>_. router_wf []) (router_wf [])"
proof (rule tripleI)
  fix s r t
  assume s: "router_wf ps s" and m: "policies_Batch R ps s = (r, t)"
  obtain err n P where b: "re_batch R ps (k_policies (rt_maps s)) = (err, n, P)"
    by (cases "re_batch R ps (k_policies (rt_maps s))") auto
  with m have t: "t = s\<lparr>rt_maps := (rt_maps s)\<lparr>k_policies := P\<rparr>\<rparr>" by (auto simp: policies_Batch_def)
  have "owns [] t v m \<Longrightarrow> owns ps s v m" for v m
    using batch_sound [OF b, of v] by (auto simp: t owns_def)
  then have "tables_ok [] t" using s t by (auto simp: router_wf_def intro: tables_ok_less)
  with s t have "router_wf [] t" by (simp add: router_wf_def)
  then show "case r of Inr x \<Rightarrow> router_wf [] t | Inl e \<Rightarrow> router_wf [] t" by (cases r) simp_all
qed

lemma wf_bulkCreateUserMaps [pres]: "preserves (router_wf []) (bulkCreateUserMaps R users)"
  unfolding preserves_def bulkCreateUserMaps_def
proof (rule triple_bind [where Q = bulk_ok])
  show "triple (router_wf []) (bulk_users R users \<lparr>bk_pairs = [], bk_maps = [], bk_errors = []\<rparr>) bulk_ok (router_wf [])"
    using wf_bulk_users [of "\<lparr>bk_pairs = [], bk_maps = [], bk_errors = []\<rparr>" R users] by simp
next
  fix r
  show "triple (bulk_ok r) (case r of Inl errs \<Rightarrow> ret errs
     | Inr b \<Rightarrow> ebind (policies_Batch R (bk_pairs b)) (\<lambda>(err, n). case err of
           Some e \<Rightarrow> ret [''policies_table adding new map to table: '' @ e]
         | None \<Rightarrow> if n \<noteq> length (bk_pairs b)
             then ret [''batch update could not write all keys to map: expected '' @ show_nat (length (bk_pairs b)) @
                       '' got '' @ show_nat n]
             else bulk_routes R (bk_maps b) (re_order R (map fst (bk_maps b))) (bk_errors b)))
     (\<lambda>_. router_wf []) (router_wf [])"
  proof (cases r)
    case (Inl e)
    then show ?thesis by (auto simp: triple_def bulk_ok_def)
  next
    case (Inr b)
    show ?thesis
      unfolding Inr sum.case bulk_ok_sum
      by (rule triple_bind [OF wf_Batch], fold preserves_def, intro pres)
  qed
qed

lemma wf_RefreshConfiguration [pres]: "preserves (router_wf []) (RefreshConfiguration R)"
  unfolding RefreshConfiguration_def by (intro pres)

end

section \<open>Peers and start-up\<close>

lemma wf_ConfigureDevice [pres]: "preserves (router_wf ps) (ConfigureDevice R c)"
  by (auto simp: preserves_iff ConfigureDevice_def split: prod.splits sum.splits)

lemma wf_modify_peers [pres]:
  "preserves (router_wf ps) (modify (forget_peer a))"
  "preserves (router_wf ps) (modify (remember_peer u a pk))"
  "preserves (router_wf ps) (modify (\<lambda>s. s\<lparr>rt_user_maps := (rt_user_maps s)(v := None)\<rparr>))"
  by (auto simp: preserves_iff forget_peer_def remember_peer_def Let_def dest: wf_forget(2))

lemma wf_removePeer [pres]: "preserves (router_wf ps) (removePeer R pk a)"
  unfolding removePeer_def by (intro pres)

lemma wf_ReplacePeer [pres]: "preserves (router_wf ps) (ReplacePeer R d pk)"
proof -
  have upd: "preserves (router_wf ps) (\<lambda>s. case rt_u2a s u of
      None \<Rightarrow> panic ''assignment to entry in nil map'' s
    | Some addrs \<Rightarrow> modify (\<lambda>s. s\<lparr>rt_u2a := (rt_u2a s)(u \<mapsto> AList.update a pk addrs)\<rparr>) s)" for u a pk
    by (auto simp: preserves_iff panic_def split: option.split)
  show ?thesis
    unfolding ReplacePeer_def by (intro pres) (use upd in \<open>simp add: preserves_iff\<close>)
qed

lemma wf_setPeerEndpoint [pres]: "preserves (router_wf ps) (setPeerEndpoint R d e)"
  unfolding setPeerEndpoint_def by (intro pres)

lemma wf_AddPeer [pres]: "preserves (router_wf ps) (AddPeer R pk u a k n)"
  unfolding AddPeer_def by (intro pres)

lemma wf_policies_Delete [pres]: "preserves (router_wf ps) (kmap R n (policies_Delete u))"
  by (rule preserves_kmap) (auto simp: policies_Delete_def dest: wf_forget(1) split: option.splits)

lemma wf_RemoveUser [pres]: "preserves (router_wf ps) (RemoveUser R u)"
  unfolding RemoveUser_def by (intro pres)

lemma wf_UpdateNodeAssociation [pres]: "preserves (router_wf ps) (UpdateNodeAssociation R d)"
  unfolding UpdateNodeAssociation_def by (intro pres)

lemma wf_initial_peers [pres]: "preserves (router_wf ps) (initial_peers R ds qs)"
  by (induction ds arbitrary: qs; simp only: initial_peers.simps Let_def) ((intro pres | assumption)+)

lemma wf_setupWireguard [pres]: "preserves (router_wf ps) (setupWireguard R ds)"
  unfolding setupWireguard_def by (intro pres)

lemma wf_empty_maps: "maps_wf empty_maps"
  by (simp add: maps_wf_def devices_wf_def empty_maps_def)

lemma wf_LoadAndAssign [pres]: "preserves (router_wf ps) (kmap R n (\<lambda>k. (Inr (), empty_maps)))"
proof (rule preserves_kmap)
  fix s and x :: unit and k assume "router_wf ps s" "(Inr (), empty_maps) = (Inr x :: error + unit, k)"
  then show "router_wf ps (s\<lparr>rt_maps := k\<rparr>)"
    using wf_empty_maps by (auto simp: router_wf_def owns_def empty_maps_def elim!: tables_ok_less)
qed

lemma wf_loadXDP [pres]: "preserves (router_wf ps) (loadXDP R)"
  unfolding loadXDP_def by (intro pres)

lemma wf_attachXDP [pres]: "preserves (router_wf ps) (attachXDP R)"
proof -
  have "preserves (router_wf ps) (attach_loop R n i)" for n i
    by (induction n arbitrary: i; simp only: attach_loop.simps) ((intro pres | assumption)+)
  then show ?thesis unfolding attachXDP_def by (intro pres)
qed

lemma wf_SetInactivityTimeout [pres]: "preserves (router_wf ps) (SetInactivityTimeout R n)"
  unfolding SetInactivityTimeout_def by (intro pres)

lemma wf_RemovePeer [pres]: "preserves (router_wf ps) (RemovePeer R pk a)"
  unfolding RemovePeer_def by (intro pres)

lemma wf_TearDown [pres]: "preserves (router_wf ps) (TearDown R)"
  unfolding TearDown_def by (intro pres)

section \<open>Events\<close>

lemma wf_Challenge [pres]: "preserves (router_wf ps) (Challenge R now conn a)"
  unfolding Challenge_def by (intro pres)

lemma wf_try_challenge [pres]: "preserves (router_wf ps) (try_challenge R M a i n err)"
  by (induction n arbitrary: i err; simp only: try_challenge.simps) ((intro pres | assumption)+)

lemma wf_deviceChanges [pres]: "preserves (router_wf ps) (deviceChanges R M c p et)"
  unfolding deviceChanges_def replace_step_def challenge_step_def lockout_step_def node_step_def authorise_step_def
  by (cases et; simp only: EventType.case) (intro pres)+

lemma wf_membershipChanges [pres]: "preserves (router_wf ps) (membershipChanges R key et)"
  unfolding membershipChanges_def by (intro pres)

lemma wf_userChanges [pres]: "preserves (router_wf ps) (userChanges R c p et)"
  unfolding userChanges_def by (cases et; simp only: EventType.case) (intro pres)+

lemma wf_groupChanges [pres]: "preserves (router_wf ps) (groupChanges R us)"
  unfolding groupChanges_def by (intro pres)

lemma wf_inactivityTimeoutChanges [pres]: "preserves (router_wf ps) (inactivityTimeoutChanges R n et)"
  unfolding inactivityTimeoutChanges_def by (intro pres)

lemma wf_listener:
  assumes "\<And>k c p et. preserves (router_wf ps) (f k c p et)"
  shows "preserves (router_wf ps) (listener R dec zero f ev)"
  unfolding listener_def by (intro pres assms)

lemma wf_watch_peer [pres]: "preserves (router_wf ps) (watch_peer R ds p ours)"
  unfolding watch_peer_def Let_def by (intro pres)

lemma wf_watch_round [pres]: "preserves (router_wf ps) (watch_round R ours)"
proof -
  have "preserves (router_wf ps) (watch_peers R ds qs ours)" for ds qs ours
    by (induction qs arbitrary: ours; simp only: watch_peers.simps) ((intro pres | assumption)+)
  then show ?thesis unfolding watch_round_def ListPeers_def by (intro pres)
qed

context kernel_batch
begin

lemma wf_Setup [pres]: "preserves (router_wf []) (Setup R iptables)"
  unfolding Setup_def setupXDP_def by (intro pres)

lemma wf_handleEvents [pres]: "preserves (router_wf []) (handleEvents R M ev)"
proof -
  have acls: "preserves (router_wf []) (aclsChanges R)" unfolding aclsChanges_def by (intro pres)
  show ?thesis unfolding handleEvents_def Let_def by (intro pres wf_listener acls)
qed

end

section \<open>Reachable states\<close>

text \<open>
  What a running server goes through: set-up, events, packets, rounds of the endpoint watcher, other
  members writing to the store, tear-down; the environment may be another one at each step.
\<close>

inductive router_reach :: "(trie \<Rightarrow> ip4 \<Rightarrow> Policy list option) \<Rightarrow> router \<Rightarrow> bool" for lookup where
  start: "rt_maps s = empty_maps \<Longrightarrow> rt_user_maps s = Map.empty \<Longrightarrow> globalCache (rt_parser s) = Map.empty \<Longrightarrow>
    router_reach lookup s"
| set_up: "router_reach lookup s \<Longrightarrow> kernel_batch R \<Longrightarrow> Setup R b s = (r, t) \<Longrightarrow> router_reach lookup t"
| event: "router_reach lookup s \<Longrightarrow> kernel_batch R \<Longrightarrow> handleEvents R M ev s = (r, t) \<Longrightarrow> router_reach lookup t"
| packet: "router_reach lookup s \<Longrightarrow> xdp_wag_firewall lookup now (rt_maps s) data = (v, k) \<Longrightarrow>
    router_reach lookup (s\<lparr>rt_maps := k\<rparr>)"
| watch: "router_reach lookup s \<Longrightarrow> watch_round R ours s = (q, t) \<Longrightarrow> router_reach lookup t"
| others: "router_reach lookup s \<Longrightarrow> router_reach lookup (s\<lparr>rt_store := x\<rparr>)"
| teardown: "router_reach lookup s \<Longrightarrow> TearDown R s = (r, t) \<Longrightarrow> router_reach lookup t"

lemma wf_packet:
  assumes "router_wf ps s" and "xdp_wag_firewall lookup now (rt_maps s) data = (v, k)"
  shows "router_wf ps (s\<lparr>rt_maps := k\<rparr>)"
proof -
  have p: "packet_step now (rt_maps s) k" using xdp_step [of now "rt_maps s" lookup data] assms(2) by simp
  have "maps_wf k"
    using packet_step_wf [OF p] packet_step_keeps [OF p] assms(1) by (auto simp: maps_wf_def router_wf_def)
  then show ?thesis using router_wf_maps [OF assms(1)] packet_step_keeps(3) [OF p] by simp
qed

lemma router_reach_wf:
  assumes "router_reach lookup s"
  shows "router_wf [] s"
  using assms
proof (induction rule: router_reach.induct)
  case (start s)
  then show ?case
    using wf_empty_maps by (auto simp: router_wf_def tables_ok_def owns_def empty_maps_def cache_shape_def)
next
  case (set_up s R b r t)
  then show ?case using preservesD [OF kernel_batch.wf_Setup] by blast
next
  case (event s R M ev r t)
  then show ?case using preservesD [OF kernel_batch.wf_handleEvents] by blast
next
  case (packet s now data v k)
  then show ?case using wf_packet by blast
next
  case (watch s R ours q t)
  then show ?case using preservesD [OF wf_watch_round] by blast
next
  case (teardown s R r t)
  then show ?case using preservesD [OF wf_TearDown] by blast
qed simp

section \<open>The layout of the maps\<close>

text \<open>C14
  Whatever the order of set-up, events, packets and tear-down, and whichever calls fail on the way,
  the kernel maps hold values of the layout that both sides rely on: every device entry unpacks into
  a record whose fields are the ones the kernel program reads, every policy table has each key once,
  with a value of exactly 128 policies, and every table a user has is one that was created.
\<close>

theorem router_typed:
  assumes "router_reach lookup s"
  shows "(\<forall>a d. k_devices (rt_maps s) a = Some d \<longrightarrow> (\<exists>e. fwentry_Unpack d = Inr e \<and> user_id e = dev_user d \<and>
        sessionExpiry e = dev_expiry d \<and> lastPacketTime e = dev_last d \<and> associatedNode e = dev_node d)) \<and>
    (\<forall>m key v. (key, v) \<in> set (k_inner (rt_maps s) m) \<longrightarrow>
        length v = MAX_POLICIES \<and> map_of (k_inner (rt_maps s) m) key = Some v) \<and>
    (\<forall>u m. k_policies (rt_maps s) u = Some m \<longrightarrow> m < rt_next s)"
proof -
  have wf: "maps_wf (rt_maps s)" "tables_ok [] s" using router_reach_wf [OF assms] by (simp_all add: router_wf_def)
  have "\<exists>e. fwentry_Unpack d = Inr e \<and> user_id e = dev_user d \<and> sessionExpiry e = dev_expiry d \<and>
      lastPacketTime e = dev_last d \<and> associatedNode e = dev_node d" if "k_devices (rt_maps s) a = Some d" for a d
  proof -
    have "length d = 48" using wf(1) that by (auto simp: maps_wf_def devices_wf_def ran_def)
    then show ?thesis
      by (simp add: fwentry_Unpack_def dev_user_def dev_expiry_def dev_last_def dev_node_def)
  qed
  moreover have "length v = MAX_POLICIES \<and> map_of (k_inner (rt_maps s) m) key = Some v"
    if "(key, v) \<in> set (k_inner (rt_maps s) m)" for m key v
    using maps_wf_innerD(1) [OF wf(1), of m] maps_wf_innerD(2) [OF wf(1) that] that by simp
  moreover have "m < rt_next s" if "k_policies (rt_maps s) u = Some m" for u m
    using wf(2) that by (auto simp: tables_ok_def owns_def)
  ultimately show ?thesis by blast
qed

text \<open>A server that has just learned of a user.\<close>

definition first_state :: router where
  "first_state = \<lparr>rt_maps = empty_maps, rt_user_maps = Map.empty, rt_next = 0, rt_u2a = Map.empty, rt_a2u = Map.empty,
     rt_wg = [], rt_parser = empty_pstate, rt_store = no_store, rt_fw = \<lparr>fw_rules = (\<lambda>_. []), fw_policy = (\<lambda>_. '''')\<rparr>, rt_links = []\<rparr>"

definition first_event :: watch_event where
  "first_event = \<lparr>we_delete = False, we_key = ''users-ann'', we_value = Json (enc_user zero_user), we_prev = None\<rparr>"

definition quiet_moment :: moment where
  "quiet_moment = \<lparr>mo_stamp = (\<lambda>_. 0), mo_wall = (\<lambda>_. 0), mo_ws = (\<lambda>_. None)\<rparr>"

lemma second_state_reached:
  "router_reach lpm_lookup (snd (handleEvents renv_ref quiet_moment first_event first_state))"
proof (rule router_reach.event)
  show "router_reach lpm_lookup first_state" by (rule router_reach.start) (simp_all add: first_state_def empty_pstate_def)
  show "kernel_batch renv_ref" by (rule renv_ref.kernel_batch_axioms)
  show "handleEvents renv_ref quiet_moment first_event first_state =
      (fst (handleEvents renv_ref quiet_moment first_event first_state),
       snd (handleEvents renv_ref quiet_moment first_event first_state))" by simp
qed

end
