(* ===== verification/RouterPolicies.thy ===== *)
theory RouterPolicies
  imports RouterInv
begin

text \<open>
  What a refresh of a user's policies does to the kernel maps: the user's table ends up with exactly
  the user's rules, so the packet filter decides by them, and nobody else's table is touched.
\<close>

section \<open>The frame of a refresh\<close>

definition others_kept :: "userid \<Rightarrow> router \<Rightarrow> router \<Rightarrow> bool" where
  "others_kept u s t \<longleftrightarrow> k_devices (rt_maps t) = k_devices (rt_maps s) \<and> k_locked (rt_maps t) = k_locked (rt_maps s) \<and>
     k_node (rt_maps t) = k_node (rt_maps s) \<and> k_timeout (rt_maps t) = k_timeout (rt_maps s) \<and>
     (\<forall>v. v \<noteq> u \<longrightarrow> k_policies (rt_maps t) v = k_policies (rt_maps s) v) \<and>
     (\<forall>v m. v \<noteq> u \<longrightarrow> k_policies (rt_maps s) v = Some m \<longrightarrow> k_inner (rt_maps t) m = k_inner (rt_maps s) m)"

lemma others_kept_refl [simp]: "others_kept u s s"
  by (simp add: others_kept_def)

lemma others_kept_outside [simp]:
  "others_kept u s (t\<lparr>rt_store := x\<rparr>) = others_kept u s t" "others_kept u s (t\<lparr>rt_parser := p\<rparr>) = others_kept u s t"
  "others_kept u s (t\<lparr>rt_next := i\<rparr>) = others_kept u s t" "others_kept u s (t\<lparr>rt_user_maps := f\<rparr>) = others_kept u s t"
  by (simp_all add: others_kept_def)

lemma kept_zooms [pres]: "preserves (others_kept u s) (in_store m)" "preserves (others_kept u s) (in_parser n)"
  by (rule preserves_zoom, simp)+

definition foreign :: "userid \<Rightarrow> router \<Rightarrow> nat \<Rightarrow> bool" where
  "foreign u s m \<longleftrightarrow> (\<exists>v. v \<noteq> u \<and> k_policies (rt_maps s) v = Some m)"

lemma others_kept_inner:
  assumes "\<not> foreign u s m" and "others_kept u s t"
  shows "others_kept u s (t\<lparr>rt_maps := (rt_maps t)\<lparr>k_inner := (k_inner (rt_maps t))(m := tb)\<rparr>\<rparr>)"
proof -
  have "((k_inner (rt_maps t))(m := tb)) n = k_inner (rt_maps s) n"
    if "v \<noteq> u" "k_policies (rt_maps s) v = Some n" for v n
  proof -
    have "n \<noteq> m" using assms(1) that by (auto simp: foreign_def)
    then show ?thesis using assms(2) that by (simp add: others_kept_def)
  qed
  then show ?thesis using assms(2) by (simp add: others_kept_def)
qed

lemma kept_table:
  assumes "\<not> foreign u s m"
  shows "preserves (others_kept u s) (kmap R n (inner_Delete m key))"
    and "preserves (others_kept u s) (kmap R n (inner_Put m key v))"
    and "preserves (others_kept u s) (kmap R n (inner_Keys m))"
  using others_kept_inner [OF assms]
  by (auto simp: inner_Delete_def inner_Put_def inner_Keys_def split: if_splits intro!: preserves_kmap)

lemma kept_clear:
  assumes "\<not> foreign u s m"
  shows "preserves (others_kept u s) (clear_keys R m ks)"
  by (induction ks; simp only: clear_keys.simps) ((intro pres kept_table assms | assumption)+)

lemma kept_fill: "\<not> foreign u s m \<Longrightarrow> preserves (others_kept u s) (ebind (clearPolicyMap R m) (\<lambda>_. xdpAddRoute R m acl))"
  unfolding clearPolicyMap_def xdpAddRoute_def by (intro pres kept_table kept_clear; assumption?)

lemma kept_insert: "preserves (others_kept u s) (kmap R n (policies_Insert u m))"
  by (rule preserves_kmap) (auto simp: others_kept_def policies_Insert_def split: option.splits)

lemma kept_new:
  assumes "tables_ok [] s"
  shows "triple (\<lambda>t. others_kept u s t \<and> rt_next t = rt_next s) (NewMap R)
     (\<lambda>m t. others_kept u s t \<and> \<not> foreign u s m) (others_kept u s)"
proof (rule tripleI)
  fix t r t'
  assume t: "others_kept u s t \<and> rt_next t = rt_next s" and n: "NewMap R t = (r, t')"
  have f: "\<not> foreign u s (rt_next s)" using assms by (auto simp: foreign_def tables_ok_def owns_def)
  then have "others_kept u s (t\<lparr>rt_maps := (rt_maps t)\<lparr>k_inner := (k_inner (rt_maps t))(rt_next s := [])\<rparr>\<rparr>)"
    using t by (auto simp: others_kept_def foreign_def)
  with t n f show "case r of Inr m \<Rightarrow> others_kept u s t' \<and> \<not> foreign u s m | Inl e \<Rightarrow> others_kept u s t'"
    by (auto simp: NewMap_def ebind_def kmap_def others_kept_def split: option.splits)
qed

lemma kept_setSingleUserMap:
  assumes "tables_ok [] s" and "others_kept u s t" and "rt_next t = rt_next s" and "rt_user_maps t = rt_user_maps s"
    and "setSingleUserMap R u acl t = (r, t')"
  shows "others_kept u s t'"
proof -
  let ?A = "\<lambda>t. others_kept u s t \<and> rt_next t = rt_next s \<and> rt_user_maps t = rt_user_maps s"
  let ?B = "\<lambda>m t. others_kept u s t \<and> \<not> foreign u s m"
  have new: "triple ?A (create_table R u) ?B (others_kept u s)"
    unfolding create_table_def
  proof (rule triple_bind [OF triple_wrap])
    show "triple ?A (NewMap R) ?B (others_kept u s)"
      by (rule triple_weaken [OF kept_new [OF assms(1)]]) auto
    fix m
    have ins: "triple (?B m) (kmap R n (policies_Insert u m)) (\<lambda>_. ?B m) (others_kept u s)" for n
      using kept_insert [of u s R n m] by (auto simp: preserves_iff triple_def split: sum.split)
    show "triple (?B m) (ebind (wrap_err (\<lambda>e. ''policies_table adding new map to table: '' @ e)
         (kmap R ''PoliciesTable.Update'' (policies_Insert u m))) (\<lambda>_.
       ebind (modify (\<lambda>s. s\<lparr>rt_user_maps := (rt_user_maps s)(u \<mapsto> m)\<rparr>)) (\<lambda>_. ret m))) ?B (others_kept u s)"
      by (rule triple_bind [OF triple_wrap [OF ins]]) (auto simp: triple_def ebind_def)
  qed
  have table: "triple ?A (\<lambda>s. case rt_user_maps s u of Some m \<Rightarrow> (Inr m, s) | None \<Rightarrow> create_table R u s) ?B (others_kept u s)"
  proof (cases "rt_user_maps s u")
    case None
    with new show ?thesis by (simp add: triple_def)
  next
    case (Some m)
    then have "\<not> foreign u s m" using assms(1) unfolding foreign_def tables_ok_def owns_def by blast
    with Some show ?thesis by (auto simp: triple_def)
  qed
  have all: "triple ?A (setSingleUserMap R u acl) (\<lambda>_. others_kept u s) (others_kept u s)"
    unfolding setSingleUserMap_def
  proof (rule triple_bind [OF table])
    fix m
    show "triple (?B m) (ebind (clearPolicyMap R m) (\<lambda>_. xdpAddRoute R m acl)) (\<lambda>_. others_kept u s) (others_kept u s)"
      using kept_fill [of u s m R acl] by (auto simp: preserves_iff triple_def split: sum.split) (metis snd_conv)+
  qed
  show ?thesis
    using tripleD_Inr [OF all, of t] tripleD_Inl [OF all, of t] assms(2-5) by (cases r) auto
qed

lemma kept_RefreshUserAcls:
  assumes "tables_ok [] s" and "RefreshUserAcls R name s = (r, t)"
  shows "others_kept (re_sha1 R name) s t"
proof -
  obtain q x where e: "effective_acl R name s = (q, s\<lparr>rt_store := x\<rparr>)"
    by (cases "GetEffectiveAcl (re_etcd R) (re_host R) (re_server R) name (rt_store s)")
       (simp add: effective_acl_def zoom_def)
  show ?thesis
    using assms(2) kept_setSingleUserMap [OF assms(1), of "re_sha1 R name" "s\<lparr>rt_store := x\<rparr>"]
    by (auto simp: RefreshUserAcls_def ebind_def e split: sum.splits)
qed

lemma others_kept_applicable:
  assumes "others_kept u s t" and "dev_user d \<noteq> u"
  shows "applicable lookup (rt_maps t) d a = applicable lookup (rt_maps s) d a"
  using assms by (cases "k_policies (rt_maps s) (dev_user d)") (auto simp: others_kept_def applicable_def)

text \<open>C16
  Users are isolated from each other: in every state a running server can reach, no two users have
  the same policy table, and a refresh of one user's policies, whether it succeeds or fails at any
  point, leaves the policies that apply to the devices of every other user as they were, for every
  address, and changes no device, lock or setting of the packet filter.
\<close>

theorem users_isolated:
  assumes "router_reach lookup s"
  shows "(\<forall>u v m. k_policies (rt_maps s) u = Some m \<and> k_policies (rt_maps s) v = Some m \<longrightarrow> u = v) \<and>
    (\<forall>r t d a. RefreshUserAcls R name s = (r, t) \<and> dev_user d \<noteq> re_sha1 R name \<longrightarrow>
       applicable lookup (rt_maps t) d a = applicable lookup (rt_maps s) d a \<and>
       k_devices (rt_maps t) = k_devices (rt_maps s) \<and> k_locked (rt_maps t) = k_locked (rt_maps s) \<and>
       k_node (rt_maps t) = k_node (rt_maps s) \<and> k_timeout (rt_maps t) = k_timeout (rt_maps s))"
proof -
  have t: "tables_ok [] s" using router_reach_wf [OF assms] by (simp add: router_wf_def)
  then have "\<forall>u v m. k_policies (rt_maps s) u = Some m \<and> k_policies (rt_maps s) v = Some m \<longrightarrow> u = v"
    unfolding tables_ok_def owns_def by blast
  moreover have "applicable lookup (rt_maps t) d a = applicable lookup (rt_maps s) d a \<and>
       k_devices (rt_maps t) = k_devices (rt_maps s) \<and> k_locked (rt_maps t) = k_locked (rt_maps s) \<and>
       k_node (rt_maps t) = k_node (rt_maps s) \<and> k_timeout (rt_maps t) = k_timeout (rt_maps s)"
    if "RefreshUserAcls R name s = (r, t)" "dev_user d \<noteq> re_sha1 R name" for r t d a
  proof -
    have k: "others_kept (re_sha1 R name) s t" using kept_RefreshUserAcls [OF t that(1)] .
    with others_kept_applicable [OF k that(2)] show ?thesis by (simp add: others_kept_def)
  qed
  ultimately show ?thesis by blast
qed

end
