(* ===== verification/RouterEnforce.thy ===== *)
theory RouterEnforce
  imports RouterPolicies
begin

text \<open>
  From a user's access list to the verdict on a packet: after a successful refresh the kernel's
  table for the user holds the rules of the list and nothing else, so the packet filter decides by
  the policies of the longest rule that covers the other end.
\<close>

section \<open>The rules of an access list\<close>

definition acl_rules :: "net_env \<Rightarrow> Acl \<Rightarrow> (Key \<times> Policy list) list" where
  "acl_rules N acl = rule_list N (acl_Mfa acl) (acl_Allow acl) (acl_Deny acl)"

text \<open>The rule keys that cover an address best, and the policies in force there.\<close>

definition best_key :: "(Key \<times> Policy list) list \<Rightarrow> ip4 \<Rightarrow> Key \<Rightarrow> bool" where
  "best_key rules a k \<longleftrightarrow> k \<in> fst ` set rules \<and> key_matches k a \<and>
     (\<forall>k' \<in> fst ` set rules. key_matches k' a \<longrightarrow> Prefixlen k' \<le> Prefixlen k)"

definition canonical :: "Key \<Rightarrow> bool" where
  "canonical k \<longleftrightarrow> mask_ip4 (unat (Prefixlen k)) (KeyIP k) = KeyIP k"

text \<open>What is asked of an access list: addresses written out, networks in canonical form, at most 127 policies for each.\<close>

definition acl_fits :: "net_env \<Rightarrow> Acl \<Rightarrow> bool" where
  "acl_fits N acl \<longleftrightarrow> rules_literal N (acl_Mfa acl) (acl_Allow acl) (acl_Deny acl) \<and>
     (\<forall>k \<in> fst ` set (acl_rules N acl). canonical k \<and> length (policies_for k (acl_rules N acl)) < MAX_POLICIES)"

lemma best_key_unique:
  assumes "best_key rules a k" and "best_key rules a k'" and "canonical k" and "canonical k'"
  shows "k = k'"
proof -
  have p: "Prefixlen k = Prefixlen k'"
    using assms(1,2) unfolding best_key_def by (meson order_antisym)
  moreover have "KeyIP k = KeyIP k'"
    using assms p unfolding best_key_def canonical_def key_matches_def net_contains_def by metis
  ultimately show ?thesis by (cases k; cases k') simp
qed

lemma or_SINGLE_RANGE: "t OR SINGLE \<noteq> STOP" "t OR RANGE \<noteq> STOP" for t :: u16
proof -
  have "t OR n \<noteq> 0" if "n \<noteq> 0" for n
  proof
    assume "t OR n = 0"
    moreover have "n AND (t OR n) = n" by (rule word_ao_absorbs)
    ultimately have "n AND 0 = n" by (simp only:)
    with that show False by simp
  qed
  then show "t OR SINGLE \<noteq> STOP" "t OR RANGE \<noteq> STOP" by (simp_all add: policy_consts)
qed

lemma service_not_stop: "service_policy t f = Inr p \<Longrightarrow> PolicyType p \<noteq> STOP"
  by (auto simp: service_policy_def rbind_eq_Inr parseService_def parseSinglePort_def parsePortRange_def Let_def
      or_SINGLE_RANGE split: if_splits option.splits)

lemma rmap_mem: "rmap f xs = Inr ys \<Longrightarrow> y \<in> set ys \<Longrightarrow> \<exists>x \<in> set xs. f x = Inr y"
  by (induction xs arbitrary: ys) (auto simp: rbind_eq_Inr)

lemma literal_not_stop:
  assumes "parse_literal N t r = Some (k, ps)" and "p \<in> set ps"
  shows "PolicyType p \<noteq> STOP"
  using assms service_not_stop
  by (auto simp: parse_literal_def rule_policies_def or_SINGLE_RANGE split: list.splits option.splits sum.splits if_splits
      dest!: rmap_mem)

lemma literals_not_stop:
  assumes "all_literal N t rs" and "(k, ps) \<in> set (literals N t rs)" and "p \<in> set ps"
  shows "PolicyType p \<noteq> STOP"
  using assms literal_not_stop by (fastforce simp: all_literal_def literals_def)

lemma policies_for_mem: "p \<in> set (policies_for k rs) \<Longrightarrow> \<exists>ps. (k, ps) \<in> set rs \<and> p \<in> set ps"
  by (induction rs) (auto split: if_splits)

lemma policies_not_stop:
  assumes "acl_fits N acl" and "p \<in> set (policies_for k (acl_rules N acl))"
  shows "PolicyType p \<noteq> STOP"
proof -
  obtain ps where "(k, ps) \<in> set (acl_rules N acl)" "p \<in> set ps" using policies_for_mem [OF assms(2)] by blast
  then show ?thesis
    using assms(1) literals_not_stop [of N 0 "sort (acl_Mfa acl)" k ps p]
      literals_not_stop [of N PUBLIC "sort (acl_Allow acl)" k ps p] literals_not_stop [of N DENY "sort (acl_Deny acl)" k ps p]
    by (auto simp: acl_rules_def rule_list_def acl_fits_def rules_literal_def)
qed

lemma active_pad:
  assumes "\<And>p. p \<in> set ps \<Longrightarrow> PolicyType p \<noteq> STOP" and "length ps < MAX_POLICIES"
  shows "active (take MAX_POLICIES (pad_policies ps)) = ps" and "terminated (take MAX_POLICIES (pad_policies ps))"
proof -
  have z: "PolicyType zero_policy = STOP" by (simp add: zero_policy_def policy_consts)
  obtain n where n: "MAX_POLICIES - length ps = Suc n" using assms(2) by (cases "MAX_POLICIES - length ps") auto
  have t: "take MAX_POLICIES (pad_policies ps) = ps @ zero_policy # replicate n zero_policy"
    using assms(2) n by (simp add: pad_policies_def)
  then show "active (take MAX_POLICIES (pad_policies ps)) = ps"
    using assms(1) z by (simp add: active_def takeWhile_append)
  show "terminated (take MAX_POLICIES (pad_policies ps))" using z by (simp add: t terminated_def)
qed

section \<open>Filling a table\<close>

definition set_inner :: "nat \<Rightarrow> trie \<Rightarrow> router \<Rightarrow> router" where
  "set_inner m t s = s\<lparr>rt_maps := (rt_maps s)\<lparr>k_inner := (k_inner (rt_maps s))(m := t)\<rparr>\<rparr>"

lemma set_inner_simps [simp]:
  "k_inner (rt_maps (set_inner m t s)) m = t" "set_inner m t' (set_inner m t s) = set_inner m t' s"
  "rt_parser (set_inner m t s) = rt_parser s" "k_policies (rt_maps (set_inner m t s)) = k_policies (rt_maps s)"
  by (simp_all add: set_inner_def)

lemma set_inner_same: "set_inner m (k_inner (rt_maps s) m) s = s"
  by (simp add: set_inner_def)

lemma kmap_Inr:
  "kmap R n f s = (Inr x, t) \<longleftrightarrow> re_fault R n (rt_maps s) = None \<and> (\<exists>k. f (rt_maps s) = (Inr x, k) \<and> t = s\<lparr>rt_maps := k\<rparr>)"
  by (auto simp: kmap_def split: option.splits prod.splits sum.splits)

lemma clear_keys_ok:
  assumes "\<And>k. re_fault R ''Inner.Delete'' k = None" and "distinct (map fst t)"
    and "clear_keys R m (map fst t) (set_inner m t s) = (Inr (), u)"
  shows "u = set_inner m [] s"
  using assms(2,3)
proof (induction t)
  case Nil
  then show ?case by simp
next
  case (Cons e t)
  obtain key v where e: "e = (key, v)" by (cases e)
  have "AList.delete key t = t" using Cons.prems(1) e by (force simp: AList.delete_eq filter_id_conv)
  then have "kmap R ''Inner.Delete'' (inner_Delete m key) (set_inner m (e # t) s) = (Inr (), set_inner m t s)"
    using assms(1) by (simp add: kmap_def inner_Delete_def e) (simp add: set_inner_def)
  with Cons.prems(2) e have "clear_keys R m (map fst t) (set_inner m t s) = (Inr (), u)"
    by (auto simp: ebind_def attempt_def kmap_def inner_Keys_def split: option.splits)
  with Cons show ?case by simp
qed

lemma clearPolicyMap_ok:
  assumes "\<And>k. re_fault R ''Inner.Delete'' k = None" and "distinct (map fst (k_inner (rt_maps s) m))"
    and "clearPolicyMap R m s = (Inr (), u)"
  shows "u = set_inner m [] s"
proof -
  have "clear_keys R m (map fst (k_inner (rt_maps s) m)) (set_inner m (k_inner (rt_maps s) m) s) = (Inr (), u)"
    using assms(3) by (auto simp: clearPolicyMap_def ebind_eq_Inr kmap_Inr inner_Keys_def set_inner_same)
  from clear_keys_ok [OF assms(1,2) this] show ?thesis .
qed

definition put_rules :: "Rule list \<Rightarrow> trie \<Rightarrow> trie" where
  "put_rules rules t = fold (\<lambda>rule t. fold (\<lambda>key t. AList.update key (Values rule) t) (Keys rule) t) rules t"

lemma put_keys_ok:
  assumes "for_each (\<lambda>key. wrap_err w (kmap R n (inner_Put m key v))) ks (set_inner m t s) = (Inr (), u)"
  shows "u = set_inner m (fold (\<lambda>key t. AList.update key v t) ks t) s"
  using assms
proof (induction ks arbitrary: t)
  case (Cons k ks)
  then obtain u' where "kmap R n (inner_Put m k v) (set_inner m t s) = (Inr (), u')"
    and r: "for_each (\<lambda>key. wrap_err w (kmap R n (inner_Put m key v))) ks u' = (Inr (), u)"
    by (auto simp: wrap_err_eq_Inr split: prod.splits sum.splits)
  then have "u' = set_inner m (AList.update k v t) s"
    by (auto simp: kmap_Inr inner_Put_def set_inner_def)
  with r Cons.IH show ?case by simp
qed simp

lemma put_rules_ok:
  assumes "for_each (\<lambda>rule. for_each (\<lambda>key. wrap_err w (kmap R n (inner_Put m key (Values rule)))) (Keys rule)) rules
      (set_inner m t s) = (Inr (), u)"
  shows "u = set_inner m (put_rules rules t) s"
  using assms
proof (induction rules arbitrary: t)
  case (Cons rule rules)
  then obtain u' where a: "for_each (\<lambda>key. wrap_err w (kmap R n (inner_Put m key (Values rule)))) (Keys rule)
      (set_inner m t s) = (Inr (), u')"
    and r: "for_each (\<lambda>rule. for_each (\<lambda>key. wrap_err w (kmap R n (inner_Put m key (Values rule)))) (Keys rule)) rules u' =
      (Inr (), u)"
    by (auto split: prod.splits sum.splits)
  with put_keys_ok [OF a] Cons.IH show ?case by (simp add: put_rules_def)
qed (simp add: put_rules_def)

lemma put_spec_rules:
  assumes "distinct (map fst rs)"
  shows "map_of (put_rules (map spec_rule rs) t) k =
     (case map_of rs k of Some ps \<Rightarrow> Some (pad_policies ps) | None \<Rightarrow> map_of t k)"
  using assms
proof (induction rs arbitrary: t)
  case (Cons r rs)
  have "put_rules (map spec_rule (r # rs)) t = put_rules (map spec_rule rs) (AList.update (fst r) (pad_policies (snd r)) t)"
    by (simp add: put_rules_def spec_rule_def)
  moreover have "map_of rs (fst r) = None" using Cons.prems by (simp add: map_of_eq_None_iff)
  ultimately show ?case
    using Cons by (auto simp: update_conv split: option.split)
qed (simp add: put_rules_def)

section \<open>A successful refresh\<close>

text \<open>The parser's cache holds what it would compute, for rules with written-out addresses.\<close>

definition cache_correct :: "parse_env \<Rightarrow> pstate \<Rightarrow> bool" where
  "cache_correct P s \<longleftrightarrow> (\<forall>mfa public deny rules. rules_literal (pe_net P) mfa public deny \<and>
     globalCache s (pe_hash P (sort mfa) (sort public) (sort deny)) = Some rules \<longrightarrow>
     rules = map spec_rule (spec_rules (pe_net P) mfa public deny))"

definition acl_table :: "net_env \<Rightarrow> Acl \<Rightarrow> Rule list" where
  "acl_table N acl = map spec_rule (spec_rules N (acl_Mfa acl) (acl_Allow acl) (acl_Deny acl))"

lemma ParseRules_acl:
  assumes "cache_correct P s" and "acl_fits (pe_net P) acl"
  shows "\<exists>s'. ParseRules P (acl_Mfa acl) (acl_Allow acl) (acl_Deny acl) s = (Inr (acl_table (pe_net P) acl, []), s')"
proof -
  let ?h = "pe_hash P (sort (acl_Mfa acl)) (sort (acl_Allow acl)) (sort (acl_Deny acl))"
  have lit: "rules_literal (pe_net P) (acl_Mfa acl) (acl_Allow acl) (acl_Deny acl)"
    using assms(2) by (simp add: acl_fits_def)
  have "\<forall>kp \<in> set (spec_rules (pe_net P) (acl_Mfa acl) (acl_Allow acl) (acl_Deny acl)). length (snd kp) \<le> MAX_POLICIES"
    using assms(2) spec_rules_mem [of _ _ "pe_net P"]
    by (fastforce simp: acl_fits_def acl_rules_def)
  then show ?thesis
  proof (cases "globalCache s ?h")
    case None
    with ParseRules_literal [OF lit None] \<open>\<forall>kp \<in> _. _\<close> show ?thesis by (auto simp: acl_table_def)
  next
    case (Some rules)
    with assms(1) lit have "rules = acl_table (pe_net P) acl"
      unfolding cache_correct_def acl_table_def by blast
    with Some show ?thesis by (simp add: ParseRules_def Let_def)
  qed
qed

lemma acl_table_lookup:
  "map_of (put_rules (acl_table N acl) []) k =
     (if k \<in> fst ` set (acl_rules N acl) then Some (pad_policies (policies_for k (acl_rules N acl))) else None)"
  by (simp add: acl_table_def put_spec_rules spec_rules_distinct spec_rules_map_of acl_rules_def)

lemma create_table_ok:
  "create_table R u s = (Inr m, t) \<Longrightarrow>
     k_policies (rt_maps t) u = Some m \<and> k_inner (rt_maps t) m = [] \<and> rt_parser t = rt_parser s"
  by (auto simp: create_table_def NewMap_def eff_inv kmap_Inr policies_Insert_def split: option.splits)

lemma xdpAddRoute_ok:
  assumes "cache_correct (re_parse R) (rt_parser s)" and "acl_fits (pe_net (re_parse R)) acl"
    and "xdpAddRoute R m acl (set_inner m [] s) = (Inr (), t)"
  shows "k_inner (rt_maps t) m = put_rules (acl_table (pe_net (re_parse R)) acl) [] \<and>
     k_policies (rt_maps t) = k_policies (rt_maps s)"
proof -
  obtain p where p: "ParseRules (re_parse R) (acl_Mfa acl) (acl_Allow acl) (acl_Deny acl) (rt_parser s) =
      (Inr (acl_table (pe_net (re_parse R)) acl, []), p)" using ParseRules_acl [OF assms(1,2)] by blast
  let ?s = "set_inner m [] (s\<lparr>rt_parser := p\<rparr>)"
  have "(set_inner m [] s)\<lparr>rt_parser := p\<rparr> = ?s" by (simp add: set_inner_def)
  with p assms(3) have "for_each (\<lambda>rule. for_each (\<lambda>key. wrap_err (\<lambda>e. ''error putting route key in inner map: '' @ e)
      (kmap R ''Inner.Put'' (inner_Put m key (Values rule)))) (Keys rule)) (acl_table (pe_net (re_parse R)) acl)
      ?s = (Inr (), t)"
    by (simp add: xdpAddRoute_def ebind_def zoom_def)
  from put_rules_ok [OF this] show ?thesis by (simp add: set_inner_def)
qed

lemma setSingleUserMap_ok:
  assumes "router_wf [] s" and "rt_user_maps s u = k_policies (rt_maps s) u"
    and "cache_correct (re_parse R) (rt_parser s)" and "acl_fits (pe_net (re_parse R)) acl"
    and "\<And>k. re_fault R ''Inner.Delete'' k = None" and "setSingleUserMap R u acl s = (Inr (), t)"
  shows "\<exists>m. k_policies (rt_maps t) u = Some m \<and>
     k_inner (rt_maps t) m = put_rules (acl_table (pe_net (re_parse R)) acl) []"
proof -
  obtain m s1 s2 where m: "(case rt_user_maps s u of Some m \<Rightarrow> (Inr m, s) | None \<Rightarrow> create_table R u s) = (Inr m, s1)"
    and c: "clearPolicyMap R m s1 = (Inr (), s2)" and a: "xdpAddRoute R m acl s2 = (Inr (), t)"
    using assms(6) by (auto simp: setSingleUserMap_def ebind_eq_Inr)
  have s1: "k_policies (rt_maps s1) u = Some m" "distinct (map fst (k_inner (rt_maps s1) m))" "rt_parser s1 = rt_parser s"
  proof -
    have "k_policies (rt_maps s1) u = Some m \<and> distinct (map fst (k_inner (rt_maps s1) m)) \<and> rt_parser s1 = rt_parser s"
    proof (cases "rt_user_maps s u")
      case None
      with m have "create_table R u s = (Inr m, s1)" by simp
      from create_table_ok [OF this] show ?thesis by simp
    next
      case (Some n)
      with assms(2) have "k_policies (rt_maps s) u = Some n" by simp
      with m Some assms(1) show ?thesis by (auto simp: router_wf_def maps_wf_def)
    qed
    then show "k_policies (rt_maps s1) u = Some m" "distinct (map fst (k_inner (rt_maps s1) m))" "rt_parser s1 = rt_parser s"
      by simp_all
  qed
  have "s2 = set_inner m [] s1" using clearPolicyMap_ok [OF assms(5) s1(2) c] .
  with xdpAddRoute_ok [of R s1 acl m t] assms(3,4) a s1 show ?thesis by auto
qed

section \<open>The verdict\<close>

context lpm
begin

lemma acl_lookup:
  assumes "acl_fits N acl" and "t = put_rules (acl_table N acl) []"
  shows "lookup t a = Some v \<longleftrightarrow>
    (\<exists>k. best_key (acl_rules N acl) a k \<and> v = pad_policies (policies_for k (acl_rules N acl)))"
proof
  have keys: "fst ` set t = fst ` set (acl_rules N acl)"
    using acl_table_lookup [of N acl] unfolding assms(2) by (auto simp: dom_map_of_conv_image_fst [symmetric] dom_def split: if_splits)
  show "\<exists>k. best_key (acl_rules N acl) a k \<and> v = pad_policies (policies_for k (acl_rules N acl))" if "lookup t a = Some v"
  proof -
    from lookup_some [OF that] obtain k where k: "map_of t k = Some v" "key_matches k a"
      "\<forall>k' \<in> fst ` set t. key_matches k' a \<longrightarrow> Prefixlen k' \<le> Prefixlen k" by blast
    from k(1) have "k \<in> fst ` set (acl_rules N acl)" "v = pad_policies (policies_for k (acl_rules N acl))"
      unfolding assms(2) acl_table_lookup by (auto split: if_splits)
    with k keys show ?thesis unfolding best_key_def by blast
  qed
  show "lookup t a = Some v" if "\<exists>k. best_key (acl_rules N acl) a k \<and> v = pad_policies (policies_for k (acl_rules N acl))"
  proof -
    from that obtain k where k: "best_key (acl_rules N acl) a k" "v = pad_policies (policies_for k (acl_rules N acl))" by blast
    then have "k \<in> fst ` set t" "key_matches k a" using keys by (auto simp: best_key_def)
    then obtain w where w: "lookup t a = Some w" using lookup_some_iff by blast
    from lookup_some [OF w] obtain k' where k': "map_of t k' = Some w" "key_matches k' a"
      "\<forall>k'' \<in> fst ` set t. key_matches k'' a \<longrightarrow> Prefixlen k'' \<le> Prefixlen k'" by blast
    from k'(1) have m: "k' \<in> fst ` set (acl_rules N acl)" "w = pad_policies (policies_for k' (acl_rules N acl))"
      unfolding assms(2) acl_table_lookup by (auto split: if_splits)
    with k' keys have "best_key (acl_rules N acl) a k'" unfolding best_key_def by blast
    moreover have "canonical k" "canonical k'"
      using assms(1) k(1) m(1) by (auto simp: acl_fits_def best_key_def)
    ultimately have "k = k'" using best_key_unique k(1) by blast
    with m(2) k(2) w show ?thesis by simp
  qed
qed

lemma acl_verdict:
  assumes "acl_fits N acl" and "k_policies k (dev_user d) = Some m" and "k_inner k m = put_rules (acl_table N acl) []"
    and "parse_ip_src_dst_addr data = Some info" and "packet_device k info = Some (at, d, a, port)"
    and "k_locked k (dev_user d) = Some locked"
  shows "fst (xdp_wag_firewall lookup now k data) = XDP_PASS \<longleftrightarrow>
     (\<exists>key. best_key (acl_rules N acl) a key \<and>
        admits (session_ok (k_node k) locked (k_timeout k) now d)
          (matching (ip_proto info) port (policies_for key (acl_rules N acl))))"
proof -
  have app: "applicable lookup k d a = Some ps \<longleftrightarrow>
      (\<exists>key. best_key (acl_rules N acl) a key \<and> ps = take MAX_POLICIES (pad_policies (policies_for key (acl_rules N acl))))" for ps
    using acl_lookup [OF assms(1,3)] assms(2) by (fastforce simp: applicable_def)
  have pad: "active (take MAX_POLICIES (pad_policies (policies_for key (acl_rules N acl)))) = policies_for key (acl_rules N acl) \<and>
      terminated (take MAX_POLICIES (pad_policies (policies_for key (acl_rules N acl))))" if "best_key (acl_rules N acl) a key" for key
  proof -
    have "length (policies_for key (acl_rules N acl)) < MAX_POLICIES"
      using assms(1) that by (auto simp: acl_fits_def best_key_def)
    with active_pad policies_not_stop [OF assms(1)] show ?thesis by blast
  qed
  have "fst (xdp_wag_firewall lookup now k data) = XDP_PASS \<longleftrightarrow>
     (\<exists>ps. applicable lookup k d a = Some ps \<and> terminated ps \<and>
        admits (session_ok (k_node k) locked (k_timeout k) now d) (matching (ip_proto info) port (active ps)))"
    using assms(2,4-6) check_policies_verdict
    by (auto simp: xdp_wag_firewall_def conntrack_def Let_def packet_device_def applicable_def
        bind_eq_Some_conv split: option.splits prod.splits)
  with app pad show ?thesis by (metis (no_types, lifting))
qed

end

section \<open>The cache stays right\<close>

lemma add_rules_keeps:
  "triple (\<lambda>s. globalCache s k = c \<and> results_ok (pheap s) (fst acc) (fst (snd acc))) (add_rules E t rules acc)
     (\<lambda>acc s. globalCache s k = c \<and> results_ok (pheap s) (fst acc) (fst (snd acc))) (\<lambda>s. globalCache s k = c)"
proof (rule tripleI)
  fix s q s'
  assume P: "globalCache s k = c \<and> results_ok (pheap s) (fst acc) (fst (snd acc))"
    and m: "add_rules E t rules acc s = (q, s')"
  obtain rs ca es where acc: "acc = (rs, ca, es)" by (cases acc)
  with P m have st: "stable s s'" and ok: "\<forall>rs c es. q = Inr (rs, c, es) \<longrightarrow> results_ok (pheap s') rs c"
    using add_rules_stable [of s rs ca E t rules es q s'] by auto
  from st P have "globalCache s' k = c" by (simp add: stable_def)
  with ok show "case q of Inr acc \<Rightarrow> globalCache s' k = c \<and> results_ok (pheap s') (fst acc) (fst (snd acc))
      | Inl e \<Rightarrow> globalCache s' k = c"
    by (cases q) auto
qed

text \<open>Parsing changes the cache at the digest of its own rules only.\<close>

lemma ParseRules_other_keys:
  assumes "ParseRules P mfa public deny s = (r, s')" and "k \<noteq> pe_hash P (sort mfa) (sort public) (sort deny)"
  shows "globalCache s' k = globalCache s k"
proof -
  let ?h = "pe_hash P (sort mfa) (sort public) (sort deny)"
  obtain c where c: "globalCache s k = c" by simp
  define fin :: "acc \<Rightarrow> (pstate, Rule list \<times> error list) eff" where
    "fin = (\<lambda>(result, _, errs) s. case rmap (finish_rule (pheap s)) result of
         Inl e \<Rightarrow> (Inr ([], errs @ [e]), s)
       | Inr rules \<Rightarrow> if errs = [] then (Inr (rules, []), s\<lparr>globalCache := (globalCache s)(?h \<mapsto> rules)\<rparr>)
                       else (Inr (rules, errs), s))"
  define parse where "parse = ebind (add_rules P 0 (sort mfa) ([], Map.empty, [])) (\<lambda>acc.
      ebind (add_rules P PUBLIC (sort public) acc) (\<lambda>acc. ebind (add_rules P DENY (sort deny) acc) fin))"
  have fin: "triple (\<lambda>s. globalCache s k = c \<and> results_ok (pheap s) (fst acc) (fst (snd acc))) (fin acc)
      (\<lambda>_ s. globalCache s k = c) (\<lambda>s. globalCache s k = c)" for acc
    using assms(2) by (cases acc) (simp add: fin_def triple_def split: sum.split)
  have first: "triple (\<lambda>s. globalCache s k = c) (add_rules P 0 (sort mfa) ([], Map.empty, []))
      (\<lambda>acc s. globalCache s k = c \<and> results_ok (pheap s) (fst acc) (fst (snd acc))) (\<lambda>s. globalCache s k = c)"
    by (rule triple_weaken [OF add_rules_keeps]) (simp_all add: results_ok_def)
  have p: "triple (\<lambda>s. globalCache s k = c) parse (\<lambda>_ s. globalCache s k = c) (\<lambda>s. globalCache s k = c)"
    unfolding parse_def by (rule triple_bind [OF first]) (rule triple_bind [OF add_rules_keeps] fin)+
  show ?thesis
  proof (cases "globalCache s ?h")
    case None
    with assms(1) have "parse s = (r, s')" by (simp add: ParseRules_def parse_def fin_def Let_def)
    then have "globalCache s' k = c" using tripleD_Inr [OF p c] tripleD_Inl [OF p c] by (cases r) blast+
    with c show ?thesis by simp
  next
    case (Some entry)
    with assms(1) show ?thesis by (auto simp: ParseRules_def Let_def)
  qed
qed

text \<open>With a digest without collisions the cache stays right.\<close>

lemma cache_correct_ParseRules:
  assumes inj: "\<And>a b c a' b' c'. pe_hash P a b c = pe_hash P a' b' c' \<Longrightarrow> a = a' \<and> b = b' \<and> c = c'"
    and "cache_correct P s" and "ParseRules P mfa public deny s = (r, s')"
  shows "cache_correct P s'"
  unfolding cache_correct_def
proof (intro allI impI, elim conjE)
  fix mfa' public' deny' rules
  let ?h = "pe_hash P (sort mfa) (sort public) (sort deny)"
  let ?h' = "pe_hash P (sort mfa') (sort public') (sort deny')"
  let ?S = "\<lambda>m p d. map spec_rule (spec_rules (pe_net P) m p d)"
  assume lit: "rules_literal (pe_net P) mfa' public' deny'" and g: "globalCache s' ?h' = Some rules"
  show "rules = ?S mfa' public' deny'"
  proof (cases "?h' = ?h")
    case False
    then have "globalCache s ?h' = Some rules" using ParseRules_other_keys [OF assms(3), of ?h'] g by simp
    with assms(2) lit show ?thesis unfolding cache_correct_def by blast
  next
    case True
    then have eq: "sort mfa' = sort mfa" "sort public' = sort public" "sort deny' = sort deny" using inj by blast+
    have spec: "spec_rules (pe_net P) mfa' public' deny' = spec_rules (pe_net P) mfa public deny"
      by (simp add: spec_rules_def rule_list_def eq)
    have lit': "rules_literal (pe_net P) mfa public deny"
      using lit unfolding rules_literal_def by (metis all_literal_sort eq)
    show ?thesis
    proof (cases "globalCache s ?h")
      case None
      from ParseRules_literal [OF lit' None] assms(3) g True spec show ?thesis
        by (auto simp: keeps_def None split: if_splits)
    next
      case (Some entry)
      with assms(3) have "s' = s" by (simp add: ParseRules_def Let_def)
      with assms(2) lit g show ?thesis unfolding cache_correct_def by blast
    qed
  qed
qed

section \<open>Without faults a refresh succeeds\<close>

lemma clear_keys_succeeds:
  assumes "\<And>n k. re_fault R n k = None" and "distinct (map fst t)"
  shows "clear_keys R m (map fst t) (set_inner m t s) = (Inr (), set_inner m [] s)"
  using assms(2)
proof (induction t)
  case (Cons e t)
  obtain key v where e: "e = (key, v)" by (cases e)
  have "AList.delete key t = t" using Cons.prems(1) e by (force simp: AList.delete_eq filter_id_conv)
  then have "kmap R ''Inner.Delete'' (inner_Delete m key) (set_inner m (e # t) s) = (Inr (), set_inner m t s)"
    using assms(1) by (simp add: kmap_def inner_Delete_def e) (simp add: set_inner_def)
  with Cons e show ?case
    by (simp add: ebind_def attempt_def kmap_def inner_Keys_def assms(1))
qed simp

lemma clearPolicyMap_succeeds:
  assumes "\<And>n k. re_fault R n k = None" and "distinct (map fst (k_inner (rt_maps s) m))"
  shows "clearPolicyMap R m s = (Inr (), set_inner m [] s)"
  using clear_keys_succeeds [OF assms(1,2), of m s] assms(1)
  by (simp add: clearPolicyMap_def ebind_def kmap_def inner_Keys_def set_inner_same)

lemma puts_succeed:
  assumes "\<And>n k. re_fault R n k = None"
  shows "\<exists>t. for_each (\<lambda>rule. for_each (\<lambda>key. wrap_err w (kmap R n (inner_Put m key (Values rule)))) (Keys rule)) rules s = (Inr (), t)"
proof -
  have keys: "\<exists>t. for_each (\<lambda>key. wrap_err w (kmap R n (inner_Put m key v))) ks s = (Inr (), t)" for v ks s
    by (induction ks arbitrary: s) (auto simp: wrap_err_def on_error_def kmap_def inner_Put_def assms)
  show ?thesis
  proof (induction rules arbitrary: s)
    case (Cons rule rules)
    obtain u where "for_each (\<lambda>key. wrap_err w (kmap R n (inner_Put m key (Values rule)))) (Keys rule) s = (Inr (), u)"
      using keys by blast
    with Cons.IH [of u] show ?case by simp
  qed simp
qed

lemma create_table_succeeds:
  assumes "\<And>n k. re_fault R n k = None" and "k_policies (rt_maps s) u = None"
  shows "\<exists>m t. create_table R u s = (Inr m, t)"
  using assms
  by (simp add: create_table_def NewMap_def ebind_def wrap_err_def on_error_def kmap_def policies_Insert_def)

lemma setSingleUserMap_succeeds:
  assumes "router_wf [] s" and "rt_user_maps s u = k_policies (rt_maps s) u"
    and "cache_correct (re_parse R) (rt_parser s)" and "acl_fits (pe_net (re_parse R)) acl"
    and none: "\<And>n k. re_fault R n k = None"
  shows "\<exists>t. setSingleUserMap R u acl s = (Inr (), t)"
proof -
  obtain m s1 where m: "(case rt_user_maps s u of Some m \<Rightarrow> (Inr m, s) | None \<Rightarrow> create_table R u s) = (Inr m, s1)"
    using create_table_succeeds [OF none, of s u] assms(2) by (cases "k_policies (rt_maps s) u") auto
  have s1: "distinct (map fst (k_inner (rt_maps s1) m)) \<and> rt_parser s1 = rt_parser s"
  proof (cases "rt_user_maps s u")
    case None
    with m have "create_table R u s = (Inr m, s1)" by simp
    from create_table_ok [OF this] show ?thesis by simp
  next
    case (Some n)
    with m assms(1) show ?thesis by (auto simp: router_wf_def maps_wf_def)
  qed
  then have c: "clearPolicyMap R m s1 = (Inr (), set_inner m [] s1)" using clearPolicyMap_succeeds [OF none] by blast
  obtain p where "ParseRules (re_parse R) (acl_Mfa acl) (acl_Allow acl) (acl_Deny acl) (rt_parser s1) =
      (Inr (acl_table (pe_net (re_parse R)) acl, []), p)" using ParseRules_acl assms(3,4) s1 by metis
  then have "\<exists>t. xdpAddRoute R m acl (set_inner m [] s1) = (Inr (), t)"
    using puts_succeed [OF none] by (simp add: xdpAddRoute_def ebind_def zoom_def)
  with m c show ?thesis by (simp add: setSingleUserMap_def ebind_def)
qed

section \<open>From the access list to the packet\<close>

text \<open>C2
  A refresh makes the packet filter enforce the user's access list: when it succeeds, a packet of a
  device of that user passes exactly when, among the rules of the effective access list (addresses
  written out, at most 127 policies for each), the policies of the longest one covering the other end
  that match the protocol and port admit it, MFA policies only with a valid session. It does succeed
  when no kernel call fails. This holds from any well-formed state in which the user's known table
  is the one in the kernel, with a parser cache that is right and deletions that do not fail.
\<close>

theorem refresh_enforced:
  assumes "lpm lookup" and "router_wf [] s" and "rt_user_maps s (re_sha1 R name) = k_policies (rt_maps s) (re_sha1 R name)"
    and "cache_correct (re_parse R) (rt_parser s)" and "\<And>k. re_fault R ''Inner.Delete'' k = None"
    and "effective_acl R name s = (Inr acl, s')" and "acl_fits (pe_net (re_parse R)) acl"
  shows "(\<forall>t now data info at d a port locked. RefreshUserAcls R name s = (Inr (), t) \<longrightarrow>
      parse_ip_src_dst_addr data = Some info \<longrightarrow> packet_device (rt_maps t) info = Some (at, d, a, port) \<longrightarrow>
      dev_user d = re_sha1 R name \<longrightarrow> k_locked (rt_maps t) (dev_user d) = Some locked \<longrightarrow>
      (fst (xdp_wag_firewall lookup now (rt_maps t) data) = XDP_PASS \<longleftrightarrow>
        (\<exists>key. best_key (acl_rules (pe_net (re_parse R)) acl) a key \<and>
          admits (session_ok (k_node (rt_maps t)) locked (k_timeout (rt_maps t)) now d)
            (matching (ip_proto info) port (policies_for key (acl_rules (pe_net (re_parse R)) acl)))))) \<and>
    ((\<forall>n k. re_fault R n k = None) \<longrightarrow> (\<exists>t. RefreshUserAcls R name s = (Inr (), t)))"
proof -
  let ?u = "re_sha1 R name"
  obtain x where s': "s' = s\<lparr>rt_store := x\<rparr>" using assms(6) by (auto simp: effective_acl_def zoom_def split: prod.splits)
  have r: "RefreshUserAcls R name s = setSingleUserMap R ?u acl s'"
    using assms(6) by (simp add: RefreshUserAcls_def ebind_def)
  have pre: "router_wf [] s'" "rt_user_maps s' ?u = k_policies (rt_maps s') ?u" "cache_correct (re_parse R) (rt_parser s')"
    using assms(2-4) by (simp_all add: s')
  show ?thesis
  proof (intro conjI allI impI)
    fix t now data info at d a port locked
    assume t: "RefreshUserAcls R name s = (Inr (), t)" and p: "parse_ip_src_dst_addr data = Some info"
      "packet_device (rt_maps t) info = Some (at, d, a, port)" and u: "dev_user d = ?u"
      and l: "k_locked (rt_maps t) (dev_user d) = Some locked"
    from setSingleUserMap_ok [OF pre assms(7,5)] t r obtain m where "k_policies (rt_maps t) ?u = Some m"
      "k_inner (rt_maps t) m = put_rules (acl_table (pe_net (re_parse R)) acl) []" by auto
    with lpm.acl_verdict [OF assms(1) assms(7)] p u l
    show "fst (xdp_wag_firewall lookup now (rt_maps t) data) = XDP_PASS \<longleftrightarrow>
        (\<exists>key. best_key (acl_rules (pe_net (re_parse R)) acl) a key \<and>
          admits (session_ok (k_node (rt_maps t)) locked (k_timeout (rt_maps t)) now d)
            (matching (ip_proto info) port (policies_for key (acl_rules (pe_net (re_parse R)) acl))))" by metis
  next
    assume "\<forall>n k. re_fault R n k = None"
    with setSingleUserMap_succeeds [OF pre assms(7)] show "\<exists>t. RefreshUserAcls R name s = (Inr (), t)" by (simp add: r)
  qed
qed

section \<open>A concrete refresh\<close>

definition demo_device_bytes :: bytes where
  "demo_device_bytes = fwentry_Bytes (new_entry renv_ref ''ann'' 1)"

definition demo_router :: router where
  "demo_router = \<lparr>rt_maps = empty_maps\<lparr>k_devices := [IP4 10 0 0 2 \<mapsto> demo_device_bytes],
       k_locked := [re_sha1 renv_ref ''ann'' \<mapsto> 0]\<rparr>,
     rt_user_maps = Map.empty, rt_next = 0, rt_u2a = Map.empty, rt_a2u = Map.empty, rt_wg = [], rt_parser = empty_pstate,
     rt_store = no_store, rt_fw = \<lparr>fw_rules = (\<lambda>_. []), fw_policy = (\<lambda>_. '''')\<rparr>, rt_links = []\<rparr>"

definition demo_acl :: Acl where
  "demo_acl = \<lparr>acl_Mfa = [], acl_Allow = [''10.0.0.1/32''], acl_Deny = []\<rparr>"

definition demo_ping :: bytes where
  "demo_ping = [69, 0, 0, 28, 0, 0, 0, 0, 64, 1, 0, 0, 10, 0, 0, 2, 10, 0, 0, 1, 8, 0, 0, 0, 0, 0, 0, 0]"

lemma demo_acl_effective: "effective_acl renv_ref ''ann'' demo_router = (Inr demo_acl, demo_router)"
  by (simp add: effective_acl_def zoom_def demo_router_def renv_ref_def GetEffectiveAcl_def attempt_def ebind_def
      etcd_ref.Txn_quiet apply_request_def range_of_single add_response_def sorted_acl_def sorted_keys_def
      add_dns_def zero_acl_def demo_acl_def)

lemma demo_rule:
  "parse_literal demo_net PUBLIC ''10.0.0.1/32'' = Some (\<lparr>Prefixlen = 32, KeyIP = IP4 10 0 0 1\<rparr>,
     [\<lparr>PolicyType = 20, Proto = 0, LowerPort = 0, UpperPort = 0\<rparr>])"
  by (simp add: parse_eval ParseCIDR_def parse_prefix_len_def key_of_net_def)

lemma demo_acl_rules: "acl_rules demo_net demo_acl =
    [(\<lparr>Prefixlen = 32, KeyIP = IP4 10 0 0 1\<rparr>, [\<lparr>PolicyType = 20, Proto = 0, LowerPort = 0, UpperPort = 0\<rparr>])]"
  "acl_fits demo_net demo_acl"
  by (simp_all add: acl_rules_def rule_list_def literals_def demo_acl_def demo_rule acl_fits_def rules_literal_def
      all_literal_def canonical_def MAX_POLICIES_def)

lemma demo_router_wf: "router_wf [] demo_router" "cache_correct (re_parse renv_ref) (rt_parser demo_router)"
  by (auto simp: router_wf_def maps_wf_def devices_wf_def demo_router_def empty_maps_def demo_device_bytes_def
      cache_shape_def empty_pstate_def tables_ok_def owns_def cache_correct_def)

lemma demo_device_user: "dev_user demo_device_bytes = re_sha1 renv_ref ''ann''"
proof -
  have "user_id (new_entry renv_ref ''ann'' 1) = re_sha1 renv_ref ''ann''" by (simp add: new_entry_def)
  moreover have "length (re_sha1 renv_ref ''ann'') = 20" by (simp add: renv_ref_def)
  ultimately have "fwentry_Unpack demo_device_bytes = Inr (new_entry renv_ref ''ann'' 1)"
    unfolding demo_device_bytes_def by (simp add: fwentry_Unpack_Bytes)
  then show ?thesis by (auto simp: fwentry_Unpack_def dev_user_def new_entry_def split: if_splits)
qed

theorem refresh_enforced_witness:
  "\<exists>t. RefreshUserAcls renv_ref ''ann'' demo_router = (Inr (), t) \<and>
     fst (xdp_wag_firewall lpm_lookup 5 (rt_maps t) demo_ping) = XDP_PASS"
proof -
  let ?info = "\<lparr>src_ip = IP4 10 0 0 2, src_port = 0, dst_ip = IP4 10 0 0 1, dst_port = 0, ip_proto = 1\<rparr>"
  have env: "re_parse renv_ref = demo_env" "re_fault renv_ref = (\<lambda>_ _. None)" by (simp_all add: renv_ref_def)
  have maps: "rt_user_maps demo_router = Map.empty" "k_policies (rt_maps demo_router) = Map.empty"
    by (simp_all add: demo_router_def empty_maps_def)
  note E = refresh_enforced [OF lpm_ref.lpm_axioms demo_router_wf(1), of renv_ref "''ann''" demo_acl demo_router]
  obtain t where t: "RefreshUserAcls renv_ref ''ann'' demo_router = (Inr (), t)"
    using E demo_router_wf(2) demo_acl_effective demo_acl_rules(2) by (auto simp: env maps)
  have kept: "others_kept (re_sha1 renv_ref ''ann'') demo_router t"
    using kept_RefreshUserAcls [OF _ t] demo_router_wf(1) by (simp add: router_wf_def)
  have dev: "k_devices (rt_maps t) = [IP4 10 0 0 2 \<mapsto> demo_device_bytes]"
    "k_locked (rt_maps t) = [re_sha1 renv_ref ''ann'' \<mapsto> 0]"
    using kept by (simp_all add: others_kept_def demo_router_def)
  have p: "parse_ip_src_dst_addr demo_ping = Some ?info"
    by (simp add: parse_ip_src_dst_addr_def demo_ping_def MAX_PACKET_OFF_def ip_at_def proto_consts)
  have d: "packet_device (rt_maps t) ?info = Some (IP4 10 0 0 2, demo_device_bytes, IP4 10 0 0 1, 0)"
    by (simp add: packet_device_def dev bpf_ntohs_def)
  have "fst (xdp_wag_firewall lpm_lookup 5 (rt_maps t) demo_ping) = XDP_PASS \<longleftrightarrow>
      (\<exists>key. best_key (acl_rules demo_net demo_acl) (IP4 10 0 0 1) key \<and>
          admits (session_ok (k_node (rt_maps t)) 0 (k_timeout (rt_maps t)) 5 demo_device_bytes)
            (matching 1 0 (policies_for key (acl_rules demo_net demo_acl))))"
    using E demo_router_wf(2) demo_acl_effective demo_acl_rules(2) t p d demo_device_user dev(2)
    by (fastforce simp: env maps)
  also have "\<dots>"
    by (intro exI [of _ "\<lparr>Prefixlen = 32, KeyIP = IP4 10 0 0 1\<rparr>"])
       (simp add: demo_acl_rules(1) best_key_def key_matches_def net_contains_def admits_def matching_def
         policy_matches_def policy_kinds policy_consts)
  finally show ?thesis using t by blast
qed

section \<open>A reached state\<close>

lemma first_acl_effective:
  "rt_store s = no_store \<Longrightarrow> effective_acl renv_ref '''' s = (Inr demo_acl, s)"
  by (simp add: effective_acl_def zoom_def renv_ref_def GetEffectiveAcl_def attempt_def ebind_def
      etcd_ref.Txn_quiet apply_request_def range_of_single add_response_def sorted_acl_def sorted_keys_def
      add_dns_def zero_acl_def demo_acl_def)

definition second_state :: router where
  "second_state = snd (handleEvents renv_ref quiet_moment first_event first_state)"

lemma second_state_tables:
  "\<exists>m. k_policies (rt_maps second_state) (re_sha1 renv_ref '''') = Some m \<and>
     k_inner (rt_maps second_state) m = put_rules (acl_table demo_net demo_acl) []"
proof -
  let ?u = "re_sha1 renv_ref ''''"
  let ?s = "first_state\<lparr>rt_maps := empty_maps\<lparr>k_locked := [?u \<mapsto> 0]\<rparr>\<rparr>"
  have env: "re_parse renv_ref = demo_env" "re_fault renv_ref = (\<lambda>_ _. None)" by (simp_all add: renv_ref_def)
  have pre: "router_wf [] ?s" "rt_user_maps ?s ?u = k_policies (rt_maps ?s) ?u" "cache_correct (re_parse renv_ref) (rt_parser ?s)"
    by (auto simp: maps_wf_def devices_wf_def router_wf_def first_state_def cache_shape_def empty_pstate_def tables_ok_def owns_def
        cache_correct_def empty_maps_def)
  obtain t where t: "setSingleUserMap renv_ref ?u demo_acl ?s = (Inr (), t)"
    using setSingleUserMap_succeeds [OF pre] demo_acl_rules(2) by (auto simp: env)
  from setSingleUserMap_ok [OF pre _ _ t] demo_acl_rules(2) obtain m where
    m: "k_policies (rt_maps t) ?u = Some m" "k_inner (rt_maps t) m = put_rules (acl_table demo_net demo_acl) []"
    by (auto simp: env)
  have maps: "rt_maps first_state = empty_maps" "rt_store first_state = no_store"
    "first_state\<lparr>rt_maps := empty_maps\<rparr> = first_state" by (simp_all add: first_state_def)
  have lk: "k_locked empty_maps = Map.empty" by (simp add: empty_maps_def)
  have user: "AddUser renv_ref '''' demo_acl first_state = (Inr (), t\<lparr>rt_u2a := (rt_u2a t)('''' \<mapsto> [])\<rparr>)"
    using t by (simp add: AddUser_def Let_def xdpUserExists_def ebind_def attempt_def kmap_def env locked_Lookup_def locked_Put_def
        maps lk)
  have z: "um_Username zero_user = ''''" "dec_user zero_user (enc_user zero_user) = Inr zero_user"
    by (simp_all add: zero_user_def)
  have "listener renv_ref (dec_user zero_user) zero_user (\<lambda>_ c p et. userChanges renv_ref c p et) first_event first_state =
      (Inr (), t\<lparr>rt_u2a := (rt_u2a t)('''' \<mapsto> [])\<rparr>)"
    by (simp add: listener_def first_event_def ebind_def attempt_def unmarshal_def z userChanges_def
        first_acl_effective maps user wrap_err_def on_error_def)
  then have "handleEvents renv_ref quiet_moment first_event first_state = (Inr (), t\<lparr>rt_u2a := (rt_u2a t)('''' \<mapsto> [])\<rparr>)"
    by (simp add: handleEvents_def first_event_def has_prefix_def MembershipKey_def)
  with m show ?thesis by (simp add: second_state_def)
qed

theorem router_typed_witness:
  "\<exists>m v. k_policies (rt_maps second_state) (re_sha1 renv_ref '''') = Some m \<and> m < rt_next second_state \<and>
     map_of (k_inner (rt_maps second_state) m) \<lparr>Prefixlen = 32, KeyIP = IP4 10 0 0 1\<rparr> = Some v \<and> length v = 128"
proof -
  obtain m where m: "k_policies (rt_maps second_state) (re_sha1 renv_ref '''') = Some m"
    "k_inner (rt_maps second_state) m = put_rules (acl_table demo_net demo_acl) []" using second_state_tables by blast
  have "map_of (k_inner (rt_maps second_state) m) \<lparr>Prefixlen = 32, KeyIP = IP4 10 0 0 1\<rparr> \<noteq> None"
    by (simp add: m(2) acl_table_lookup demo_acl_rules(1))
  then obtain v where v: "map_of (k_inner (rt_maps second_state) m) \<lparr>Prefixlen = 32, KeyIP = IP4 10 0 0 1\<rparr> = Some v" by blast
  have "router_reach lpm_lookup second_state" unfolding second_state_def by (rule second_state_reached)
  from router_typed [OF this] m(1) map_of_SomeD [OF v] have "m < rt_next second_state" "length v = MAX_POLICIES" by blast+
  with m(1) v show ?thesis by (auto simp: MAX_POLICIES_def)
qed

text \<open>The policies of that user after a refresh of another one.\<close>

theorem users_isolated_witness:
  "applicable lpm_lookup (rt_maps (snd (RefreshUserAcls renv_ref ''bob'' second_state))) (replicate 48 0) (IP4 10 0 0 1) =
     applicable lpm_lookup (rt_maps second_state) (replicate 48 0) (IP4 10 0 0 1)"
proof -
  have "dev_user (replicate 48 0) = replicate 20 0" by (simp add: dev_user_def)
  moreover have "hd (re_sha1 renv_ref ''bob'') = 98" "hd (replicate 20 0 :: bytes) = 0"
    by (simp_all add: renv_ref_def)
  ultimately have u: "dev_user (replicate 48 0) \<noteq> re_sha1 renv_ref ''bob''" by force
  have "router_reach lpm_lookup second_state" unfolding second_state_def by (rule second_state_reached)
  from users_isolated [OF this, where R = renv_ref and name = "''bob''"] u show ?thesis
    by (cases "RefreshUserAcls renv_ref ''bob'' second_state") auto
qed

end
