(* ===== verification/RouterSession.thy ===== *)
theory RouterSession
  imports RouterInv
begin

text \<open>
  Sessions: the server's own answer whether a device is authorised is the kernel program's, and the
  handlers of revoking events close the sessions they are about.
\<close>

section \<open>Both sides read an entry alike\<close>

lemma minutes_not_max: "minutes n \<noteq> - 1"
proof
  assume "minutes n = - 1"
  then have "bit (word_of_int n * 60000000000 :: u64) 0 = bit (- 1 :: u64) 0" by (simp add: minutes_def)
  then show False by (simp add: bit_0)
qed

definition kernel_timeout :: "int \<Rightarrow> u64" where
  "kernel_timeout n = (if n < 0 then - 1 else minutes n)"

lemma session_ok_alike:
  "session_ok (dev_node d) l (kernel_timeout n) now d \<longleftrightarrow>
     l = 0 \<and> (dev_expiry d > now \<or> dev_expiry d = - 1) \<and> (now - dev_last d < minutes n \<or> n < 0)"
  using minutes_not_max [of n] by (auto simp: session_ok_def is_timed_out_def kernel_timeout_def)

lemma Unpack_48:
  assumes "length d = 48"
  shows "\<exists>e. fwentry_Unpack d = Inr e \<and> user_id e = dev_user d \<and> sessionExpiry e = dev_expiry d \<and>
    lastPacketTime e = dev_last d \<and> associatedNode e = dev_node d"
  using assms by (simp add: fwentry_Unpack_def dev_user_def dev_expiry_def dev_last_def dev_node_def)

lemma wf_length: "router_wf ps s \<Longrightarrow> k_devices (rt_maps s) a = Some d \<Longrightarrow> length d = 48"
  by (auto simp: router_wf_def maps_wf_def devices_wf_def ran_def)

text \<open>C17
  The server's view of a session is the packet filter's: when the two lookups do not fail and the
  kernel holds the configured inactivity timeout, \<open>isAuthed\<close> answers yes for a device exactly when
  its entry exists, its account exists, and the session condition of the kernel program holds for
  it on its own node; the state stays as it is. The answer for anything but an IPv4 address is no.
\<close>

theorem isAuthed_kernel:
  assumes "router_wf [] s"
    and "\<And>k. re_fault R ''Devices.LookupBytes'' k = None" and "\<And>k. re_fault R ''AccountLocked.Lookup'' k = None"
    and "GetSessionInactivityTimeoutMinutes (re_etcd R) (rt_store s) = (Inr n, rt_store s)"
    and "k_timeout (rt_maps s) = kernel_timeout n"
  shows "isAuthed R now address s = (Inr
    (\<exists>a d l. ipv4_of R address = Some (V4 a) \<and> k_devices (rt_maps s) a = Some d \<and>
       k_locked (rt_maps s) (dev_user d) = Some l \<and>
       session_ok (dev_node d) l (k_timeout (rt_maps s)) now d), s)"
proof (cases "ipv4_of R address")
  case None
  then show ?thesis by (simp add: isAuthed_def)
next
  case (Some ip)
  show ?thesis
  proof (cases ip)
    case (V6 b)
    with Some show ?thesis by (simp add: isAuthed_def dev_key_def ebind_def on_error_def)
  next
    case (V4 a)
    show ?thesis
    proof (cases "k_devices (rt_maps s) a")
      case None
      with Some V4 show ?thesis
        by (simp add: isAuthed_def dev_key_def ebind_def on_error_def kmap_def assms(2) devices_LookupBytes_def lift_def
            fwentry_Unpack_def)
    next
      case (Some d)
      obtain e where e: "fwentry_Unpack d = Inr e" "user_id e = dev_user d" "sessionExpiry e = dev_expiry d"
        "lastPacketTime e = dev_last d" "associatedNode e = dev_node d" using Unpack_48 wf_length [OF assms(1) Some] by blast
      show ?thesis
        using Some V4 \<open>ipv4_of R address = Some ip\<close> assms(4) e
        by (cases "k_locked (rt_maps s) (dev_user d)")
          (simp_all add: isAuthed_def dev_key_def ebind_def on_error_def kmap_def assms(2,3,5) devices_LookupBytes_def
            lift_def locked_Lookup_def zoom_def Let_def session_ok_alike)
    qed
  qed
qed

section \<open>Closing sessions\<close>

text \<open>No packet of the device finds a valid session, at any time.\<close>

definition no_session :: "kmaps \<Rightarrow> bytes \<Rightarrow> bool" where
  "no_session k d \<longleftrightarrow> (\<forall>l now. k_locked k (dev_user d) = Some l \<longrightarrow> \<not> session_ok (k_node k) l (k_timeout k) now d)"

definition expired_at :: "ip4 \<Rightarrow> kmaps \<Rightarrow> bool" where
  "expired_at a k \<longleftrightarrow> (\<forall>d. k_devices k a = Some d \<longrightarrow> dev_expiry d = 0)"

definition locked_user :: "userid \<Rightarrow> kmaps \<Rightarrow> bool" where
  "locked_user u k \<longleftrightarrow> k_locked k u = Some 1"

lemma expired_no_session: "expired_at a k \<Longrightarrow> k_devices k a = Some d \<Longrightarrow> no_session k d"
  by (simp add: expired_at_def no_session_def session_ok_def)

lemma locked_no_session: "locked_user (dev_user d) k \<Longrightarrow> no_session k d"
  by (simp add: locked_user_def no_session_def session_ok_def)

text \<open>Traffic does not change that.\<close>

lemma run_packets_expired: "devices_wf k \<Longrightarrow> expired_at a k \<Longrightarrow> expired_at a (run_packets lookup ps k)"
proof (induction ps arbitrary: k)
  case (Cons p ps)
  obtain now data where p: "p = (now, data)" by (cases p)
  let ?k = "snd (xdp_wag_firewall lookup now k data)"
  have st: "packet_step now k ?k" by (rule xdp_step)
  have "expired_at a ?k"
    unfolding expired_at_def
  proof (intro allI impI)
    fix d assume d: "k_devices ?k a = Some d"
    then obtain d0 where d0: "k_devices k a = Some d0" using packet_step_keeps(6) [OF st] by blast
    with Cons.prems(2) have "dev_expiry d0 = 0" by (simp add: expired_at_def)
    with packet_step_session [OF st Cons.prems(1) d0] d show "dev_expiry d = 0" by auto
  qed
  with Cons.IH packet_step_wf [OF st Cons.prems(1)] p show ?case by simp
qed simp

lemma run_packets_locked: "locked_user u k \<Longrightarrow> locked_user u (run_packets lookup ps k)"
proof (induction ps arbitrary: k)
  case (Cons p ps)
  obtain now data where p: "p = (now, data)" by (cases p)
  have "locked_user u (snd (xdp_wag_firewall lookup now k data))"
    using Cons.prems packet_step_keeps(2) [OF xdp_step [of now k lookup data]] by (simp add: locked_user_def)
  with Cons.IH p show ?case by simp
qed simp

text \<open>Entries that \<open>deauthenticate\<close> writes.\<close>

lemma dev_expiry_Bytes [simp]: "dev_expiry (fwentry_Bytes e) = sessionExpiry e"
  by (simp add: dev_expiry_def fwentry_Bytes_def get64le_put64le)

lemma deauthenticate_expires:
  "deauthenticate R address s = (Inr (), t) \<Longrightarrow> ipv4_of R address = Some (V4 a) \<Longrightarrow> expired_at a (rt_maps t)"
  by (auto simp: deauthenticate_def ebind_eq_Inr kmap_def devices_LookupBytes_def devices_UpdateExist_def lift_def
      expired_at_def split: option.splits if_splits sum.splits)

lemma expired_writes [pres]:
  "preserves (\<lambda>s. expired_at a (rt_maps s)) (deauthenticate R address)"
  "preserves (\<lambda>s. expired_at a (rt_maps s)) (kmap R n (locked_Put u l))"
proof -
  have "preserves (\<lambda>s. expired_at a (rt_maps s)) (kmap R n (devices_LookupBytes b))" for n b
    by (rule preserves_kmap) (simp add: devices_LookupBytes_def)
  moreover have "preserves (\<lambda>s. expired_at a (rt_maps s)) (kmap R n (devices_UpdateExist b (fwentry_Bytes
      (e\<lparr>lastPacketTime := 0, sessionExpiry := 0\<rparr>))))" for n b e
    by (rule preserves_kmap) (auto simp: devices_UpdateExist_def expired_at_def split: option.splits if_splits)
  ultimately show "preserves (\<lambda>s. expired_at a (rt_maps s)) (deauthenticate R address)"
    unfolding deauthenticate_def by (intro pres)
  show "preserves (\<lambda>s. expired_at a (rt_maps s)) (kmap R n (locked_Put u l))"
    by (rule preserves_kmap) (auto simp: locked_Put_def expired_at_def)
qed

lemma deauthenticate_all:
  assumes "for_each (deauthenticate R) as s = (Inr (), t)" and "address \<in> set as" and "ipv4_of R address = Some (V4 a)"
  shows "expired_at a (rt_maps t)"
  using assms(1,2)
proof (induction as arbitrary: s)
  case (Cons x as)
  then obtain u where x: "deauthenticate R x s = (Inr (), u)" and r: "for_each (deauthenticate R) as u = (Inr (), t)"
    by (auto split: prod.splits sum.splits)
  show ?case
  proof (cases "address = x")
    case True
    with deauthenticate_expires [OF x] assms(3) have "expired_at a (rt_maps u)" by simp
    moreover have "preserves (\<lambda>s. expired_at a (rt_maps s)) (for_each (deauthenticate R) as)" by (intro pres)
    ultimately show ?thesis using r by (blast dest: preservesD)
  next
    case False
    with Cons r show ?thesis by simp
  qed
qed simp

text \<open>The lock of an account, and what keeps it.\<close>

lemma locked_kept [pres]: "preserves (\<lambda>s. k_locked (rt_maps s) = L) (deauthenticate R address)"
proof -
  have "preserves (\<lambda>s. k_locked (rt_maps s) = L) (kmap R n (devices_LookupBytes b))"
    "preserves (\<lambda>s. k_locked (rt_maps s) = L) (kmap R n (devices_UpdateExist b x))" for n b x
    by (rule preserves_kmap; auto simp: devices_LookupBytes_def devices_UpdateExist_def split: option.splits)+
  then show ?thesis unfolding deauthenticate_def by (intro pres)
qed

lemma SetLockAccount_sets:
  "SetLockAccount R name l s = (Inr (), t) \<Longrightarrow> k_locked (rt_maps t) (re_sha1 R name) = Some l \<and> rt_u2a t = rt_u2a s"
proof -
  assume a: "SetLockAccount R name l s = (Inr (), t)"
  then obtain u where u: "for_each (\<lambda>address. on_error (deauthenticate R address) (\<lambda>_. ret ())) (addresses_of R name s) s = (Inr (), u)"
    and k: "kmap R ''AccountLocked.Put'' (locked_Put (re_sha1 R name) l) u = (Inr (), t)"
    by (auto simp: SetLockAccount_def ebind_eq_Inr)
  have "preserves (\<lambda>x. rt_u2a x = rt_u2a s) (deauthenticate R address)" for address
    unfolding deauthenticate_def by (intro pres preserves_kmap; assumption?) simp_all
  then have "preserves (\<lambda>x. rt_u2a x = rt_u2a s) (for_each (\<lambda>address. on_error (deauthenticate R address) (\<lambda>_. ret ())) (addresses_of R name s))"
    by (intro pres)
  from preservesD [OF this _ u] have "rt_u2a u = rt_u2a s" by simp
  with k show ?thesis by (auto simp: kmap_def locked_Put_def split: option.splits)
qed

section \<open>The handlers that revoke\<close>

definition mfa_changed :: "UserModel \<Rightarrow> UserModel \<Rightarrow> bool" where
  "mfa_changed c p \<longleftrightarrow> um_Mfa c \<noteq> um_Mfa p \<or> um_MfaType c \<noteq> um_MfaType p \<or> \<not> um_Enforcing c \<or> um_MfaType c = ''unset''"

lemma user_modified:
  assumes "userChanges R c p MODIFIED s = (Inr (), t)"
  shows "(um_Locked c \<longrightarrow> locked_user (re_sha1 R (um_Username c)) (rt_maps t)) \<and>
    (mfa_changed c p \<longrightarrow> (\<forall>address a. address \<in> set (addresses_of R (um_Username c) s) \<longrightarrow>
        ipv4_of R address = Some (V4 a) \<longrightarrow> expired_at a (rt_maps t)))"
proof -
  let ?n = "um_Username c"
  obtain u where lck: "(um_Locked c \<noteq> um_Locked p \<or> um_Locked c) \<longrightarrow>
        SetLockAccount R ?n (if um_Locked c then 1 else 0) s = (Inr (), u)"
      and same: "\<not> (um_Locked c \<noteq> um_Locked p \<or> um_Locked c) \<longrightarrow> u = s"
      and de: "mfa_changed c p \<longrightarrow> DeauthenticateAllDevices R ?n u = (Inr (), t)"
      and nd: "\<not> mfa_changed c p \<longrightarrow> t = u"
    using assms unfolding mfa_changed_def
    by (auto simp: userChanges_def ebind_eq_Inr wrap_err_eq_Inr split: if_splits)
  have u: "rt_u2a u = rt_u2a s" and l: "um_Locked c \<longrightarrow> locked_user (re_sha1 R ?n) (rt_maps u)"
    using lck same SetLockAccount_sets [of R ?n _ s u]
    by (cases "um_Locked c \<noteq> um_Locked p \<or> um_Locked c"; auto simp: locked_user_def)+
  have loop: "mfa_changed c p \<longrightarrow> for_each (deauthenticate R) (addresses_of R ?n s) u = (Inr (), t)"
    using de u by (auto simp: DeauthenticateAllDevices_def ebind_def addresses_of_def)
  have "preserves (\<lambda>x. k_locked (rt_maps x) = k_locked (rt_maps u)) (for_each (deauthenticate R) (addresses_of R ?n s))"
    by (intro pres)
  with loop have "mfa_changed c p \<longrightarrow> k_locked (rt_maps t) = k_locked (rt_maps u)" by (auto dest: preservesD)
  with nd l have "um_Locked c \<longrightarrow> locked_user (re_sha1 R ?n) (rt_maps t)" by (auto simp: locked_user_def)
  with loop show ?thesis by (blast intro: deauthenticate_all)
qed

lemma device_modified:
  assumes "deviceChanges R M c p MODIFIED s = (Inr (), t)" and "dv_Authorised c = 0"
    and "ipv4_of R (dv_Address c) = Some (V4 a)"
  shows "expired_at a (rt_maps t)"
proof -
  obtain s1 lockout s2 where "lockout_step R M lockout c s1 = (Inr (), s2)"
    and n: "node_step R c p s2 = (Inr (), t)"
    using assms(1,2) by (auto simp: deviceChanges_def ebind_eq_Inr authorise_step_def)
  then obtain s3 where "deauthenticate R (dv_Address c) s3 = (Inr (), s2)"
    using assms(2) by (auto simp: lockout_step_def ebind_eq_Inr wrap_err_eq_Inr)
  from deauthenticate_expires [OF this assms(3)] have s2: "expired_at a (rt_maps s2)" .
  show ?thesis
  proof (cases "dv_AssociatedNode c = dv_AssociatedNode p")
    case True
    with n s2 show ?thesis by (simp add: node_step_def)
  next
    case False
    with n assms(3) obtain q s4 s5 d e where
      p: "setPeerEndpoint R c q s2 = (Inr (), s4)" and l: "kmap R ''Devices.LookupBytes'' (devices_LookupBytes a) s4 = (Inr d, s5)"
      and e: "fwentry_Unpack d = Inr e"
      and w: "kmap R ''Devices.Update'' (devices_UpdateExist a (fwentry_Bytes (e\<lparr>associatedNode := dv_AssociatedNode c\<rparr>))) s5 = (Inr (), t)"
      by (auto simp: node_step_def wrap_err_eq_Inr UpdateNodeAssociation_def ebind_eq_Inr dev_key_def lift_def)
    have "preserves (\<lambda>x. rt_maps x = rt_maps s2) (ConfigureDevice R x)" for x
      by (auto simp: preserves_iff ConfigureDevice_def split: prod.splits sum.splits)
    then have "preserves (\<lambda>x. rt_maps x = rt_maps s2) (setPeerEndpoint R c q)"
      unfolding setPeerEndpoint_def by (intro pres)
    from preservesD [OF this _ p] have s4: "rt_maps s4 = rt_maps s2" by simp
    from l s4 have s5: "rt_maps s5 = rt_maps s2" "d = (case k_devices (rt_maps s2) a of None \<Rightarrow> [] | Some d \<Rightarrow> d)"
      by (auto simp: kmap_def devices_LookupBytes_def split: option.splits)
    from e s5 s2 have "sessionExpiry e = 0"
      by (auto simp: expired_at_def fwentry_Unpack_def dev_expiry_def split: option.splits if_splits)
    with w s5 show ?thesis
      by (auto simp: kmap_def devices_UpdateExist_def expired_at_def split: option.splits)
  qed
qed


section \<open>A session, and its end\<close>

definition live_entry :: fwentry where
  "live_entry = \<lparr>sessionExpiry = - 1, lastPacketTime = 100, user_id = re_sha1 renv_ref ''ann'', fw_pad = 0, associatedNode = 1\<rparr>"

definition live_state :: router where
  "live_state = first_state\<lparr>rt_maps := empty_maps\<lparr>k_devices := [IP4 10 0 0 2 \<mapsto> fwentry_Bytes live_entry],
       k_locked := [re_sha1 renv_ref ''ann'' \<mapsto> 0], k_node := 1, k_timeout := kernel_timeout 5\<rparr>,
     rt_store := put_key InactivityTimeoutKey (Json (JNum 5)) no_store\<rparr>"

lemma live_entry_fields:
  "dev_user (fwentry_Bytes live_entry) = re_sha1 renv_ref ''ann''" "dev_expiry (fwentry_Bytes live_entry) = - 1"
  "dev_last (fwentry_Bytes live_entry) = 100" "dev_node (fwentry_Bytes live_entry) = 1"
proof -
  have "length (user_id live_entry) = 20" by (simp add: live_entry_def renv_ref_def)
  then have u: "fwentry_Unpack (fwentry_Bytes live_entry) = Inr live_entry" by (rule fwentry_Unpack_Bytes)
  have "length (fwentry_Bytes live_entry) = 48" by simp
  from Unpack_48 [OF this] u
  show "dev_user (fwentry_Bytes live_entry) = re_sha1 renv_ref ''ann''" "dev_expiry (fwentry_Bytes live_entry) = - 1"
    "dev_last (fwentry_Bytes live_entry) = 100" "dev_node (fwentry_Bytes live_entry) = 1"
    by (auto simp: live_entry_def)
qed

lemma live_session: "now - 100 < 300000000000 \<Longrightarrow> session_ok 1 0 (kernel_timeout 5) now (fwentry_Bytes live_entry)"
proof -
  assume "now - 100 < 300000000000"
  moreover have "sessionExpiry live_entry = - 1" by (simp add: live_entry_def)
  ultimately show ?thesis
    by (auto simp: session_ok_def is_timed_out_def live_entry_fields kernel_timeout_def minutes_def)
qed

lemma live_state_wf: "router_wf [] live_state"
  by (auto simp: router_wf_def maps_wf_def devices_wf_def live_state_def first_state_def empty_maps_def cache_shape_def
      empty_pstate_def tables_ok_def owns_def)

lemma live_state_maps:
  "k_devices (rt_maps live_state) = [IP4 10 0 0 2 \<mapsto> fwentry_Bytes live_entry]"
  "k_locked (rt_maps live_state) = [re_sha1 renv_ref ''ann'' \<mapsto> 0]" "k_node (rt_maps live_state) = 1"
  "k_timeout (rt_maps live_state) = kernel_timeout 5"
  by (simp_all add: live_state_def)

theorem isAuthed_kernel_witness: "isAuthed renv_ref 200 ''10.0.0.2'' live_state = (Inr True, live_state)"
proof -
  have env: "re_fault renv_ref = (\<lambda>_ _. None)" "ipv4_of renv_ref ''10.0.0.2'' = Some (V4 (IP4 10 0 0 2))"
    by (simp_all add: renv_ref_def ipv4_of_def parse_eval)
  have set: "GetSessionInactivityTimeoutMinutes (re_etcd renv_ref) (rt_store live_state) = (Inr 5, rt_store live_state)"
    by (simp add: renv_ref_def live_state_def GetSessionInactivityTimeoutMinutes_def getInt_def get_setting_def
        etcd_ref.Get_quiet ebind_def lift_def range_of_single unmarshal_def)
  show ?thesis
    using isAuthed_kernel [OF live_state_wf _ _ set live_state_maps(4), of 200 "''10.0.0.2''"]
    by (simp add: env live_state_maps live_entry_fields live_session)
qed

definition ann :: UserModel where
  "ann = zero_user\<lparr>um_Username := ''ann'', um_Enforcing := True, um_MfaType := ''totp''\<rparr>"


end
