(* ===== verification/Http.thy ===== *)
theory Http
  imports Config
begin

text \<open>
  What the program uses of net/http, with pkg/httputils (the multiplexer) and the functions of
  internal/utils that find the client of a request.

  A handler works on the state of the server and on a response writer. The headers of a response
  are those set when its status is written: the first \<open>WriteHeader\<close>, or the first \<open>Write\<close> with
  status 200, commits them, and what is set afterwards is lost. A panic in a handler ends the
  connection. Forms and JSON bodies are carried as the fields and the document they encode; the
  body of a rendered page is its name with the values filled in; a view of the management console is
  its templates with the model and what their functions returned.
\<close>

section \<open>Requests and responses\<close>

record http_request =
  hr_Method :: string
  hr_Path :: string
  hr_RemoteAddr :: string
  hr_XForwardedFor :: string
  hr_ContentType :: string
  hr_query :: "(string \<times> string) list"
  hr_form :: "error + (string \<times> string) list"
  hr_body :: "error + json"
  hr_Host :: string
  hr_Origin :: string

datatype chunk = Raw string | Doc json | Page string "(string \<times> string) list" | View "string list" json json

record response_writer =
  rw_header :: "string \<rightharpoonup> string"
  rw_sent :: "(nat \<times> (string \<rightharpoonup> string)) option"
  rw_body :: "chunk list"

record http_response =
  rp_StatusCode :: nat
  rp_Header :: "string \<rightharpoonup> string"
  rp_Body :: "chunk list"

type_synonym ('s, 'a) hnd = "('s \<times> response_writer, 'a) eff"

type_synonym 's handler = "http_request \<Rightarrow> ('s, unit) hnd"

text \<open>\<open>r.FormValue\<close>: the first value of the name, or nothing.\<close>

definition FormValue :: "http_request \<Rightarrow> string \<Rightarrow> string" where
  "FormValue r key = (case hr_form r of Inl _ \<Rightarrow> '''' | Inr fs \<Rightarrow> (case map_of fs key of None \<Rightarrow> '''' | Some v \<Rightarrow> v))"

text \<open>\<open>r.URL.Query().Get\<close>.\<close>

definition Query :: "http_request \<Rightarrow> string \<Rightarrow> string" where
  "Query r key = (case map_of (hr_query r) key of None \<Rightarrow> '''' | Some v \<Rightarrow> v)"

definition on_state :: "('s, 'a) eff \<Rightarrow> ('s, 'a) hnd" where
  "on_state = zoom fst (\<lambda>x (_, w). (x, w))"

definition on_writer :: "(response_writer \<Rightarrow> response_writer) \<Rightarrow> ('s, unit) hnd" where
  "on_writer f = (\<lambda>(s, w). (Inr (), (s, f w)))"

definition set_header :: "string \<Rightarrow> string \<Rightarrow> response_writer \<Rightarrow> response_writer" where
  "set_header k v w = w\<lparr>rw_header := (rw_header w)(k \<mapsto> v)\<rparr>"

definition WriteHeader :: "nat \<Rightarrow> response_writer \<Rightarrow> response_writer" where
  "WriteHeader c w = (case rw_sent w of None \<Rightarrow> w\<lparr>rw_sent := Some (c, rw_header w)\<rparr> | Some _ \<Rightarrow> w)"

definition Write :: "chunk \<Rightarrow> response_writer \<Rightarrow> response_writer" where
  "Write b w = (let w = WriteHeader 200 w in w\<lparr>rw_body := rw_body w @ [b]\<rparr>)"

definition line :: "string \<Rightarrow> string" where
  "line msg = msg @ [CHR 0x0A]"

definition http_error :: "string \<Rightarrow> nat \<Rightarrow> response_writer \<Rightarrow> response_writer" where
  "http_error msg c w = Write (Raw (line msg)) (WriteHeader c (set_header ''X-Content-Type-Options'' ''nosniff''
     (set_header ''Content-Type'' ''text/plain; charset=utf-8'' w)))"

definition Error :: "string \<Rightarrow> nat \<Rightarrow> ('s, unit) hnd" where
  "Error msg c = on_writer (http_error msg c)"

definition NotFound :: "('s, unit) hnd" where
  "NotFound = Error ''404 page not found'' 404"

text \<open>The page that a redirection carries is left out.\<close>

definition Redirect :: "string \<Rightarrow> nat \<Rightarrow> ('s, unit) hnd" where
  "Redirect url c = on_writer (\<lambda>w. WriteHeader c (set_header ''Location'' url w))"

definition write_raw :: "string \<Rightarrow> ('s, unit) hnd" where
  "write_raw t = on_writer (Write (Raw t))"

definition write_json :: "json \<Rightarrow> ('s, unit) hnd" where
  "write_json j = on_writer (\<lambda>w. Write (Doc j) (set_header ''Content-Type'' ''application/json'' w))"

text \<open>\<open>if err != nil { fail; return }\<close>.\<close>

definition check :: "('s, 'a) hnd \<Rightarrow> (error \<Rightarrow> ('s, unit) hnd) \<Rightarrow> ('a \<Rightarrow> ('s, unit) hnd) \<Rightarrow> ('s, unit) hnd" where
  "check m fail k = ebind (attempt m) (\<lambda>r. case r of Inl e \<Rightarrow> fail e | Inr x \<Rightarrow> k x)"

definition fresh_writer :: response_writer where
  "fresh_writer = \<lparr>rw_header = (\<lambda>_. None), rw_sent = None, rw_body = []\<rparr>"

definition finish :: "response_writer \<Rightarrow> http_response" where
  "finish w = (case rw_sent w of
      None \<Rightarrow> \<lparr>rp_StatusCode = 200, rp_Header = rw_header w, rp_Body = []\<rparr>
    | Some (c, h) \<Rightarrow> \<lparr>rp_StatusCode = c, rp_Header = h, rp_Body = rw_body w\<rparr>)"

definition respond :: "('s, unit) hnd \<Rightarrow> ('s, http_response) eff" where
  "respond b s = (case b (s, fresh_writer) of
      (Inr _, (t, w)) \<Rightarrow> (Inr (finish w), t)
    | (Inl OutOfFuel, (t, w)) \<Rightarrow> (Inl OutOfFuel, t)
    | (Inl _, (t, w)) \<Rightarrow> (Inl (GoErr ''EOF''), t))"

definition serve :: "'s handler \<Rightarrow> http_request \<Rightarrow> ('s, http_response) eff" where
  "serve h r = respond (h r)"

section \<open>The multiplexer\<close>

definition AllowedMethods :: "string \<Rightarrow> 's handler \<Rightarrow> string list \<Rightarrow> 's handler" where
  "AllowedMethods contenttype h methods r =
     (if contenttype \<noteq> '''' \<and> hr_ContentType r \<noteq> contenttype then Error ''Bad Request'' 400
      else if hr_Method r \<in> set methods then h r
      else on_writer (\<lambda>w. WriteHeader 405 (set_header ''Allow'' (join_str '', '' methods) w)))"

definition mux_Get :: "'s handler \<Rightarrow> 's handler" where "mux_Get h = AllowedMethods '''' h [''GET'']"
definition mux_GetJSON :: "'s handler \<Rightarrow> 's handler" where "mux_GetJSON h = AllowedMethods ''application/json'' h [''GET'']"
definition mux_GetOrPost :: "'s handler \<Rightarrow> 's handler" where "mux_GetOrPost h = AllowedMethods '''' h [''GET'', ''POST'']"
definition mux_GetOrPostJSON :: "'s handler \<Rightarrow> 's handler" where "mux_GetOrPostJSON h = AllowedMethods ''application/json'' h [''GET'']"
definition mux_Post :: "'s handler \<Rightarrow> 's handler" where "mux_Post h = AllowedMethods '''' h [''POST'']"
definition mux_PostJSON :: "'s handler \<Rightarrow> 's handler" where "mux_PostJSON h = AllowedMethods ''application/json'' h [''POST'']"
definition mux_Delete :: "'s handler \<Rightarrow> 's handler" where "mux_Delete h = AllowedMethods '''' h [''DELETE'']"
definition mux_DeleteJSON :: "'s handler \<Rightarrow> 's handler" where "mux_DeleteJSON h = AllowedMethods ''application/json'' h [''DELETE'']"

text \<open>
  \<open>http.ServeMux\<close> on a clean path: the pattern itself, else a redirection when the pattern with a
  slash is there, else the longest pattern that ends in a slash and starts the path.
\<close>

definition slash_pattern :: "string \<Rightarrow> string \<Rightarrow> bool" where
  "slash_pattern path p \<longleftrightarrow> p \<noteq> '''' \<and> last p = CHR ''/'' \<and> prefix p path"

definition ServeMux :: "(string \<times> 's handler) list \<Rightarrow> 's handler" where
  "ServeMux routes r =
     (let path = hr_Path r in
      case map_of routes path of
        Some h \<Rightarrow> h r
      | None \<Rightarrow>
          if path @ ''/'' \<in> set (map fst routes) then Redirect (path @ ''/'') 301
          else (case sort_key length (filter (slash_pattern path) (map fst routes)) of
             [] \<Rightarrow> NotFound
           | ps \<Rightarrow> (case map_of routes (last ps) of Some h \<Rightarrow> h r | None \<Rightarrow> NotFound)))"

section \<open>The client of a request\<close>

definition v4 :: "goip option \<Rightarrow> ip4 option" where
  "v4 a = Option.bind a to4"

text \<open>The header counts only behind the configured number of proxies.\<close>

definition GetIPFromRequest :: "net_env \<Rightarrow> int \<Rightarrow> http_request \<Rightarrow> ip4 option" where
  "GetIPFromRequest N NumberProxies r =
     (let ips = hr_XForwardedFor r; addresses = split_on (CHR '','') ips; n = int (length addresses) in
      if NumberProxies > 0 \<and> ips \<noteq> '''' then
        if n - NumberProxies < 0 then v4 (ParseIP N (trim_space (last addresses)))
        else v4 (ParseIP N (trim_space (addresses ! nat (n - NumberProxies))))
      else v4 (ParseIP N (GetIP (hr_RemoteAddr r))))"

definition ip_text :: "ip4 option \<Rightarrow> string" where
  "ip_text a = (case a of None \<Rightarrow> ''<nil>'' | Some a \<Rightarrow> ip4_string a)"

section \<open>Lemmas\<close>

named_theorems http_simps \<open>running a handler\<close>

lemma on_writer_apply [simp, http_simps]: "on_writer f (s, w) = (Inr (), (s, f w))"
  by (simp add: on_writer_def)

lemma on_state_apply [http_simps]: "on_state m (s, w) = (case m s of (r, t) \<Rightarrow> (r, (t, w)))"
  by (simp add: on_state_def zoom_def)

lemma check_cases [http_simps]:
  "m x = (Inr v, y) \<Longrightarrow> check m f k x = k v y"
  "m x = (Inl (GoErr e), y) \<Longrightarrow> check m f k x = f e y"
  "m x = (Inl (GoPanic p), y) \<Longrightarrow> check m f k x = (Inl (GoPanic p), y)"
  "m x = (Inl OutOfFuel, y) \<Longrightarrow> check m f k x = (Inl OutOfFuel, y)"
  by (simp_all add: check_def attempt_def ebind_def)

text \<open>What is sent is never changed again.\<close>

lemma rw_sent_writers [simp]:
  "rw_sent (set_header k v w) = rw_sent w"
  "rw_sent (WriteHeader c w) = (case rw_sent w of None \<Rightarrow> Some (c, rw_header w) | x \<Rightarrow> x)"
  "rw_sent (Write b w) = (case rw_sent w of None \<Rightarrow> Some (200, rw_header w) | x \<Rightarrow> x)"
  by (simp_all add: set_header_def WriteHeader_def Write_def Let_def split: option.splits)

lemma rw_header_writers [simp]:
  "rw_header (set_header k v w) = (rw_header w)(k \<mapsto> v)"
  "rw_header (WriteHeader c w) = rw_header w"
  "rw_header (Write b w) = rw_header w"
  by (simp_all add: set_header_def WriteHeader_def Write_def Let_def split: option.splits)

lemma rw_body_writers [simp]:
  "rw_body (set_header k v w) = rw_body w"
  "rw_body (WriteHeader c w) = rw_body w"
  "rw_body (Write b w) = rw_body w @ [b]"
  by (simp_all add: set_header_def WriteHeader_def Write_def Let_def split: option.splits)

lemma fresh_writer_simps [simp]:
  "rw_header fresh_writer = (\<lambda>_. None)" "rw_sent fresh_writer = None" "rw_body fresh_writer = []"
  by (simp_all add: fresh_writer_def)

text \<open>The address of a connection is read back.\<close>

lemma GetIP_port:
  assumes "CHR '':'' \<notin> set p" and "CHR ''/'' \<notin> set p" and "a \<noteq> ''''"
  shows "GetIP (a @ CHR '':'' # p) = a"
proof -
  have "takeWhile (\<lambda>c. c \<noteq> CHR '':'' \<and> c \<noteq> CHR ''/'') (rev p @ CHR '':'' # rev a) = rev p"
    using assms(1,2) by (subst takeWhile_append2) auto
  then show ?thesis using assms(3) by (simp add: GetIP_def)
qed

text \<open>
  Without a proxy the header is ignored: a client cannot choose the address it is taken for.
\<close>

lemma GetIPFromRequest_direct:
  "NumberProxies \<le> 0 \<Longrightarrow> GetIPFromRequest N NumberProxies (r\<lparr>hr_XForwardedFor := x\<rparr>) = GetIPFromRequest N NumberProxies r"
  by (simp add: GetIPFromRequest_def Let_def)

end
