(* ===== verification/Users.thy ===== *)
theory Users
  imports DataDevices Http
begin

text \<open>
  internal/users/user.go: the operations on an account as the web server and the control socket
  see them. The methods of \<open>user\<close> are prefixed with \<open>user_\<close> where they wrap an operation of
  internal/data of the same name. The authenticator that checks the second factor is an argument,
  as it is in the code; it gets the stored secret and the name.
\<close>

section \<open>Operations\<close>

record user =
  Username :: string
  Locked :: bool
  Enforcing :: bool

type_synonym 's authenticator = "string \<Rightarrow> string \<Rightarrow> ('s, unit) eff"

definition ResetDeviceAuthAttempts :: "etcd \<Rightarrow> user \<Rightarrow> string \<Rightarrow> (store, unit) eff" where
  "ResetDeviceAuthAttempts E u address = SetDeviceAuthenticationAttempts E (Username u) address 0"

definition EnforceMFA :: "etcd \<Rightarrow> user \<Rightarrow> (store, unit) eff" where
  "EnforceMFA E u = SetEnforceMFAOn E (Username u)"

definition UnenforceMFA :: "etcd \<Rightarrow> user \<Rightarrow> (store, unit) eff" where
  "UnenforceMFA E u = SetEnforceMFAOff E (Username u)"

text \<open>The value stored as the secret is the name of the user.\<close>

definition ResetMfa :: "etcd \<Rightarrow> user \<Rightarrow> (store, unit) eff" where
  "ResetMfa E u = ebind (SetUserMfa E (Username u) (Username u) Unset) (\<lambda>_. UnenforceMFA E u)"

definition SetDeviceAuthAttempts :: "etcd \<Rightarrow> user \<Rightarrow> string \<Rightarrow> int \<Rightarrow> (store, unit) eff" where
  "SetDeviceAuthAttempts E u address number = SetDeviceAuthenticationAttempts E (Username u) address number"

text \<open>\<open>parse\<close> is \<open>wgtypes.ParseKey\<close>; a key is its canonical text.\<close>

definition SetDevicePublicKey :: "etcd \<Rightarrow> (string \<Rightarrow> error + string) \<Rightarrow> user \<Rightarrow> string \<Rightarrow> string \<Rightarrow> (store, unit) eff" where
  "SetDevicePublicKey E parse u publickey address = (case parse publickey of
      Inl e \<Rightarrow> raise e
    | Inr key \<Rightarrow> UpdateDevicePublicKey E (Username u) address key)"

definition GetDevicePresharedKey :: "etcd \<Rightarrow> user \<Rightarrow> string \<Rightarrow> (store, string) eff" where
  "GetDevicePresharedKey E u address = ebind (GetDeviceByAddress E address) (\<lambda>device.
     ret (if dv_PresharedKey device = ''unset'' then '''' else dv_PresharedKey device))"

definition user_AddDevice :: "etcd \<Rightarrow> net_env \<Rightarrow> (nat \<Rightarrow> nat) \<Rightarrow> string \<Rightarrow> error + string \<Rightarrow> user \<Rightarrow> string \<Rightarrow> (store, Device) eff" where
  "user_AddDevice E N intn wireguard_address generated u publickey =
     AddDevice E N intn wireguard_address generated (Username u) publickey"

definition user_DeleteDevice :: "etcd \<Rightarrow> user \<Rightarrow> string \<Rightarrow> (store, unit) eff" where
  "user_DeleteDevice E u address = DeleteDevice E (Username u) address"

definition user_GetDevice :: "etcd \<Rightarrow> user \<Rightarrow> string \<Rightarrow> (store, Device) eff" where
  "user_GetDevice E u ident = GetDevice E (Username u) ident"

definition user_GetDevices :: "etcd \<Rightarrow> user \<Rightarrow> (store, Device list) eff" where
  "user_GetDevices E u = GetDevicesByUser E (Username u)"

text \<open>Locking also changes the receiver, whether the store is changed or not.\<close>

definition user_Lock :: "etcd \<Rightarrow> (user \<times> store, unit) eff" where
  "user_Lock E = (\<lambda>(u, s). case SetUserLock E (Username u) s of (r, t) \<Rightarrow> (r, (u\<lparr>Locked := True\<rparr>, t)))"

definition user_Unlock :: "etcd \<Rightarrow> (user \<times> store, unit) eff" where
  "user_Unlock E = (\<lambda>(u, s). case SetUserUnlock E (Username u) s of (r, t) \<Rightarrow> (r, (u\<lparr>Locked := False\<rparr>, t)))"

definition user_IsEnforcingMFA :: "etcd \<Rightarrow> user \<Rightarrow> (store, bool) eff" where
  "user_IsEnforcingMFA E u = IsEnforcingMFA E (Username u)"

definition user_Delete :: "etcd \<Rightarrow> user \<Rightarrow> (store, unit) eff" where
  "user_Delete E u = DeleteUser E (Username u)"

text \<open>
  The authenticator may change more than the store (the codes already used, the response), so the
  state is whatever contains the store: \<open>get\<close> and \<open>put\<close> say where.
\<close>

definition Authenticate ::
  "('s \<Rightarrow> store) \<Rightarrow> (store \<Rightarrow> 's \<Rightarrow> 's) \<Rightarrow> etcd \<Rightarrow> int \<Rightarrow> error + string \<Rightarrow> user \<Rightarrow> string \<Rightarrow> string \<Rightarrow>
   's authenticator \<Rightarrow> ('s, string) eff" where
  "Authenticate get put E now random u device mfaType authenticator =
     ebind (zoom get put (wrap_err (\<lambda>e. ''failed to pre-emptively increment authentication attempt counter: '' @ e)
       (IncrementAuthenticationAttempt E (Username u) device))) (\<lambda>_.
     ebind (zoom get put (wrap_err (\<lambda>e. ''failed to get authenticator details: '' @ e)
       (GetAuthenticationDetails E (Username u) device))) (\<lambda>ad.
     ebind (zoom get put (wrap_err (\<lambda>_. ''could not get lockout value'') (GetLockout E))) (\<lambda>lockout.
     if lockout \<le> ad_attempts ad then raise ''device is locked''
     else if ad_locked ad then raise ''account is locked''
     else if ad_mfaType ad \<noteq> mfaType
       then raise (''authenticator '' @ mfaType @ '' used for user with '' @ ad_mfaType ad)
     else
     ebind (authenticator (ad_mfa ad) (Username u)) (\<lambda>_.
     zoom get put
       (ebind (ebind (user_IsEnforcingMFA E u) (\<lambda>enforcing.
          if \<not> enforcing
          then wrap_err (\<lambda>e. Username u @ '' '' @ device @ '' failed to set MFA to enforcing: '' @ e) (EnforceMFA E u)
          else ret ())) (\<lambda>_.
        wrap_err (\<lambda>e. Username u @ '' '' @ device @ '' unable to reset number of mfa attempts: '' @ e)
          (AuthoriseDevice E now random (Username u) device)))))))"

definition Deauthenticate :: "etcd \<Rightarrow> user \<Rightarrow> string \<Rightarrow> (store, unit) eff" where
  "Deauthenticate E u device = DeauthenticateDevice E device"

definition user_MFA :: "etcd \<Rightarrow> user \<Rightarrow> (store, string) eff" where
  "user_MFA E u = wrap_err (\<lambda>e. ''failed to get MFA details: '' @ e) (GetMFASecret E (Username u))"

definition user_GetMFAType :: "etcd \<Rightarrow> user \<Rightarrow> (store, string) eff" where
  "user_GetMFAType E u = on_error (GetMFAType E (Username u)) (\<lambda>_. ret Unset)"

definition user_of :: "UserModel \<Rightarrow> user" where
  "user_of ud = \<lparr>Username = um_Username ud, Locked = um_Locked ud, Enforcing = um_Enforcing ud\<rparr>"

definition CreateUser :: "etcd \<Rightarrow> string \<Rightarrow> (store, user) eff" where
  "CreateUser E username = ebind (CreateUserDataAccount E username) (\<lambda>ud. ret (user_of ud))"

definition GetUser :: "etcd \<Rightarrow> string \<Rightarrow> (store, user) eff" where
  "GetUser E username = ebind (GetUserData E username) (\<lambda>ud. ret (user_of ud))"

text \<open>The address is given by the text of its IPv4 form; no address prints as \<open><nil>\<close>.\<close>

definition GetUserFromAddress :: "etcd \<Rightarrow> goip option \<Rightarrow> (store, user) eff" where
  "GetUserFromAddress E address = ebind (GetUserDataFromAddress E (ip_text (v4 address))) (\<lambda>ud. ret (user_of ud))"


section \<open>What the reads of an authentication see\<close>

lemma GetAuthenticationDetails_ok:
  assumes "etcd_service E" and "GetAuthenticationDetails E n a s = (Inr ad, t)"
  shows "later s t \<and> (\<exists>u d. user_at t n = Some u \<and> device_at t (deviceKey n a) = Some d \<and>
     ad = \<lparr>ad_mfa = um_Mfa u, ad_mfaType = um_MfaType u, ad_attempts = dv_Attempts d, ad_locked = um_Locked u\<rparr>)"
proof -
  let ?ops = "[OpGet (userKey n), OpGet (deviceKey n a)]"
  have key: "''devices-'' @ n @ ''-'' @ a = deviceKey n a" by (simp add: deviceKey_def)
  from assms(2) obtain b rs s1 where g: "Txn E [] ?ops [] s = (Inr (b, rs), s1)"
    and rest: "(case range_kvs (rs ! 0) of
       [(_, u, _)] \<Rightarrow> (case range_kvs (rs ! 1) of
          [(_, d, _)] \<Rightarrow>
             ebind (lift (unmarshal (dec_user zero_user) u)) (\<lambda>user.
             ebind (lift (unmarshal dec_device d)) (\<lambda>deviceModel.
             ret \<lparr>ad_mfa = um_Mfa user, ad_mfaType = um_MfaType user, ad_attempts = dv_Attempts deviceModel,
                  ad_locked = um_Locked user\<rparr>))
        | _ \<Rightarrow> raise ''invalid number of device entries'')
     | _ \<Rightarrow> raise ''invalid number of user entries'') s1 = (Inr ad, t)"
    unfolding GetAuthenticationDetails_def user_key_eq key ebind_eq_Inr by auto
  from etcd_service.Txn_ok [OF assms(1) g] obtain m where m: "later s m"
    and "apply_request \<lparr>rq_if = [], rq_then = ?ops, rq_else = []\<rparr> m = ((b, rs), s1)" by blast
  then have s1: "s1 = m" "rs = [Range (range_of m [userKey n]), Range (range_of m [deviceKey n a])]"
    by (auto simp: apply_request_def)
  from rest obtain v r w q u d where "range_of m [userKey n] = [(userKey n, v, r)]"
    and "range_of m [deviceKey n a] = [(deviceKey n a, w, q)]"
    and "unmarshal (dec_user zero_user) v = Inr u" and "unmarshal dec_device w = Inr d" and t: "t = m"
    and ad: "ad = \<lparr>ad_mfa = um_Mfa u, ad_mfaType = um_MfaType u, ad_attempts = dv_Attempts d, ad_locked = um_Locked u\<rparr>"
    unfolding s1 by (auto simp: ebind_eq_Inr range_of_eq_Cons split: list.splits)
  then have "user_at t n = Some u" "device_at t (deviceKey n a) = Some d"
    by (auto simp: user_at_def device_at_def value_at_def range_of_eq_Cons unmarshal_def split: gvalue.splits)
  with m t ad show ?thesis by blast
qed

lemma evolves_Increment: "etcd_service E \<Longrightarrow> evolves (IncrementAuthenticationAttempt E n a)"
  unfolding IncrementAuthenticationAttempt_def
  by (auto intro!: evolves_intro etcd_service.evolves_doSafeUpdate evolves_GetLockout)

lemma evolves_enforcing:
  assumes "etcd_service E"
  shows "evolves (IsEnforcingMFA E n)" and "evolves (SetEnforceMFAOn E n)"
  unfolding IsEnforcingMFA_def SetEnforceMFAOn_def
  by (auto intro!: evolves_intro etcd_service.evolves_ops etcd_service.evolves_doSafeUpdate assms)


section \<open>Properties\<close>

text \<open>The stages of a successful authentication, in the order of the calls.\<close>

lemma Authenticate_stages:
  assumes "\<And>x z. get (put x z) = x"
    and "Authenticate get put E now random u dev ty auth s = (Inr c, t)"
  obtains s1 s2 q y s5 ad l where
    "IncrementAuthenticationAttempt E (Username u) dev (get s) = (Inr (), s1)"
    and "GetAuthenticationDetails E (Username u) dev s1 = (Inr ad, s2)"
    and "GetLockout E s2 = (Inr l, get q)"
    and "ad_attempts ad < l" and "\<not> ad_locked ad" and "ad_mfaType ad = ty"
    and "auth (ad_mfa ad) (Username u) q = (Inr (), y)"
    and "IsEnforcingMFA E (Username u) (get y) = (Inr True, s5) \<or>
      (\<exists>s'. IsEnforcingMFA E (Username u) (get y) = (Inr False, s') \<and> SetEnforceMFAOn E (Username u) s' = (Inr (), s5))"
    and "AuthoriseDevice E now random (Username u) dev s5 = (Inr c, get t)"
proof -
  define enforced where "enforced = ebind (user_IsEnforcingMFA E u) (\<lambda>enforcing.
       if \<not> enforcing
       then wrap_err (\<lambda>e. Username u @ '' '' @ dev @ '' failed to set MFA to enforcing: '' @ e) (EnforceMFA E u)
       else ret ())"
  from assms(2) obtain s1 s2 s3 q ad l where
    calls: "IncrementAuthenticationAttempt E (Username u) dev (get s) = (Inr (), s1)"
    "GetAuthenticationDetails E (Username u) dev s1 = (Inr ad, s2)" "GetLockout E s2 = (Inr l, s3)" and q: "q = put s3 (put s2 (put s1 s))" and
    rest: "(if l \<le> ad_attempts ad then raise ''device is locked''
     else if ad_locked ad then raise ''account is locked''
     else if ad_mfaType ad \<noteq> ty
       then raise (''authenticator '' @ ty @ '' used for user with '' @ ad_mfaType ad)
     else
     ebind (auth (ad_mfa ad) (Username u)) (\<lambda>_.
     zoom get put (ebind enforced (\<lambda>_.
     wrap_err (\<lambda>e. Username u @ '' '' @ dev @ '' unable to reset number of mfa attempts: '' @ e)
       (AuthoriseDevice E now random (Username u) dev))))) q = (Inr c, t)"
    unfolding Authenticate_def enforced_def [symmetric] by (auto simp: ebind_eq_Inr wrap_err_eq_Inr zoom_eq_Inr assms(1))
  then have "get q = s3" using assms(1) by simp
  with calls have "IncrementAuthenticationAttempt E (Username u) dev (get s) = (Inr (), s1)"
    "GetAuthenticationDetails E (Username u) dev s1 = (Inr ad, s2)" "GetLockout E s2 = (Inr l, get q)" by simp_all
  moreover from rest have "ad_attempts ad < l" "\<not> ad_locked ad" "ad_mfaType ad = ty"
    by (auto split: if_splits)
  moreover from rest this obtain y s5 where "auth (ad_mfa ad) (Username u) q = (Inr (), y)"
    "enforced (get y) = (Inr (), s5)" "AuthoriseDevice E now random (Username u) dev s5 = (Inr c, get t)"
    by (auto simp: ebind_eq_Inr wrap_err_eq_Inr zoom_eq_Inr assms(1))
  moreover from this(2) have "IsEnforcingMFA E (Username u) (get y) = (Inr True, s5) \<or>
      (\<exists>s'. IsEnforcingMFA E (Username u) (get y) = (Inr False, s') \<and> SetEnforceMFAOn E (Username u) s' = (Inr (), s5))"
    by (auto simp: enforced_def ebind_eq_Inr wrap_err_eq_Inr user_IsEnforcingMFA_def EnforceMFA_def split: if_splits)
  ultimately show ?thesis using that by blast
qed

text \<open>C3
  No session without the second factor: when \<open>Authenticate\<close> succeeds, whatever other clients and the
  authenticator do to the store meanwhile, then after the call began there was a moment at which the
  stored device had fewer attempts than the lockout, the account was not locked and had the method
  asked for; after it the authenticator accepted the secret stored at that moment; after that there
  was another moment at which the account the device names was not locked; and the device now holds
  the fresh challenge, the time of the authentication and no failed attempts.
\<close>

theorem Authenticate_sound:
  assumes "etcd_service E" and "store_wf (get s)" and "\<And>x z. get (put x z) = x"
    and "\<And>secret name z. later (get z) (get (snd (auth secret name z)))"
    and "Authenticate get put E now random u dev ty auth s = (Inr c, t)"
  shows "random = Inr c \<and> (\<exists>p q l a d y w m e usr. later (get s) p \<and> user_at p (Username u) = Some a \<and>
     \<not> um_Locked a \<and> um_MfaType a = ty \<and> device_at p (deviceKey (Username u) dev) = Some d \<and>
     GetLockout E p = (Inr l, get q) \<and> dv_Attempts d < l \<and>
     auth (um_Mfa a) (Username u) q = (Inr (), y) \<and> later (get y) w \<and> later w m \<and>
     device_at m (deviceKey (Username u) dev) = Some e \<and> user_at w (dv_Username e) = Some usr \<and> \<not> um_Locked usr \<and>
     device_at (get t) (deviceKey (Username u) dev) = Some (e\<lparr>dv_AssociatedNode := GetServerID E, dv_Authorised := now,
                                           dv_Attempts := 0, dv_Challenge := c\<rparr>))"
proof -
  let ?n = "Username u" and ?key = "deviceKey (Username u) dev"
  from Authenticate_stages [where get = get and put = put, OF assms(3,5)] obtain s1 s2 q y s5 ad l where
    "IncrementAuthenticationAttempt E ?n dev (get s) = (Inr (), s1)"
    and det: "GetAuthenticationDetails E ?n dev s1 = (Inr ad, s2)" and lock: "GetLockout E s2 = (Inr l, get q)"
    and chk: "ad_attempts ad < l" "\<not> ad_locked ad" "ad_mfaType ad = ty"
    and ok: "auth (ad_mfa ad) ?n q = (Inr (), y)"
    and enf: "IsEnforcingMFA E ?n (get y) = (Inr True, s5) \<or>
      (\<exists>s'. IsEnforcingMFA E ?n (get y) = (Inr False, s') \<and> SetEnforceMFAOn E ?n s' = (Inr (), s5))"
    and fin: "AuthoriseDevice E now random ?n dev s5 = (Inr c, get t)" .
  then have s1: "later (get s) s1" using evolvesD [OF evolves_Increment [OF assms(1)]] by blast
  from GetAuthenticationDetails_ok [OF assms(1) det] obtain a d where s2: "later s1 s2"
    and a: "user_at s2 ?n = Some a" "device_at s2 ?key = Some d"
    and ad: "ad = \<lparr>ad_mfa = um_Mfa a, ad_mfaType = um_MfaType a, ad_attempts = dv_Attempts d, ad_locked = um_Locked a\<rparr>"
    by blast
  have s3: "later s2 (get q)" using lock evolvesD [OF evolves_GetLockout [OF assms(1)]] by blast
  have s4: "later (get q) (get y)" using assms(4) [of q "ad_mfa ad" ?n] ok by simp
  have s5: "later (get y) s5"
    using enf evolvesD [OF evolves_enforcing(1) [OF assms(1)]] evolvesD [OF evolves_enforcing(2) [OF assms(1)]]
    by (blast intro: later_trans)
  have sp: "later (get s) s2" using s1 s2 by (rule later_trans)
  have wf: "store_wf s5" using sp s3 s4 s5 assms(2) by (blast intro: later_trans later_wf)
  from AuthoriseDevice_atomic [OF assms(1) wf fin] obtain m e w usr where random: "random = Inr c"
    and e: "device_at m ?key = Some e" and w: "later s5 w" "later w m"
    and usr: "user_at w (dv_Username e) = Some usr" "\<not> um_Locked usr"
    and t: "device_at (get t) ?key = Some (e\<lparr>dv_AssociatedNode := GetServerID E, dv_Authorised := now,
                                           dv_Attempts := 0, dv_Challenge := c\<rparr>)" by blast
  have yw: "later (get y) w" using s5 w(1) by (rule later_trans)
  from chk ok ad have "\<not> um_Locked a" "um_MfaType a = ty" "dv_Attempts d < l" "auth (um_Mfa a) ?n q = (Inr (), y)"
    by simp_all
  with random sp a lock yw w(2) e usr t show ?thesis by blast
qed

text \<open>Signing in on the store alone.\<close>

lemma zoom_all [simp]: "zoom (\<lambda>s. s) (\<lambda>x _. x) m = m"
  by (rule ext) (simp add: zoom_def split: prod.splits)

abbreviation Authenticate_store where
  "Authenticate_store \<equiv> Authenticate (\<lambda>s :: store. s) (\<lambda>x _. x)"

section \<open>Guessing\<close>

text \<open>With nobody else writing: the counter moves first, then the checks decide.\<close>

definition counted :: "int \<Rightarrow> Device \<Rightarrow> Device" where
  "counted l d = (if dv_Attempts d \<le> l then d\<lparr>dv_Attempts := dv_Attempts d + 1\<rparr> else d)"

lemma counted_ok: "device_ok d \<Longrightarrow> l < 2 ^ 63 - 1 \<Longrightarrow> device_ok (counted l d)"
  by (auto simp: counted_def device_ok_def int64_def)

lemma key_not_lockout [simp]: "deviceKey n a \<noteq> LockoutKey" "userKey n \<noteq> LockoutKey"
  "LockoutKey \<noteq> deviceKey n a" "LockoutKey \<noteq> userKey n"
  by (simp_all add: deviceKey_def userKey_def UsersPrefix_def LockoutKey_def)

text \<open>An account with a device and a lockout, as they stand in the store.\<close>

definition signs_in :: "store \<Rightarrow> string \<Rightarrow> string \<Rightarrow> UserModel \<Rightarrow> Device \<Rightarrow> int \<Rightarrow> bool" where
  "signs_in s n a u d l \<longleftrightarrow> user_at s n = Some u \<and> device_at s (deviceKey n a) = Some d \<and>
     value_at s LockoutKey = Some (Json (JNum l)) \<and> int64 l \<and> l < 2 ^ 63 - 1"

definition count_attempt :: "string \<Rightarrow> string \<Rightarrow> int \<Rightarrow> Device \<Rightarrow> store \<Rightarrow> store" where
  "count_attempt n a l d s = put_key (deviceKey n a) (Json (enc_device (counted l d))) s"

lemma signs_in_counted:
  assumes "signs_in s n a u d l"
  shows "signs_in (count_attempt n a l d s) n a u (counted l d) l"
proof -
  from assms have "device_ok (counted l d)" by (auto simp: signs_in_def intro: counted_ok device_at_ok)
  then show ?thesis using assms by (simp add: signs_in_def count_attempt_def user_at_def)
qed

context etcd_quiet
begin

lemma Increment_quiet:
  assumes "signs_in s n a u d l"
  shows "IncrementAuthenticationAttempt E n a s = (Inr (), count_attempt n a l d s)"
proof -
  from assms have dev: "device_at s (deviceKey n a) = Some d"
    and lock: "GetLockout E s = (Inr l, s)"
    by (auto simp: signs_in_def intro: GetLockout_quiet [OF etcd_quiet_axioms])
  obtain j r where "range_of s [deviceKey n a] = [(deviceKey n a, Json j, r)]" and "dec_device j = Inr d"
    and "find_key s (deviceKey n a) \<noteq> None" using device_atE [OF dev] .
  then show ?thesis
    unfolding IncrementAuthenticationAttempt_def count_attempt_def
    by (subst doSafeUpdate_quiet [where r = "Inr (Json (enc_device (counted l d)))"])
       (auto simp: ebind_def lock counted_def)
qed

lemma GetAuthenticationDetails_quiet:
  assumes "signs_in s n a u d l"
  shows "GetAuthenticationDetails E n a s =
    (Inr \<lparr>ad_mfa = um_Mfa u, ad_mfaType = um_MfaType u, ad_attempts = dv_Attempts d, ad_locked = um_Locked u\<rparr>, s)"
proof -
  have key: "''devices-'' @ n @ ''-'' @ a = deviceKey n a" by (simp add: deviceKey_def)
  from assms have at: "user_at s n = Some u" "device_at s (deviceKey n a) = Some d" by (simp_all add: signs_in_def)
  from user_at_range [OF at(1)] obtain j r where u: "range_of s [userKey n] = [(userKey n, Json j, r)]"
    "dec_user zero_user j = Inr u" .
  from device_atE [OF at(2)] obtain j' r' where d: "range_of s [deviceKey n a] = [(deviceKey n a, Json j', r')]"
    "dec_device j' = Inr d" .
  show ?thesis
    unfolding GetAuthenticationDetails_def user_key_eq key
    by (simp add: Txn_quiet apply_request_def ebind_def u d)
qed

lemma Authenticate_quiet:
  assumes "signs_in s (Username u) a usr d l"
  shows "Authenticate_store E now random u a ty auth s =
    (let s' = count_attempt (Username u) a l d s in
     if l \<le> dv_Attempts (counted l d) then (Inl (GoErr ''device is locked''), s')
     else if um_Locked usr then (Inl (GoErr ''account is locked''), s')
     else if um_MfaType usr \<noteq> ty
       then (Inl (GoErr (''authenticator '' @ ty @ '' used for user with '' @ um_MfaType usr)), s')
     else ebind (auth (um_Mfa usr) (Username u)) (\<lambda>_.
     ebind (ebind (user_IsEnforcingMFA E u) (\<lambda>enforcing.
       if \<not> enforcing
       then wrap_err (\<lambda>e. Username u @ '' '' @ a @ '' failed to set MFA to enforcing: '' @ e) (EnforceMFA E u)
       else ret ())) (\<lambda>_.
     wrap_err (\<lambda>e. Username u @ '' '' @ a @ '' unable to reset number of mfa attempts: '' @ e)
       (AuthoriseDevice E now random (Username u) a))) s')"
proof -
  let ?s = "count_attempt (Username u) a l d s"
  have c: "signs_in ?s (Username u) a usr (counted l d) l" using assms by (rule signs_in_counted)
  then have "GetLockout E ?s = (Inr l, ?s)" by (intro GetLockout_quiet [OF etcd_quiet_axioms]) (simp_all add: signs_in_def)
  with Increment_quiet [OF assms] GetAuthenticationDetails_quiet [OF c] show ?thesis
    unfolding Authenticate_def
    by (simp add: ebind_Inr wrap_err_def on_error_def raise_def Let_def)
qed

end

text \<open>An authenticator that turns a guess down and touches nothing.\<close>

definition rejects :: "store authenticator \<Rightarrow> bool" where
  "rejects auth \<longleftrightarrow> (\<forall>secret name s. \<exists>e. auth secret name s = (Inl (GoErr e), s))"

fun guesses :: "etcd \<Rightarrow> int \<Rightarrow> error + string \<Rightarrow> user \<Rightarrow> string \<Rightarrow> string \<Rightarrow> store authenticator list \<Rightarrow> store \<Rightarrow> store" where
  "guesses E now random u a ty [] s = s"
| "guesses E now random u a ty (auth # auths) s =
     guesses E now random u a ty auths (snd (Authenticate_store E now random u a ty auth s))"

context etcd_quiet
begin

lemma rejected_guess:
  assumes "signs_in s (Username u) a usr d l" and "rejects auth"
  shows "snd (Authenticate_store E now random u a ty auth s) = count_attempt (Username u) a l d s"
proof -
  obtain e where "auth (um_Mfa usr) (Username u) (count_attempt (Username u) a l d s) =
      (Inl (GoErr e), count_attempt (Username u) a l d s)"
    using assms(2) unfolding rejects_def by blast
  then show ?thesis unfolding Authenticate_quiet [OF assms(1)] by (simp add: Let_def ebind_Inl)
qed

lemma guesses_quiet:
  assumes "signs_in s (Username u) a usr d l" and "\<And>auth. auth \<in> set auths \<Longrightarrow> rejects auth"
  shows "\<exists>d'. signs_in (guesses E now random u a ty auths s) (Username u) a usr d' l \<and>
     min (l + 1) (dv_Attempts d + int (length auths)) \<le> dv_Attempts d'"
  using assms
proof (induction auths arbitrary: s d)
  case (Cons auth auths)
  have "signs_in (count_attempt (Username u) a l d s) (Username u) a usr (counted l d) l"
    using Cons.prems(1) by (rule signs_in_counted)
  from Cons.IH [OF this] Cons.prems(2) obtain d' where
    "signs_in (guesses E now random u a ty auths (count_attempt (Username u) a l d s)) (Username u) a usr d' l"
    and "min (l + 1) (dv_Attempts (counted l d) + int (length auths)) \<le> dv_Attempts d'" by auto
  moreover have "rejects auth" using Cons.prems(2) by simp
  moreover have "min (l + 1) (dv_Attempts d + int (length (auth # auths))) \<le>
      min (l + 1) (dv_Attempts (counted l d) + int (length auths))" by (auto simp: counted_def)
  ultimately show ?case
    using rejected_guess [OF Cons.prems(1)] by (auto intro!: exI [of _ d'])
qed (auto intro!: exI)

end

text \<open>C8
  The second factor cannot be guessed beyond the lockout: when nobody else writes, a device that
  starts at \<open>k\<close> attempts can have at most \<open>lockout - k - 1\<close> guesses turned down before it is
  locked; from then on every further attempt is refused before the authenticator is asked, even if
  it would accept.
\<close>

theorem guesses_bounded:
  assumes "etcd_quiet E" and "signs_in s (Username u) a usr d l"
    and "\<And>auth. auth \<in> set auths \<Longrightarrow> rejects auth"
    and "l \<le> dv_Attempts d + int (length auths) + 1"
  shows "fst (Authenticate_store E now random u a ty accept (guesses E now random u a ty auths s)) =
    Inl (GoErr ''device is locked'')"
proof -
  from etcd_quiet.guesses_quiet [OF assms(1-3)] obtain d' where
    "signs_in (guesses E now random u a ty auths s) (Username u) a usr d' l"
    and "min (l + 1) (dv_Attempts d + int (length auths)) \<le> dv_Attempts d'" by blast
  moreover from this(2) assms(4) have "l \<le> dv_Attempts (counted l d')" by (auto simp: counted_def)
  ultimately show ?thesis by (simp add: etcd_quiet.Authenticate_quiet [OF assms(1)] Let_def)
qed


section \<open>Witnesses\<close>

definition ann :: user where
  "ann = \<lparr>Username = ''ann'', Locked = False, Enforcing = True\<rparr>"

definition demo_login :: store where
  "demo_login = put_key LockoutKey (Json (JNum 5)) demo_store2"

text \<open>Accepts the stored secret only.\<close>

definition demo_auth :: "store authenticator" where
  "demo_auth secret name = (if secret = ''seed'' then ret () else raise ''invalid code'')"

definition wrong_code :: "store authenticator" where
  "wrong_code secret name = raise ''invalid code''"

lemma demo_login_signs_in: "signs_in demo_login (Username ann) ''10.0.0.2'' demo_user demo_device 5"
proof -
  have "user_at demo_login ''ann'' = user_at demo_store2 ''ann''"
    by (simp add: demo_login_def user_at_def)
  moreover have "device_at demo_login k = device_at demo_store2 k" if "k \<noteq> LockoutKey" for k
    using that by (simp add: demo_login_def device_at_def)
  ultimately show ?thesis by (simp add: signs_in_def ann_def demo_login_def int64_def)
qed

theorem guesses_bounded_witness:
  "fst (Authenticate_store etcd_ref 7 (Inr ''c'') ann ''10.0.0.2'' ''totp'' demo_auth
     (guesses etcd_ref 7 (Inr ''c'') ann ''10.0.0.2'' ''totp'' (replicate 4 wrong_code) demo_login)) =
   Inl (GoErr ''device is locked'')"
  by (rule guesses_bounded [OF etcd_ref.etcd_quiet_axioms demo_login_signs_in])
     (auto simp: rejects_def wrong_code_def raise_def demo_device_def new_device_def zero_device_def)

theorem Authenticate_sound_witness:
  "\<exists>t d. Authenticate_store etcd_ref 7 (Inr ''c'') ann ''10.0.0.2'' ''totp'' demo_auth demo_login = (Inr ''c'', t) \<and>
     device_at t (deviceKey ''ann'' ''10.0.0.2'') = Some d \<and> dv_Authorised d = 7 \<and> dv_Challenge d = ''c''"
proof -
  let ?k = "deviceKey ''ann'' ''10.0.0.2''"
  let ?s = "count_attempt ''ann'' ''10.0.0.2'' 5 demo_device demo_login"
  have n: "Username ann = ''ann''" by (simp add: ann_def)
  have in1: "signs_in ?s ''ann'' ''10.0.0.2'' demo_user (counted 5 demo_device) 5"
    using signs_in_counted [OF demo_login_signs_in] n by simp
  then have at: "user_at ?s ''ann'' = Some demo_user" "device_at ?s ?k = Some (counted 5 demo_device)"
    by (simp_all add: signs_in_def)
  have few: "\<not> 5 \<le> dv_Attempts (counted 5 demo_device)" and name: "dv_Username (counted 5 demo_device) = ''ann''"
    by (simp_all add: counted_def demo_device_def new_device_def zero_device_def)
  have enf: "user_IsEnforcingMFA etcd_ref ann ?s = (Inr True, ?s)"
    using etcd_ref.IsEnforcingMFA_quiet [OF at(1)] by (simp add: user_IsEnforcingMFA_def n demo_user_def)
  obtain j r where "range_of ?s [?k] = [(?k, Json j, r)]" and "dec_device j = Inr (counted 5 demo_device)"
    and nn: "find_key ?s ?k \<noteq> None" using device_atE [OF at(2)] .
  then have mut: "\<exists>v. authorise_mutator etcd_ref 7 ''c'' (range_of ?s [?k]) ?s = (Inr v, ?s)"
    using etcd_ref.GetUserData_quiet [OF at(1)] by (simp add: authorise_mutator_def ebind_def name demo_user_def)
  then obtain v where "authorise_mutator etcd_ref 7 ''c'' (range_of ?s [?k]) ?s = (Inr v, ?s)" ..
  from etcd_ref.doSafeUpdate_quiet [of "authorise_mutator etcd_ref 7 ''c''", OF this, of False] nn
  have fin: "AuthoriseDevice etcd_ref 7 (Inr ''c'') ''ann'' ''10.0.0.2'' ?s = (Inr ''c'', put_key ?k v ?s)"
    by (simp add: AuthoriseDevice_def ebind_def wrap_err_def on_error_def)
  have run: "Authenticate_store etcd_ref 7 (Inr ''c'') ann ''10.0.0.2'' ''totp'' demo_auth demo_login = (Inr ''c'', put_key ?k v ?s)"
    using etcd_ref.Authenticate_quiet [OF demo_login_signs_in, of 7 "Inr ''c''" "''totp''" demo_auth] few
    by (simp add: n Let_def demo_user_def demo_auth_def ebind_def enf fin wrap_err_def on_error_def)
  have "store_wf demo_login" unfolding demo_login_def using later_wf [OF later_put_key demo_store2_facts(1)] .
  moreover have "later z (snd (demo_auth secret name z))" for secret name z by (auto simp: demo_auth_def)
  ultimately have "\<exists>d. device_at (put_key ?k v ?s) ?k = Some d \<and> dv_Authorised d = 7 \<and> dv_Challenge d = ''c''"
    using Authenticate_sound [where get = "\<lambda>s. s" and put = "\<lambda>x _. x" and auth = demo_auth,
        OF etcd_ref.etcd_service_axioms _ _ _ run] unfolding n by fastforce
  with run show ?thesis by blast
qed

end
