(* ===== verification/Admins.thy ===== *)
theory Admins
  imports DataDevices Encodings
begin

text \<open>
  internal/data/ui.go: the administrators of the management console. An administrator is the
  document under \<open>admin-users-NAME\<close>; the last bytes of the stored hash are its salt. The key
  derivation argon2 is the argument \<open>kdf\<close> (password and salt to a key of 32 bytes), random bytes
  and the printed time are arguments.
\<close>

section \<open>Data\<close>

record AdminModel =
  am_Username :: string
  am_Attempts :: int
  am_DateAdded :: string
  am_LastLogin :: string
  am_IP :: string
  am_Change :: bool

record admin = AdminModel +
  am_Hash :: string

definition zero_admin :: admin where
  "zero_admin = \<lparr>am_Username = '''', am_Attempts = 0, am_DateAdded = '''', am_LastLogin = '''', am_IP = '''',
     am_Change = False, am_Hash = ''''\<rparr>"

definition enc_admin :: "admin \<Rightarrow> json" where
  "enc_admin a = JObj [(''username'', JStr (am_Username a)), (''attempts'', JNum (am_Attempts a)),
     (''date_added'', JStr (am_DateAdded a)), (''last_login'', JStr (am_LastLogin a)), (''ip'', JStr (am_IP a)),
     (''change'', JBool (am_Change a)), (''Hash'', JStr (am_Hash a))]"

definition dec_AdminModel :: "json \<Rightarrow> AdminModel res" where
  "dec_AdminModel = dec_struct (\<lambda>ms.
     rbind (dec_field dec_string ''username'' '''' ms) (\<lambda>a.
     rbind (dec_field dec_int ''attempts'' 0 ms) (\<lambda>b.
     rbind (dec_field dec_string ''date_added'' '''' ms) (\<lambda>c.
     rbind (dec_field dec_string ''last_login'' '''' ms) (\<lambda>d.
     rbind (dec_field dec_string ''ip'' '''' ms) (\<lambda>e.
     rbind (dec_field dec_bool ''change'' False ms) (\<lambda>f.
     Inr \<lparr>am_Username = a, am_Attempts = b, am_DateAdded = c, am_LastLogin = d, am_IP = e, am_Change = f\<rparr>)))))))
     (AdminModel.truncate zero_admin)"

definition dec_admin :: "json \<Rightarrow> admin res" where
  "dec_admin j = rbind (dec_AdminModel j) (\<lambda>m.
     rbind (dec_struct (dec_field dec_string ''Hash'' '''') '''' j) (\<lambda>h.
     Inr (AdminModel.extend m (admin.fields h))))"

definition admin_ok :: "admin \<Rightarrow> bool" where
  "admin_ok a \<longleftrightarrow> int64 (am_Attempts a)"

lemma dec_enc_admin [simp]: "admin_ok a \<Longrightarrow> dec_admin (enc_admin a) = Inr a"
  by (cases a) (simp add: dec_admin_def dec_AdminModel_def enc_admin_def admin_ok_def int64_def name_eval
      AdminModel.extend_def admin.fields_def)

definition admin_key :: "string \<Rightarrow> string" where
  "admin_key username = ''admin-users-'' @ username"

type_synonym kdf = "bytes \<Rightarrow> bytes \<Rightarrow> bytes"

definition minPasswordLength :: nat where "minPasswordLength = 14"


definition GenerateRandomHex :: "error + bytes \<Rightarrow> error + string" where
  "GenerateRandomHex random = (case random of Inl e \<Rightarrow> Inl e | Inr b \<Rightarrow> Inr (hex_encode b))"

section \<open>Operations\<close>

definition IncrementAdminAuthenticationAttempt :: "etcd \<Rightarrow> string \<Rightarrow> (store, unit) eff" where
  "IncrementAdminAuthenticationAttempt E username =
     doSafeUpdate E (admin_key username) False (\<lambda>gr. case gr of
        [(_, v, _)] \<Rightarrow>
          ebind (lift (unmarshal dec_admin v)) (\<lambda>a.
          ebind (GetLockout E) (\<lambda>l.
          ret (Json (enc_admin (if am_Attempts a < l then a\<lparr>am_Attempts := am_Attempts a + 1\<rparr> else a)))))
      | _ \<Rightarrow> raise ''invalid number of admin keys'')"

text \<open>A hash and its salt, in that order.\<close>

definition stored_hash :: "kdf \<Rightarrow> string \<Rightarrow> string \<Rightarrow> string" where
  "stored_hash kdf password salt = b64_encode (kdf (bytes_of password) (bytes_of salt) @ bytes_of salt)"

definition CreateAdminUser ::
  "etcd \<Rightarrow> kdf \<Rightarrow> error + bytes \<Rightarrow> string \<Rightarrow> string \<Rightarrow> string \<Rightarrow> bool \<Rightarrow> (store, unit) eff" where
  "CreateAdminUser E kdf random8 date username password changeOnFirstUse =
     (if length password < minPasswordLength
      then raise ''password is too short for administrative console (must be greater than 14 characters)''
      else case GenerateRandomHex random8 of
        Inl e \<Rightarrow> raise e
      | Inr salt \<Rightarrow> Put E (admin_key username) (Json (enc_admin (zero_admin\<lparr>am_Username := username,
          am_DateAdded := date, am_Change := changeOnFirstUse, am_Hash := stored_hash kdf password salt\<rparr>))))"

text \<open>The last 16 bytes are taken for the salt. A panic inside the update is not caught.\<close>

definition compare_hash :: "kdf \<Rightarrow> string \<Rightarrow> string \<Rightarrow> unit res" where
  "compare_hash kdf hash password =
     (case b64_decode hash of
        Inl e \<Rightarrow> Inl (GoErr e)
      | Inr rawHashSalt \<Rightarrow>
          if length rawHashSalt < 16 then Inl (GoPanic ''slice bounds out of range'')
          else
            let salt = drop (length rawHashSalt - 16) rawHashSalt;
                expectedHash = take (length rawHashSalt - 16) rawHashSalt
            in if kdf (bytes_of password) salt = expectedHash then Inr ()
               else Inl (GoErr ''passwords did not match''))"

definition CompareAdminKeys :: "etcd \<Rightarrow> kdf \<Rightarrow> string \<Rightarrow> string \<Rightarrow> (store, unit) eff" where
  "CompareAdminKeys E kdf username password =
     doSafeUpdate E (admin_key username) False (\<lambda>gr. case gr of
        [] \<Rightarrow> panic ''index out of range''
      | (_, v, _) # _ \<Rightarrow>
          ebind (lift (unmarshal dec_admin v)) (\<lambda>result.
          ebind (GetLockout E) (\<lambda>lockout.
          if lockout \<le> am_Attempts result then raise ''account locked''
          else ebind (lift (compare_hash kdf (am_Hash result) password)) (\<lambda>_.
               ret (Json (enc_admin (result\<lparr>am_Attempts := 0\<rparr>)))))))"

definition SetAdminUserLock :: "etcd \<Rightarrow> string \<Rightarrow> (store, unit) eff" where
  "SetAdminUserLock E username =
     doSafeUpdate E (admin_key username) False (\<lambda>gr. case gr of
        [] \<Rightarrow> panic ''index out of range''
      | (_, v, _) # _ \<Rightarrow>
          ebind (lift (unmarshal dec_admin v)) (\<lambda>result.
          ebind (GetLockout E) (\<lambda>lockout. ret (Json (enc_admin (result\<lparr>am_Attempts := lockout\<rparr>))))))"

definition SetAdminUserUnlock :: "etcd \<Rightarrow> string \<Rightarrow> (store, unit) eff" where
  "SetAdminUserUnlock E username =
     doSafeUpdate E (admin_key username) False (\<lambda>gr. case gr of
        [] \<Rightarrow> panic ''index out of range''
      | (_, v, _) # _ \<Rightarrow>
          ebind (lift (unmarshal dec_admin v)) (\<lambda>result. ret (Json (enc_admin (result\<lparr>am_Attempts := 0\<rparr>)))))"

text \<open>The deletion is by prefix.\<close>

definition DeleteAdminUser :: "etcd \<Rightarrow> string \<Rightarrow> (store, unit) eff" where
  "DeleteAdminUser E username = ebind (DeletePrefix E (admin_key username)) (\<lambda>_. ret ())"

definition GetAdminUser :: "etcd \<Rightarrow> string \<Rightarrow> (store, AdminModel) eff" where
  "GetAdminUser E username = ebind (Get E (admin_key username)) (\<lambda>kvs. case kvs of
      [(_, v, _)] \<Rightarrow> lift (unmarshal dec_AdminModel v)
    | _ \<Rightarrow> raise ''invalid number of admin users'')"

definition GetAllAdminUsers :: "etcd \<Rightarrow> (store, AdminModel list) eff" where
  "GetAllAdminUsers E = ebind (GetPrefix E True ''admin-users-'') (\<lambda>kvs. lift (decode_all dec_AdminModel kvs))"

definition change_admin :: "(admin \<Rightarrow> admin) \<Rightarrow> mutator" where
  "change_admin f gr = (case gr of
      [(_, v, _)] \<Rightarrow> lift (rbind (unmarshal dec_admin v) (\<lambda>a. Inr (Json (enc_admin (f a)))))
    | _ \<Rightarrow> raise ''invalid number of admin users'')"

definition SetAdminPassword :: "etcd \<Rightarrow> kdf \<Rightarrow> error + bytes \<Rightarrow> string \<Rightarrow> string \<Rightarrow> (store, unit) eff" where
  "SetAdminPassword E kdf random32 username password =
     (if length password < minPasswordLength
      then raise ''password is too short for administrative console (must be greater than 14 characters)''
      else case GenerateRandomHex random32 of
        Inl e \<Rightarrow> raise e
      | Inr salt \<Rightarrow> doSafeUpdate E (admin_key username) False
          (change_admin (\<lambda>a. a\<lparr>am_Change := False, am_Hash := stored_hash kdf password salt\<rparr>)))"

definition setAdminHash :: "etcd \<Rightarrow> string \<Rightarrow> string \<Rightarrow> (store, unit) eff" where
  "setAdminHash E username hash = doSafeUpdate E (admin_key username) False
     (change_admin (\<lambda>a. a\<lparr>am_Change := False, am_Hash := hash\<rparr>))"

definition SetLastLoginInformation :: "etcd \<Rightarrow> string \<Rightarrow> string \<Rightarrow> string \<Rightarrow> (store, unit) eff" where
  "SetLastLoginInformation E date username ip = doSafeUpdate E (admin_key username) False
     (change_admin (\<lambda>a. a\<lparr>am_LastLogin := date, am_IP := ip\<rparr>))"


section \<open>The administrator in a store\<close>

definition admin_at :: "store \<Rightarrow> string \<Rightarrow> admin option" where
  "admin_at s username = (case value_at s (admin_key username) of
      Some (Json j) \<Rightarrow> (case dec_admin j of Inr a \<Rightarrow> Some a | Inl _ \<Rightarrow> None)
    | _ \<Rightarrow> None)"

lemma admin_atE:
  assumes "admin_at s n = Some a"
  obtains j r where "range_of s [admin_key n] = [(admin_key n, Json j, r)]" and "dec_admin j = Inr a"
    and "find_key s (admin_key n) \<noteq> None"
  using assms by (auto simp: admin_at_def value_at_def range_of_single split: option.splits gvalue.splits sum.splits)

lemma admin_key_inj [simp]: "admin_key a = admin_key b \<longleftrightarrow> a = b"
  by (simp add: admin_key_def)

lemma admin_key_not_lockout [simp]: "admin_key a \<noteq> LockoutKey" "LockoutKey \<noteq> admin_key a"
  by (simp_all add: admin_key_def LockoutKey_def)

lemma admin_at_put [simp]:
  "admin_ok a \<Longrightarrow> admin_at (put_key (admin_key m) (Json (enc_admin a)) s) n = (if n = m then Some a else admin_at s n)"
  by (simp add: admin_at_def)

lemma admin_at_ok: "admin_at s n = Some a \<Longrightarrow> admin_ok a"
proof -
  assume "admin_at s n = Some a"
  then obtain j where "dec_admin j = Inr a" by (rule admin_atE)
  then obtain m h where m: "dec_AdminModel j = Inr m" "a = AdminModel.extend m (admin.fields h)" by (auto simp: dec_admin_def)
  then have "int64 (am_Attempts m)"
    by (cases j) (auto simp: dec_AdminModel_def dec_struct_def mismatch_def AdminModel.truncate_def zero_admin_def int64_def
        dest: dec_field_int)
  then show ?thesis by (simp add: m(2) admin_ok_def AdminModel.extend_def admin.fields_def)
qed

text \<open>An administrator and the lockout, as they stand in the store.\<close>

definition admin_signs_in :: "store \<Rightarrow> string \<Rightarrow> admin \<Rightarrow> int \<Rightarrow> bool" where
  "admin_signs_in s n a l \<longleftrightarrow> admin_at s n = Some a \<and> value_at s LockoutKey = Some (Json (JNum l)) \<and> int64 l"

context etcd_quiet
begin

lemma admin_lockout: "admin_signs_in s n a l \<Longrightarrow> GetLockout E s = (Inr l, s)"
  by (rule GetLockout_quiet [OF etcd_quiet_axioms]) (simp_all add: admin_signs_in_def)

lemma change_admin_quiet:
  assumes "admin_at s n = Some a"
  shows "doSafeUpdate E (admin_key n) False (change_admin f) s = (Inr (), put_key (admin_key n) (Json (enc_admin (f a))) s)"
proof -
  from admin_atE [OF assms] obtain j r where "range_of s [admin_key n] = [(admin_key n, Json j, r)]"
    "dec_admin j = Inr a" "find_key s (admin_key n) \<noteq> None" .
  then show ?thesis
    by (subst doSafeUpdate_quiet [where r = "Inr (Json (enc_admin (f a)))"]) (auto simp: change_admin_def)
qed

lemma CompareAdminKeys_quiet:
  assumes "admin_signs_in s n a l"
  shows "CompareAdminKeys E kdf n password s =
    (if l \<le> am_Attempts a then (Inl (GoErr ''account locked''), s)
     else case compare_hash kdf (am_Hash a) password of
       Inl e \<Rightarrow> (Inl e, s)
     | Inr _ \<Rightarrow> (Inr (), put_key (admin_key n) (Json (enc_admin (a\<lparr>am_Attempts := 0\<rparr>))) s))"
proof -
  from assms have at: "admin_at s n = Some a" and lock: "GetLockout E s = (Inr l, s)"
    by (simp add: admin_signs_in_def, rule admin_lockout)
  from admin_atE [OF at] obtain j r where "range_of s [admin_key n] = [(admin_key n, Json j, r)]"
    "dec_admin j = Inr a" "find_key s (admin_key n) \<noteq> None" .
  with lock show ?thesis
    unfolding CompareAdminKeys_def
    by (subst doSafeUpdate_quiet [where r = "if l \<le> am_Attempts a then Inl (GoErr ''account locked'')
        else rbind (compare_hash kdf (am_Hash a) password) (\<lambda>_. Inr (Json (enc_admin (a\<lparr>am_Attempts := 0\<rparr>))))"])
       (auto simp: ebind_def split: sum.splits)
qed

end

text \<open>What a stored hash accepts depends on how long its salt is.\<close>

lemma compare_stored_hash:
  assumes "\<And>p s. length (kdf p s) = 32"
  shows "compare_hash kdf (stored_hash kdf password salt) guess =
    (if length salt = 16 then
       (if kdf (bytes_of guess) (bytes_of salt) = kdf (bytes_of password) (bytes_of salt) then Inr ()
        else Inl (GoErr ''passwords did not match''))
     else if 16 < length salt then Inl (GoErr ''passwords did not match'')
     else compare_hash kdf (stored_hash kdf password salt) guess)"
proof (cases "16 < length salt")
  case True
  let ?raw = "kdf (bytes_of password) (bytes_of salt) @ bytes_of salt"
  have "length (take (length ?raw - 16) ?raw) \<noteq> 32" using True assms by simp
  then have "kdf (bytes_of guess) (drop (length ?raw - 16) ?raw) \<noteq> take (length ?raw - 16) ?raw"
    using assms by metis
  then show ?thesis using True assms by (simp add: compare_hash_def stored_hash_def Let_def)
next
  case False
  then show ?thesis using assms by (auto simp: compare_hash_def stored_hash_def Let_def)
qed

section \<open>Properties\<close>

text \<open>C32
  A new administrator can sign in: when \<open>CreateAdminUser\<close> succeeded and the lockout is positive, the
  console accepts exactly the passwords that derive the same key, the one given first of all; every
  other one is turned down and changes nothing.
\<close>

theorem new_admin_signs_in:
  assumes "etcd_quiet E" and "\<And>p s. length (kdf p s) = 32"
    and "random = Inr b" and "length b = 8"
    and "CreateAdminUser E kdf random date n password change s = (Inr (), t)"
    and "value_at s LockoutKey = Some (Json (JNum l))" and "int64 l" and "0 < l"
  shows "\<exists>a. admin_at t n = Some a \<and> am_Change a = change \<and>
     (\<forall>guess. CompareAdminKeys E kdf n guess t =
       (if kdf (bytes_of guess) (bytes_of (hex_encode b)) = kdf (bytes_of password) (bytes_of (hex_encode b))
        then (Inr (), put_key (admin_key n) (Json (enc_admin a)) t)
        else (Inl (GoErr ''passwords did not match''), t)))"
proof -
  define a where "a = zero_admin\<lparr>am_Username := n, am_DateAdded := date, am_Change := change,
     am_Hash := stored_hash kdf password (hex_encode b)\<rparr>"
  have "t = put_key (admin_key n) (Json (enc_admin a)) s"
    using assms(3,5) by (auto simp: CreateAdminUser_def GenerateRandomHex_def a_def etcd_quiet.Put_quiet [OF assms(1)]
        put_key_def split: if_splits)
  moreover have fields: "am_Attempts a = 0" "am_Change a = change" "am_Hash a = stored_hash kdf password (hex_encode b)"
    by (simp_all add: a_def zero_admin_def)
  ultimately have at: "admin_signs_in t n a l"
    using assms(6,7) by (simp add: admin_signs_in_def admin_ok_def int64_def)
  have same: "a\<lparr>am_Attempts := 0\<rparr> = a" by (simp add: a_def zero_admin_def)
  have "length (hex_encode b) = 16" using assms(4) by simp
  then have "CompareAdminKeys E kdf n guess t =
       (if kdf (bytes_of guess) (bytes_of (hex_encode b)) = kdf (bytes_of password) (bytes_of (hex_encode b))
        then (Inr (), put_key (admin_key n) (Json (enc_admin a)) t)
        else (Inl (GoErr ''passwords did not match''), t))" for guess
    using etcd_quiet.CompareAdminKeys_quiet [OF assms(1) at, of kdf guess] compare_stored_hash [where kdf = kdf and password = password and salt = "hex_encode b" and guess = guess, OF assms(2)]
      assms(8) fields by (simp add: same)
  moreover have "admin_at t n = Some a" using at by (simp add: admin_signs_in_def)
  ultimately show ?thesis using fields(2) by (intro exI [of _ a]) simp
qed

text \<open>
  Changing a password locks the administrator out: \<open>SetAdminPassword\<close> salts with 64 characters where
  \<open>CompareAdminKeys\<close> reads 16, so after it has succeeded no password at all is accepted, the new one
  included, whatever the key derivation does.
\<close>

theorem SetAdminPassword_locks_out:
  assumes "etcd_quiet E" and "\<And>p s. length (kdf p s) = 32"
    and "random = Inr b" and "length b = 32" and "admin_signs_in s n a l" and "am_Attempts a < l"
    and "SetAdminPassword E kdf random n password s = (Inr (), t)"
  shows "CompareAdminKeys E kdf n guess t = (Inl (GoErr ''passwords did not match''), t)"
proof -
  let ?a = "a\<lparr>am_Change := False, am_Hash := stored_hash kdf password (hex_encode b)\<rparr>"
  have at: "admin_at s n = Some a" using assms(5) by (simp add: admin_signs_in_def)
  have "t = put_key (admin_key n) (Json (enc_admin ?a)) s"
    using assms(3,7) by (auto simp: SetAdminPassword_def GenerateRandomHex_def
        etcd_quiet.change_admin_quiet [OF assms(1) at] split: if_splits)
  moreover have "admin_ok ?a" using admin_at_ok [OF at] by (simp add: admin_ok_def)
  ultimately have "admin_signs_in t n ?a l" using assms(5) by (simp add: admin_signs_in_def)
  from etcd_quiet.CompareAdminKeys_quiet [OF assms(1) this, of kdf guess]
    compare_stored_hash [where kdf = kdf and password = password and salt = "hex_encode b" and guess = guess, OF assms(2)] assms(4,6)
  show ?thesis by simp
qed


section \<open>Witnesses\<close>

text \<open>A stand-in for the key derivation: the first bytes of the password.\<close>

definition demo_kdf :: kdf where
  "demo_kdf password salt = take 32 (password @ replicate 32 0)"

lemma length_demo_kdf: "length (demo_kdf p s) = 32"
  by (simp add: demo_kdf_def)

definition console_store :: store where
  "console_store = put_key LockoutKey (Json (JNum 5)) no_store"

definition old_admin :: admin where
  "old_admin = zero_admin\<lparr>am_Username := ''root''\<rparr>"

theorem new_admin_signs_in_witness:
  "\<exists>t. CreateAdminUser etcd_ref demo_kdf (Inr (replicate 8 7)) '''' ''root'' ''correct horse battery'' True console_store = (Inr (), t) \<and>
     fst (CompareAdminKeys etcd_ref demo_kdf ''root'' ''correct horse battery'' t) = Inr () \<and>
     fst (CompareAdminKeys etcd_ref demo_kdf ''root'' ''incorrect horse'' t) = Inl (GoErr ''passwords did not match'')"
proof -
  obtain t where run: "CreateAdminUser etcd_ref demo_kdf (Inr (replicate 8 7)) '''' ''root'' ''correct horse battery'' True console_store = (Inr (), t)"
    by (simp add: CreateAdminUser_def GenerateRandomHex_def minPasswordLength_def etcd_ref.Put_quiet)
  have "value_at console_store LockoutKey = Some (Json (JNum 5))" by (simp add: console_store_def)
  from new_admin_signs_in [OF etcd_ref.etcd_quiet_axioms length_demo_kdf refl _ run this]
  obtain a where a: "\<And>guess. CompareAdminKeys etcd_ref demo_kdf ''root'' guess t =
       (if demo_kdf (bytes_of guess) (bytes_of (hex_encode (replicate 8 7))) =
           demo_kdf (bytes_of ''correct horse battery'') (bytes_of (hex_encode (replicate 8 7)))
        then (Inr (), put_key (admin_key ''root'') (Json (enc_admin a)) t)
        else (Inl (GoErr ''passwords did not match''), t))" by (auto simp: int64_def)
  have "demo_kdf (bytes_of ''incorrect horse'') x \<noteq> demo_kdf (bytes_of ''correct horse battery'') x" for x
    by (simp add: demo_kdf_def bytes_of_def)
  with run a show ?thesis by simp
qed

theorem SetAdminPassword_locks_out_witness:
  "\<exists>t. SetAdminPassword etcd_ref demo_kdf (Inr (replicate 32 7)) ''root'' ''correct horse battery''
      (put_key (admin_key ''root'') (Json (enc_admin old_admin)) console_store) = (Inr (), t) \<and>
     fst (CompareAdminKeys etcd_ref demo_kdf ''root'' ''correct horse battery'' t) = Inl (GoErr ''passwords did not match'')"
proof -
  let ?s = "put_key (admin_key ''root'') (Json (enc_admin old_admin)) console_store"
  have at: "admin_signs_in ?s ''root'' old_admin 5" "am_Attempts old_admin < 5"
    by (simp_all add: admin_signs_in_def admin_ok_def old_admin_def zero_admin_def int64_def console_store_def)
  then have "admin_at ?s ''root'' = Some old_admin" by (simp add: admin_signs_in_def)
  from etcd_ref.change_admin_quiet [OF this] obtain t where
    run: "SetAdminPassword etcd_ref demo_kdf (Inr (replicate 32 7)) ''root'' ''correct horse battery'' ?s = (Inr (), t)"
    by (simp add: SetAdminPassword_def GenerateRandomHex_def minPasswordLength_def)
  from SetAdminPassword_locks_out [OF etcd_ref.etcd_quiet_axioms length_demo_kdf refl _ at run] run show ?thesis by auto
qed

text \<open>Deleting an administrator also deletes those whose names start with that name.\<close>

lemma DeleteAdminUser_deletes_others:
  assumes "etcd_quiet E" and "DeleteAdminUser E n s = (r, t)"
  shows "value_at t (admin_key (n @ rest)) = None"
  using assms(2)
  by (auto simp: DeleteAdminUser_def etcd_quiet.DeletePrefix_quiet [OF assms(1)] ebind_def admin_key_def)

end
