(* ===== verification/ControlServer.thy ===== *)
theory ControlServer
  imports RouterPeers Users Admins
begin

text \<open>
  pkg/control/server: the handlers of the control socket. A handler works on the state of the
  router, the cluster store included. What the outside decides is the environment: the router's, the
  clock, random bytes, the members the etcd server knows, the text of JSON in form fields, and
  whether the form could be parsed (in the request).
\<close>

section \<open>The documents exchanged\<close>

text \<open>A slice that nothing was appended to is \<open>nil\<close>, which is marshalled as null.\<close>

definition enc_slice :: "('a \<Rightarrow> json) \<Rightarrow> 'a list \<Rightarrow> json" where
  "enc_slice f xs = (if xs = [] then JNull else JArr (map f xs))"

definition enc_account :: "user \<Rightarrow> json" where
  "enc_account u = JObj [(''Username'', JStr (Username u)), (''Locked'', JBool (Locked u)), (''Enforcing'', JBool (Enforcing u))]"

definition enc_AdminModel :: "AdminModel \<Rightarrow> json" where
  "enc_AdminModel a = JObj [(''username'', JStr (am_Username a)), (''attempts'', JNum (am_Attempts a)),
     (''date_added'', JStr (am_DateAdded a)), (''last_login'', JStr (am_LastLogin a)), (''ip'', JStr (am_IP a)),
     (''change'', JBool (am_Change a))]"

definition enc_policy :: "PolicyData \<Rightarrow> json" where
  "enc_policy p = JObj [(''effects'', JStr (pd_Effects p)), (''public_routes'', enc_slice JStr (pd_PublicRoutes p)),
     (''mfa_routes'', enc_slice JStr (pd_MfaRoutes p)), (''deny_routes'', enc_slice JStr (pd_DenyRoutes p))]"

definition dec_policy :: "json \<Rightarrow> PolicyData res" where
  "dec_policy = dec_struct (\<lambda>ms.
     rbind (dec_field dec_string ''effects'' '''' ms) (\<lambda>a.
     rbind (dec_field dec_strings ''public_routes'' [] ms) (\<lambda>b.
     rbind (dec_field dec_strings ''mfa_routes'' [] ms) (\<lambda>c.
     rbind (dec_field dec_strings ''deny_routes'' [] ms) (\<lambda>d.
     Inr \<lparr>pd_Effects = a, pd_PublicRoutes = b, pd_MfaRoutes = c, pd_DenyRoutes = d\<rparr>)))))
     \<lparr>pd_Effects = '''', pd_PublicRoutes = [], pd_MfaRoutes = [], pd_DenyRoutes = []\<rparr>"

definition enc_group :: "GroupData \<Rightarrow> json" where
  "enc_group g = JObj [(''group'', JStr (gd_Group g)), (''members'', enc_slice JStr (gd_Members g))]"

definition dec_group :: "json \<Rightarrow> GroupData res" where
  "dec_group = dec_struct (\<lambda>ms.
     rbind (dec_field dec_string ''group'' '''' ms) (\<lambda>a.
     rbind (dec_field dec_strings ''members'' [] ms) (\<lambda>b.
     Inr \<lparr>gd_Group = a, gd_Members = b\<rparr>))) \<lparr>gd_Group = '''', gd_Members = []\<rparr>"

definition enc_fwDevice :: "fwDevice \<Rightarrow> json" where
  "enc_fwDevice d = JObj [(''LastPacketTimestamp'', JNum (uint (fd_LastPacketTimestamp d))),
     (''Expiry'', JNum (uint (fd_Expiry d))), (''IP'', JStr (fd_IP d)), (''Authorized'', JBool (fd_Authorized d)),
     (''AssociatedNode'', JStr (fd_AssociatedNode d))]"

definition enc_rules :: "FirewallRules \<Rightarrow> json" where
  "enc_rules r = JObj [(''Policies'', enc_slice JStr (fr_Policies r)), (''Devices'', enc_slice enc_fwDevice (fr_Devices r)),
     (''AccountLocked'', JNum (uint (fr_AccountLocked r)))]"

text \<open>A map is marshalled by ascending key.\<close>

definition enc_rules_map :: "(string \<times> FirewallRules) list \<Rightarrow> json" where
  "enc_rules_map rs = JObj (sort_key fst (map (\<lambda>(k, r). (k, enc_rules r)) rs))"

text \<open>Embedded structs are flattened.\<close>

definition enc_settings :: "AllSettings \<Rightarrow> json" where
  "enc_settings s = (let l = as_LoginSettings s; g = as_GeneralSettings s in JObj
     [(''SessionInactivityTimeoutMinutes'', JNum (ls_SessionInactivityTimeoutMinutes l)),
      (''MaxSessionLifetimeMinutes'', JNum (ls_MaxSessionLifetimeMinutes l)),
      (''Lockout'', JNum (ls_Lockout l)),
      (''DefaultMFAMethod'', JStr (ls_DefaultMFAMethod l)),
      (''EnabledMFAMethods'', enc_slice JStr (ls_EnabledMFAMethods l)),
      (''Domain'', JStr (ls_Domain l)), (''Issuer'', JStr (ls_Issuer l)),
      (''OidcDetails'', enc_oidc (ls_OidcDetails l)), (''PamDetails'', enc_pam (ls_PamDetails l)),
      (''HelpMail'', JStr (gs_HelpMail g)), (''ExternalAddress'', JStr (gs_ExternalAddress g)),
      (''DNS'', enc_slice JStr (gs_DNS g)), (''WireguardConfigFilename'', JStr (gs_WireguardConfigFilename g)),
      (''CheckUpdates'', JBool (gs_CheckUpdates g))])"

section \<open>Environment\<close>

record cenv =
  ce_R :: renv
  ce_now :: u64
  ce_kdf :: kdf
  ce_random8 :: "error + bytes"
  ce_random32 :: "error + bytes"
  ce_random_token :: "error + string"
  ce_date :: string
  ce_version :: string
  ce_bpf :: string
  ce_members :: json
  ce_is_member :: "u64 \<Rightarrow> bool"
  ce_parse_time :: "string \<Rightarrow> error + int"
  ce_unescape :: "string \<Rightarrow> error + string"
  ce_parse_json :: "string \<Rightarrow> error + json"

abbreviation ce_E :: "cenv \<Rightarrow> etcd" where
  "ce_E C \<equiv> re_etcd (ce_R C)"

abbreviation stored :: "(store, 'a) eff \<Rightarrow> (router, 'a) hnd" where
  "stored m \<equiv> on_state (in_store m)"

definition in_acls :: "(pstate \<times> store, 'a) eff \<Rightarrow> (router, 'a) eff" where
  "in_acls = zoom (\<lambda>s. (rt_parser s, rt_store s)) (\<lambda>(p, t) s. s\<lparr>rt_parser := p, rt_store := t\<rparr>)"

text \<open>\<open>r.ParseForm\<close>, answered with the status of the handler when it fails.\<close>

definition parse_form :: "nat \<Rightarrow> http_request \<Rightarrow> ('s, unit) hnd \<Rightarrow> ('s, unit) hnd" where
  "parse_form c r k = (case hr_form r of Inl e \<Rightarrow> Error e c | Inr _ \<Rightarrow> k)"

definition fail500 :: "error \<Rightarrow> ('s, unit) hnd" where "fail500 e = Error e 500"
definition failed :: "nat \<Rightarrow> string \<Rightarrow> error \<Rightarrow> ('s, unit) hnd" where "failed n msg e = Error (msg @ e) n"
definition fail404 :: "string \<Rightarrow> error \<Rightarrow> ('s, unit) hnd" where "fail404 = failed 404"

section \<open>Users\<close>

definition listUsers :: "cenv \<Rightarrow> router handler" where
  "listUsers C r = parse_form 500 r (
     let username = FormValue r ''username'' in
     if username \<noteq> ''''
     then check (stored (GetUser (ce_E C) username)) fail500 (\<lambda>u. write_json (enc_account u))
     else check (stored (GetAllUsers (ce_E C))) fail500 (\<lambda>us. write_json (enc_slice enc_user us)))"

definition getUserGroups :: "cenv \<Rightarrow> router handler" where
  "getUserGroups C r = parse_form 500 r (
     let username = FormValue r ''username'' in
     if username = '''' then Error ''No user specified'' 404
     else check (stored (GetUserGroupMembership (ce_E C) username)) fail500 (\<lambda>gs. write_json (enc_strings gs)))"

text \<open>The user, then an operation on it.\<close>

definition with_user :: "cenv \<Rightarrow> http_request \<Rightarrow> (user \<Rightarrow> (router, unit) hnd) \<Rightarrow> (router, unit) hnd" where
  "with_user C r k = parse_form 500 r (
     check (stored (GetUser (ce_E C) (FormValue r ''username''))) (fail404 ''not found: '') k)"

text \<open>The receiver of a method that changes it is a variable of the handler.\<close>

definition on_user :: "(user \<times> store, 'a) eff \<Rightarrow> user \<Rightarrow> (store, 'a) eff" where
  "on_user m u s = (case m (u, s) of (r, (_, t)) \<Rightarrow> (r, t))"

definition lockUser :: "cenv \<Rightarrow> router handler" where
  "lockUser C r = with_user C r (\<lambda>u.
     check (stored (on_user (user_Lock (ce_E C)) u)) (fail404 ''lock found: '') (\<lambda>_. write_raw ''OK''))"

definition unlockUser :: "cenv \<Rightarrow> router handler" where
  "unlockUser C r = with_user C r (\<lambda>u.
     check (stored (on_user (user_Unlock (ce_E C)) u)) (fail404 ''not found: '') (\<lambda>_. write_raw ''OK''))"

definition deleteUser :: "cenv \<Rightarrow> router handler" where
  "deleteUser C r = with_user C r (\<lambda>u.
     check (stored (user_Delete (ce_E C) u)) (fail404 ''not found: '') (\<lambda>_. write_raw ''OK''))"

definition resetMfaUser :: "cenv \<Rightarrow> router handler" where
  "resetMfaUser C r = with_user C r (\<lambda>u.
     check (stored (ResetMfa (ce_E C) u)) (fail404 ''not found: '') (\<lambda>_. write_raw ''OK''))"

definition getUserAcl :: "cenv \<Rightarrow> router handler" where
  "getUserAcl C r = parse_form 400 r (
     let username = FormValue r ''username'' in
     if username = '''' then Error ''No username specified'' 404
     else ebind (on_state (effective_acl (ce_R C) username)) (\<lambda>acl. write_json (enc_acl acl)))"

section \<open>Administrators\<close>

definition listAdminUsers :: "cenv \<Rightarrow> router handler" where
  "listAdminUsers C r = parse_form 500 r (
     let username = FormValue r ''username'' in
     if username \<noteq> ''''
     then check (stored (GetAdminUser (ce_E C) username)) fail500 (\<lambda>a. write_json (enc_AdminModel a))
     else check (stored (GetAllAdminUsers (ce_E C))) fail500 (\<lambda>as. write_json (enc_slice enc_AdminModel as)))"

definition lockAdminUser :: "cenv \<Rightarrow> router handler" where
  "lockAdminUser C r = parse_form 500 r (
     check (stored (SetAdminUserLock (ce_E C) (FormValue r ''username''))) (fail404 ''could not lock admin user: '')
       (\<lambda>_. write_raw ''OK''))"

definition unlockAdminUser :: "cenv \<Rightarrow> router handler" where
  "unlockAdminUser C r = parse_form 500 r (
     check (stored (SetAdminUserUnlock (ce_E C) (FormValue r ''username''))) fail500 (\<lambda>_. write_raw ''OK''))"

definition deleteAdminUser :: "cenv \<Rightarrow> router handler" where
  "deleteAdminUser C r = parse_form 500 r (
     check (stored (DeleteAdminUser (ce_E C) (FormValue r ''username''))) (fail404 ''not found: '') (\<lambda>_. write_raw ''OK''))"

definition resetAdminUser :: "cenv \<Rightarrow> router handler" where
  "resetAdminUser C r = parse_form 500 r (
     check (stored (SetAdminPassword (ce_E C) (ce_kdf C) (ce_random32 C) (FormValue r ''username'') (FormValue r ''password'')))
       (fail404 ''unable to set admin user password: '') (\<lambda>_. write_raw ''OK''))"

definition addAdminUser :: "cenv \<Rightarrow> router handler" where
  "addAdminUser C r = parse_form 500 r (
     check (stored (CreateAdminUser (ce_E C) (ce_kdf C) (ce_random8 C) (ce_date C) (FormValue r ''username'')
         (FormValue r ''password'') (FormValue r ''change'' = ''true'')))
       (fail404 ''unable to create admin user: '') (\<lambda>_. write_raw ''OK''))"


section \<open>Devices\<close>

text \<open>\<open>net.ParseIP\<close> of a form value.\<close>

definition form_ip :: "cenv \<Rightarrow> string \<Rightarrow> goip option" where
  "form_ip C address = ipv4_of (ce_R C) address"

fun mark_active :: "renv \<Rightarrow> u64 \<Rightarrow> Device list \<Rightarrow> (router, Device list) eff" where
  "mark_active R now [] = ret []"
| "mark_active R now (d # ds) =
     ebind (isAuthed R now (dv_Address d)) (\<lambda>b.
     ebind (mark_active R now ds) (\<lambda>ds'. ret (d\<lparr>dv_Active := b\<rparr> # ds')))"

definition listDevices :: "cenv \<Rightarrow> router handler" where
  "listDevices C r = parse_form 500 r (
     let username = FormValue r ''username'' in
     check (if username \<noteq> ''''
            then ebind (stored (GetUser (ce_E C) username)) (\<lambda>u. stored (user_GetDevices (ce_E C) u))
            else stored (GetAllDevices (ce_E C)))
       fail500 (\<lambda>devices.
     ebind (on_state (mark_active (ce_R C) (ce_now C) devices)) (\<lambda>devices. write_json (enc_slice enc_device devices))))"

definition lockDevice :: "cenv \<Rightarrow> router handler" where
  "lockDevice C r = parse_form 500 r (
     let address = FormValue r ''address'' in
     check (stored (GetUserFromAddress (ce_E C) (form_ip C address))) (fail404 ''not found in database: '') (\<lambda>u.
     check (stored (GetLockout (ce_E C))) (fail404 ''could not get lockout number: '') (\<lambda>lockout.
     check (stored (SetDeviceAuthAttempts (ce_E C) u address (wrap64 (lockout + 1))))
       (fail404 ''could not lock device in db: '') (\<lambda>_. write_raw ''OK''))))"

definition unlockDevice :: "cenv \<Rightarrow> router handler" where
  "unlockDevice C r = parse_form 500 r (
     case ce_unescape C (FormValue r ''address'') of
       Inl e \<Rightarrow> fail500 e
     | Inr address \<Rightarrow>
         check (stored (GetUserFromAddress (ce_E C) (form_ip C address))) (fail404 ''not found: '') (\<lambda>u.
         check (stored (ResetDeviceAuthAttempts (ce_E C) u address)) fail500 (\<lambda>_. write_raw ''OK'')))"

text \<open>The content type is set before anything can fail.\<close>

definition sessions_handler :: "cenv \<Rightarrow> router handler" where
  "sessions_handler C r = ebind (on_writer (set_header ''Content-Type'' ''application/json'')) (\<lambda>_.
     check (on_state (GetAllAuthorised (ce_R C) (ce_now C))) fail500 (\<lambda>ss. on_writer (Write (Doc (enc_strings ss)))))"

definition deleteDevice :: "cenv \<Rightarrow> router handler" where
  "deleteDevice C r = parse_form 500 r (
     let address = FormValue r ''address'' in
     check (stored (GetUserFromAddress (ce_E C) (form_ip C address))) fail500 (\<lambda>u.
     check (stored (user_DeleteDevice (ce_E C) u address)) fail500 (\<lambda>_. write_raw ''OK'')))"

section \<open>Registration tokens\<close>

definition listRegistrations :: "cenv \<Rightarrow> router handler" where
  "listRegistrations C r = check (stored (GetRegistrationTokens (ce_E C))) fail500 (\<lambda>ts. write_json (enc_slice enc_token ts))"

definition group_prefix :: string where "group_prefix = ''group:''"

text \<open>The message of \<open>strconv.Atoi\<close> for a text that is not a number.\<close>

definition atoi_error :: "string \<Rightarrow> error" where
  "atoi_error s = ''strconv.Atoi: parsing '' @ [CHR 0x22] @ s @ [CHR 0x22] @ '': invalid syntax''"

definition registration_result :: "string \<Rightarrow> string \<Rightarrow> string list \<Rightarrow> int \<Rightarrow> RegistrationResult" where
  "registration_result token username groups uses =
     \<lparr>rr_Token = token, rr_Username = username, rr_Groups = groups, rr_Overwrites = '''', rr_NumUses = uses\<rparr>"

definition newRegistration :: "cenv \<Rightarrow> router handler" where
  "newRegistration C r = parse_form 500 r (
     let token = FormValue r ''token''; username = FormValue r ''username''; overwrite = FormValue r ''overwrite'';
         groupsString = FormValue r ''groups''; usesString = FormValue r ''uses'' in
     check (lift (case ce_parse_json C groupsString of Inl e \<Rightarrow> Inl (GoErr e) | Inr j \<Rightarrow> dec_strings j)) fail500 (\<lambda>groups.
     case find (\<lambda>g. \<not> prefix group_prefix g) groups of
       Some g \<Rightarrow> Error (''group did not have the 'group:' prefix '' @ [CHR 0x27] @ g @ [CHR 0x27]) 500
     | None \<Rightarrow> (case atoi usesString of
         None \<Rightarrow> Error (''invalid number of uses for registration token: '' @ atoi_error usesString) 500
       | Some uses \<Rightarrow>
           if uses \<le> 0 then Error (''invalid number of uses for registration token: '' @ usesString) 400
           else check (if token \<noteq> ''''
                       then ebind (stored (AddRegistrationToken (ce_E C) token username overwrite groups uses)) (\<lambda>_. ret token)
                       else stored (GenerateToken (ce_E C) (ce_random_token C) username overwrite groups uses)) fail500
             (\<lambda>t. on_writer (Write (Doc (enc_token (registration_result t username groups uses))))))))"

definition deleteRegistration :: "cenv \<Rightarrow> router handler" where
  "deleteRegistration C r = parse_form 500 r (
     check (stored (DeleteRegistrationToken (ce_E C) (FormValue r ''id'')))
       (failed 500 ''Could not delete token: '') (\<lambda>_. write_raw ''OK''))"

section \<open>Policies and groups\<close>

definition policies_handler :: "cenv \<Rightarrow> router handler" where
  "policies_handler C r = check (stored (GetPolicies (ce_E C))) fail500 (\<lambda>ps. write_json (enc_slice enc_policy ps))"

text \<open>A JSON body decoded into a variable.\<close>

definition decode_body :: "(json \<Rightarrow> 'a res) \<Rightarrow> http_request \<Rightarrow> ('s, 'a) hnd" where
  "decode_body d r = lift (case hr_body r of Inl e \<Rightarrow> Inl (GoErr e) | Inr j \<Rightarrow> d j)"

definition acl_of_policy :: "PolicyData \<Rightarrow> Acl" where
  "acl_of_policy p = zero_acl\<lparr>acl_Mfa := pd_MfaRoutes p, acl_Allow := pd_PublicRoutes p, acl_Deny := pd_DenyRoutes p\<rparr>"

definition newPolicy :: "cenv \<Rightarrow> router handler" where
  "newPolicy C r = check (decode_body dec_policy r) fail500 (\<lambda>acl.
     check (on_state (in_acls (SetAcl (ce_E C) (re_parse (ce_R C)) (pd_Effects acl) (acl_of_policy acl) False)))
       fail500 (\<lambda>_. write_raw ''OK!''))"

definition editPolicy :: "cenv \<Rightarrow> router handler" where
  "editPolicy C r = check (decode_body dec_policy r) fail500 (\<lambda>polciyData.
     check (on_state (in_acls (SetAcl (ce_E C) (re_parse (ce_R C)) (pd_Effects polciyData) (acl_of_policy polciyData) True)))
       fail500 (\<lambda>_. write_raw ''OK!''))"

definition deletePolicies :: "cenv \<Rightarrow> router handler" where
  "deletePolicies C r = check (decode_body dec_strings r) fail500 (\<lambda>policyNames.
     check (stored (for_each (RemoveAcl (ce_E C)) policyNames)) fail500 (\<lambda>_. write_raw ''OK!''))"

definition groups_handler :: "cenv \<Rightarrow> router handler" where
  "groups_handler C r = check (stored (GetGroups (ce_E C))) fail500 (\<lambda>gs. write_json (enc_slice enc_group gs))"

text \<open>The handler of /groups/list does the same.\<close>

definition listGroups :: "cenv \<Rightarrow> router handler" where
  "listGroups C r = check (stored (GetGroups (ce_E C))) fail500 (\<lambda>gs. write_json (enc_slice enc_group gs))"

definition newGroup :: "cenv \<Rightarrow> router handler" where
  "newGroup C r = check (decode_body dec_group r) fail500 (\<lambda>gData.
     check (stored (SetGroup (ce_E C) (gd_Group gData) (gd_Members gData) False)) fail500 (\<lambda>_. write_raw ''OK!''))"

definition editGroup :: "cenv \<Rightarrow> router handler" where
  "editGroup C r = check (decode_body dec_group r) fail500 (\<lambda>gdata.
     check (stored (SetGroup (ce_E C) (gd_Group gdata) (gd_Members gdata) True)) fail500 (\<lambda>_. write_raw ''OK!''))"

definition deleteGroup :: "cenv \<Rightarrow> router handler" where
  "deleteGroup C r = check (decode_body dec_strings r) fail500 (\<lambda>groupNames.
     check (stored (for_each (RemoveGroup (ce_E C)) groupNames)) fail500 (\<lambda>_. write_raw ''OK!''))"

section \<open>Settings, cluster and server\<close>

definition getAllSettings :: "cenv \<Rightarrow> router handler" where
  "getAllSettings C r = check (stored (GetAllSettings (ce_E C))) fail500 (\<lambda>s. write_json (enc_settings s))"

definition getLockout :: "cenv \<Rightarrow> router handler" where
  "getLockout C r = check (stored (GetLockout (ce_E C))) fail500 (\<lambda>n. write_json (JNum n))"

definition listErrors :: "cenv \<Rightarrow> router handler" where
  "listErrors C r = check (stored (GetAllErrors (ce_E C))) fail500 (\<lambda>es. write_json (enc_slice enc_event_error es))"

definition listMembers :: "cenv \<Rightarrow> router handler" where
  "listMembers C r = write_json (ce_members C)"

definition getLastMemberPing :: "cenv \<Rightarrow> router handler" where
  "getLastMemberPing C r = parse_form 400 r (
     let ident = FormValue r ''id'' in
     if ident = '''' then Error ''No member specified'' 404
     else check (stored (GetLastPing (ce_E C) (ce_is_member C) (ce_parse_time C) ident)) fail500 (\<lambda>t. write_json (JTime t)))"

definition firewallRules :: "cenv \<Rightarrow> router handler" where
  "firewallRules C r = check (on_state (GetRules (ce_R C) (ce_now C))) fail500 (\<lambda>rules. write_json (enc_rules_map rules))"

definition version_handler :: "cenv \<Rightarrow> router handler" where
  "version_handler C r = write_raw (if ce_version C = '''' then ''DEBUG (git tag not injected)'' else ce_version C)"

definition bpfVersion :: "cenv \<Rightarrow> router handler" where
  "bpfVersion C r = write_raw (ce_bpf C)"

text \<open>The table of \<open>StartControlSocket\<close>, without the shutdown, which ends the process.\<close>

definition controlMux :: "cenv \<Rightarrow> router handler" where
  "controlMux C = ServeMux
    [(''/device/list'', mux_Get (listDevices C)), (''/device/lock'', mux_Post (lockDevice C)),
     (''/device/unlock'', mux_Post (unlockDevice C)), (''/device/sessions'', mux_Get (sessions_handler C)),
     (''/device/delete'', mux_Post (deleteDevice C)),
     (''/users/groups'', mux_Get (getUserGroups C)), (''/users/list'', mux_Get (listUsers C)),
     (''/users/lock'', mux_Post (lockUser C)), (''/users/unlock'', mux_Post (unlockUser C)),
     (''/users/delete'', mux_Post (deleteUser C)), (''/users/reset'', mux_Post (resetMfaUser C)),
     (''/users/acls'', mux_Get (getUserAcl C)),
     (''/groups/list'', mux_Get (listGroups C)),
     (''/webadmin/list'', mux_Get (listAdminUsers C)), (''/webadmin/lock'', mux_Post (lockAdminUser C)),
     (''/webadmin/unlock'', mux_Post (unlockAdminUser C)), (''/webadmin/delete'', mux_Post (deleteAdminUser C)),
     (''/webadmin/reset'', mux_Post (resetAdminUser C)), (''/webadmin/add'', mux_Post (addAdminUser C)),
     (''/firewall/list'', mux_Get (firewallRules C)), (''/config/policies/list'', mux_Get (policies_handler C)),
     (''/config/policy/edit'', mux_Post (editPolicy C)), (''/config/policy/create'', mux_Post (newPolicy C)),
     (''/config/policies/delete'', mux_Post (deletePolicies C)),
     (''/config/group/list'', mux_Get (groups_handler C)), (''/config/group/edit'', mux_Post (editGroup C)),
     (''/config/group/create'', mux_Post (newGroup C)), (''/config/group/delete'', mux_Post (deleteGroup C)),
     (''/config/settings'', mux_Get (getAllSettings C)), (''/config/settings/lockout'', mux_Get (getLockout C)),
     (''/version'', mux_Get (version_handler C)), (''/version/bpf'', mux_Get (bpfVersion C)),
     (''/registration/list'', mux_Get (listRegistrations C)), (''/registration/create'', mux_Post (newRegistration C)),
     (''/registration/delete'', mux_Post (deleteRegistration C)),
     (''/clustering/errors'', mux_Get (listErrors C)), (''/clustering/members'', mux_Get (listMembers C)),
     (''/clustering/ping'', mux_Get (getLastMemberPing C))]"

end
