(* ===== verification/ControlClient.thy ===== *)
theory ControlClient
  imports ControlServer
begin

text \<open>
  pkg/control/wagctl/client.go: the client of the control socket, used by the command line and by
  the management console. Its HTTP client is the field \<open>httpClient\<close>, which connects, sends a request and
  reads the whole response, or fails; \<open>cc_render\<close> is the text of a document, which matters only where a
  document is taken for a message.
\<close>

section \<open>Requests and answers\<close>

record 's CtrlClient =
  httpClient :: "http_request \<Rightarrow> ('s, http_response) eff"
  cc_render :: "json \<Rightarrow> string"

definition get_request :: "string \<Rightarrow> (string \<times> string) list \<Rightarrow> http_request" where
  "get_request path query = \<lparr>hr_Method = ''GET'', hr_Path = CHR ''/'' # path, hr_RemoteAddr = ''@'', hr_XForwardedFor = '''',
     hr_ContentType = '''', hr_query = query, hr_form = Inr query, hr_body = Inl ''EOF'', hr_Host = ''unix'', hr_Origin = ''''\<rparr>"

definition post_form :: "string \<Rightarrow> (string \<times> string) list \<Rightarrow> http_request" where
  "post_form path form = \<lparr>hr_Method = ''POST'', hr_Path = CHR ''/'' # path, hr_RemoteAddr = ''@'', hr_XForwardedFor = '''',
     hr_ContentType = ''application/x-www-form-urlencoded'', hr_query = [], hr_form = Inr form, hr_body = Inl ''invalid character'', hr_Host = ''unix'', hr_Origin = ''''\<rparr>"

definition post_json :: "string \<Rightarrow> json \<Rightarrow> http_request" where
  "post_json path j = \<lparr>hr_Method = ''POST'', hr_Path = CHR ''/'' # path, hr_RemoteAddr = ''@'', hr_XForwardedFor = '''',
     hr_ContentType = ''application/json'', hr_query = [], hr_form = Inr [], hr_body = Inr j, hr_Host = ''unix'', hr_Origin = ''''\<rparr>"

definition chunk_text :: "(json \<Rightarrow> string) \<Rightarrow> chunk \<Rightarrow> string" where
  "chunk_text text_of c = (case c of Raw t \<Rightarrow> t | Doc j \<Rightarrow> text_of j | Page p _ \<Rightarrow> p | View ps _ _ \<Rightarrow> concat ps)"

definition body_text :: "(json \<Rightarrow> string) \<Rightarrow> http_response \<Rightarrow> string" where
  "body_text text_of p = concat (map (chunk_text text_of) (rp_Body p))"

text \<open>\<open>json.NewDecoder(body).Decode\<close>: the first value of the body.\<close>

definition decode_response :: "(json \<Rightarrow> 'a res) \<Rightarrow> http_response \<Rightarrow> 'a res" where
  "decode_response d p = (case rp_Body p of
      [] \<Rightarrow> Inl (GoErr ''EOF'')
    | Doc j # _ \<Rightarrow> d j
    | _ \<Rightarrow> Inl (GoErr ''invalid character''))"

definition simplepost :: "'s CtrlClient \<Rightarrow> string \<Rightarrow> (string \<times> string) list \<Rightarrow> ('s, unit) eff" where
  "simplepost c path form = ebind (httpClient c (post_form path form)) (\<lambda>response.
     if rp_StatusCode response \<noteq> 200 then raise (body_text (cc_render c) response) else ret ())"

text \<open>The shape of the calls that send JSON and of those that read it.\<close>

definition send_json :: "'s CtrlClient \<Rightarrow> string \<Rightarrow> json \<Rightarrow> ('s, unit) eff" where
  "send_json c path j = ebind (httpClient c (post_json path j)) (\<lambda>response.
     if rp_StatusCode response \<noteq> 200 then raise (body_text (cc_render c) response) else ret ())"

definition read_json :: "'s CtrlClient \<Rightarrow> (error \<Rightarrow> error) \<Rightarrow> (error \<Rightarrow> error) \<Rightarrow> (json \<Rightarrow> 'a res) \<Rightarrow> http_request \<Rightarrow> ('s, 'a) eff" where
  "read_json c wrap undecoded d q = ebind (httpClient c q) (\<lambda>response.
     if rp_StatusCode response \<noteq> 200 then raise (wrap (body_text (cc_render c) response))
     else wrap_err undecoded (lift (decode_response d response)))"

text \<open>Two of the calls do not look at the status.\<close>

definition read_json_any :: "'s CtrlClient \<Rightarrow> (json \<Rightarrow> 'a res) \<Rightarrow> http_request \<Rightarrow> ('s, 'a) eff" where
  "read_json_any c d q = ebind (httpClient c q) (\<lambda>response. lift (decode_response d response))"

definition keep :: "error \<Rightarrow> error" where "keep e = e"
definition undecodable :: "error \<Rightarrow> error" where "undecodable e = ''unable to decode json: '' @ e"

section \<open>Decoders\<close>

definition dec_fwDevice :: "json \<Rightarrow> fwDevice res" where
  "dec_fwDevice = dec_struct (\<lambda>ms.
     rbind (dec_field dec_u64 ''LastPacketTimestamp'' 0 ms) (\<lambda>a.
     rbind (dec_field dec_u64 ''Expiry'' 0 ms) (\<lambda>b.
     rbind (dec_field dec_string ''IP'' '''' ms) (\<lambda>c.
     rbind (dec_field dec_bool ''Authorized'' False ms) (\<lambda>d.
     rbind (dec_field dec_string ''AssociatedNode'' '''' ms) (\<lambda>e.
     Inr \<lparr>fd_LastPacketTimestamp = a, fd_Expiry = b, fd_IP = c, fd_Authorized = d, fd_AssociatedNode = e\<rparr>))))))
     \<lparr>fd_LastPacketTimestamp = 0, fd_Expiry = 0, fd_IP = '''', fd_Authorized = False, fd_AssociatedNode = ''''\<rparr>"

fun dec_u32 :: "json \<Rightarrow> u32 res" where
  "dec_u32 (JNum i) = (if 0 \<le> i \<and> i < 2 ^ 32 then Inr (word_of_int i) else mismatch)"
| "dec_u32 _ = mismatch"

definition dec_rules :: "json \<Rightarrow> FirewallRules res" where
  "dec_rules = dec_struct (\<lambda>ms.
     rbind (dec_field dec_strings ''Policies'' [] ms) (\<lambda>a.
     rbind (dec_field (dec_list dec_fwDevice \<lparr>fd_LastPacketTimestamp = 0, fd_Expiry = 0, fd_IP = '''',
        fd_Authorized = False, fd_AssociatedNode = ''''\<rparr>) ''Devices'' [] ms) (\<lambda>b.
     rbind (dec_field dec_u32 ''AccountLocked'' 0 ms) (\<lambda>c.
     Inr \<lparr>fr_Policies = a, fr_Devices = b, fr_AccountLocked = c\<rparr>)))) no_rules_yet"

definition zero_settings :: AllSettings where
  "zero_settings = \<lparr>as_LoginSettings = \<lparr>ls_SessionInactivityTimeoutMinutes = 0, ls_MaxSessionLifetimeMinutes = 0,
      ls_Lockout = 0, ls_DefaultMFAMethod = '''', ls_EnabledMFAMethods = [], ls_Domain = '''', ls_Issuer = '''',
      ls_OidcDetails = zero_oidc, ls_PamDetails = \<lparr>pam_ServiceName = ''''\<rparr>\<rparr>,
    as_GeneralSettings = \<lparr>gs_HelpMail = '''', gs_ExternalAddress = '''', gs_DNS = [], gs_WireguardConfigFilename = '''',
      gs_CheckUpdates = False\<rparr>\<rparr>"

definition dec_settings :: "json \<Rightarrow> AllSettings res" where
  "dec_settings = dec_struct (\<lambda>ms.
     rbind (dec_field dec_int ''SessionInactivityTimeoutMinutes'' 0 ms) (\<lambda>a.
     rbind (dec_field dec_int ''MaxSessionLifetimeMinutes'' 0 ms) (\<lambda>b.
     rbind (dec_field dec_int ''Lockout'' 0 ms) (\<lambda>c.
     rbind (dec_field dec_string ''DefaultMFAMethod'' '''' ms) (\<lambda>d.
     rbind (dec_field dec_strings ''EnabledMFAMethods'' [] ms) (\<lambda>e.
     rbind (dec_field dec_string ''Domain'' '''' ms) (\<lambda>f.
     rbind (dec_field dec_string ''Issuer'' '''' ms) (\<lambda>g.
     rbind (dec_field (dec_oidc zero_oidc) ''OidcDetails'' zero_oidc ms) (\<lambda>h.
     rbind (dec_field (dec_pam \<lparr>pam_ServiceName = ''''\<rparr>) ''PamDetails'' \<lparr>pam_ServiceName = ''''\<rparr> ms) (\<lambda>i.
     rbind (dec_field dec_string ''HelpMail'' '''' ms) (\<lambda>j.
     rbind (dec_field dec_string ''ExternalAddress'' '''' ms) (\<lambda>k.
     rbind (dec_field dec_strings ''DNS'' [] ms) (\<lambda>l.
     rbind (dec_field dec_string ''WireguardConfigFilename'' '''' ms) (\<lambda>m.
     rbind (dec_field dec_bool ''CheckUpdates'' False ms) (\<lambda>n.
     Inr \<lparr>as_LoginSettings = \<lparr>ls_SessionInactivityTimeoutMinutes = a, ls_MaxSessionLifetimeMinutes = b,
          ls_Lockout = c, ls_DefaultMFAMethod = d, ls_EnabledMFAMethods = e, ls_Domain = f, ls_Issuer = g,
          ls_OidcDetails = h, ls_PamDetails = i\<rparr>,
        as_GeneralSettings = \<lparr>gs_HelpMail = j, gs_ExternalAddress = k, gs_DNS = l, gs_WireguardConfigFilename = m,
          gs_CheckUpdates = n\<rparr>\<rparr>))))))))))))))) zero_settings"

section \<open>Devices, administrators, users\<close>

definition client_ListDevice :: "'s CtrlClient \<Rightarrow> string \<Rightarrow> ('s, Device list) eff" where
  "client_ListDevice c username = read_json c keep keep (dec_list dec_device zero_device)
     (get_request ''device/list'' [(''username'', username)])"

definition client_DeleteDevice :: "'s CtrlClient \<Rightarrow> string \<Rightarrow> ('s, unit) eff" where
  "client_DeleteDevice c address = simplepost c ''device/delete'' [(''address'', address)]"

definition client_LockDevice :: "'s CtrlClient \<Rightarrow> string \<Rightarrow> ('s, unit) eff" where
  "client_LockDevice c address = simplepost c ''device/lock'' [(''address'', address)]"

definition client_UnlockDevice :: "'s CtrlClient \<Rightarrow> string \<Rightarrow> ('s, unit) eff" where
  "client_UnlockDevice c address = simplepost c ''device/unlock'' [(''address'', address)]"

definition client_ListAdminUsers :: "'s CtrlClient \<Rightarrow> string \<Rightarrow> ('s, AdminModel list) eff" where
  "client_ListAdminUsers c username = read_json c keep keep (dec_list dec_AdminModel (AdminModel.truncate zero_admin))
     (get_request ''webadmin/list'' [(''username'', username)])"

definition client_AddAdminUser :: "'s CtrlClient \<Rightarrow> string \<Rightarrow> string \<Rightarrow> bool \<Rightarrow> ('s, unit) eff" where
  "client_AddAdminUser c username password changeOnFirstUser = simplepost c ''webadmin/add''
     [(''username'', username), (''password'', password), (''change'', bool_text changeOnFirstUser)]"

definition client_SetAdminUserPassword :: "'s CtrlClient \<Rightarrow> string \<Rightarrow> string \<Rightarrow> ('s, unit) eff" where
  "client_SetAdminUserPassword c username password = simplepost c ''webadmin/reset''
     [(''username'', username), (''password'', password)]"

definition client_DeleteAdminUser :: "'s CtrlClient \<Rightarrow> string \<Rightarrow> ('s, unit) eff" where
  "client_DeleteAdminUser c username = simplepost c ''webadmin/delete'' [(''username'', username)]"

definition client_LockAdminUser :: "'s CtrlClient \<Rightarrow> string \<Rightarrow> ('s, unit) eff" where
  "client_LockAdminUser c username = simplepost c ''webadmin/lock'' [(''username'', username)]"

definition client_UnlockAdminUser :: "'s CtrlClient \<Rightarrow> string \<Rightarrow> ('s, unit) eff" where
  "client_UnlockAdminUser c username = simplepost c ''webadmin/unlock'' [(''username'', username)]"

definition client_ListUsers :: "'s CtrlClient \<Rightarrow> string \<Rightarrow> ('s, UserModel list) eff" where
  "client_ListUsers c username = read_json c keep keep (dec_list (dec_user zero_user) zero_user)
     (get_request ''users/list'' [(''username'', username)])"

definition client_ListAllGroups :: "'s CtrlClient \<Rightarrow> ('s, GroupData list) eff" where
  "client_ListAllGroups c = read_json c keep keep (dec_list dec_group \<lparr>gd_Group = '''', gd_Members = []\<rparr>)
     (get_request ''groups/list'' [])"

definition client_UserGroups :: "'s CtrlClient \<Rightarrow> string \<Rightarrow> ('s, string list) eff" where
  "client_UserGroups c username = read_json c keep keep dec_strings (get_request ''users/groups'' [(''username'', username)])"

definition client_DeleteUser :: "'s CtrlClient \<Rightarrow> string \<Rightarrow> ('s, unit) eff" where
  "client_DeleteUser c username = simplepost c ''users/delete'' [(''username'', username)]"

definition client_LockUser :: "'s CtrlClient \<Rightarrow> string \<Rightarrow> ('s, unit) eff" where
  "client_LockUser c username = simplepost c ''users/lock'' [(''username'', username)]"

definition client_UnlockUser :: "'s CtrlClient \<Rightarrow> string \<Rightarrow> ('s, unit) eff" where
  "client_UnlockUser c username = simplepost c ''users/unlock'' [(''username'', username)]"

definition client_ResetUserMFA :: "'s CtrlClient \<Rightarrow> string \<Rightarrow> ('s, unit) eff" where
  "client_ResetUserMFA c username = simplepost c ''users/reset'' [(''username'', username)]"

definition client_GetUsersAcls :: "'s CtrlClient \<Rightarrow> string \<Rightarrow> ('s, Acl) eff" where
  "client_GetUsersAcls c username = read_json c keep keep dec_acl (get_request ''users/acls'' [(''username'', username)])"

definition client_Sessions :: "'s CtrlClient \<Rightarrow> ('s, string list) eff" where
  "client_Sessions c = read_json_any c dec_strings (get_request ''device/sessions'' [])"

definition client_FirewallRules :: "'s CtrlClient \<Rightarrow> ('s, (string \<times> FirewallRules) list) eff" where
  "client_FirewallRules c = read_json c (\<lambda>e. ''Error: '' @ e) keep (dec_map dec_rules no_rules_yet) (get_request ''firewall/list'' [])"

section \<open>Policies, groups, settings, registrations, cluster\<close>

definition no_policy :: PolicyData where
  "no_policy = \<lparr>pd_Effects = '''', pd_PublicRoutes = [], pd_MfaRoutes = [], pd_DenyRoutes = []\<rparr>"

definition client_GetPolicies :: "'s CtrlClient \<Rightarrow> ('s, PolicyData list) eff" where
  "client_GetPolicies c = read_json_any c (dec_list dec_policy no_policy) (get_request ''config/policies/list'' [])"

definition client_AddPolicy :: "'s CtrlClient \<Rightarrow> PolicyData \<Rightarrow> ('s, unit) eff" where
  "client_AddPolicy c policies = send_json c ''config/policy/create'' (enc_policy policies)"

definition client_EditPolicies :: "'s CtrlClient \<Rightarrow> PolicyData \<Rightarrow> ('s, unit) eff" where
  "client_EditPolicies c policy = send_json c ''config/policy/edit'' (enc_policy policy)"

definition client_RemovePolicies :: "'s CtrlClient \<Rightarrow> string list \<Rightarrow> ('s, unit) eff" where
  "client_RemovePolicies c policyNames = send_json c ''config/policies/delete'' (enc_slice JStr policyNames)"

definition client_GetGroups :: "'s CtrlClient \<Rightarrow> ('s, GroupData list) eff" where
  "client_GetGroups c = read_json_any c (dec_list dec_group \<lparr>gd_Group = '''', gd_Members = []\<rparr>) (get_request ''config/group/list'' [])"

definition client_AddGroup :: "'s CtrlClient \<Rightarrow> GroupData \<Rightarrow> ('s, unit) eff" where
  "client_AddGroup c grp = (if \<not> prefix group_prefix (gd_Group grp) then raise ''group did not have the 'group:' prefix''
     else send_json c ''config/group/create'' (enc_group grp))"

definition client_EditGroup :: "'s CtrlClient \<Rightarrow> GroupData \<Rightarrow> ('s, unit) eff" where
  "client_EditGroup c grp = (if \<not> prefix group_prefix (gd_Group grp) then raise ''group did not have the 'group:' prefix''
     else send_json c ''config/group/edit'' (enc_group grp))"

definition client_RemoveGroup :: "'s CtrlClient \<Rightarrow> string list \<Rightarrow> ('s, unit) eff" where
  "client_RemoveGroup c groupNames = send_json c ''config/group/delete'' (enc_slice JStr groupNames)"

definition client_GetAllSettings :: "'s CtrlClient \<Rightarrow> ('s, AllSettings) eff" where
  "client_GetAllSettings c = read_json c keep keep dec_settings (get_request ''config/settings'' [])"

definition client_GetLockout :: "'s CtrlClient \<Rightarrow> ('s, int) eff" where
  "client_GetLockout c = read_json c keep keep (dec_or dec_int 0) (get_request ''config/settings/lockout'' [])"

definition client_GetVersion :: "'s CtrlClient \<Rightarrow> ('s, string) eff" where
  "client_GetVersion c = ebind (httpClient c (get_request ''version'' [])) (\<lambda>response. ret (body_text (cc_render c) response))"

definition client_GetBPFVersion :: "'s CtrlClient \<Rightarrow> ('s, string) eff" where
  "client_GetBPFVersion c = ebind (httpClient c (get_request ''version/bpf'' [])) (\<lambda>response. ret (body_text (cc_render c) response))"

definition client_Registrations :: "'s CtrlClient \<Rightarrow> ('s, RegistrationResult list) eff" where
  "client_Registrations c = read_json c keep undecodable (dec_list dec_token zero_token) (get_request ''registration/list'' [])"

text \<open>\<open>cc_render\<close> is also \<open>json.Marshal\<close> where the text goes into a form field.\<close>

definition client_NewRegistration ::
  "'s CtrlClient \<Rightarrow> string \<Rightarrow> string \<Rightarrow> string \<Rightarrow> int \<Rightarrow> string list \<Rightarrow> ('s, RegistrationResult) eff" where
  "client_NewRegistration c token username overwrite uses groups =
     (if uses \<le> 0 then raise ''unable to create token with <= 0 uses''
      else case find (\<lambda>g. \<not> prefix group_prefix g) groups of
        Some g \<Rightarrow> raise (''group does not have 'group:' prefix: '' @ g)
      | None \<Rightarrow> read_json c keep keep dec_token (post_form ''registration/create''
          [(''username'', username), (''token'', token), (''overwrite'', overwrite), (''uses'', show_int uses),
           (''groups'', cc_render c (enc_slice JStr groups))]))"

definition client_DeleteRegistration :: "'s CtrlClient \<Rightarrow> string \<Rightarrow> ('s, unit) eff" where
  "client_DeleteRegistration c ident = simplepost c ''registration/delete'' [(''id'', ident)]"

definition client_Shutdown :: "'s CtrlClient \<Rightarrow> bool \<Rightarrow> ('s, unit) eff" where
  "client_Shutdown c cleanup = simplepost c ''shutdown'' [(''cleanup'', bool_text cleanup)]"

definition no_event_error :: EventError where
  "no_event_error = \<lparr>ee_NodeID = '''', ee_ErrorID = '''', ee_FailedEventData = '''', ee_Error = '''', ee_Time = 0\<rparr>"

definition client_GetClusterErrors :: "'s CtrlClient \<Rightarrow> ('s, EventError list) eff" where
  "client_GetClusterErrors c = read_json c keep undecodable (dec_list dec_event_error no_event_error)
     (get_request ''clustering/errors'' [])"

text \<open>The members are the document of the etcd library.\<close>

definition client_GetClusterMembers :: "'s CtrlClient \<Rightarrow> (json \<Rightarrow> 'm res) \<Rightarrow> ('s, 'm) eff" where
  "client_GetClusterMembers c dec_members = read_json c keep undecodable dec_members (get_request ''clustering/members'' [])"

text \<open>The path asked is that of the members.\<close>

definition client_GetClusterMemberLastPing :: "'s CtrlClient \<Rightarrow> string \<Rightarrow> ('s, int) eff" where
  "client_GetClusterMemberLastPing c ident = read_json c keep undecodable (dec_or dec_time 0) (get_request ''clustering/members'' [])"

end
