(* ===== verification/ControlProtocol.thy ===== *)
theory ControlProtocol
  imports ControlClient RouterInv
begin

text \<open>
  The client of the control socket and its server together: a command run through the socket is the
  operation of internal/data behind it, and what the socket does to errors and panics.
\<close>

section \<open>What the client sees of a handler\<close>

text \<open>An operation behind the socket: errors get a line end, a panic closes the connection.\<close>

definition remote :: "(error \<Rightarrow> error) \<Rightarrow> ('s, 'a) eff \<Rightarrow> ('s, 'a) eff" where
  "remote w m s = (case m s of
      (Inl (GoErr e), t) \<Rightarrow> (Inl (GoErr (line (w e))), t)
    | (Inl (GoPanic _), t) \<Rightarrow> (Inl (GoErr ''EOF''), t)
    | r \<Rightarrow> r)"

text \<open>The answer to a command: nothing with status 200, else the text as an error.\<close>

definition command :: "(json \<Rightarrow> string) \<Rightarrow> ('s, unit) hnd \<Rightarrow> ('s, unit) eff" where
  "command text_of b = ebind (respond b) (\<lambda>p.
     if rp_StatusCode p \<noteq> 200 then raise (body_text text_of p) else ret ())"

text \<open>The answer to a query, decoded when its status is 200.\<close>

definition query :: "(json \<Rightarrow> string) \<Rightarrow> (json \<Rightarrow> 'a res) \<Rightarrow> ('s, unit) hnd \<Rightarrow> ('s, 'a) eff" where
  "query text_of d b = ebind (respond b) (\<lambda>p.
     if rp_StatusCode p \<noteq> 200 then raise (body_text text_of p) else lift (decode_response d p))"

named_theorems socket_simps \<open>a handler as the client sees it\<close>

lemma finish_error [simp]:
  "rw_sent w = None \<Longrightarrow> finish (http_error msg n w) =
     \<lparr>rp_StatusCode = n, rp_Header = (rw_header w)(''Content-Type'' \<mapsto> ''text/plain; charset=utf-8'', ''X-Content-Type-Options'' \<mapsto> ''nosniff''),
      rp_Body = rw_body w @ [Raw (line msg)]\<rparr>"
  by (simp add: finish_def http_error_def)

lemma respond_writer [socket_simps]: "respond (on_writer f) = ret (finish (f fresh_writer))"
  by (rule ext) (simp add: respond_def)

lemma respond_lift [socket_simps]:
  "respond (check (lift (Inr x)) g k) = respond (k x)"
  "respond (check (lift (Inl (GoErr e))) g k) = respond (g e)"
  by (rule ext, simp add: respond_def http_simps)+

text \<open>An operation, then the rest of the handler: the writer is still fresh.\<close>

lemma respond_check:
  "respond (check (on_state m) g k) s = (case m s of
      (Inr x, t) \<Rightarrow> respond (k x) t
    | (Inl (GoErr e), t) \<Rightarrow> respond (g e) t
    | (Inl (GoPanic _), t) \<Rightarrow> (Inl (GoErr ''EOF''), t)
    | (Inl OutOfFuel, t) \<Rightarrow> (Inl OutOfFuel, t))"
  by (auto simp: respond_def check_def attempt_def on_state_apply ebind_def split: prod.splits sum.splits fault.splits)

lemma command_Error [socket_simps]: "n \<noteq> 200 \<Longrightarrow> command f (Error msg n) = raise (line msg)"
  by (rule ext) (simp add: command_def Error_def respond_writer body_text_def chunk_text_def)

lemma command_ok [socket_simps]: "command f (write_raw t) = ret ()"
  by (rule ext) (simp add: command_def write_raw_def respond_writer finish_def)

lemma command_lift [socket_simps]: "command f (check (lift (Inr x)) g k) = command f (k x)"
  by (simp add: command_def respond_lift)

lemma command_check_cases:
  "command f (check (on_state m) g k) s = (case m s of
      (Inr x, t) \<Rightarrow> command f (k x) t
    | (Inl (GoErr e), t) \<Rightarrow> command f (g e) t
    | (Inl (GoPanic _), t) \<Rightarrow> (Inl (GoErr ''EOF''), t)
    | (Inl OutOfFuel, t) \<Rightarrow> (Inl OutOfFuel, t))"
  by (auto simp: command_def ebind_def respond_check split: prod.splits sum.splits fault.splits)

lemma command_check [socket_simps]:
  assumes "\<And>e. command f (g e) = raise (line (w e))"
  shows "command f (check (on_state m) g k) = ebind (remote w m) (\<lambda>x. command f (k x))"
  by (rule ext) (simp add: command_check_cases assms ebind_def remote_def split: prod.splits sum.splits fault.splits)

lemma query_Error [socket_simps]: "n \<noteq> 200 \<Longrightarrow> query f d (Error msg n) = raise (line msg)"
  by (rule ext) (simp add: query_def Error_def respond_writer body_text_def chunk_text_def)

lemma query_json [socket_simps]: "query f d (write_json j) = lift (d j)"
  by (rule ext) (simp add: query_def write_json_def respond_writer finish_def decode_response_def)

lemma query_check_cases:
  "query f d (check (on_state m) g k) s = (case m s of
      (Inr x, t) \<Rightarrow> query f d (k x) t
    | (Inl (GoErr e), t) \<Rightarrow> query f d (g e) t
    | (Inl (GoPanic _), t) \<Rightarrow> (Inl (GoErr ''EOF''), t)
    | (Inl OutOfFuel, t) \<Rightarrow> (Inl OutOfFuel, t))"
  by (auto simp: query_def ebind_def respond_check split: prod.splits sum.splits fault.splits)

lemma query_check [socket_simps]:
  assumes "\<And>e. query f d (g e) = raise (line (w e))"
  shows "query f d (check (on_state m) g k) = ebind (remote w m) (\<lambda>x. query f d (k x))"
  by (rule ext) (simp add: query_check_cases assms ebind_def remote_def split: prod.splits sum.splits fault.splits)

section \<open>The socket\<close>

text \<open>A client that is connected to a handler, and nothing in between fails.\<close>

lemma wrap_keep: "wrap_err keep m = m"
  by (rule ext) (simp add: wrap_err_def on_error_def keep_def split: prod.splits sum.splits fault.splits)

locale control_socket =
  fixes c :: "'s CtrlClient" and h :: "'s handler"
  assumes connected: "httpClient c q = serve h q"
begin

lemma simplepost_command: "simplepost c path form = command (cc_render c) (h (post_form path form))"
  by (simp add: simplepost_def command_def connected serve_def)

lemma send_json_command: "send_json c path j = command (cc_render c) (h (post_json path j))"
  by (simp add: send_json_def command_def connected serve_def)

lemma read_json_query: "read_json c keep keep d q = query (cc_render c) d (h q)"
  unfolding read_json_def query_def connected serve_def wrap_keep keep_def ..

end

definition socket_client :: "cenv \<Rightarrow> (json \<Rightarrow> string) \<Rightarrow> router CtrlClient" where
  "socket_client C text_of = \<lparr>httpClient = serve (controlMux C), cc_render = text_of\<rparr>"

interpretation socket: control_socket "socket_client C text_of" "controlMux C" for C text_of
  by unfold_locales (simp add: socket_client_def)

lemma ServeMux_exact: "map_of routes (hr_Path r) = Some h \<Longrightarrow> ServeMux routes r = h r"
  by (simp add: ServeMux_def Let_def)

lemma mux_methods [simp]:
  "hr_Method r = ''GET'' \<Longrightarrow> mux_Get h r = h r" "hr_Method r = ''POST'' \<Longrightarrow> mux_Post h r = h r"
  by (simp_all add: mux_Get_def mux_Post_def AllowedMethods_def)

lemma request_fields [simp]:
  "hr_Method (get_request p q) = ''GET''" "hr_Path (get_request p q) = CHR ''/'' # p" "hr_form (get_request p q) = Inr q"
  "hr_Method (post_form p q) = ''POST''" "hr_Path (post_form p q) = CHR ''/'' # p" "hr_form (post_form p q) = Inr q"
  "hr_Method (post_json p j) = ''POST''" "hr_Path (post_json p j) = CHR ''/'' # p" "hr_body (post_json p j) = Inr j"
  by (simp_all add: get_request_def post_form_def post_json_def)

lemma FormValue_sent [simp]:
  "FormValue (get_request p q) k = (case map_of q k of None \<Rightarrow> '''' | Some v \<Rightarrow> v)"
  "FormValue (post_form p q) k = (case map_of q k of None \<Rightarrow> '''' | Some v \<Rightarrow> v)"
  by (simp_all add: FormValue_def)

text \<open>The routes of the commands and queries.\<close>

lemma control_posts:
  "controlMux C (post_form ''device/delete'' q) = deleteDevice C (post_form ''device/delete'' q)"
  "controlMux C (post_form ''device/lock'' q) = lockDevice C (post_form ''device/lock'' q)"
  "controlMux C (post_form ''device/unlock'' q) = unlockDevice C (post_form ''device/unlock'' q)"
  "controlMux C (post_form ''webadmin/add'' q) = addAdminUser C (post_form ''webadmin/add'' q)"
  "controlMux C (post_form ''webadmin/reset'' q) = resetAdminUser C (post_form ''webadmin/reset'' q)"
  "controlMux C (post_form ''webadmin/delete'' q) = deleteAdminUser C (post_form ''webadmin/delete'' q)"
  "controlMux C (post_form ''webadmin/lock'' q) = lockAdminUser C (post_form ''webadmin/lock'' q)"
  "controlMux C (post_form ''webadmin/unlock'' q) = unlockAdminUser C (post_form ''webadmin/unlock'' q)"
  "controlMux C (post_form ''users/delete'' q) = deleteUser C (post_form ''users/delete'' q)"
  "controlMux C (post_form ''users/lock'' q) = lockUser C (post_form ''users/lock'' q)"
  "controlMux C (post_form ''users/unlock'' q) = unlockUser C (post_form ''users/unlock'' q)"
  "controlMux C (post_form ''users/reset'' q) = resetMfaUser C (post_form ''users/reset'' q)"
  "controlMux C (post_form ''registration/delete'' q) = deleteRegistration C (post_form ''registration/delete'' q)"
  by (simp_all add: controlMux_def ServeMux_exact)

lemma control_json_posts:
  "controlMux C (post_json ''config/policy/create'' j) = newPolicy C (post_json ''config/policy/create'' j)"
  "controlMux C (post_json ''config/policy/edit'' j) = editPolicy C (post_json ''config/policy/edit'' j)"
  "controlMux C (post_json ''config/policies/delete'' j) = deletePolicies C (post_json ''config/policies/delete'' j)"
  "controlMux C (post_json ''config/group/create'' j) = newGroup C (post_json ''config/group/create'' j)"
  "controlMux C (post_json ''config/group/edit'' j) = editGroup C (post_json ''config/group/edit'' j)"
  "controlMux C (post_json ''config/group/delete'' j) = deleteGroup C (post_json ''config/group/delete'' j)"
  by (simp_all add: controlMux_def ServeMux_exact)


section \<open>Commands\<close>

definition pre :: "error \<Rightarrow> error \<Rightarrow> error" where
  "pre p e = p @ e"

abbreviation remotely :: "error \<Rightarrow> (store, 'a) eff \<Rightarrow> (router, 'a) eff" where
  "remotely p m \<equiv> remote (pre p) (in_store m)"

lemma ebind_ret [simp]: "ebind m ret = m"
  by (rule ext) (simp add: ebind_def split: prod.splits sum.splits)

lemma command_fail500 [socket_simps]: "command f (fail500 e) = raise (line (pre '''' e))"
  by (simp add: fail500_def pre_def command_Error)

lemma command_failed [socket_simps]: "n \<noteq> 200 \<Longrightarrow> command f (failed n p e) = raise (line (pre p e))"
  by (simp add: failed_def pre_def command_Error)

lemma command_fail404 [socket_simps]: "command f (fail404 p e) = raise (line (pre p e))"
  by (simp add: fail404_def command_failed)

lemma query_fail500 [socket_simps]: "query f d (fail500 e) = raise (line (pre '''' e))"
  by (simp add: fail500_def pre_def query_Error)

lemma on_user_methods [simp]:
  "on_user (user_Lock E) u = SetUserLock E (Username u)"
  "on_user (user_Unlock E) u = SetUserUnlock E (Username u)"
  by (rule ext, simp add: on_user_def user_Lock_def user_Unlock_def split: prod.splits)+

lemma parse_form_ok [simp]: "hr_form r = Inr q \<Longrightarrow> parse_form n r k = k"
  by (simp add: parse_form_def)

lemma dec_enc_slice [simp]: "dec_strings (enc_slice JStr xs) = Inr xs" "dec_or dec_strings z (enc_slice JStr xs) = Inr (if xs = [] then z else xs)"
  using dec_strings_enc [of "''''" xs] by (auto simp: dec_strings_def enc_slice_def enc_strings_def)

lemma dec_enc_policy [simp]: "dec_policy (enc_policy p) = Inr p"
  by (cases p) (simp add: dec_policy_def enc_policy_def name_eval)

lemma dec_enc_group [simp]: "dec_group (enc_group g) = Inr g"
  by (cases g) (simp add: dec_group_def enc_group_def name_eval)

lemma decode_sent [simp]: "decode_body d (post_json p j) = lift (d j)"
  by (simp add: decode_body_def)

lemma bool_text_true [simp]: "bool_text b = ''true'' \<longleftrightarrow> b"
  by (simp add: bool_text_def)

lemmas control_clients = client_DeleteDevice_def client_LockDevice_def client_AddAdminUser_def
  client_SetAdminUserPassword_def client_DeleteAdminUser_def client_LockAdminUser_def client_UnlockAdminUser_def
  client_DeleteUser_def client_LockUser_def client_UnlockUser_def client_ResetUserMFA_def client_AddPolicy_def
  client_EditPolicies_def client_RemovePolicies_def client_AddGroup_def client_EditGroup_def client_RemoveGroup_def
  client_DeleteRegistration_def

lemmas control_handlers = deleteDevice_def lockDevice_def addAdminUser_def resetAdminUser_def deleteAdminUser_def
  lockAdminUser_def unlockAdminUser_def with_user_def deleteUser_def lockUser_def unlockUser_def resetMfaUser_def
  newPolicy_def editPolicy_def deletePolicies_def newGroup_def editGroup_def deleteGroup_def deleteRegistration_def

lemmas run_command = control_clients socket.simplepost_command socket.send_json_command control_posts
  control_json_posts control_handlers Let_def




section \<open>Queries\<close>

lemma control_gets:
  "controlMux C (get_request ''users/list'' q) = listUsers C (get_request ''users/list'' q)"
  "controlMux C (get_request ''users/groups'' q) = getUserGroups C (get_request ''users/groups'' q)"
  "controlMux C (get_request ''groups/list'' q) = listGroups C (get_request ''groups/list'' q)"
  "controlMux C (get_request ''clustering/members'' q) = listMembers C (get_request ''clustering/members'' q)"
  "controlMux C (get_request ''config/settings/lockout'' q) = getLockout C (get_request ''config/settings/lockout'' q)"
  by (simp_all add: controlMux_def ServeMux_exact)

lemma dec_list_slice:
  assumes "\<And>x. dec_or d z (f x) = Inr x"
  shows "dec_list d z (enc_slice f xs) = Inr xs"
proof (cases "xs = []")
  case False
  then have "dec_list d z (enc_slice f xs) = rmap (dec_or d z \<circ> f) xs" by (simp add: enc_slice_def rmap_map)
  also have "dec_or d z \<circ> f = Inr" by (rule ext) (simp add: assms)
  finally show ?thesis by simp
qed (simp add: enc_slice_def)

lemma dec_or_obj: "dec_or d z (JObj ms) = d (JObj ms)"
  by simp

lemma dec_user_slice [simp]: "dec_list (dec_user zero_user) zero_user (enc_slice enc_user us) = Inr us"
  by (rule dec_list_slice) (metis dec_enc_user dec_or_obj enc_user_def)

lemma dec_group_slice [simp]: "dec_list dec_group z (enc_slice enc_group gs) = Inr gs"
  by (rule dec_list_slice) (metis dec_enc_group dec_or_obj enc_group_def)

lemma dec_strings_enc_list [simp]: "dec_strings (enc_strings gs) = Inr gs"
  by (simp add: dec_strings_def)

lemma lift_ret: "(\<lambda>x. lift (Inr x)) = ret"
  by (rule ext, rule ext) simp

lemma query_list [socket_simps]:
  "(\<And>x. d (f x) = Inr x) \<Longrightarrow> query g d (check (on_state m) fail500 (\<lambda>x. write_json (f x))) = remote (pre '''') m"
  by (simp add: query_check [OF query_fail500] query_json lift_ret)

text \<open>
  Listing through the socket returns what the server reads, decoded without loss: all users, all
  groups, and the groups of a named user. Asking for one user by name never works: the server then
  answers with a single document where the client reads a list, so the call fails whatever the store
  holds.
\<close>

theorem control_lists:
  "client_ListUsers (socket_client C f) '''' = remotely '''' (GetAllUsers (ce_E C)) \<and>
   client_ListAllGroups (socket_client C f) = remotely '''' (GetGroups (ce_E C)) \<and>
   client_UserGroups (socket_client C f) n =
     (if n = '''' then raise (line ''No user specified'') else remotely '''' (GetUserGroupMembership (ce_E C) n)) \<and>
   (n \<noteq> '''' \<longrightarrow> fst (client_ListUsers (socket_client C f) n s) \<noteq> Inr us)"
proof (intro conjI impI)
  show "client_ListUsers (socket_client C f) '''' = remotely '''' (GetAllUsers (ce_E C))"
    by (simp add: client_ListUsers_def socket.read_json_query control_gets listUsers_def Let_def query_list)
  show "client_ListAllGroups (socket_client C f) = remotely '''' (GetGroups (ce_E C))"
    by (simp add: client_ListAllGroups_def socket.read_json_query control_gets listGroups_def query_list)
  show "client_UserGroups (socket_client C f) n =
     (if n = '''' then raise (line ''No user specified'') else remotely '''' (GetUserGroupMembership (ce_E C) n))"
    by (simp add: client_UserGroups_def socket.read_json_query control_gets getUserGroups_def Let_def query_list query_Error)
next
  assume "n \<noteq> ''''"
  then have "client_ListUsers (socket_client C f) n = ebind (remotely '''' (GetUser (ce_E C) n))
      (\<lambda>u. lift (dec_list (dec_user zero_user) zero_user (enc_account u)))"
    by (simp add: client_ListUsers_def socket.read_json_query control_gets listUsers_def Let_def socket_simps)
  then show "fst (client_ListUsers (socket_client C f) n s) \<noteq> Inr us"
    by (auto simp: ebind_def enc_account_def mismatch_def split: prod.splits sum.splits)
qed

definition demo_control :: cenv where
  "demo_control = \<lparr>ce_R = renv_ref, ce_now = 0, ce_kdf = demo_kdf, ce_random8 = Inr [], ce_random32 = Inr [],
     ce_random_token = Inr '''', ce_date = '''', ce_version = '''', ce_bpf = '''', ce_members = JArr [],
     ce_is_member = (\<lambda>_. False), ce_parse_time = (\<lambda>_. Inl ''''), ce_unescape = Inr, ce_parse_json = (\<lambda>_. Inl '''')\<rparr>"


definition ann_stored :: router where
  "ann_stored = first_state\<lparr>rt_store := demo_store\<rparr>"

theorem control_lists_witness:
  "user_at (rt_store ann_stored) ''ann'' = Some demo_user \<and>
   fst (client_ListUsers (socket_client demo_control (\<lambda>_. '''')) ''ann'' ann_stored) \<noteq> Inr [demo_user]"
  using control_lists [of demo_control "\<lambda>_. ''''" "''ann''" ann_stored "[demo_user]"] by (simp add: ann_stored_def)

text \<open>Asking for the last ping of a member asks for the members, which is never a time.\<close>

lemma GetClusterMemberLastPing_fails:
  assumes "ce_members C = JArr ms"
  shows "fst (client_GetClusterMemberLastPing (socket_client C f) n s) = Inl (GoErr (undecodable ''json: cannot unmarshal value into Go value''))"
  by (simp add: client_GetClusterMemberLastPing_def read_json_def ebind_def socket.connected serve_def control_gets listMembers_def
      assms write_json_def respond_writer finish_def decode_response_def mismatch_def wrap_err_def on_error_def)

end
