(* ===== verification/WebauthnUser.thy ===== *)
theory WebauthnUser
  imports DataTypes Encodings
begin

text \<open>
  The account record of security keys, \<open>WebauthnUser\<close> of
  internal/webserver/authenticators/webauthn.go: its JSON form, in which the identifiers of the
  credentials, arbitrary bytes, are written in padded base64, and the identifier handed to the
  library. A credential is a record of the library: its identifier, the warning that it was cloned,
  and the rest; how the library reads and writes one is an argument.
\<close>

section \<open>Padded base 64\<close>

definition pad :: char where "pad = CHR ''=''"

definition std_encode :: "bytes \<Rightarrow> string" where
  "std_encode bs = b64_encode bs @ replicate ((3 - length bs mod 3) mod 3) pad"

text \<open>Line breaks are skipped; the rest is a multiple of four characters, the last two may be padding.\<close>

definition strip_padding :: "string \<Rightarrow> string" where
  "strip_padding s = (case rev s of
      a # b # t \<Rightarrow> if a = pad \<and> b = pad then rev t else if a = pad then rev (b # t) else s
    | _ \<Rightarrow> s)"

definition std_decode :: "string \<Rightarrow> error + bytes" where
  "std_decode s = (let t = filter (\<lambda>c. \<not> newline c) s in
     if length t mod 4 \<noteq> 0 then Inl ''illegal base64 data'' else b64_decode (strip_padding t))"

definition string_of :: "bytes \<Rightarrow> string" where
  "string_of bs = map (\<lambda>b. char_of (unat b)) bs"

section \<open>The record\<close>

record Credential =
  cr_ID :: string
  cr_CloneWarning :: bool
  cr_rest :: json

record WebauthnUser =
  wu_id :: u64
  wu_name :: string
  wu_displayName :: string
  wu_credentials :: "(string \<times> Credential) list"

definition zero_credential :: Credential where
  "zero_credential = \<lparr>cr_ID = '''', cr_CloneWarning = False, cr_rest = JNull\<rparr>"

definition NewUser :: "u64 \<Rightarrow> string \<Rightarrow> string \<Rightarrow> WebauthnUser" where
  "NewUser randomUint64 name displayName =
     \<lparr>wu_id = randomUint64, wu_name = name, wu_displayName = displayName, wu_credentials = []\<rparr>"

text \<open>A Go map is an association list, read by its first entry.\<close>

definition AddCredential :: "Credential \<Rightarrow> WebauthnUser \<Rightarrow> WebauthnUser" where
  "AddCredential cred u = u\<lparr>wu_credentials :=
     (cr_ID cred, cred) # filter (\<lambda>(i, _). i \<noteq> cr_ID cred) (wu_credentials u)\<rparr>"

definition WebAuthnCredential :: "WebauthnUser \<Rightarrow> string \<Rightarrow> Credential option" where
  "WebAuthnCredential u ID = map_of (wu_credentials u) ID"

definition WebAuthnCredentials :: "WebauthnUser \<Rightarrow> Credential list" where
  "WebAuthnCredentials u = map snd (wu_credentials u)"

definition CredentialExcludeList :: "WebauthnUser \<Rightarrow> (string \<times> string) list" where
  "CredentialExcludeList u = map (\<lambda>(_, cred). (''public-key'', cr_ID cred)) (wu_credentials u)"

fun uvarint :: "nat \<Rightarrow> bytes" where
  "uvarint x = (if x < 128 then [word_of_nat x] else word_of_nat (x mod 128 + 128) # uvarint (x div 128))"

declare uvarint.simps [simp del]

text \<open>A buffer of \<open>MaxVarintLen64\<close> bytes.\<close>

definition WebAuthnID :: "WebauthnUser \<Rightarrow> bytes" where
  "WebAuthnID u = (let bs = uvarint (unat (wu_id u)) in bs @ replicate (10 - length bs) 0)"

section \<open>JSON\<close>

definition WebauthnUser_MarshalJSON :: "(Credential \<Rightarrow> json) \<Rightarrow> WebauthnUser \<Rightarrow> json" where
  "WebauthnUser_MarshalJSON enc u = JObj [(''Id'', JNum (uint (wu_id u))), (''Name'', JStr (wu_name u)),
     (''DisplayName'', JStr (wu_displayName u)),
     (''Credentials'', JObj (sort_key fst (map (\<lambda>(i, cred). (std_encode (bytes_of i), enc cred)) (wu_credentials u))))]"

definition decode_ids :: "(string \<times> 'a) list \<Rightarrow> (string \<times> 'a) list res" where
  "decode_ids = rmap (\<lambda>(i, cred). case std_decode i of Inl e \<Rightarrow> Inl (GoErr e) | Inr d \<Rightarrow> Inr (string_of d, cred))"

definition WebauthnUser_UnmarshalJSON :: "(json \<Rightarrow> Credential res) \<Rightarrow> json \<Rightarrow> WebauthnUser res" where
  "WebauthnUser_UnmarshalJSON dec j =
     rbind (dec_struct (\<lambda>ms.
        rbind (dec_field dec_u64 ''Id'' 0 ms) (\<lambda>a.
        rbind (dec_field dec_string ''Name'' '''' ms) (\<lambda>b.
        rbind (dec_field dec_string ''DisplayName'' '''' ms) (\<lambda>c.
        rbind (dec_field (dec_map dec zero_credential) ''Credentials'' [] ms) (\<lambda>d.
        Inr (a, b, c, d)))))) (0, '''', '''', []) j) (\<lambda>(a, b, c, d).
     rbind (decode_ids d) (\<lambda>creds.
     Inr \<lparr>wu_id = a, wu_name = b, wu_displayName = c, wu_credentials = creds\<rparr>))"

section \<open>The text of an identifier is read back\<close>

lemma string_of_bytes [simp]: "string_of (bytes_of s) = s"
  by (induction s) (simp_all add: string_of_def bytes_of_def unat_of_nat of_char_mod_256)

lemma length_sextets: "(length (sextets bs) + (3 - length bs mod 3) mod 3) mod 4 = 0"
proof (induction bs rule: sextets.induct)
  case (4 a b c bs)
  have "length (a # b # c # bs) mod 3 = length bs mod 3" by simp
  then have "(length (sextets (a # b # c # bs)) + (3 - length (a # b # c # bs) mod 3) mod 3) =
      (length (sextets bs) + (3 - length bs mod 3) mod 3) + 4" by simp
  with 4 show ?case by (simp only: mod_add_self2)
qed simp_all

lemma b64_char_not_pad: "n < 64 \<Longrightarrow> b64_char n \<noteq> pad"
proof -
  have "list_all (\<lambda>n. b64_char n \<noteq> pad) [0..<64]" by code_simp
  then show "n < 64 \<Longrightarrow> b64_char n \<noteq> pad" by (simp add: list_all_iff)
qed

lemma b64_encode_chars:
  assumes "c \<in> set (b64_encode bs)"
  shows "c \<noteq> pad \<and> \<not> newline c"
proof -
  from assms obtain n where "n < 64" and "c = b64_char n" by (auto simp: b64_encode_def dest: sextets_bound)
  then show ?thesis by (simp add: newline_char b64_char_not_pad)
qed

lemma strip_padding_encode:
  assumes "pad \<notin> set t" and "n < 3" and "t = [] \<Longrightarrow> n = 0"
  shows "strip_padding (t @ replicate n pad) = t"
proof -
  consider "n = 0" | "n = 1" | "n = 2" using assms(2) by linarith
  then show ?thesis
  proof cases
    case 1
    show ?thesis
    proof (cases t rule: rev_cases)
      case (snoc u c)
      with assms 1 show ?thesis by (cases u rule: rev_cases) (auto simp: strip_padding_def)
    qed (simp add: 1 strip_padding_def)
  next
    case 2
    with assms show ?thesis
      by (cases t rule: rev_cases) (auto simp: strip_padding_def)
  next
    case 3
    then show ?thesis by (simp add: strip_padding_def numeral_2_eq_2)
  qed
qed

lemma std_roundtrip [simp]: "std_decode (std_encode bs) = Inr bs"
proof -
  have "filter (\<lambda>c. \<not> newline c) (std_encode bs) = std_encode bs"
    by (rule filter_True) (auto simp: std_encode_def pad_def newline_def dest: b64_encode_chars)
  moreover have "length (std_encode bs) mod 4 = 0"
    using length_sextets [of bs] by (simp add: std_encode_def b64_encode_def)
  moreover have "strip_padding (std_encode bs) = b64_encode bs"
    unfolding std_encode_def
  proof (rule strip_padding_encode)
    show "pad \<notin> set (b64_encode bs)" using b64_encode_chars by blast
    show "b64_encode bs = [] \<Longrightarrow> (3 - length bs mod 3) mod 3 = 0"
      by (auto simp: b64_encode_def elim: sextets.elims)
  qed simp
  ultimately show ?thesis by (simp add: std_decode_def Let_def)
qed

section \<open>The record is read back\<close>

lemma sort_key_map: "sort_key f (map g xs) = map g (sort_key (\<lambda>x. f (g x)) xs)"
proof -
  have "insort_key f (g x) (map g ys) = map g (insort_key (\<lambda>x. f (g x)) x ys)" for x ys
    by (induction ys) simp_all
  then show ?thesis by (induction xs) simp_all
qed

lemma decode_ids_encoded:
  "decode_ids (map (\<lambda>(i, c). (std_encode (bytes_of i), c)) cs) = Inr cs"
  unfolding decode_ids_def rmap_map by (rule trans [OF rmap_total [where g = "\<lambda>x. x"]]) auto

lemma dec_map_encoded:
  assumes "\<And>i c. (i, c) \<in> set cs \<Longrightarrow> dec (enc c) = Inr c \<and> enc c \<noteq> JNull"
  shows "dec_map dec z (JObj (map (\<lambda>(i, c). (i, enc c)) cs)) = Inr (rev cs)"
proof -
  have "dec_or dec z (enc c) = Inr c" if "(i, c) \<in> set cs" for i c
    using assms [OF that] by (cases "enc c") auto
  then have "rmap (\<lambda>(k, j). rbind (dec_or dec z j) (\<lambda>x. Inr (k, x))) (map (\<lambda>(i, c). (i, enc c)) (rev cs)) = Inr (map (\<lambda>x. x) (rev cs))"
    unfolding rmap_map by (intro rmap_total) (auto split: prod.splits)
  then show ?thesis by (simp add: rev_map)
qed



section \<open>Identifiers\<close>

lemma uvarint_small: "x < 128 \<Longrightarrow> uvarint x = [word_of_nat x]"
  and uvarint_big: "\<not> x < 128 \<Longrightarrow> uvarint x = word_of_nat (x mod 128 + 128) # uvarint (x div 128)"
  by (subst uvarint.simps, simp)+

lemma byte_inj: "(word_of_nat m :: 8 word) = word_of_nat n \<Longrightarrow> m < 256 \<Longrightarrow> n < 256 \<Longrightarrow> m = n"
proof -
  have "unat (word_of_nat k :: 8 word) = k" if "k < 256" for k using that by (simp add: unat_of_nat take_bit_nat_eq_self_iff)
  then show "(word_of_nat m :: 8 word) = word_of_nat n \<Longrightarrow> m < 256 \<Longrightarrow> n < 256 \<Longrightarrow> m = n" by metis
qed

text \<open>The encoding of a number is never the beginning of that of another one.\<close>

lemma uvarint_prefix_free: "uvarint x @ r = uvarint y @ s \<Longrightarrow> x = y"
proof (induction x arbitrary: y rule: uvarint.induct)
  case (1 x)
  have head: "x mod 128 + 128 < 256" "y mod 128 + 128 < 256" by simp_all
  show ?case
  proof (cases "x < 128")
    case True
    with 1 head show ?thesis by (cases "y < 128") (auto simp: uvarint_small uvarint_big simp del: of_nat_add dest!: byte_inj)
  next
    case False
    have "\<not> y < 128"
    proof
      assume y: "y < 128"
      with 1 False have "(word_of_nat (x mod 128 + 128) :: 8 word) = word_of_nat y" by (simp add: uvarint_small uvarint_big)
      from byte_inj [OF this head(1)] y show False by simp
    qed
    with 1 False have "(word_of_nat (x mod 128 + 128) :: 8 word) = word_of_nat (y mod 128 + 128)"
      and "uvarint (x div 128) @ r = uvarint (y div 128) @ s" by (simp_all add: uvarint_big)
    from byte_inj [OF this(1) head] 1(1) [OF False this(2)] have "x mod 128 = y mod 128" "x div 128 = y div 128" by simp_all
    then show ?thesis by (metis div_mult_mod_eq)
  qed
qed

lemma length_uvarint: "x < 128 ^ n \<Longrightarrow> 0 < n \<Longrightarrow> length (uvarint x) \<le> n"
proof (induction n arbitrary: x)
  case (Suc n)
  show ?case
  proof (cases "x < 128")
    case False
    with Suc.prems have "x div 128 < 128 ^ n" "0 < n" by (auto simp: less_mult_imp_div_less ac_simps intro: gr0I)
    with Suc.IH False show ?thesis by (simp add: uvarint_big)
  qed (simp add: uvarint_small)
qed simp

text \<open>Every account has an identifier of ten bytes, and different numbers have different ones.\<close>

lemma WebAuthnID_inject:
  "length (WebAuthnID u) = 10" "WebAuthnID u = WebAuthnID v \<longleftrightarrow> wu_id u = wu_id v"
proof -
  have "unat (wu_id u) < 2 ^ 64" using unsigned_less [of "wu_id u"] by simp
  also have "(2 :: nat) ^ 64 < 128 ^ 10" by simp
  finally show "length (WebAuthnID u) = 10" using length_uvarint [of "unat (wu_id u)" 10] by (simp add: WebAuthnID_def Let_def)
  show "WebAuthnID u = WebAuthnID v \<longleftrightarrow> wu_id u = wu_id v"
    by (auto simp: WebAuthnID_def Let_def word_unat_eq_iff dest: uvarint_prefix_free)
qed

end
