(* ===== verification/Authenticators.thy ===== *)
theory Authenticators
  imports RouterEvents Users WebauthnUser
begin

text \<open>
  internal/webserver/authenticators: the table of the multi-factor methods (authenticators.go), the
  answers they share (init.go), one-time codes (totp.go) and system passwords (pam.go), and the
  listeners of internal/webserver/statemachine.go that switch methods on and off.

  The state is the router's, the store included, which methods are enabled, and the one-time codes
  used last. The libraries behind the methods, rendering, random values and the clocks are arguments.
\<close>

section \<open>State and environment\<close>

text \<open>
  Objects of libraries that the methods keep: the executor and the sessions of security keys, and
  the identity provider of single sign-on. A call that starts a browser flow changes the response;
  an exchange either answers itself or yields the claims of a token and the preferred name.
\<close>

record wa_executor =
  wx_BeginRegistration :: "WebauthnUser \<Rightarrow> error + (json \<times> string)"
  wx_FinishRegistration :: "WebauthnUser \<Rightarrow> string \<Rightarrow> http_request \<Rightarrow> error + Credential"
  wx_BeginLogin :: "WebauthnUser \<Rightarrow> error + (json \<times> string)"
  wx_FinishLogin :: "WebauthnUser \<Rightarrow> string \<Rightarrow> http_request \<Rightarrow> error + (Credential \<times> WebauthnUser)"

type_synonym sessions = "string \<rightharpoonup> string"

record id_token =
  it_GetClaim :: "string \<Rightarrow> json option"
  it_PreferredUsername :: string

record provider =
  pv_Issuer :: string
  pv_EndSessionEndpoint :: string
  pv_AuthURL :: "string \<Rightarrow> http_request \<Rightarrow> response_writer \<Rightarrow> response_writer"
  pv_Exchange :: "http_request \<Rightarrow> (response_writer \<Rightarrow> response_writer) + id_token"

text \<open>A parsed address: its host, its path, and its text with a path.\<close>

record go_url =
  u_Host :: string
  u_Path :: string
  u_text :: "string \<Rightarrow> string"

record web =
  wb_router :: router
  wb_enabled :: "string \<Rightarrow> bool"
  wb_used :: "string \<rightharpoonup> (int \<times> string)"
  wb_executor :: "wa_executor option"
  wb_sessions :: "sessions option"
  wb_provider :: "provider option"
  wb_details :: OIDC

text \<open>
  What the handlers ask of the outside. \<open>we_otp_secret\<close> reads the secret off a key URL,
  \<open>we_otp_valid\<close> says whether a code is valid for a secret at a time, \<open>we_pam\<close> runs the PAM
  conversation for a service, a user and a password. \<open>we_template\<close> is the error of parsing a page's
  template, \<open>we_render\<close> that of executing it, \<open>we_text\<close> its text. \<open>we_generate_key\<close> is a fresh private
  key with its public key (a key is its text), \<open>we_wgctrl\<close> and \<open>we_wgdevice\<close> read the public key and
  port of the WireGuard device, \<open>we_qr\<close>, \<open>we_scale\<close> and \<open>we_png\<close> make the picture of a profile,
  \<open>we_static\<close> reads an embedded file. \<open>we_parse_json\<close> parses a text, the credentials are read and
  written by \<open>we_dec_credential\<close> and \<open>we_enc_credential\<close>, and the rest makes and calls the objects above
  and draws random numbers; a constructor that fails leaves no object.
\<close>

record wenv =
  we_R :: renv
  we_now :: u64
  we_time :: int
  we_random :: "error + string"
  we_render :: "string \<Rightarrow> error option"
  we_otp_generate :: "string \<Rightarrow> string \<Rightarrow> error + (string \<times> string)"
  we_otp_secret :: "string \<Rightarrow> error + string"
  we_otp_valid :: "int \<Rightarrow> string \<Rightarrow> string \<Rightarrow> bool"
  we_image :: "string \<Rightarrow> error + string"
  we_pam :: "string \<Rightarrow> string \<Rightarrow> string \<Rightarrow> error option"
  we_template :: "string \<Rightarrow> error option"
  we_text :: "string \<Rightarrow> (string \<times> string) list \<Rightarrow> string"
  we_generate_key :: "error + (string \<times> string)"
  we_psk :: "error + string"
  we_intn :: "nat \<Rightarrow> nat"
  we_wgctrl :: "error option"
  we_wgdevice :: "wgdev \<Rightarrow> error + (string \<times> int)"
  we_qr :: "string \<Rightarrow> error + string"
  we_scale :: "string \<Rightarrow> error + string"
  we_png :: "string \<Rightarrow> error + string"
  we_static :: "string \<Rightarrow> error + string"
  we_parse_json :: "string \<Rightarrow> error + json"
  we_enc_credential :: "Credential \<Rightarrow> json"
  we_dec_credential :: "json \<Rightarrow> Credential res"
  we_random_id :: u64
  we_new_executor :: "string \<Rightarrow> string \<Rightarrow> string \<Rightarrow> error + wa_executor"
  we_new_sessions :: "error option"
  we_StartSession :: "http_request \<Rightarrow> string \<Rightarrow> sessions \<Rightarrow> (response_writer \<Rightarrow> response_writer) \<times> sessions"
  we_GetSession :: "http_request \<Rightarrow> sessions \<Rightarrow> string option"
  we_DeleteSession :: "http_request \<Rightarrow> sessions \<Rightarrow> (response_writer \<Rightarrow> response_writer) \<times> sessions"
  we_parse_url :: "string \<Rightarrow> error + go_url"
  we_key :: "error option"
  we_hashkey :: "error option"
  we_state :: "error + string"
  we_new_provider :: "OIDC \<Rightarrow> string \<Rightarrow> error + provider"

abbreviation we_E :: "wenv \<Rightarrow> etcd" where
  "we_E W \<equiv> re_etcd (we_R W)"

definition in_router :: "(router, 'a) eff \<Rightarrow> (web, 'a) hnd" where
  "in_router m = on_state (zoom wb_router (\<lambda>x s. s\<lparr>wb_router := x\<rparr>) m)"

abbreviation web_store :: "(store, 'a) eff \<Rightarrow> (web, 'a) hnd" where
  "web_store m \<equiv> in_router (in_store m)"

text \<open>The store inside the state of a handler.\<close>

definition get_store :: "web \<times> response_writer \<Rightarrow> store" where
  "get_store x = rt_store (wb_router (fst x))"

definition put_store :: "store \<Rightarrow> web \<times> response_writer \<Rightarrow> web \<times> response_writer" where
  "put_store t x = ((fst x)\<lparr>wb_router := (wb_router (fst x))\<lparr>rt_store := t\<rparr>\<rparr>, snd x)"

lemma get_put_store [simp]: "get_store (put_store t x) = t"
  by (simp add: get_store_def put_store_def)

lemma web_store_zoom: "web_store m = zoom get_store put_store m"
  by (rule ext) (simp add: in_router_def on_state_def zoom_def get_store_def put_store_def split: prod.splits)

section \<open>Methods\<close>

text \<open>The \<open>Authenticator\<close> interface.\<close>

record Authenticator =
  au_Init :: "(web, unit) eff"
  au_FriendlyName :: string
  au_LogoutPath :: "web \<Rightarrow> string res"
  au_RegistrationAPI :: "web handler"
  au_AuthorisationAPI :: "web handler"
  au_MFAPromptUI :: "string \<Rightarrow> string \<Rightarrow> web handler"
  au_RegistrationUI :: "string \<Rightarrow> string \<Rightarrow> web handler"

text \<open>The table of the methods by type; it never changes. Its four types are in \<open>method_types\<close>.\<close>

type_synonym methods = "(string \<times> Authenticator) list"

definition GetMethod :: "methods \<Rightarrow> string \<Rightarrow> web \<Rightarrow> Authenticator option" where
  "GetMethod ms method s = (case map_of ms method of
      Some v \<Rightarrow> if wb_enabled s method then Some v else None | None \<Rightarrow> None)"

fun DisableMethods :: "methods \<Rightarrow> string list \<Rightarrow> web \<Rightarrow> web" where
  "DisableMethods ms [] s = s"
| "DisableMethods ms (m # ns) s = DisableMethods ms ns
     (if map_of ms m \<noteq> None then s\<lparr>wb_enabled := (wb_enabled s)(m := False)\<rparr> else s)"

fun EnableMethods :: "methods \<Rightarrow> string list \<Rightarrow> web \<Rightarrow> web" where
  "EnableMethods ms [] s = s"
| "EnableMethods ms (m # ns) s = EnableMethods ms ns
     (if map_of ms m \<noteq> None then s\<lparr>wb_enabled := (wb_enabled s)(m := True)\<rparr> else s)"

text \<open>
  Only the first failure is skipped: a later one is added to the message, and its method to the
  result.
\<close>

fun reinit_loop :: "methods \<Rightarrow> string list \<Rightarrow> string list \<Rightarrow> error option \<Rightarrow> (web, string list \<times> error option) eff" where
  "reinit_loop ms [] out errRet = ret (out, errRet)"
| "reinit_loop ms (m # ns) out errRet = (case map_of ms m of
     None \<Rightarrow> reinit_loop ms ns out errRet
   | Some a \<Rightarrow> ebind (attempt (au_Init a)) (\<lambda>r. case r of
        Inr _ \<Rightarrow> reinit_loop ms ns (out @ [m]) errRet
      | Inl e \<Rightarrow> (case errRet of
           None \<Rightarrow> reinit_loop ms ns out (Some (m @ '' failed to init: '' @ e))
         | Some e' \<Rightarrow> reinit_loop ms ns (out @ [m]) (Some (m @ '' failed to init: '' @ e @ [CHR 0x0A] @ e')))))"

definition ReinitaliseMethods :: "methods \<Rightarrow> string list \<Rightarrow> (web, string list \<times> error option) eff" where
  "ReinitaliseMethods ms method = reinit_loop ms method [] None"

definition method_types :: "string list" where
  "method_types = [''oidc'', ''pam'', ''totp'', ''webauthn'']"

definition NumberOfMethods :: "web \<Rightarrow> nat" where
  "NumberOfMethods s = length (filter (wb_enabled s) method_types)"

definition GetAllEnabledMethods :: "methods \<Rightarrow> web \<Rightarrow> (string \<times> Authenticator) list" where
  "GetAllEnabledMethods ms s = filter (\<lambda>m. wb_enabled s (fst m)) (sort_key fst ms)"

definition GetAllAvaliableMethods :: "methods \<Rightarrow> (string \<times> Authenticator) list" where
  "GetAllAvaliableMethods ms = sort_key fst ms"

definition checkEnabled :: "string \<Rightarrow> web handler \<Rightarrow> web handler" where
  "checkEnabled a f r = (\<lambda>(s, w). if \<not> wb_enabled s a then NotFound (s, w) else f r (s, w))"

definition mfa_routes :: "methods \<Rightarrow> (string \<times> web handler) list" where
  "mfa_routes ms = concat (map (\<lambda>(m, handler).
     [(''/authorise/'' @ m @ ''/'', checkEnabled m (au_AuthorisationAPI handler)),
      (''/register_mfa/'' @ m @ ''/'', checkEnabled m (au_RegistrationAPI handler))]) ms)"

text \<open>An enabled method that is not in the table is a nil dereference.\<close>

fun init_enabled :: "methods \<Rightarrow> string list \<Rightarrow> (web, unit) eff" where
  "init_enabled ms [] = ret ()"
| "init_enabled ms (m # ns) = (case map_of ms m of
     None \<Rightarrow> panic ''invalid memory address or nil pointer dereference''
   | Some a \<Rightarrow> ebind (attempt (au_Init a)) (\<lambda>r. case r of
        Inl _ \<Rightarrow> init_enabled ms ns
      | Inr _ \<Rightarrow> ebind (modify (\<lambda>s. s\<lparr>wb_enabled := (wb_enabled s)(m := True)\<rparr>)) (\<lambda>_. init_enabled ms ns)))"

definition in_web_store :: "(store, 'a) eff \<Rightarrow> (web, 'a) eff" where
  "in_web_store m = zoom wb_router (\<lambda>x s. s\<lparr>wb_router := x\<rparr>) (in_store m)"

definition AddMFARoutes :: "etcd \<Rightarrow> methods \<Rightarrow> (web, (string \<times> web handler) list) eff" where
  "AddMFARoutes E ms =
     ebind (in_web_store (GetAuthenicationMethods E)) (\<lambda>enabledMethods.
     ebind (init_enabled ms enabledMethods) (\<lambda>_. ret (mfa_routes ms)))"

section \<open>Listeners\<close>

definition error_of :: "error option \<Rightarrow> ('s, unit) eff" where
  "error_of e = (case e of None \<Rightarrow> ret () | Some e \<Rightarrow> raise e)"

definition reinit_if_enabled :: "etcd \<Rightarrow> methods \<Rightarrow> string \<Rightarrow> (web, unit) eff" where
  "reinit_if_enabled E ms m =
     ebind (in_web_store (GetAuthenicationMethods E)) (\<lambda>methods.
     if m \<in> set methods then ebind (ReinitaliseMethods ms [m]) (\<lambda>(_, e). error_of e) else ret ())"

definition oidcChanges :: "etcd \<Rightarrow> methods \<Rightarrow> EventType \<Rightarrow> (web, unit) eff" where
  "oidcChanges E ms et = (case et of
      DELETED \<Rightarrow> modify (DisableMethods ms [''oidc''])
    | _ \<Rightarrow> reinit_if_enabled E ms ''oidc'')"

definition domainChanged :: "etcd \<Rightarrow> methods \<Rightarrow> EventType \<Rightarrow> (web, unit) eff" where
  "domainChanged E ms et = (case et of MODIFIED \<Rightarrow> reinit_if_enabled E ms ''oidc'' | _ \<Rightarrow> ret ())"

definition enabledMethodsChanged :: "methods \<Rightarrow> string list \<Rightarrow> string list \<Rightarrow> EventType \<Rightarrow> (web, unit) eff" where
  "enabledMethodsChanged ms current previous et = (case et of
      DELETED \<Rightarrow> modify (DisableMethods ms previous)
    | CREATED \<Rightarrow>
        ebind (ReinitaliseMethods ms current) (\<lambda>(initdMethods, err).
        ebind (modify (EnableMethods ms initdMethods)) (\<lambda>_. error_of err))
    | MODIFIED \<Rightarrow>
        ebind (modify (DisableMethods ms previous)) (\<lambda>_.
        ebind (ReinitaliseMethods ms current) (\<lambda>(initdMethods, err).
        ebind (modify (EnableMethods ms initdMethods)) (\<lambda>_. error_of err))))"

definition issuerKeyChanged :: "methods \<Rightarrow> EventType \<Rightarrow> (web, unit) eff" where
  "issuerKeyChanged ms et = (case et of
      DELETED \<Rightarrow> modify (DisableMethods ms [''totp'', ''webauthn''])
    | _ \<Rightarrow> ebind (ReinitaliseMethods ms [''totp'', ''webauthn'']) (\<lambda>(_, e). error_of e))"

section \<open>What the handlers share\<close>

definition jsonResponse :: "json \<Rightarrow> nat \<Rightarrow> ('s, unit) hnd" where
  "jsonResponse d c = on_writer (\<lambda>w. Write (Doc d) (WriteHeader c (set_header ''Content-Type'' ''application/json'' w)))"

definition resultMessage :: "wenv \<Rightarrow> error option \<Rightarrow> (web, string \<times> nat) hnd" where
  "resultMessage W err = (case err of
      None \<Rightarrow> ret (''Success'', 200)
    | Some e \<Rightarrow> ebind (web_store (GetHelpMail (we_E W))) (\<lambda>mail.
        ret (if contains e ''account is locked'' then ''Account is locked contact: '' @ mail
             else if contains e ''device is locked'' then ''Device is locked contact: '' @ mail
             else ''Validation failed'', 400)))"

text \<open>The expiry of the cookie is left out.\<close>

definition IssueChallengeTokenCookie :: "string \<Rightarrow> ('s, unit) hnd" where
  "IssueChallengeTokenCookie challenge =
     on_writer (set_header ''Set-Cookie'' (''challenge='' @ challenge @ ''; Path=/; Secure; SameSite=Lax''))"

definition client_ip :: "wenv \<Rightarrow> http_request \<Rightarrow> ip4 option" where
  "client_ip W r = GetIPFromRequest (pe_net (re_parse (we_R W))) (cf_NumberProxies (re_conf (we_R W))) r"

text \<open>Rendering a page writes it, unless its execution fails; a template that does not parse panics.\<close>

definition must_parse :: "wenv \<Rightarrow> string \<Rightarrow> ('s, unit) eff" where
  "must_parse W page = (case we_template W page of Some e \<Rightarrow> panic e | None \<Rightarrow> ret ())"

definition render_page :: "wenv \<Rightarrow> string \<Rightarrow> (string \<times> string) list \<Rightarrow> ('s, unit) hnd" where
  "render_page W page vals = ebind (must_parse W page) (\<lambda>_. case we_render W page of
      Some e \<Rightarrow> raise e
    | None \<Rightarrow> on_writer (Write (Page page vals)))"

definition html :: "('s, unit) hnd" where
  "html = on_writer (set_header ''Content-Type'' ''text/html; charset=UTF-8'')"

definition success_page :: "wenv \<Rightarrow> ('s, unit) hnd" where
  "success_page W = ebind html (\<lambda>_. ebind (attempt (render_page W ''success.html'' [])) (\<lambda>_. ret ()))"

text \<open>The beginning of the handlers: a client that is authorised is done, else its user is found.\<close>

definition unless_authed :: "wenv \<Rightarrow> http_request \<Rightarrow> (user \<Rightarrow> string \<Rightarrow> (web, unit) hnd) \<Rightarrow> (web, unit) hnd" where
  "unless_authed W r k =
     (let clientTunnelIp = client_ip W r in
      ebind (in_router (isAuthed (we_R W) (we_now W) (ip_text clientTunnelIp))) (\<lambda>authed.
      if authed then success_page W
      else check (web_store (GetUserFromAddress (we_E W) (map_option V4 clientTunnelIp)))
             (\<lambda>_. Error ''Bad request'' 400) (\<lambda>u. k u (ip_text clientTunnelIp))))"

definition if_enforcing :: "wenv \<Rightarrow> user \<Rightarrow> (web, unit) hnd \<Rightarrow> (web, unit) hnd \<Rightarrow> (web, unit) hnd" where
  "if_enforcing W u yes no = ebind (web_store (user_IsEnforcingMFA (we_E W) u)) (\<lambda>b. if b then yes else no)"

definition web_Authenticate :: "wenv \<Rightarrow> user \<Rightarrow> string \<Rightarrow> string \<Rightarrow> (web \<times> response_writer) authenticator \<Rightarrow> (web, string) hnd" where
  "web_Authenticate W = Authenticate get_store put_store (we_E W) (we_time W) (we_random W)"

definition failure :: "error + 'a \<Rightarrow> error option" where
  "failure r = (case r of Inl e \<Rightarrow> Some e | Inr _ \<Rightarrow> None)"

text \<open>The page of a method, with the help mail and the number of methods.\<close>

definition method_page :: "wenv \<Rightarrow> string \<Rightarrow> string \<Rightarrow> string \<Rightarrow> web handler" where
  "method_page W page username ip r =
     ebind (web_store (GetHelpMail (we_E W))) (\<lambda>mail.
     ebind (\<lambda>(s, w). (Inr (NumberOfMethods s), (s, w))) (\<lambda>n.
     ebind (attempt (render_page W page [(''HelpMail'', mail), (''NumMethods'', show_nat n)])) (\<lambda>_. ret ())))"


section \<open>One-time codes\<close>

definition Totp_Type :: string where "Totp_Type = ''totp''"

definition seconds :: "int \<Rightarrow> int" where "seconds n = n * 1000000000"

text \<open>Only the code used last is remembered, and for 30 seconds.\<close>

definition use_code :: "int \<Rightarrow> string \<Rightarrow> string \<Rightarrow> web \<Rightarrow> unit res \<times> web" where
  "use_code now username code s =
     (case wb_used s username of
        Some (usetime, c) \<Rightarrow>
          if c = code \<and> now < usetime + seconds 30 then (Inl (GoErr ''code already used''), s)
          else (Inr (), s\<lparr>wb_used := (wb_used s)(username \<mapsto> (now, code))\<rparr>)
      | None \<Rightarrow> (Inr (), s\<lparr>wb_used := (wb_used s)(username \<mapsto> (now, code))\<rparr>))"

definition Totp_AuthoriseFunc :: "wenv \<Rightarrow> http_request \<Rightarrow> (web \<times> response_writer) authenticator" where
  "Totp_AuthoriseFunc W r mfaSecret username =
     (case hr_form r of
        Inl e \<Rightarrow> ebind (Error ''Bad request'' 400) (\<lambda>_. raise e)
      | Inr _ \<Rightarrow>
          (let code = FormValue r ''code'' in
           case we_otp_secret W mfaSecret of
             Inl e \<Rightarrow> raise e
           | Inr secret \<Rightarrow>
               if \<not> we_otp_valid W (we_time W) code secret then raise ''code does not match expected''
               else on_state (use_code (we_time W) username code)))"

text \<open>Signing in, as both handlers of a POST begin.\<close>

definition Totp_login :: "wenv \<Rightarrow> http_request \<Rightarrow> user \<Rightarrow> string \<Rightarrow> (web, error + string) hnd" where
  "Totp_login W r u ip = attempt (web_Authenticate W u ip Totp_Type (Totp_AuthoriseFunc W r))"

text \<open>After a POST the header is set when the response has been sent.\<close>

definition Totp_RegistrationAPI :: "wenv \<Rightarrow> web handler" where
  "Totp_RegistrationAPI W r = unless_authed W r (\<lambda>u ip.
     if_enforcing W u (Error ''Bad request'' 400)
     (if hr_Method r = ''GET'' then
        check (web_store (GetIssuer (we_E W))) (\<lambda>_. Error ''Bad request'' 400) (\<lambda>issuer.
        case we_otp_generate W issuer (Username u) of
          Inl _ \<Rightarrow> Error ''Unknown error'' 500
        | Inr (url, secret) \<Rightarrow>
            check (web_store (SetUserMfa (we_E W) (Username u) url Totp_Type)) (\<lambda>_. Error ''Server Error'' 500) (\<lambda>_.
            case we_image W url of
              Inl _ \<Rightarrow> Error ''Server Error'' 500
            | Inr img \<Rightarrow> jsonResponse (JObj [(''ImageData'', JStr (''data:image/png;base64, '' @ img)),
                (''Key'', JStr secret), (''AccountName'', JStr (Username u))]) 200))
      else if hr_Method r = ''POST'' then
        ebind (Totp_login W r u ip) (\<lambda>res.
        ebind (resultMessage W (failure res)) (\<lambda>(msg, status).
        ebind (jsonResponse (JStr msg) status) (\<lambda>_. case res of
          Inl _ \<Rightarrow> ret ()
        | Inr challenge \<Rightarrow>
            ebind (on_writer (set_header ''WAG-CHALLENGE'' challenge)) (\<lambda>_.
            ebind (attempt (web_store (EnforceMFA (we_E W) u))) (\<lambda>_. ret ())))))
      else NotFound))"

definition Totp_AuthorisationAPI :: "wenv \<Rightarrow> web handler" where
  "Totp_AuthorisationAPI W r =
     (if hr_Method r \<noteq> ''POST'' then NotFound
      else unless_authed W r (\<lambda>u ip.
        if_enforcing W u
          (ebind (Totp_login W r u ip) (\<lambda>res.
           ebind (on_writer (set_header ''WAG-CHALLENGE'' (case res of Inl _ \<Rightarrow> '''' | Inr c \<Rightarrow> c))) (\<lambda>_.
           ebind (resultMessage W (failure res)) (\<lambda>(msg, status). jsonResponse (JStr msg) status))))
          (Redirect ''/'' 307)))"

definition Totp :: "wenv \<Rightarrow> Authenticator" where
  "Totp W = \<lparr>au_Init = ret (), au_FriendlyName = ''Time Based Code'', au_LogoutPath = (\<lambda>_. Inr ''/''),
     au_RegistrationAPI = Totp_RegistrationAPI W, au_AuthorisationAPI = Totp_AuthorisationAPI W,
     au_MFAPromptUI = method_page W ''prompt_mfa_totp.html'', au_RegistrationUI = method_page W ''register_mfa_totp.html''\<rparr>"

section \<open>System passwords\<close>

definition Pam_Type :: string where "Pam_Type = ''pam''"

text \<open>The stored secret is not looked at; the name PAM returns is not compared.\<close>

definition Pam_AuthoriseFunc :: "wenv \<Rightarrow> http_request \<Rightarrow> (web \<times> response_writer) authenticator" where
  "Pam_AuthoriseFunc W r mfaSecret username =
     (case hr_form r of
        Inl e \<Rightarrow> ebind (Error ''Bad request'' 400) (\<lambda>_. raise (''failed to parse form: '' @ e))
      | Inr _ \<Rightarrow>
          ebind (attempt (web_store (GetPAM (we_E W)))) (\<lambda>details. case details of
            Inl e \<Rightarrow> ebind (Error (''Unable to get pam details: '' @ e) 500) (\<lambda>_. raise e)
          | Inr pamDetails \<Rightarrow>
              (let service = (if pam_ServiceName pamDetails = '''' then ''login'' else pam_ServiceName pamDetails) in
               case we_pam W service username (FormValue r ''password'') of Some e \<Rightarrow> raise e | None \<Rightarrow> ret ())))"

definition Pam_login :: "wenv \<Rightarrow> http_request \<Rightarrow> user \<Rightarrow> string \<Rightarrow> (web, error + string) hnd" where
  "Pam_login W r u ip = attempt (web_Authenticate W u ip Pam_Type (Pam_AuthoriseFunc W r))"

definition Pam_RegistrationAPI :: "wenv \<Rightarrow> web handler" where
  "Pam_RegistrationAPI W r = unless_authed W r (\<lambda>u ip.
     if_enforcing W u (Error ''Bad request'' 400)
     (if hr_Method r = ''GET'' then
        check (web_store (SetUserMfa (we_E W) (Username u) ''PAMauth'' Pam_Type)) (\<lambda>_. Error ''Unknown error'' 500) (\<lambda>_.
        jsonResponse (JStr (Username u)) 200)
      else if hr_Method r = ''POST'' then
        ebind (Pam_login W r u ip) (\<lambda>res.
        ebind (resultMessage W (failure res)) (\<lambda>(msg, status).
        ebind (jsonResponse (JStr msg) status) (\<lambda>_. case res of
          Inl _ \<Rightarrow> ret ()
        | Inr challenge \<Rightarrow>
            ebind (attempt (web_store (EnforceMFA (we_E W) u))) (\<lambda>_.
            on_writer (set_header ''WAG-CHALLENGE'' challenge)))))
      else NotFound))"

definition Pam_AuthorisationAPI :: "wenv \<Rightarrow> web handler" where
  "Pam_AuthorisationAPI W r =
     (if hr_Method r \<noteq> ''POST'' then NotFound
      else unless_authed W r (\<lambda>u ip.
        if_enforcing W u
          (ebind (Pam_login W r u ip) (\<lambda>res.
           ebind (resultMessage W (failure res)) (\<lambda>(msg, status).
           ebind (on_writer (set_header ''WAG-CHALLENGE'' (case res of Inl _ \<Rightarrow> '''' | Inr c \<Rightarrow> c))) (\<lambda>_.
           jsonResponse (JStr msg) status))))
          (Redirect ''/'' 307)))"

definition Pam :: "wenv \<Rightarrow> Authenticator" where
  "Pam W = \<lparr>au_Init = ret (), au_FriendlyName = ''System Login'', au_LogoutPath = (\<lambda>_. Inr ''/''),
     au_RegistrationAPI = Pam_RegistrationAPI W, au_AuthorisationAPI = Pam_AuthorisationAPI W,
     au_MFAPromptUI = method_page W ''prompt_mfa_pam.html'', au_RegistrationUI = method_page W ''register_mfa_pam.html''\<rparr>"

end
