(* ===== verification/Oidc.thy ===== *)
theory Oidc
  imports Authenticators
begin

text \<open>
  Single sign-on (internal/webserver/authenticators/oidc.go). The provider is an object of a library:
  the start of its browser flow and the exchange of the code are its own; the callback, which gets
  the claims of the token and the preferred name, is the program's.
\<close>

definition Oidc_Type :: string where "Oidc_Type = ''oidc''"

definition nil_pointer :: error where
  "nil_pointer = ''invalid memory address or nil pointer dereference''"

section \<open>The provider\<close>

definition fails :: "error \<Rightarrow> error option \<Rightarrow> ('s, unit) eff" where
  "fails msg r = (case r of Some e \<Rightarrow> raise (msg @ e) | None \<Rightarrow> ret ())"

text \<open>The details are kept also when a later step fails; a provider that cannot be reached is none.\<close>

definition Oidc_Init :: "wenv \<Rightarrow> (web, unit) eff" where
  "Oidc_Init W =
     ebind (fails ''failed to get random key: '' (we_key W)) (\<lambda>_.
     ebind (fails ''failed to get random hash key: '' (we_hashkey W)) (\<lambda>_.
     ebind (attempt (in_web_store (GetOidc (we_E W)))) (\<lambda>details.
     ebind (modify (\<lambda>s. s\<lparr>wb_details := (case details of Inl _ \<Rightarrow> zero_oidc | Inr d \<Rightarrow> d)\<rparr>)) (\<lambda>_.
     ebind (case details of Inl e \<Rightarrow> raise e | Inr _ \<Rightarrow> ret ()) (\<lambda>_.
     ebind (in_web_store (GetDomain (we_E W))) (\<lambda>domain.
     ebind (case we_parse_url W domain of Inl e \<Rightarrow> raise e | Inr u \<Rightarrow> ret u) (\<lambda>u.
     ebind (modify (\<lambda>s. if oidc_Scopes (wb_details s) = []
              then s\<lparr>wb_details := (wb_details s)\<lparr>oidc_Scopes := [''openid'']\<rparr>\<rparr> else s)) (\<lambda>_.
     ebind (gets wb_details) (\<lambda>details.
     case we_new_provider W details (u_text u (path_join [u_Path u, ''/authorise/oidc/''])) of
       Inl e \<Rightarrow> ebind (modify (\<lambda>s. s\<lparr>wb_provider := None\<rparr>)) (\<lambda>_. raise e)
     | Inr p \<Rightarrow> modify (\<lambda>s. s\<lparr>wb_provider := Some p\<rparr>))))))))))"

definition Oidc_LogoutPath :: "web \<Rightarrow> string res" where
  "Oidc_LogoutPath s = (case wb_provider s of
      None \<Rightarrow> Inl (GoPanic nil_pointer) | Some p \<Rightarrow> Inr (pv_EndSessionEndpoint p))"

definition with_provider :: "(provider \<Rightarrow> (web, 'a) hnd) \<Rightarrow> (web, 'a) hnd" where
  "with_provider k = (\<lambda>(s, w). case wb_provider s of
      None \<Rightarrow> panic nil_pointer (s, w) | Some p \<Rightarrow> k p (s, w))"

text \<open>The state of the flow is random; a failure to draw it is not looked at.\<close>

definition auth_url :: "wenv \<Rightarrow> web handler" where
  "auth_url W r = with_provider (\<lambda>p.
     on_writer (pv_AuthURL p (case we_state W of Inl _ \<Rightarrow> '''' | Inr x \<Rightarrow> x) r))"

section \<open>Handlers\<close>

definition Oidc_RegistrationAPI :: "wenv \<Rightarrow> web handler" where
  "Oidc_RegistrationAPI W r = unless_authed W r (\<lambda>u ip.
     if_enforcing W u (Error ''Bad request'' 400)
     (with_provider (\<lambda>p.
      check (web_store (SetUserMfa (we_E W) (Username u)
               (render (we_E W) (JObj [(''Issuer'', JStr (pv_Issuer p))])) Oidc_Type)) (\<lambda>_. Error ''Server error'' 500) (\<lambda>_.
      auth_url W r))))"

definition dec_issuer :: "json \<Rightarrow> string res" where
  "dec_issuer = dec_struct (\<lambda>ms. dec_field dec_string ''Issuer'' '''' ms) ''''"

definition dquote :: "string \<Rightarrow> string" where
  "dquote t = CHR 0x22 # t @ [CHR 0x22]"

text \<open>What the stored secret, the issuer, is checked against, and the groups the token carries.\<close>

definition Oidc_AuthoriseFunc ::
  "wenv \<Rightarrow> provider \<Rightarrow> string \<Rightarrow> string list \<Rightarrow> (web \<times> response_writer) authenticator" where
  "Oidc_AuthoriseFunc W p deviceUsername groups issuerString username =
     ebind (case we_parse_json W issuerString of Inl e \<Rightarrow> raise e | Inr j \<Rightarrow> lift (dec_issuer j)) (\<lambda>issuer.
     if issuer \<noteq> pv_Issuer p
     then raise (''stored issuer '' @ dquote issuer @ '' did not equal actual issuer: '' @ dquote (pv_Issuer p))
     else if deviceUsername \<noteq> username then raise ''user is not associated with device''
     else web_store (SetUserGroupMembership (we_E W) username groups))"

fun group_claims :: "json list \<Rightarrow> string list option" where
  "group_claims [] = Some []"
| "group_claims (JStr conv # js) = map_option (\<lambda>gs. (''group:'' @ conv) # gs) (group_claims js)"
| "group_claims _ = None"

text \<open>The name of the device's owner, of a claim when one is configured.\<close>

definition device_username :: "OIDC \<Rightarrow> id_token \<Rightarrow> string option" where
  "device_username details token =
     (if length (oidc_DeviceUsernameClaim details) \<noteq> 0 then
        (case it_GetClaim token (oidc_DeviceUsernameClaim details) of Some (JStr x) \<Rightarrow> Some x | _ \<Rightarrow> None)
      else Some (it_PreferredUsername token))"

text \<open>No error contains the words that the special message is looked for with.\<close>

definition oidc_error :: "wenv \<Rightarrow> provider \<Rightarrow> user \<Rightarrow> id_token \<Rightarrow> error \<Rightarrow> (web, unit) hnd" where
  "oidc_error W p u token err =
     ebind (resultMessage W (Some err)) (\<lambda>(msg, _).
     let msg = (if contains err ''returned username''
                then ''username '' @ dquote (it_PreferredUsername token) @ '' not associated with device, device owned by '' @ dquote (Username u)
                else msg) in
     ebind (on_writer (WriteHeader 401)) (\<lambda>_.
     ebind (web_store (GetHelpMail (we_E W))) (\<lambda>mail.
     ebind (\<lambda>(s, w). (Inr (NumberOfMethods s), (s, w))) (\<lambda>n.
     ebind (attempt (render_page W ''oidc_error.html'' [(''HelpMail'', mail), (''NumMethods'', show_nat n),
       (''Message'', msg), (''URL'', pv_EndSessionEndpoint p)])) (\<lambda>_. ret ())))))"

definition marshalUserinfo :: "wenv \<Rightarrow> provider \<Rightarrow> user \<Rightarrow> string \<Rightarrow> id_token \<Rightarrow> (web, unit) hnd" where
  "marshalUserinfo W p u ip token = (\<lambda>(s, w).
     let details = wb_details s in
     case it_GetClaim token (oidc_GroupsClaimName details) of
       Some (JArr groupsIntf) \<Rightarrow>
         (case device_username details token of
            None \<Rightarrow> Error ''Server Error'' 500 (s, w)
          | Some deviceUsername \<Rightarrow>
              (case group_claims groupsIntf of
                 None \<Rightarrow> Error ''Server Error'' 500 (s, w)
               | Some groups \<Rightarrow>
                   ebind (web_store (user_GetMFAType (we_E W) u)) (\<lambda>mfaType.
                   check (web_Authenticate W u ip mfaType (Oidc_AuthoriseFunc W p deviceUsername groups))
                     (\<lambda>err. oidc_error W p u token err) (\<lambda>challenge.
                   ebind (IssueChallengeTokenCookie challenge) (\<lambda>_. Redirect ''/'' 307))) (s, w)))
     | _ \<Rightarrow> Error ''Server Error'' 500 (s, w))"

text \<open>Unlike the other methods, this one is open to users that do not enforce yet.\<close>

definition Oidc_AuthorisationAPI :: "wenv \<Rightarrow> web handler" where
  "Oidc_AuthorisationAPI W r = unless_authed W r (\<lambda>u ip.
     with_provider (\<lambda>p. case pv_Exchange p r of
        Inl f \<Rightarrow> on_writer f
      | Inr token \<Rightarrow> marshalUserinfo W p u ip token))"

definition Oidc :: "wenv \<Rightarrow> Authenticator" where
  "Oidc W = \<lparr>au_Init = Oidc_Init W, au_FriendlyName = ''Single Sign On'', au_LogoutPath = Oidc_LogoutPath,
     au_RegistrationAPI = Oidc_RegistrationAPI W, au_AuthorisationAPI = Oidc_AuthorisationAPI W,
     au_MFAPromptUI = (\<lambda>_ _. auth_url W), au_RegistrationUI = (\<lambda>_ _. Oidc_RegistrationAPI W)\<rparr>"

end
