(* ===== verification/SecurityKeys.thy ===== *)
theory SecurityKeys
  imports Oidc
begin

text \<open>
  The handlers of security keys (internal/webserver/authenticators/webauthn.go), with the table of
  all four methods (authenticators.go). The ceremonies are calls of a library: beginning one gives
  the options for the browser and the data of the session, finishing one gives the credential.
\<close>

definition Webauthn_Type :: string where "Webauthn_Type = ''webauthn''"

section \<open>The executor\<close>

text \<open>\<open>data.GetWebauthn\<close>: documents that cannot be read count as empty texts.\<close>

definition text_or_empty :: "gvalue \<Rightarrow> string" where
  "text_or_empty v = (case unmarshal (dec_or dec_string '''') v of Inl _ \<Rightarrow> '''' | Inr x \<Rightarrow> x)"

definition GetWebauthn :: "wenv \<Rightarrow> (store, string \<times> string \<times> string) eff" where
  "GetWebauthn W =
     ebind (Txn (we_E W) [] [OpGet IssuerKey, OpGet DomainKey] []) (\<lambda>(_, rs).
     case range_kvs (rs ! 0) of
       [(_, issuer, _)] \<Rightarrow>
         (case range_kvs (rs ! 1) of
            [(_, domain, _)] \<Rightarrow>
              (case we_parse_url W (text_or_empty domain) of
                 Inl e \<Rightarrow> raise (''unable to parse Authenticators.DomainURL: '' @ e)
               | Inr u \<Rightarrow> ret (text_or_empty issuer, hd (split_on (CHR '':'') (u_Host u)), u_text u (u_Path u)))
          | _ \<Rightarrow> raise ''no domain set'')
     | _ \<Rightarrow> raise ''no issuer set'')"

definition Webauthn_Init :: "wenv \<Rightarrow> (web, unit) eff" where
  "Webauthn_Init W =
     ebind (in_web_store (GetWebauthn W)) (\<lambda>(DisplayName, ID, Origin).
     case we_new_executor W DisplayName ID Origin of
       Inl e \<Rightarrow> ebind (modify (\<lambda>s. s\<lparr>wb_executor := None\<rparr>)) (\<lambda>_. raise e)
     | Inr x \<Rightarrow> ebind (modify (\<lambda>s. s\<lparr>wb_executor := Some x\<rparr>)) (\<lambda>_.
         case we_new_sessions W of
           Some e \<Rightarrow> ebind (modify (\<lambda>s. s\<lparr>wb_sessions := None\<rparr>)) (\<lambda>_. raise e)
         | None \<Rightarrow> modify (\<lambda>s. s\<lparr>wb_sessions := Some (\<lambda>_. None)\<rparr>)))"

definition with_executor :: "(wa_executor \<Rightarrow> (web, 'a) hnd) \<Rightarrow> (web, 'a) hnd" where
  "with_executor k = (\<lambda>(s, w). case wb_executor s of
      None \<Rightarrow> panic nil_pointer (s, w) | Some x \<Rightarrow> k x (s, w))"

section \<open>Sessions of a ceremony\<close>

definition session_call :: "(sessions \<Rightarrow> (response_writer \<Rightarrow> response_writer) \<times> sessions) \<Rightarrow> (web, unit) hnd" where
  "session_call f = (\<lambda>(s, w). case wb_sessions s of
      None \<Rightarrow> panic nil_pointer (s, w)
    | Some m \<Rightarrow> (case f m of (g, n) \<Rightarrow> (Inr (), (s\<lparr>wb_sessions := Some n\<rparr>, g w))))"

definition GetSessionFromRequest :: "wenv \<Rightarrow> http_request \<Rightarrow> (web, string option) hnd" where
  "GetSessionFromRequest W r = (\<lambda>(s, w). case wb_sessions s of
      None \<Rightarrow> panic nil_pointer (s, w)
    | Some m \<Rightarrow> (Inr (we_GetSession W r m), (s, w)))"

section \<open>Handlers\<close>

definition wa_text :: "wenv \<Rightarrow> WebauthnUser \<Rightarrow> string" where
  "wa_text W u = render (we_E W) (WebauthnUser_MarshalJSON (we_enc_credential W) u)"

definition wa_user :: "wenv \<Rightarrow> string \<Rightarrow> (web, WebauthnUser) hnd" where
  "wa_user W mfa = (case we_parse_json W mfa of
      Inl e \<Rightarrow> raise e | Inr j \<Rightarrow> lift (WebauthnUser_UnmarshalJSON (we_dec_credential W) j))"

definition wa_server_error :: "(web, unit) hnd" where
  "wa_server_error = jsonResponse (JStr ''Server Error'') 500"

definition Webauthn_begin_registration :: "wenv \<Rightarrow> user \<Rightarrow> web handler" where
  "Webauthn_begin_registration W u r =
     (let webauthnUser = NewUser (we_random_id W) (Username u) (Username u) in
      with_executor (\<lambda>x. case wx_BeginRegistration x webauthnUser of
          Inl _ \<Rightarrow> wa_server_error
        | Inr (options, sessionData) \<Rightarrow>
            ebind (session_call (we_StartSession W r sessionData)) (\<lambda>_.
            check (web_store (SetUserMfa (we_E W) (Username u) (wa_text W webauthnUser) Webauthn_Type)) (\<lambda>_. wa_server_error) (\<lambda>_.
            jsonResponse options 200))))"

definition Webauthn_register :: "wenv \<Rightarrow> http_request \<Rightarrow> (web \<times> response_writer) authenticator" where
  "Webauthn_register W r mfaSecret username =
     ebind (wa_user W mfaSecret) (\<lambda>webauthnUser.
     ebind (GetSessionFromRequest W r) (\<lambda>sessionData. case sessionData of
        None \<Rightarrow> raise ''session not found''
      | Some webauthnSession \<Rightarrow> with_executor (\<lambda>x. case wx_FinishRegistration x webauthnUser webauthnSession r of
            Inl e \<Rightarrow> raise e
          | Inr credential \<Rightarrow>
              ebind (web_store (SetUserMfa (we_E W) username (wa_text W (AddCredential credential webauthnUser)) Webauthn_Type)) (\<lambda>_.
              session_call (we_DeleteSession W r)))))"

definition Webauthn_RegistrationAPI :: "wenv \<Rightarrow> web handler" where
  "Webauthn_RegistrationAPI W r = unless_authed W r (\<lambda>u ip.
     if_enforcing W u (Error ''Bad request'' 400)
     (if hr_Method r = ''GET'' then Webauthn_begin_registration W u r
      else if hr_Method r = ''POST'' then
        ebind (attempt (web_Authenticate W u ip Webauthn_Type (Webauthn_register W r))) (\<lambda>res.
        ebind (on_writer (set_header ''WAG-CHALLENGE'' (case res of Inl _ \<Rightarrow> '''' | Inr c \<Rightarrow> c))) (\<lambda>_.
        ebind (resultMessage W (failure res)) (\<lambda>(msg, status). jsonResponse (JStr msg) status)))
      else NotFound))"

definition Webauthn_begin_login :: "wenv \<Rightarrow> user \<Rightarrow> web handler" where
  "Webauthn_begin_login W u r =
     check (web_store (user_MFA (we_E W) u)) (\<lambda>_. wa_server_error) (\<lambda>webauthUserData.
     check (wa_user W webauthUserData) (\<lambda>_. wa_server_error) (\<lambda>webauthnUser.
     with_executor (\<lambda>x. case wx_BeginLogin x webauthnUser of
         Inl _ \<Rightarrow> wa_server_error
       | Inr (options, sessionData) \<Rightarrow>
           ebind (session_call (we_StartSession W r sessionData)) (\<lambda>_. jsonResponse options 200))))"

text \<open>Finishing a login updates the counter of the credential inside the account; the session stays.\<close>

definition Webauthn_login :: "wenv \<Rightarrow> http_request \<Rightarrow> (web \<times> response_writer) authenticator" where
  "Webauthn_login W r mfaSecret username =
     ebind (wa_user W mfaSecret) (\<lambda>webauthnUser.
     ebind (GetSessionFromRequest W r) (\<lambda>sessionData. case sessionData of
        None \<Rightarrow> raise ''session was not found in request''
      | Some session \<Rightarrow> with_executor (\<lambda>x. case wx_FinishLogin x webauthnUser session r of
            Inl e \<Rightarrow> raise e
          | Inr (c, webauthnUser) \<Rightarrow>
              if cr_CloneWarning c then raise ''cloned key detected''
              else web_store (SetUserMfa (we_E W) username (wa_text W webauthnUser) Webauthn_Type))))"

text \<open>The header is set when the response has been sent.\<close>

definition Webauthn_AuthorisationAPI :: "wenv \<Rightarrow> web handler" where
  "Webauthn_AuthorisationAPI W r = unless_authed W r (\<lambda>u ip.
     if_enforcing W u
     (if hr_Method r = ''GET'' then Webauthn_begin_login W u r
      else if hr_Method r = ''POST'' then
        ebind (attempt (web_Authenticate W u ip Webauthn_Type (Webauthn_login W r))) (\<lambda>res.
        ebind (resultMessage W (failure res)) (\<lambda>(msg, status).
        ebind (jsonResponse (JStr msg) status) (\<lambda>_. case res of
          Inl _ \<Rightarrow> ret ()
        | Inr challenge \<Rightarrow> on_writer (set_header ''WAG-CHALLENGE'' challenge))))
      else NotFound)
     (Redirect ''/'' 307))"

definition Webauthn :: "wenv \<Rightarrow> Authenticator" where
  "Webauthn W = \<lparr>au_Init = Webauthn_Init W, au_FriendlyName = ''Security Key'', au_LogoutPath = (\<lambda>_. Inr ''/''),
     au_RegistrationAPI = Webauthn_RegistrationAPI W, au_AuthorisationAPI = Webauthn_AuthorisationAPI W,
     au_MFAPromptUI = method_page W ''prompt_mfa_webauthn.html'', au_RegistrationUI = method_page W ''register_mfa_webauthn.html''\<rparr>"

section \<open>The table of methods\<close>

definition allMfa :: "wenv \<Rightarrow> methods" where
  "allMfa W = [(Totp_Type, Totp W), (Webauthn_Type, Webauthn W), (Oidc_Type, Oidc W), (Pam_Type, Pam W)]"

lemma allMfa_types: "set (map fst (allMfa W)) = set method_types"
  by (auto simp: allMfa_def method_types_def Totp_Type_def Webauthn_Type_def Oidc_Type_def Pam_Type_def)

end
