(* ===== verification/Web.thy ===== *)
theory Web
  imports Authenticators
begin

text \<open>
  internal/webserver: the handlers of the portal (web.go), the security headers and the redirection
  to TLS (security.go), the embedded files (static.go), and which handler serves which path. Opening
  the listeners is left out.

  Logging is left out. Handlers that are code of a library (the websocket and the file server) are
  arguments.
\<close>

section \<open>Pages of the portal\<close>

definition index :: "wenv \<Rightarrow> web handler" where
  "index W r = unless_authed W r (\<lambda>u ip.
     if_enforcing W u (Redirect ''/authorise/'' 307) (Redirect ''/register_mfa/'' 307))"

definition menu :: "methods \<Rightarrow> web \<Rightarrow> (string \<times> string) list" where
  "menu ms s = (let entries = map (\<lambda>(m, a). (m, au_FriendlyName a)) (GetAllEnabledMethods ms s)
     in (''LastElement'', show_int (int (length entries) - 1)) # entries)"

definition registerMFA :: "wenv \<Rightarrow> methods \<Rightarrow> web handler" where
  "registerMFA W ms r = unless_authed W r (\<lambda>u ip.
     if_enforcing W u (Error ''Bad request'' 400)
     (ebind (if Query r ''method'' = '''' then on_error (web_store (GetDefaultMfaMethod (we_E W))) (\<lambda>_. ret '''')
             else ret (Query r ''method'')) (\<lambda>method.
      if method = '''' \<or> method = ''select'' then
        ebind html (\<lambda>_.
        ebind (\<lambda>(s, w). (Inr (menu ms s), (s, w))) (\<lambda>m.
        check (render_page W ''register_mfa.html'' m) (\<lambda>_. Error ''Server error'' 500) (\<lambda>_. ret ())))
      else (\<lambda>(s, w). case GetMethod ms method s of
          None \<Rightarrow> NotFound (s, w)
        | Some mfaMethod \<Rightarrow> au_RegistrationUI mfaMethod (Username u) ip r (s, w)))))"

definition web_authorise :: "wenv \<Rightarrow> methods \<Rightarrow> web handler" where
  "web_authorise W ms r = unless_authed W r (\<lambda>u ip.
     if_enforcing W u
       (ebind (web_store (user_GetMFAType (we_E W) u)) (\<lambda>t (s, w). case GetMethod ms t s of
          None \<Rightarrow> NotFound (s, w)
        | Some mfaMethod \<Rightarrow> au_MFAPromptUI mfaMethod (Username u) ip r (s, w)))
       (Redirect ''/'' 307))"

definition reachability :: "wenv \<Rightarrow> web handler" where
  "reachability W r =
     ebind (on_writer (set_header ''Content-Type'' ''text/plain'')) (\<lambda>_.
     check (web_store (IsDrained (we_E W) (hs_id (re_host (we_R W))))) (\<lambda>_. Error ''Failed to fetch state'' 500) (\<lambda>isDrained.
     if \<not> isDrained then on_writer (\<lambda>w. Write (Raw ''OK'') (WriteHeader 200 w))
     else on_writer (\<lambda>w. Write (Raw ''Drained'') (WriteHeader 410 w))))"

text \<open>Who has a session is looked up before the user; the path after logging out is the method's.\<close>

definition logout :: "wenv \<Rightarrow> methods \<Rightarrow> web handler" where
  "logout W ms r =
     (let clientTunnelIp = client_ip W r in
      ebind (in_router (isAuthed (we_R W) (we_now W) (ip_text clientTunnelIp))) (\<lambda>authed.
      if \<not> authed then NotFound
      else check (web_store (GetUserFromAddress (we_E W) (map_option V4 clientTunnelIp)))
        (\<lambda>_. Error ''Bad request'' 400) (\<lambda>u.
      check (web_store (Deauthenticate (we_E W) u (ip_text clientTunnelIp))) (\<lambda>_. Error ''Server Error'' 500) (\<lambda>_.
      ebind (web_store (user_GetMFAType (we_E W) u)) (\<lambda>t (s, w). case GetMethod ms t s of
          None \<Rightarrow> Redirect ''/'' 307 (s, w)
        | Some method \<Rightarrow> ebind (lift (au_LogoutPath method s)) (\<lambda>p. Redirect p 307) (s, w))))))"

definition web_routes :: "wenv \<Rightarrow> web handler" where
  "web_routes W r =
     check (web_store (GetUserFromAddress (we_E W) (map_option V4 (client_ip W r)))) (\<lambda>_. Error ''Server Error'' 500) (\<lambda>u.
     check (in_router (GetRoutes (we_R W) (Username u))) (\<lambda>_. Error ''Server Error'' 500) (\<lambda>routes.
     on_writer (\<lambda>w. Write (Raw (join_str '', '' routes))
       (set_header ''Content-Type'' ''text/plain'' (set_header ''Content-Disposition'' ''attachment; filename=acl'' w)))))"

text \<open>A nil list is printed as an empty one.\<close>

definition web_status :: "wenv \<Rightarrow> web handler" where
  "web_status W r =
     (let remoteAddress = client_ip W r in
      check (web_store (GetUserFromAddress (we_E W) (map_option V4 remoteAddress))) (\<lambda>_. Error ''Server Error'' 500) (\<lambda>u.
      ebind (in_router (effective_acl (we_R W) (Username u))) (\<lambda>acl.
      ebind (in_router (isAuthed (we_R W) (we_now W) (ip_text remoteAddress))) (\<lambda>authed.
      on_writer (\<lambda>w. Write (Doc (JObj [(''IsAuthorised'', JBool authed), (''MFA'', enc_strings (acl_Mfa acl)),
          (''Public'', enc_strings (acl_Allow acl))]))
        (set_header ''Content-Type'' ''application/json'' (set_header ''Content-Disposition'' ''attachment; filename=acl'' w)))))))"

definition ServerDetails :: "wenv \<Rightarrow> (router, string \<times> int) eff" where
  "ServerDetails W s = (case we_wgctrl W of
      Some e \<Rightarrow> (Inl (GoErr (''cannot start wireguard control '' @ e)), s)
    | None \<Rightarrow> (case we_wgdevice W (rt_wg s) of
        Inl e \<Rightarrow> (Inl (GoErr (''unable to start wireguard-ctrl on device with name '' @
                  wg_DevName (cf_Wireguard (re_conf (we_R W))) @ '': '' @ e)), s)
      | Inr d \<Rightarrow> (Inr d, s)))"

definition publicKey :: "wenv \<Rightarrow> web handler" where
  "publicKey W r =
     ebind (on_writer (\<lambda>w. set_header ''Content-Type'' ''text/plain''
        (set_header ''Content-Disposition'' ''attachment; filename=pubkey'' w))) (\<lambda>_.
     check (in_router (ServerDetails W)) (\<lambda>_. Error ''Server Error'' 500) (\<lambda>(wgPublicKey, _).
     on_writer (Write (Raw wgPublicKey))))"

section \<open>Registering a device\<close>

text \<open>\<open>url.PathUnescape\<close>.\<close>

definition hex_val :: "char \<Rightarrow> nat option" where
  "hex_val c = map_of (zip ''0123456789abcdefABCDEF'' ([0..<16] @ [10..<16])) c"

fun PathUnescape :: "string \<Rightarrow> error + string" where
  "PathUnescape [] = Inr []"
| "PathUnescape (c # cs) =
     (if c = CHR ''%'' then
        (case cs of
           a # b # rest \<Rightarrow> (case (hex_val a, hex_val b) of
               (Some x, Some y) \<Rightarrow> rbind (PathUnescape rest) (\<lambda>t. Inr (char_of (16 * x + y) # t))
             | _ \<Rightarrow> Inl ''invalid URL escape'')
         | _ \<Rightarrow> Inl ''invalid URL escape'')
      else rbind (PathUnescape cs) (\<lambda>t. Inr (c # t)))"

text \<open>
  The variable \<open>err\<close> of the handler, which the deferred function looks at when the handler is left:
  \<open>step\<close> assigns it, \<open>shadowed\<close> checks an error of an inner scope.
\<close>

type_synonym ('s, 'a) erring = "(('s \<times> response_writer) \<times> error option, 'a) eff"

definition quietly :: "('s, 'a) hnd \<Rightarrow> ('s, 'a) erring" where
  "quietly m = zoom fst (\<lambda>x (_, err). (x, err)) m"

definition assign :: "('s, 'a) hnd \<Rightarrow> ('s, error + 'a) erring" where
  "assign m = (\<lambda>(s, err). case m s of
      (Inr x, t) \<Rightarrow> (Inr (Inr x), (t, None))
    | (Inl (GoErr e), t) \<Rightarrow> (Inr (Inl e), (t, Some e))
    | (Inl f, t) \<Rightarrow> (Inl f, (t, err)))"

definition step :: "('s, 'a) hnd \<Rightarrow> ('s, unit) hnd \<Rightarrow> ('a \<Rightarrow> ('s, unit) erring) \<Rightarrow> ('s, unit) erring" where
  "step m fail k = ebind (assign m) (\<lambda>r. case r of Inl _ \<Rightarrow> quietly fail | Inr x \<Rightarrow> k x)"

definition shadowed :: "error + 'a \<Rightarrow> ('s, unit) hnd \<Rightarrow> ('a \<Rightarrow> ('s, unit) erring) \<Rightarrow> ('s, unit) erring" where
  "shadowed r fail k = (case r of Inl _ \<Rightarrow> quietly fail | Inr x \<Rightarrow> k x)"

text \<open>The deferred function runs also when the handler panics.\<close>

definition with_defer :: "('s, unit) hnd \<Rightarrow> ('s, unit) erring \<Rightarrow> ('s, unit) hnd" where
  "with_defer undo body s = (case body (s, None) of
      (r, (t, None)) \<Rightarrow> (r, t)
    | (r, (t, Some _)) \<Rightarrow> (case attempt undo t of (Inl f, u) \<Rightarrow> (Inl f, u) | (Inr _, u) \<Rightarrow> (r, u)))"

definition no_defer :: "('s, unit) erring \<Rightarrow> ('s, unit) hnd" where
  "no_defer body s = (case body (s, None) of (r, (t, _)) \<Rightarrow> (r, t))"

definition server_error :: "('s, unit) hnd" where
  "server_error = Error ''Server Error'' 500"

definition of_result :: "error + 'a \<Rightarrow> ('s, 'a) hnd" where
  "of_result r = (case r of Inl e \<Rightarrow> raise e | Inr x \<Rightarrow> ret x)"

text \<open>The fields of \<open>resources.Interface\<close>, lists joined as the template joins them.\<close>

definition interface_fields :: "string \<Rightarrow> string \<Rightarrow> string \<Rightarrow> string \<Rightarrow> string list \<Rightarrow> string list \<Rightarrow> string \<Rightarrow> (string \<times> string) list" where
  "interface_fields key address psk server routes dns serverkey =
     [(''ClientPrivateKey'', key), (''ClientAddress'', address), (''ClientPresharedKey'', psk),
      (''ServerAddress'', server), (''ServerPublicKey'', serverkey),
      (''CapturedAddresses'', join_str '', '' routes), (''DNS'', join_str '', '' dns)]"

text \<open>A profile for a phone is a picture; the errors of making it are those of an inner scope.\<close>

definition mobile_profile :: "wenv \<Rightarrow> string \<Rightarrow> (string \<times> string) list \<Rightarrow> (web, unit) erring \<Rightarrow> (web, unit) erring" where
  "mobile_profile W username vals k =
     ebind (quietly html) (\<lambda>_.
     step (ebind (must_parse W ''interface.tmpl'') (\<lambda>_. case we_render W ''interface.tmpl'' of
             Some e \<Rightarrow> raise e | None \<Rightarrow> ret (we_text W ''interface.tmpl'' vals))) server_error (\<lambda>profile.
     shadowed (we_qr W profile) server_error (\<lambda>img.
     shadowed (we_scale W img) server_error (\<lambda>img.
     shadowed (we_png W img) (Error ''Unknown error'' 500) (\<lambda>png.
     ebind (quietly (attempt (render_page W ''qrcode_registration.html''
       [(''ImageData'', ''data:image/png;base64, '' @ png), (''Username'', username)]))) (\<lambda>r.
     shadowed r server_error (\<lambda>_. k)))))))"

definition file_profile :: "wenv \<Rightarrow> (string \<times> string) list \<Rightarrow> (web, unit) erring \<Rightarrow> (web, unit) erring" where
  "file_profile W vals k =
     ebind (quietly (web_store (GetWireguardConfigName (we_E W)))) (\<lambda>name.
     ebind (quietly (on_writer (set_header ''Content-Disposition'' (''attachment; filename='' @ name)))) (\<lambda>_.
     step (render_page W ''interface.tmpl'' vals) server_error (\<lambda>_. k)))"

text \<open>What follows once the device is there, up to the end of the handler.\<close>

definition send_profile :: "wenv \<Rightarrow> http_request \<Rightarrow> string \<Rightarrow> user \<Rightarrow> string \<Rightarrow> string \<Rightarrow> string \<Rightarrow> (web, unit) erring" where
  "send_profile W r token u username privatekey address =
     ebind (quietly (in_router (effective_acl (we_R W) username))) (\<lambda>acl.
     step (in_router (ServerDetails W)) server_error (\<lambda>(wgPublicKey, wgPort).
     let keyStr = (if privatekey = zero_key then '''' else privatekey) in
     step (web_store (GetDevicePresharedKey (we_E W) u address)) server_error (\<lambda>presharedKey.
     step (web_store (GetDNS (we_E W))) server_error (\<lambda>dns.
     step (in_router (in_parser (AclsToRoutes (re_parse (we_R W)) (acl_Allow acl @ acl_Mfa acl)))) server_error (\<lambda>routes.
     step (web_store (GetExternalAddress (we_E W))) server_error (\<lambda>externalAddress.
     ebind (assign (case SplitHostPort externalAddress of Some _ \<Rightarrow> ret () | None \<Rightarrow> raise ''bad address'')) (\<lambda>split.
     let server = (case split of Inr _ \<Rightarrow> externalAddress | Inl _ \<Rightarrow> externalAddress @ '':'' @ show_int wgPort);
         vals = interface_fields keyStr address presharedKey server routes
                  (map (\<lambda>d. trim_suffix d ''/32'') dns) wgPublicKey;
         finalise = step (web_store (FinaliseRegistration (we_E W) token)) server_error (\<lambda>_. ret ())
     in if Query r ''type'' = ''mobile'' then mobile_profile W username vals finalise
        else file_profile W vals finalise)))))))"

definition registerDevice_with :: "wenv \<Rightarrow> http_request \<Rightarrow> string \<Rightarrow> string \<Rightarrow> string \<Rightarrow> string \<Rightarrow> string \<Rightarrow> (web, unit) hnd" where
  "registerDevice_with W r token username overwrites publickey privatekey =
     check (web_store (on_error (GetUser (we_E W) username) (\<lambda>_. CreateUser (we_E W) username))) (\<lambda>_. server_error) (\<lambda>u.
     if overwrites \<noteq> '''' then
       check (web_store (SetDevicePublicKey (we_E W) (re_parse_key (we_R W)) u publickey overwrites)) (\<lambda>_. server_error) (\<lambda>_.
       no_defer (send_profile W r token u username privatekey overwrites))
     else
       check (web_store (user_AddDevice (we_E W) (pe_net (re_parse (we_R W))) (we_intn W)
                (wg_Address (cf_Wireguard (re_conf (we_R W)))) (we_psk W) u publickey)) (\<lambda>_. server_error) (\<lambda>device.
       with_defer (web_store (user_DeleteDevice (we_E W) u (dv_Address device)))
         (send_profile W r token u username privatekey (dv_Address device))))"

definition registerDevice :: "wenv \<Rightarrow> web handler" where
  "registerDevice W r =
     check (of_result (PathUnescape (Query r ''key''))) (\<lambda>_. NotFound) (\<lambda>key.
     if length key = 0 then NotFound
     else
     check (web_store (GetRegistrationToken (we_E W) key)) (\<lambda>_. NotFound) (\<lambda>(username, overwrites, groups).
     check (web_store (if groups \<noteq> [] then SetUserGroupMembership (we_E W) username groups else ret ()))
       (\<lambda>_. Error ''Server error'' 500) (\<lambda>_.
     check (of_result (PathUnescape (Query r ''pubkey''))) (\<lambda>_. NotFound) (\<lambda>pubkeyParam.
     check (of_result (if length pubkeyParam \<noteq> 0
              then rbind (re_parse_key (we_R W) pubkeyParam) (\<lambda>k. Inr (zero_key, k))
              else we_generate_key W)) (\<lambda>_. Error ''Server error'' 500) (\<lambda>(privatekey, publickey).
     registerDevice_with W r key username overwrites publickey privatekey)))))"

section \<open>Security headers, redirection and files\<close>

definition csp :: string where
  "csp = ''default-src 'none'; script-src 'self'; connect-src 'self'; object-src 'none'; img-src 'self' data:; require-trusted-types-for 'script'; style-src 'self' fonts.googleapis.com; font-src fonts.gstatic.com fonts.googleapis.com; ''"

definition setSecurityHeaders :: "'s handler \<Rightarrow> 's handler" where
  "setSecurityHeaders next_handler r =
     ebind (on_writer (\<lambda>w. set_header ''Strict-Transport-Security'' ''max-age=31536000''
       (set_header ''X-Frame-Options'' ''DENY'' (set_header ''Content-Security-Policy'' csp w)))) (\<lambda>_. next_handler r)"

text \<open>Whether \<open>net.SplitHostPort\<close> fails because the port is missing.\<close>

definition missing_port :: "string \<Rightarrow> bool" where
  "missing_port hp =
     (CHR '':'' \<notin> set hp \<or>
      hp \<noteq> [] \<and> hd hp = CHR ''['' \<and> CHR '']'' \<in> set hp \<and>
      (let rest = tl (dropWhile (\<lambda>c. c \<noteq> CHR '']'') hp)
       in rest = [] \<or> hd rest \<noteq> CHR '':''))"

text \<open>The configured port is not used. \<open>Host\<close> and \<open>RequestURI\<close> are those of the request.\<close>

definition redirect_to_tls :: "string \<Rightarrow> string \<Rightarrow> ('s, unit) hnd" where
  "redirect_to_tls Host RequestURI =
     (case SplitHostPort Host of
        Some (host, _) \<Rightarrow> Redirect (''https://'' @ host @ RequestURI) 307
      | None \<Rightarrow> if missing_port Host then Redirect (''https://'' @ Host @ RequestURI) 307 else server_error)"

definition ext :: "string \<Rightarrow> string" where
  "ext p = (let name = rev (takeWhile (\<lambda>c. c \<noteq> CHR ''/'') (rev p))
            in if CHR ''.'' \<in> set name then CHR ''.'' # rev (takeWhile (\<lambda>c. c \<noteq> CHR ''.'') (rev name)) else '''')"

definition mime_types :: "(string \<times> string) list" where
  "mime_types = [(''.js'', ''text/javascript''), (''.css'', ''text/css''), (''.png'', ''image/png''),
     (''.jpg'', ''image/jpg''), (''.svg'', ''image/svg'')]"

definition setMimeType :: "string \<Rightarrow> response_writer \<Rightarrow> response_writer" where
  "setMimeType p w = (case map_of mime_types (ext p) of None \<Rightarrow> w | Some t \<Rightarrow> set_header ''Content-Type'' t w)"

definition embeddedStatic :: "wenv \<Rightarrow> web handler" where
  "embeddedStatic W r =
     (let p = drop 1 (hr_Path r) in
      case we_static W p of
        Inl _ \<Rightarrow> NotFound
      | Inr content \<Rightarrow> on_writer (\<lambda>w. Write (Raw content) (setMimeType p w)))"

section \<open>The two listeners\<close>

definition public_mux :: "wenv \<Rightarrow> web handler" where
  "public_mux W = setSecurityHeaders (ServeMux
     [(''/static/'', mux_Get (embeddedStatic W)), (''/register_device'', mux_Get (registerDevice W)),
      (''/reachability'', mux_Get (reachability W))])"

text \<open>\<open>ws\<close> is the websocket of the challenges, \<open>files\<close> serves the configured directory.\<close>

definition tunnel_routes :: "wenv \<Rightarrow> methods \<Rightarrow> web handler \<Rightarrow> web handler \<Rightarrow> (string \<times> web handler) list" where
  "tunnel_routes W ms ws files =
     [(''/status/'', mux_Get (web_status W)), (''/routes/'', mux_Get (web_routes W)),
      (''/logout/'', mux_Get (logout W ms))] @
     (if cf_MFATemplatesDirectory (re_conf (we_R W)) \<noteq> '''' then [(''/custom/'', files)] else []) @
     [(''/static/'', mux_Get (embeddedStatic W))] @
     mfa_routes ms @
     [(''/authorise/'', mux_GetOrPost (web_authorise W ms)), (''/register_mfa/'', mux_GetOrPost (registerMFA W ms)),
      (''/public_key/'', mux_Get (publicKey W)), (''/challenge/'', mux_Get ws), (''/'', mux_GetOrPost (index W))]"

definition tunnel_mux :: "wenv \<Rightarrow> methods \<Rightarrow> web handler \<Rightarrow> web handler \<Rightarrow> web handler" where
  "tunnel_mux W ms ws files = setSecurityHeaders (ServeMux (tunnel_routes W ms ws files))"

end
