(* ===== verification/WebProps.thy ===== *)
theory WebProps
  imports SecurityKeys Web RouterInv
begin

text \<open>
  What the portal promises: the answer of a successful sign-in carries the challenge that is now
  stored for the device, a user with an enforced second factor cannot enrol another one, and a
  device is registered only with a stored token.
\<close>

section \<open>What the parts of a handler keep\<close>

lemma preserves_on_state: "(\<And>s t w. I (s, w) \<Longrightarrow> I (t, w)) \<Longrightarrow> preserves I (on_state m)"
  by (auto simp: preserves_iff on_state_def zoom_def split: prod.splits)

lemma preserves_on_writer: "(\<And>s w. I (s, w) \<Longrightarrow> I (s, f w)) \<Longrightarrow> preserves I (on_writer f)"
  by (auto simp: preserves_iff on_writer_def)

lemma preserves_read [pres]: "preserves I (\<lambda>(s, w). (Inr (f s), (s, w)))"
  by (auto simp: preserves_iff)

lemma preserves_check [pres]:
  "preserves I m \<Longrightarrow> (\<And>e. preserves I (f e)) \<Longrightarrow> (\<And>x. preserves I (k x)) \<Longrightarrow> preserves I (check m f k)"
  unfolding check_def by (intro pres)

lemma preserves_must_parse [pres]: "preserves I (must_parse W p)"
  unfolding must_parse_def by (intro pres)

lemma later_zoom: "evolves m \<Longrightarrow> preserves (\<lambda>s. later st (rt_store s)) (in_store m)"
  unfolding preserves_iff zoom_def by (auto simp: evolves_def split: prod.splits intro: later_trans) (metis later_trans snd_conv)

lemma isAuthed_later:
  assumes "etcd_service (re_etcd R)"
  shows "preserves (\<lambda>s. later st (rt_store s)) (isAuthed R now a)"
proof -
  have "evolves (GetSessionInactivityTimeoutMinutes (re_etcd R))"
    unfolding GetSessionInactivityTimeoutMinutes_def getInt_def get_setting_def
    by (auto intro!: evolves_intro etcd_service.evolves_ops assms)
  then show ?thesis unfolding isAuthed_def by (intro pres preserves_kmap later_zoom) simp_all
qed

lemma on_state_eq: "on_state m (s, w) = (r, y) \<longleftrightarrow> (\<exists>t. m s = (r, t) \<and> y = (t, w))"
  by (auto simp: on_state_def zoom_def split: prod.splits)

lemma web_store_eq:
  "web_store m x = (r, y) \<longleftrightarrow> (\<exists>t. m (get_store x) = (r, t) \<and> y = put_store t x)"
  by (auto simp: web_store_zoom zoom_def split: prod.splits)

lemma put_store_writer [simp]: "snd (put_store t x) = snd x"
  by (simp add: put_store_def)

lemma put_put_store: "put_store y (put_store y' z) = put_store y z"
  by (simp add: put_store_def)

lemma attempt_eq_Inl: "attempt m s = (Inr (Inl e), t) \<longleftrightarrow> m s = (Inl (GoErr e), t)"
  by (auto simp: attempt_def split: prod.splits sum.splits fault.splits)

text \<open>A handler that starts by finding the user of the connection.\<close>

lemma evolves_GetUserFromAddress: "etcd_service E \<Longrightarrow> evolves (GetUserFromAddress E a)"
  unfolding GetUserFromAddress_def GetUserDataFromAddress_def GetUserData_def Let_def
  by (auto intro!: evolves_intro etcd_service.evolves_ops)

lemma unless_authed_Inr:
  assumes E: "etcd_service (we_E W)" and run: "unless_authed W r k (s, w) = (Inr x, y)"
  obtains (authed) s1 where "success_page W (s1, w) = (Inr x, y)"
  | (unknown) s1 where "Error ''Bad request'' 400 (s1, w) = (Inr x, y)"
  | (user) u s1 where "later (rt_store (wb_router s)) (rt_store (wb_router s1))"
      and "k u (ip_text (client_ip W r)) (s1, w) = (Inr x, y)"
proof -
  let ?user = "web_store (GetUserFromAddress (we_E W) (map_option V4 (client_ip W r)))"
  from run obtain b s1 where b: "in_router (isAuthed (we_R W) (we_now W) (ip_text (client_ip W r))) (s, w) = (Inr b, (s1, w))"
    and rest: "(if b then success_page W
      else check ?user (\<lambda>_. Error ''Bad request'' 400) (\<lambda>u. k u (ip_text (client_ip W r)))) (s1, w) = (Inr x, y)"
    by (auto simp: unless_authed_def Let_def ebind_eq_Inr in_router_def on_state_eq)
  have st: "later (rt_store (wb_router s)) (rt_store (wb_router s1))"
    using b preservesD [OF isAuthed_later [OF E] later_refl] by (auto simp: in_router_def on_state_eq zoom_eq_Inr)
  show thesis
  proof (cases b)
    case True
    with rest authed show ?thesis by simp
  next
    case False
    with rest obtain v z where v: "attempt ?user (s1, w) = (Inr v, z)"
      and z: "(case v of Inl e \<Rightarrow> Error ''Bad request'' 400 | Inr u \<Rightarrow> k u (ip_text (client_ip W r))) z = (Inr x, y)"
      by (auto simp: check_def ebind_eq_Inr)
    show ?thesis
    proof (cases v)
      case (Inl e)
      with v z show ?thesis by (auto simp: attempt_eq_Inl web_store_eq put_store_def intro: unknown)
    next
      case (Inr u)
      with v obtain t where "GetUserFromAddress (we_E W) (map_option V4 (client_ip W r)) (rt_store (wb_router s1)) = (Inr u, t)"
        and z': "z = put_store t (s1, w)" by (auto simp: attempt_eq_Inr web_store_eq get_store_def)
      with st have "later (rt_store (wb_router s)) t" using evolvesD [OF evolves_GetUserFromAddress [OF E]] later_trans by blast
      with Inr z z' show ?thesis by (auto simp: put_store_def intro: user [rotated])
    qed
  qed
qed

lemma if_enforcing_Inr:
  assumes E: "etcd_service (we_E W)" and run: "if_enforcing W u a b (s, w) = (Inr x, y)"
  obtains (yes) s1 where "later (rt_store (wb_router s)) (rt_store (wb_router s1))" and "a (s1, w) = (Inr x, y)"
  | (no) s1 where "later (rt_store (wb_router s)) (rt_store (wb_router s1))" and "b (s1, w) = (Inr x, y)"
proof -
  from run obtain c t where c: "IsEnforcingMFA (we_E W) (Username u) (rt_store (wb_router s)) = (Inr c, t)"
    and rest: "(if c then a else b) (put_store t (s, w)) = (Inr x, y)"
    by (auto simp: if_enforcing_def ebind_eq_Inr web_store_eq user_IsEnforcingMFA_def get_store_def)
  have "later (rt_store (wb_router s)) t" using evolvesD [OF evolves_enforcing(1) [OF E] c] .
  with rest show thesis by (cases c) (auto simp: put_store_def intro: yes [rotated] no [rotated])
qed

text \<open>More rules for triples, with an unrestricted exceptional end.\<close>

lemma triple_sum:
  "(\<And>y. triple P (f y) Q X) \<Longrightarrow> (\<And>y. triple P (g y) Q X) \<Longrightarrow> triple P (case x of Inl y \<Rightarrow> f y | Inr y \<Rightarrow> g y) Q X"
  by (cases x) simp_all

lemma triple_option:
  "triple P m Q X \<Longrightarrow> (\<And>y. triple P (f y) Q X) \<Longrightarrow> triple P (case x of None \<Rightarrow> m | Some y \<Rightarrow> f y) Q X"
  by (cases x) simp_all

lemma triple_quiet:
  "triple (\<lambda>x. snd x = w) (on_state m) (\<lambda>_ x. snd x = w) (\<lambda>_. True)"
  "triple (\<lambda>x. snd x = w) (attempt (web_store n)) (\<lambda>_ x. snd x = w) (\<lambda>_. True)"
  "triple (\<lambda>x. snd x = w) (zoom get_store put_store k) (\<lambda>_ x. snd x = w) (\<lambda>_. True)"
  by (auto simp: triple_def put_store_def on_state_def zoom_def attempt_def in_router_def split: prod.splits sum.splits fault.splits)

lemma triple_failing: "triple P (ebind m (\<lambda>_. raise e)) Q (\<lambda>_. True)"
  by (auto simp: triple_def ebind_def split: prod.splits sum.splits)

section \<open>The challenge reaches the client\<close>

text \<open>A successful authentication leaves the response as it was, if the authenticator does.\<close>

lemma Authenticate_silent:
  assumes "\<And>secret name. triple (\<lambda>x. snd x = w) (auth secret name) (\<lambda>_ x. snd x = w) (\<lambda>_. True)"
  shows "triple (\<lambda>x. snd x = w) (web_Authenticate W u ip ty auth) (\<lambda>_ x. snd x = w) (\<lambda>_. True)"
  unfolding web_Authenticate_def Authenticate_def
  by (rule triple_bind triple_quiet triple_if triple_raise TrueI assms)+

lemma AuthoriseFunc_silent:
  "triple (\<lambda>x. snd x = w) (Totp_AuthoriseFunc W r secret name) (\<lambda>_ x. snd x = w) (\<lambda>_. True)"
  "triple (\<lambda>x. snd x = w) (Pam_AuthoriseFunc W r secret name) (\<lambda>_ x. snd x = w) (\<lambda>_. True)"
  unfolding Totp_AuthoriseFunc_def Pam_AuthoriseFunc_def Let_def
  by (intro triple_intro triple_sum triple_option triple_quiet triple_failing; simp)+

lemma preserves_quiet [pres]:
  "preserves (\<lambda>x. P (snd x)) (on_state m)" "preserves (\<lambda>x. P (snd x)) (zoom get_store put_store k)"
  by (auto simp: preserves_iff put_store_def on_state_def zoom_def split: prod.splits)

lemma preserves_in_router [pres]: "preserves (\<lambda>x. P (snd x)) (in_router m)"
  unfolding in_router_def by (intro pres)

lemma preserves_writes: "(\<And>w. P w \<Longrightarrow> P (f w)) \<Longrightarrow> preserves (\<lambda>x. P (snd x)) (on_writer f)"
  by (auto simp: preserves_iff on_writer_def)

lemma preserves_Authenticate [pres]:
  "(\<And>secret name. preserves (\<lambda>x. P (snd x)) (auth secret name)) \<Longrightarrow> preserves (\<lambda>x. P (snd x)) (web_Authenticate W u ip ty auth)"
  unfolding web_Authenticate_def Authenticate_def by (intro pres)

lemma preserves_AuthoriseFunc:
  assumes "preserves (\<lambda>x. P (snd x)) (Error ''Bad request'' 400 :: (web, unit) hnd)"
    and "\<And>e. preserves (\<lambda>x. P (snd x)) (Error (''Unable to get pam details: '' @ e) 500 :: (web, unit) hnd)"
  shows "preserves (\<lambda>x. P (snd x)) (Totp_AuthoriseFunc W r secret name)"
    and "preserves (\<lambda>x. P (snd x)) (Pam_AuthoriseFunc W r secret name)"
  unfolding Totp_AuthoriseFunc_def Pam_AuthoriseFunc_def by (intro pres assms)+

text \<open>The authenticators change the store as any client does.\<close>

lemma later_on_writer [pres]: "preserves (\<lambda>x. later st (get_store x)) (on_writer f)"
  by (auto simp: preserves_iff on_writer_def get_store_def)

lemma later_web_store: "evolves m \<Longrightarrow> preserves (\<lambda>x. later st (get_store x)) (web_store m)"
  unfolding web_store_zoom preserves_iff zoom_def evolves_def
  by (auto split: prod.splits) (metis later_trans snd_conv)

lemma AuthoriseFunc_later:
  assumes "etcd_service (we_E W)"
  shows "later (get_store z) (get_store (snd (Totp_AuthoriseFunc W r secret name z)))"
    and "later (get_store z) (get_store (snd (Pam_AuthoriseFunc W r secret name z)))"
proof -
  have code: "preserves (\<lambda>x. later st (get_store x)) (on_state (use_code now name code))" for st now code
    by (auto simp: preserves_iff on_state_def zoom_def use_code_def get_store_def split: prod.splits option.splits if_splits)
  have pam: "evolves (GetPAM (we_E W))"
    unfolding GetPAM_def by (auto intro!: evolves_intro etcd_service.evolves_ops assms)
  have "preserves (\<lambda>x. later st (get_store x)) (Totp_AuthoriseFunc W r secret name)" for st
    unfolding Totp_AuthoriseFunc_def Error_def by (intro pres code)
  then show "later (get_store z) (get_store (snd (Totp_AuthoriseFunc W r secret name z)))"
    unfolding preserves_iff by blast
  have "preserves (\<lambda>x. later st (get_store x)) (Pam_AuthoriseFunc W r secret name)" for st
    unfolding Pam_AuthoriseFunc_def Error_def by (intro pres later_web_store pam)
  then show "later (get_store z) (get_store (snd (Pam_AuthoriseFunc W r secret name z)))"
    unfolding preserves_iff by blast
qed

text \<open>A sign-in that succeeds: the response is untouched, and the challenge returned is stored.\<close>

lemma login_success:
  assumes "etcd_service (we_E W)" and "store_wf (rt_store (wb_router s))"
    and "\<And>secret name. triple (\<lambda>x. snd x = w) (auth secret name) (\<lambda>_ x. snd x = w) (\<lambda>_. True)"
    and "\<And>secret name z. later (get_store z) (get_store (snd (auth secret name z)))"
    and "web_Authenticate W u ip ty auth (s, w) = (Inr c, (t, w'))"
  shows "w' = w \<and> (\<exists>d. device_at (rt_store (wb_router t)) (deviceKey (Username u) ip) = Some d \<and>
    dv_Challenge d = c \<and> dv_Attempts d = 0 \<and> dv_Authorised d = we_time W)"
proof -
  have "w' = w" using tripleD_Inr [OF Authenticate_silent [OF assms(3)] _ assms(5)] by simp
  moreover have "store_wf (get_store (s, w))" using assms(2) by (simp add: get_store_def)
  from Authenticate_sound [OF assms(1) this get_put_store assms(4) assms(5) [unfolded web_Authenticate_def]]
  obtain e where "device_at (get_store (t, w')) (deviceKey (Username u) ip) =
     Some (e\<lparr>dv_AssociatedNode := GetServerID (we_E W), dv_Authorised := we_time W, dv_Attempts := 0, dv_Challenge := c\<rparr>)"
    by blast
  then have "device_at (rt_store (wb_router t)) (deviceKey (Username u) ip) =
     Some (e\<lparr>dv_AssociatedNode := GetServerID (we_E W), dv_Authorised := we_time W, dv_Attempts := 0, dv_Challenge := c\<rparr>)"
    by (simp add: get_store_def)
  ultimately show ?thesis by simp
qed

text \<open>A sign-in that fails says nothing of success.\<close>

definition no_success :: "response_writer \<Rightarrow> bool" where
  "no_success w \<longleftrightarrow> Doc (JStr ''Success'') \<notin> set (rw_body w)"

lemma no_success_writers [simp]:
  "no_success (set_header k v w) = no_success w" "no_success (WriteHeader c w) = no_success w"
  "no_success (Write b w) \<longleftrightarrow> b \<noteq> Doc (JStr ''Success'') \<and> no_success w" "no_success fresh_writer"
  by (auto simp: no_success_def)

lemma no_success_Error [pres]: "preserves (\<lambda>x. no_success (snd x)) (Error msg c)"
  unfolding Error_def by (rule preserves_writes) (simp add: http_error_def)

lemma no_success_pages [pres]:
  "preserves (\<lambda>x. no_success (snd x)) (Redirect p c)" "preserves (\<lambda>x. no_success (snd x)) NotFound"
  "preserves (\<lambda>x. no_success (snd x)) (on_writer (set_header k v))"
  "preserves (\<lambda>x. no_success (snd x)) (success_page W)"
proof -
  show redirect: "preserves (\<lambda>x. no_success (snd x)) (Redirect p c)"
    unfolding Redirect_def by (rule preserves_writes) simp
  show "preserves (\<lambda>x. no_success (snd x)) NotFound" unfolding NotFound_def by (intro pres)
  show "preserves (\<lambda>x. no_success (snd x)) (on_writer (set_header k v))" by (rule preserves_writes) simp
  show "preserves (\<lambda>x. no_success (snd x)) (success_page W)"
    unfolding success_page_def html_def render_page_def by (intro pres preserves_writes) simp_all
qed

lemma resultMessage_error:
  "resultMessage W (Some e) x = (Inr (msg, status), y) \<Longrightarrow> msg \<noteq> ''Success'' \<and> snd y = snd x"
  by (auto simp: resultMessage_def ebind_eq_Inr web_store_eq split: if_splits)

lemma jsonResponse_eq:
  "jsonResponse d c (s, w) = (Inr (), (s, Write (Doc d) (WriteHeader c (set_header ''Content-Type'' ''application/json'' w))))"
  by (simp add: jsonResponse_def)

text \<open>The end of a sign-in that sends the challenge with its answer.\<close>

definition answers :: "(wenv \<Rightarrow> error + string \<Rightarrow> (web, unit) hnd) \<Rightarrow> bool" where
  "answers f \<longleftrightarrow> (\<forall>W res s t w w'. no_success w \<and> f W res (s, w) = (Inr (), (t, w')) \<and> \<not> no_success w' \<longrightarrow>
     (\<exists>c. res = Inr c \<and> t = s \<and> w' = Write (Doc (JStr ''Success'')) (WriteHeader 200
        (set_header ''Content-Type'' ''application/json'' (set_header ''WAG-CHALLENGE'' c w)))))"

lemma Totp_answers: "answers (\<lambda>W res.
    ebind (on_writer (set_header ''WAG-CHALLENGE'' (case res of Inl _ \<Rightarrow> '''' | Inr c \<Rightarrow> c))) (\<lambda>_.
    ebind (resultMessage W (failure res)) (\<lambda>(msg, status). jsonResponse (JStr msg) status)))"
  and Pam_answers: "answers (\<lambda>W res.
    ebind (resultMessage W (failure res)) (\<lambda>(msg, status).
    ebind (on_writer (set_header ''WAG-CHALLENGE'' (case res of Inl _ \<Rightarrow> '''' | Inr c \<Rightarrow> c))) (\<lambda>_.
    jsonResponse (JStr msg) status)))"
  unfolding answers_def
  by (auto simp: ebind_eq_Inr failure_def resultMessage_def [of _ None] jsonResponse_eq dest!: resultMessage_error split: sum.splits)

lemma respond_Inr:
  assumes "serve h r s = (Inr resp, t)"
  obtains w where "h r (s, fresh_writer) = (Inr (), (t, w))" and "resp = finish w"
  using assms by (auto simp: serve_def respond_def split: prod.splits sum.splits fault.splits)

lemma finish_body: "b \<in> set (rp_Body (finish w)) \<Longrightarrow> b \<in> set (rw_body w)"
  by (auto simp: finish_def split: option.splits)

text \<open>The sign-in of a method: POST only, after the common beginning, for users that enforce.\<close>

lemma sign_in_success:
  assumes E: "etcd_service (we_E W)" and wf: "store_wf (rt_store (wb_router s))"
    and api: "\<And>x. h r x = (if hr_Method r \<noteq> ''POST'' then NotFound else unless_authed W r (\<lambda>u ip.
      if_enforcing W u (ebind (attempt (web_Authenticate W u ip ty auth)) (\<lambda>res. f W res)) (Redirect ''/'' 307))) x"
    and silent: "\<And>w secret name. triple (\<lambda>x. snd x = w) (auth secret name) (\<lambda>_ x. snd x = w) (\<lambda>_. True)"
    and kept: "\<And>secret name. preserves (\<lambda>x. no_success (snd x)) (auth secret name)"
    and evol: "\<And>secret name z. later (get_store z) (get_store (snd (auth secret name z)))"
    and f: "answers f"
    and run: "serve h r s = (Inr resp, t)" and success: "Doc (JStr ''Success'') \<in> set (rp_Body resp)"
  shows "\<exists>n d. device_at (rt_store (wb_router t)) (deviceKey n (ip_text (client_ip W r))) = Some d \<and>
    rp_StatusCode resp = 200 \<and> rp_Header resp ''WAG-CHALLENGE'' = Some (dv_Challenge d) \<and>
    dv_Attempts d = 0 \<and> dv_Authorised d = we_time W"
proof -
  let ?ip = "ip_text (client_ip W r)"
  obtain w where h: "h r (s, fresh_writer) = (Inr (), (t, w))" and resp: "resp = finish w"
    using run by (rule respond_Inr)
  have bad: "\<not> no_success w" using success finish_body resp by (auto simp: no_success_def)
  have keep: "no_success w" if "preserves (\<lambda>x. no_success (snd x)) m" "m (s', fresh_writer) = (Inr (), (t, w))" for m s'
    using preservesD [OF that(1) _ that(2)] by simp
  from h bad have "unless_authed W r (\<lambda>u ip. if_enforcing W u (ebind (attempt (web_Authenticate W u ip ty auth)) (\<lambda>res. f W res))
      (Redirect ''/'' 307)) (s, fresh_writer) = (Inr (), (t, w))"
    using keep [OF no_success_pages(2)] by (auto simp: api split: if_splits)
  from E this obtain u s1 where s1: "later (rt_store (wb_router s)) (rt_store (wb_router s1))"
    and enf: "if_enforcing W u (ebind (attempt (web_Authenticate W u ?ip ty auth)) (\<lambda>res. f W res)) (Redirect ''/'' 307) (s1, fresh_writer) = (Inr (), (t, w))"
    by (rule unless_authed_Inr) (use bad keep no_success_pages no_success_Error in blast)+
  from E enf obtain s2 where s12: "later (rt_store (wb_router s1)) (rt_store (wb_router s2))"
    and run2: "ebind (attempt (web_Authenticate W u ?ip ty auth)) (\<lambda>res. f W res) (s2, fresh_writer) = (Inr (), (t, w))"
    by (rule if_enforcing_Inr) (use bad keep no_success_pages in blast)+
  have s2: "later (rt_store (wb_router s)) (rt_store (wb_router s2))" using s1 s12 later_trans by blast
  from run2 obtain res s3 w3 where login: "attempt (web_Authenticate W u ?ip ty auth) (s2, fresh_writer) = (Inr res, (s3, w3))"
    and fin: "f W res (s3, w3) = (Inr (), (t, w))" by (auto simp: ebind_eq_Inr)
  have "no_success w3" using preservesD [OF preserves_attempt [OF preserves_Authenticate [OF kept]] _ login] by simp
  with f fin bad obtain c where res: "res = Inr c" "t = s3" and w: "w = Write (Doc (JStr ''Success'')) (WriteHeader 200
        (set_header ''Content-Type'' ''application/json'' (set_header ''WAG-CHALLENGE'' c w3)))"
    unfolding answers_def by blast
  have "web_Authenticate W u ?ip ty auth (s2, fresh_writer) = (Inr c, (t, w3))" using login res by (simp add: attempt_eq_Inr)
  from login_success [OF E later_wf [OF s2 wf] silent evol this] w resp show ?thesis
    by (auto simp: finish_def intro!: exI [of _ "Username u"])
qed

text \<open>C6
  The client gets the challenge that the server now holds: when the answer to a one-time code or to
  a system password says success, its header carries, whatever other clients do to the store
  meanwhile, the challenge stored for the device of the connection, which is authorised at this
  time and has no failed attempts. It is what the client shows again when it comes from another
  address.
\<close>

theorem challenge_delivered:
  assumes "etcd_service (we_E W)" and "store_wf (rt_store (wb_router s))"
    and "h = Totp_AuthorisationAPI W \<or> h = Pam_AuthorisationAPI W"
    and "serve h r s = (Inr resp, t)" and "Doc (JStr ''Success'') \<in> set (rp_Body resp)"
  shows "\<exists>n d. device_at (rt_store (wb_router t)) (deviceKey n (ip_text (client_ip W r))) = Some d \<and>
    rp_StatusCode resp = 200 \<and> rp_Header resp ''WAG-CHALLENGE'' = Some (dv_Challenge d) \<and>
    dv_Attempts d = 0 \<and> dv_Authorised d = we_time W"
  using assms(3)
proof
  assume h: "h = Totp_AuthorisationAPI W"
  show ?thesis
    by (rule sign_in_success [OF assms(1,2) _ AuthoriseFunc_silent(1) preserves_AuthoriseFunc(1) AuthoriseFunc_later(1) Totp_answers assms(4,5)])
      (auto simp: h Totp_AuthorisationAPI_def Totp_login_def assms(1) intro: pres)
next
  assume h: "h = Pam_AuthorisationAPI W"
  show ?thesis
    by (rule sign_in_success [OF assms(1,2) _ AuthoriseFunc_silent(2) preserves_AuthoriseFunc(2) AuthoriseFunc_later(2) Pam_answers assms(4,5)])
      (auto simp: h Pam_AuthorisationAPI_def Pam_login_def assms(1) intro: pres)
qed

section \<open>A portal\<close>

definition demo_wenv :: wenv where
  "demo_wenv = \<lparr>we_R = renv_ref, we_now = 0, we_time = 7, we_random = Inr ''c'', we_render = (\<lambda>_. None),
     we_otp_generate = (\<lambda>_ _. Inr (''url'', ''seed'')), we_otp_secret = Inr,
     we_otp_valid = (\<lambda>_ code secret. secret = ''seed'' \<and> code = ''123''),
     we_image = Inr, we_pam = (\<lambda>_ _ _. None), we_template = (\<lambda>_. None), we_text = (\<lambda>_ _. ''text''),
     we_generate_key = Inr (''priv'', ''pub''), we_psk = Inr ''psk'', we_intn = (\<lambda>_. 0), we_wgctrl = None,
     we_wgdevice = (\<lambda>_. Inr (''server'', 51820)), we_qr = Inr, we_scale = Inr, we_png = Inr, we_static = Inr,
     we_parse_json = (\<lambda>_. Inr JNull), we_enc_credential = (\<lambda>_. JNull), we_dec_credential = (\<lambda>_. Inr zero_credential),
     we_random_id = 7, we_new_executor = (\<lambda>_ _ _. Inl ''none''), we_new_sessions = None,
     we_StartSession = (\<lambda>_ _ m. (\<lambda>w. w, m)), we_GetSession = (\<lambda>_ _. None), we_DeleteSession = (\<lambda>_ m. (\<lambda>w. w, m)),
     we_parse_url = (\<lambda>_. Inl ''none''), we_key = None, we_hashkey = None, we_state = Inr ''st'',
     we_new_provider = (\<lambda>_ _. Inl ''none'')\<rparr>"

definition demo_web :: web where
  "demo_web = \<lparr>wb_router = first_state\<lparr>rt_store :=
       put_key (''deviceref-'' @ ''10.0.0.2'') (Text (deviceKey ''ann'' ''10.0.0.2'')) demo_login\<rparr>,
     wb_enabled = (\<lambda>_. True), wb_used = (\<lambda>_. None), wb_executor = None, wb_sessions = None, wb_provider = None,
     wb_details = zero_oidc\<rparr>"

definition demo_code :: http_request where
  "demo_code = \<lparr>hr_Method = ''POST'', hr_Path = ''/authorise/totp/'', hr_RemoteAddr = ''10.0.0.2:5000'',
     hr_XForwardedFor = '''', hr_ContentType = '''', hr_query = [], hr_form = Inr [(''code'', ''123'')], hr_body = Inl '''', hr_Host = '''', hr_Origin = ''''\<rparr>"

definition says_success :: "http_response res \<times> web \<Rightarrow> bool" where
  "says_success x = (case fst x of Inr resp \<Rightarrow> Doc (JStr ''Success'') \<in> set (rp_Body resp) | Inl _ \<Rightarrow> False)"

context etcd_quiet
begin

lemma Authenticate_quiet_lens:
  assumes "signs_in (get x) (Username u) a usr d l"
    and lens: "\<And>y z. get (put y z) = y" "\<And>y y' z. put y (put y' z) = put y z"
    and free: "dv_Attempts (counted l d) < l" "\<not> um_Locked usr" "um_MfaType usr = ty" "um_Enforcing usr"
    and auth: "auth (um_Mfa usr) (Username u) (put (count_attempt (Username u) a l d (get x)) x) = (Inr (), z)"
    and same: "get z = count_attempt (Username u) a l d (get x)"
    and fin: "AuthoriseDevice E now random (Username u) a (get z) = (Inr c, t)"
  shows "Authenticate get put E now random u a ty auth x = (Inr c, put t z)"
proof -
  let ?s = "count_attempt (Username u) a l d (get x)"
  have c: "signs_in ?s (Username u) a usr (counted l d) l" using assms(1) by (rule signs_in_counted)
  then have lock: "GetLockout E ?s = (Inr l, ?s)" by (intro GetLockout_quiet [OF etcd_quiet_axioms]) (simp_all add: signs_in_def)
  have "user_at ?s (Username u) = Some usr" using c by (simp add: signs_in_def)
  then have enf: "user_IsEnforcingMFA E u ?s = (Inr True, ?s)"
    using free(4) by (simp add: user_IsEnforcingMFA_def IsEnforcingMFA_quiet)
  show ?thesis
    unfolding Authenticate_def
    using free by (simp add: ebind_def zoom_def wrap_err_def on_error_def Increment_quiet [OF assms(1)]
      GetAuthenticationDetails_quiet [OF c] lock lens auth same enf fin [unfolded same])
qed

lemma AuthoriseDevice_quiet:
  assumes "signs_in s n a usr d l" and "\<not> um_Locked usr" and "dv_Username d = n"
  shows "\<exists>t. AuthoriseDevice E now (Inr c) n a s = (Inr c, t)"
proof -
  have at: "user_at s n = Some usr" "device_at s (deviceKey n a) = Some d" using assms(1) by (simp_all add: signs_in_def)
  obtain j r where "range_of s [deviceKey n a] = [(deviceKey n a, Json j, r)]" and "dec_device j = Inr d"
    and nn: "find_key s (deviceKey n a) \<noteq> None" using device_atE [OF at(2)] .
  then have "\<exists>v. authorise_mutator E now c (range_of s [deviceKey n a]) s = (Inr v, s)"
    using GetUserData_quiet [OF at(1)] assms(2,3) by (simp add: authorise_mutator_def ebind_def)
  then obtain v where "authorise_mutator E now c (range_of s [deviceKey n a]) s = (Inr v, s)" ..
  from doSafeUpdate_quiet [of "authorise_mutator E now c", OF this, of False] nn show ?thesis
    by (auto simp: AuthoriseDevice_def ebind_def wrap_err_def on_error_def)
qed

end

lemma demo_signs_in: "signs_in (rt_store (wb_router demo_web)) (Username ann) ''10.0.0.2'' demo_user demo_device 5"
proof -
  have "''deviceref-'' @ ''10.0.0.2'' \<noteq> LockoutKey" by (simp add: LockoutKey_def)
  then show ?thesis
    using demo_login_signs_in by (simp add: demo_web_def signs_in_def user_at_def device_at_def del: append.simps)
qed

lemma demo_code_steps:
  "client_ip demo_wenv demo_code = Some (IP4 10 0 0 2)" "ip_text (Some (IP4 10 0 0 2)) = ''10.0.0.2''"
  "isAuthed renv_ref 0 ''10.0.0.2'' (wb_router demo_web) = (Inr False, wb_router demo_web)"
  "GetUserFromAddress etcd_ref (Some (V4 (IP4 10 0 0 2))) (rt_store (wb_router demo_web)) = (Inr ann, rt_store (wb_router demo_web))"
proof -
  show "client_ip demo_wenv demo_code = Some (IP4 10 0 0 2)" by code_simp
  show ip: "ip_text (Some (IP4 10 0 0 2)) = ''10.0.0.2''" by code_simp
  have "ipv4_of renv_ref ''10.0.0.2'' = Some (V4 (IP4 10 0 0 2))" by code_simp
  moreover have fault: "re_fault renv_ref = (\<lambda>_ _. None)" by (simp add: renv_ref_def)
  moreover have empty: "k_devices (rt_maps (wb_router demo_web)) = (\<lambda>_. None)"
    by (simp add: demo_web_def first_state_def empty_maps_def)
  ultimately show "isAuthed renv_ref 0 ''10.0.0.2'' (wb_router demo_web) = (Inr False, wb_router demo_web)"
    using fault empty by (simp add: isAuthed_def dev_key_def ebind_def on_error_def kmap_def devices_LookupBytes_def lift_def fwentry_Unpack_def)
  have "value_at (rt_store (wb_router demo_web)) (''deviceref-'' @ ''10.0.0.2'') = Some (Text (deviceKey ''ann'' ''10.0.0.2''))"
    unfolding demo_web_def by (simp del: append.simps)
  moreover have "user_at (rt_store (wb_router demo_web)) ''ann'' = Some demo_user"
    using demo_signs_in by (simp add: signs_in_def ann_def)
  ultimately have "GetUserDataFromAddress etcd_ref ''10.0.0.2'' (rt_store (wb_router demo_web)) = (Inr demo_user, rt_store (wb_router demo_web))"
    by (intro GetUserDataFromAddress_owner [OF etcd_ref.etcd_quiet_axioms]) simp_all
  then show "GetUserFromAddress etcd_ref (Some (V4 (IP4 10 0 0 2))) (rt_store (wb_router demo_web)) = (Inr ann, rt_store (wb_router demo_web))"
    by (simp add: GetUserFromAddress_def v4_def ip ebind_def user_of_def demo_user_def ann_def)
qed

lemma demo_unless_authed:
  "unless_authed demo_wenv demo_code k (demo_web, w) = k ann ''10.0.0.2'' (demo_web, w)"
proof -
  have env: "we_R demo_wenv = renv_ref" "we_now demo_wenv = 0" "re_etcd renv_ref = etcd_ref"
    by (simp_all add: demo_wenv_def renv_ref_def)
  have "in_router (isAuthed renv_ref 0 ''10.0.0.2'') (demo_web, w) = (Inr False, (demo_web, w))"
    by (simp add: in_router_def on_state_eq zoom_def demo_code_steps)
  moreover have "web_store (GetUserFromAddress etcd_ref (Some (V4 (IP4 10 0 0 2)))) (demo_web, w) = (Inr ann, (demo_web, w))"
    by (simp add: web_store_eq get_store_def put_store_def demo_code_steps)
  ultimately show ?thesis
    unfolding unless_authed_def Let_def demo_code_steps env by (simp add: demo_code_steps ebind_def check_def attempt_def)
qed

lemma demo_if_enforcing: "if_enforcing demo_wenv ann a b (demo_web, w) = a (demo_web, w)"
proof -
  have env: "we_E demo_wenv = etcd_ref" by (simp add: demo_wenv_def renv_ref_def)
  have "user_at (rt_store (wb_router demo_web)) ''ann'' = Some demo_user" using demo_signs_in by (simp add: signs_in_def ann_def)
  then have "IsEnforcingMFA etcd_ref ''ann'' (rt_store (wb_router demo_web)) = (Inr True, rt_store (wb_router demo_web))"
    using etcd_ref.IsEnforcingMFA_quiet by (simp add: demo_user_def)
  then have "web_store (user_IsEnforcingMFA etcd_ref ann) (demo_web, w) = (Inr True, (demo_web, w))"
    by (simp add: web_store_eq get_store_def put_store_def user_IsEnforcingMFA_def ann_def)
  then show ?thesis by (simp add: if_enforcing_def env ebind_def)
qed

text \<open>The right code, from a device without a session.\<close>

lemma demo_sign_in:
  "\<exists>resp t. serve (Totp_AuthorisationAPI demo_wenv) demo_code demo_web = (Inr resp, t) \<and> Doc (JStr ''Success'') \<in> set (rp_Body resp)"
proof -
  let ?x = "(demo_web, fresh_writer)"
  let ?s = "count_attempt ''ann'' ''10.0.0.2'' 5 demo_device (rt_store (wb_router demo_web))"
  let ?z = "put_store ?s (demo_web\<lparr>wb_used := [''ann'' \<mapsto> (7, ''123'')]\<rparr>, fresh_writer)"
  have n: "Username ann = ''ann''" by (simp add: ann_def)
  have env: "we_E demo_wenv = etcd_ref" "we_time demo_wenv = 7" "we_random demo_wenv = Inr ''c''"
    by (simp_all add: demo_wenv_def renv_ref_def)
  have g: "get_store ?x = rt_store (wb_router demo_web)" by (simp add: get_store_def)
  have few: "dv_Attempts (counted 5 demo_device) < 5" by (simp add: counted_def demo_device_def new_device_def zero_device_def)
  have c: "signs_in ?s ''ann'' ''10.0.0.2'' demo_user (counted 5 demo_device) 5"
    using signs_in_counted [OF demo_signs_in] n by simp
  obtain t where fin: "AuthoriseDevice etcd_ref 7 (Inr ''c'') ''ann'' ''10.0.0.2'' ?s = (Inr ''c'', t)"
    using etcd_ref.AuthoriseDevice_quiet [OF c, of 7 "''c''"]
    by (auto simp: demo_user_def counted_def demo_device_def new_device_def zero_device_def)
  have "web_Authenticate demo_wenv ann ''10.0.0.2'' Totp_Type (Totp_AuthoriseFunc demo_wenv demo_code) ?x = (Inr ''c'', put_store t ?z)"
    unfolding web_Authenticate_def env
  proof (rule etcd_ref.Authenticate_quiet_lens [where usr = demo_user and d = demo_device and l = 5])
    show "signs_in (get_store ?x) (Username ann) ''10.0.0.2'' demo_user demo_device 5" using demo_signs_in by (simp add: g)
    show "Totp_AuthoriseFunc demo_wenv demo_code (um_Mfa demo_user) (Username ann)
        (put_store (count_attempt (Username ann) ''10.0.0.2'' 5 demo_device (get_store ?x)) ?x) = (Inr (), ?z)"
      by (simp add: g n Totp_AuthoriseFunc_def demo_code_def demo_wenv_def demo_user_def FormValue_def on_state_def zoom_def
          use_code_def put_store_def) (simp add: demo_web_def)
  qed (simp_all add: g n fin few put_put_store demo_user_def Totp_Type_def)
  then have login: "Totp_login demo_wenv demo_code ann ''10.0.0.2'' ?x = (Inr (Inr ''c''), put_store t ?z)"
    by (simp add: Totp_login_def attempt_def)
  have "Totp_AuthorisationAPI demo_wenv demo_code ?x = (Inr (), (fst (put_store t ?z),
      Write (Doc (JStr ''Success'')) (WriteHeader 200 (set_header ''Content-Type'' ''application/json''
        (set_header ''WAG-CHALLENGE'' ''c'' fresh_writer)))))"
  proof -
    have "hr_Method demo_code = ''POST''" by (simp add: demo_code_def)
    then show ?thesis
      unfolding Totp_AuthorisationAPI_def
      by (simp add: demo_unless_authed demo_if_enforcing)
        (simp add: ebind_def login resultMessage_def failure_def jsonResponse_def put_store_def on_writer_def)
  qed
  then show ?thesis by (simp add: serve_def respond_def finish_def)
qed

theorem challenge_delivered_witness:
  "\<exists>resp t n d. serve (Totp_AuthorisationAPI demo_wenv) demo_code demo_web = (Inr resp, t) \<and>
     device_at (rt_store (wb_router t)) (deviceKey n ''10.0.0.2'') = Some d \<and>
     rp_Header resp ''WAG-CHALLENGE'' = Some (dv_Challenge d) \<and> dv_Authorised d = 7"
proof -
  obtain resp t where run: "serve (Totp_AuthorisationAPI demo_wenv) demo_code demo_web = (Inr resp, t)"
    and ok: "Doc (JStr ''Success'') \<in> set (rp_Body resp)" using demo_sign_in by blast
  have E: "etcd_service (we_E demo_wenv)" by (simp add: demo_wenv_def renv_ref_def etcd_ref.etcd_service_axioms)
  have "store_wf demo_login" unfolding demo_login_def using later_wf [OF later_put_key demo_store2_facts(1)] .
  then have "store_wf (rt_store (wb_router demo_web))"
    using later_wf [OF later_put_key] by (simp add: demo_web_def del: append.simps)
  from challenge_delivered [OF E this _ run ok] demo_code_steps(1,2) run show ?thesis by (auto simp: demo_wenv_def)
qed

section \<open>Registration does not deliver the challenge\<close>

definition unchallenged :: "response_writer \<Rightarrow> bool" where
  "unchallenged w \<longleftrightarrow> (case rw_sent w of None \<Rightarrow> rw_header w | Some (_, h) \<Rightarrow> h) ''WAG-CHALLENGE'' = None"

lemma unchallenged_writers [simp]:
  "k \<noteq> ''WAG-CHALLENGE'' \<Longrightarrow> unchallenged (set_header k v w) = unchallenged w"
  "unchallenged (WriteHeader c w) = unchallenged w" "unchallenged (Write b w) = unchallenged w" "unchallenged fresh_writer"
  by (auto simp: unchallenged_def split: option.splits)

lemma unchallenged_pages [pres]:
  "preserves (\<lambda>x. unchallenged (snd x)) (Error msg c)" "preserves (\<lambda>x. unchallenged (snd x)) NotFound"
  "preserves (\<lambda>x. unchallenged (snd x)) (success_page W)" "preserves (\<lambda>x. unchallenged (snd x)) (jsonResponse d c)"
proof -
  show e: "preserves (\<lambda>x. unchallenged (snd x)) (Error msg c)" for msg c
    unfolding Error_def by (rule preserves_writes) (simp add: http_error_def)
  show "preserves (\<lambda>x. unchallenged (snd x)) NotFound" unfolding NotFound_def by (rule e)
  show "preserves (\<lambda>x. unchallenged (snd x)) (success_page W)"
    unfolding success_page_def html_def render_page_def by (intro pres preserves_writes) simp_all
  show "preserves (\<lambda>x. unchallenged (snd x)) (jsonResponse d c)"
    unfolding jsonResponse_def by (rule preserves_writes) simp
qed

text \<open>After a response has been sent its headers are fixed.\<close>

definition sent_unchallenged :: "response_writer \<Rightarrow> bool" where
  "sent_unchallenged w \<longleftrightarrow> rw_sent w \<noteq> None \<and> unchallenged w"

lemma sent_header [pres]: "preserves (\<lambda>x. sent_unchallenged (snd x)) (on_writer (set_header k v))"
  by (rule preserves_writes) (auto simp: sent_unchallenged_def unchallenged_def)

lemma unchallenged_after [pres]:
  assumes "preserves (\<lambda>x. sent_unchallenged (snd x)) k"
  shows "preserves (\<lambda>x. unchallenged (snd x)) (ebind (jsonResponse d c) (\<lambda>_. k))"
proof -
  have "triple (\<lambda>x. unchallenged (snd x)) (jsonResponse d c) (\<lambda>_ x. sent_unchallenged (snd x)) (\<lambda>x. unchallenged (snd x))"
    by (auto simp: triple_def jsonResponse_def sent_unchallenged_def split: sum.splits option.splits)
  moreover have "triple (\<lambda>x. sent_unchallenged (snd x)) k (\<lambda>_ x. unchallenged (snd x)) (\<lambda>x. unchallenged (snd x))"
    using assms unfolding preserves_def by (rule triple_weaken) (auto simp: sent_unchallenged_def)
  ultimately show ?thesis unfolding preserves_def by (rule triple_bind)
qed

text \<open>
  A user that registers one-time codes or a system password is signed in by the answer, but the
  challenge, which the browser needs to keep the session on another network, is not in it.
\<close>

theorem registration_loses_challenge:
  assumes "h = Totp_RegistrationAPI W \<or> h = Pam_RegistrationAPI W" and "serve h r s = (Inr resp, t)"
  shows "rp_Header resp ''WAG-CHALLENGE'' = None"
proof -
  have auth: "preserves (\<lambda>x. unchallenged (snd x)) (Totp_AuthoriseFunc W r secret name)"
    "preserves (\<lambda>x. unchallenged (snd x)) (Pam_AuthoriseFunc W r secret name)" for secret name
    by (rule preserves_AuthoriseFunc; rule pres)+
  have "preserves (\<lambda>x. unchallenged (snd x)) (Totp_RegistrationAPI W r)"
    unfolding Totp_RegistrationAPI_def unless_authed_def if_enforcing_def Totp_login_def resultMessage_def by (intro pres auth)
  moreover have "preserves (\<lambda>x. unchallenged (snd x)) (Pam_RegistrationAPI W r)"
    unfolding Pam_RegistrationAPI_def unless_authed_def if_enforcing_def Pam_login_def resultMessage_def by (intro pres auth)
  ultimately have "preserves (\<lambda>x. unchallenged (snd x)) (h r)" using assms(1) by blast
  moreover obtain w where w: "h r (s, fresh_writer) = (Inr (), (t, w))" "resp = finish w"
    using assms(2) by (rule respond_Inr)
  ultimately have "unchallenged w" using preservesD [of _ "h r", OF _ _ w(1)] by fastforce
  then show ?thesis by (auto simp: w(2) finish_def unchallenged_def split: option.splits)
qed

section \<open>No second enrolment\<close>

lemma quiet_read:
  assumes "etcd_quiet E"
  shows "snd (GetSessionInactivityTimeoutMinutes E st) = st"
  unfolding GetSessionInactivityTimeoutMinutes_def getInt_def get_setting_def
  by (auto simp: ebind_def etcd_quiet.Get_quiet [OF assms] split: list.splits prod.splits sum.splits)

lemma isAuthed_same_store:
  assumes "etcd_quiet (re_etcd R)"
  shows "preserves (\<lambda>s. rt_store s = st) (isAuthed R now a)"
proof -
  have "preserves (\<lambda>s. rt_store s = st) (in_store (GetSessionInactivityTimeoutMinutes (re_etcd R)))"
    using quiet_read [OF assms] by (auto simp: preserves_iff zoom_def split: prod.splits) (metis snd_conv)
  then show ?thesis unfolding isAuthed_def by (intro pres preserves_kmap) simp_all
qed

text \<open>The address of the connection belongs to a user whose second factor is enforced.\<close>

definition enforced_client :: "wenv \<Rightarrow> http_request \<Rightarrow> store \<Rightarrow> bool" where
  "enforced_client W r st \<longleftrightarrow> (\<exists>n u. let a = ip_text (client_ip W r) in
     value_at st (''deviceref-'' @ a) = Some (Text (deviceKey n a)) \<and> CHR ''-'' \<notin> set n \<and> CHR ''-'' \<notin> set a \<and>
     user_at st n = Some u \<and> um_Username u = n \<and> um_Enforcing u)"

lemma enforced_steps:
  assumes E: "etcd_quiet (we_E W)" and client: "enforced_client W r (get_store x)"
  obtains u where "web_store (GetUserFromAddress (we_E W) (map_option V4 (client_ip W r))) x = (Inr u, x)"
    and "web_store (user_IsEnforcingMFA (we_E W) u) x = (Inr True, x)"
proof -
  let ?a = "ip_text (client_ip W r)" and ?st = "get_store x"
  from client obtain n u where ref: "value_at ?st (''deviceref-'' @ ?a) = Some (Text (deviceKey n ?a))"
    and dash: "CHR ''-'' \<notin> set n" "CHR ''-'' \<notin> set ?a" and u: "user_at ?st n = Some u" "um_Username u = n" "um_Enforcing u"
    by (auto simp: enforced_client_def Let_def)
  have put: "put_store ?st x = x" by (simp add: put_store_def get_store_def)
  have "v4 (map_option V4 (client_ip W r)) = client_ip W r" by (cases "client_ip W r") (simp_all add: v4_def)
  then have "GetUserFromAddress (we_E W) (map_option V4 (client_ip W r)) ?st = (Inr (user_of u), ?st)"
    using GetUserDataFromAddress_owner [OF E ref dash u(1)] by (simp add: GetUserFromAddress_def ebind_def)
  moreover have "user_IsEnforcingMFA (we_E W) (user_of u) ?st = (Inr True, ?st)"
    using etcd_quiet.IsEnforcingMFA_quiet [OF E u(1)] u(2,3) by (simp add: user_IsEnforcingMFA_def user_of_def)
  ultimately show thesis using that by (simp add: web_store_eq put)
qed

lemma preserves_in_router_store:
  assumes "preserves (\<lambda>s. rt_store s = st) m"
  shows "preserves (\<lambda>x. get_store x = st) (in_router m)"
  unfolding preserves_iff
proof (intro allI impI)
  fix x assume x: "get_store x = st"
  obtain r t where m: "m (wb_router (fst x)) = (r, t)" by (cases "m (wb_router (fst x))")
  with x have "rt_store t = st" using preservesD [OF assms _ m] by (simp add: get_store_def)
  with m show "get_store (snd (in_router m x)) = st"
    by (simp add: in_router_def on_state_def zoom_def get_store_def split: prod.splits)
qed

lemma refused:
  assumes E: "etcd_quiet (we_E W)" and client: "enforced_client W r (get_store x)"
    and run: "unless_authed W r (\<lambda>u ip. if_enforcing W u (Error ''Bad request'' 400) (k u ip)) x = (res, y)"
  shows "get_store y = get_store x"
proof -
  let ?auth = "in_router (isAuthed (we_R W) (we_now W) (ip_text (client_ip W r))) :: (web, bool) hnd"
  have auth: "preserves (\<lambda>z. get_store z = get_store x) ?auth"
    by (rule preserves_in_router_store [OF isAuthed_same_store [OF E]])
  have same: "get_store z = get_store x" if "?auth x = (rb, z)" for rb z by (rule preservesD [OF auth refl that])
  obtain rb z where a: "?auth x = (rb, z)" by (cases "?auth x")
  have z: "enforced_client W r (get_store z)" using client same [OF a] by simp
  obtain u where u: "web_store (GetUserFromAddress (we_E W) (map_option V4 (client_ip W r))) z = (Inr u, z)"
    "web_store (user_IsEnforcingMFA (we_E W) u) z = (Inr True, z)" using enforced_steps [OF E z] .
  have pages: "preserves (\<lambda>x. get_store x = st) (success_page W)" "preserves (\<lambda>x. get_store x = st) (Error m c)" for st m c
    unfolding success_page_def html_def render_page_def Error_def
    by (intro pres preserves_on_writer; simp add: get_store_def)+
  have "get_store y = get_store z"
  proof (cases rb)
    case (Inl e)
    with run a show ?thesis by (simp add: unless_authed_def Let_def ebind_def)
  next
    case (Inr b)
    with run a u have "(if b then success_page W z else Error ''Bad request'' 400 z) = (res, y)"
      by (simp add: unless_authed_def Let_def ebind_def check_def attempt_def if_enforcing_def split: if_splits)
    then show ?thesis using preservesD [OF pages(1) refl] preservesD [OF pages(2) refl] by (auto split: if_splits)
  qed
  then show ?thesis using same [OF a] by simp
qed

lemma registration_routes:
  "map_of (tunnel_routes W (allMfa W) ws files) ''/register_mfa/oidc/'' = Some (checkEnabled ''oidc'' (Oidc_RegistrationAPI W))"
  "map_of (tunnel_routes W (allMfa W) ws files) ''/register_mfa/pam/'' = Some (checkEnabled ''pam'' (Pam_RegistrationAPI W))"
  "map_of (tunnel_routes W (allMfa W) ws files) ''/register_mfa/totp/'' = Some (checkEnabled ''totp'' (Totp_RegistrationAPI W))"
  "map_of (tunnel_routes W (allMfa W) ws files) ''/register_mfa/webauthn/'' = Some (checkEnabled ''webauthn'' (Webauthn_RegistrationAPI W))"
  "map_of (tunnel_routes W (allMfa W) ws files) ''/register_mfa/'' = Some (mux_GetOrPost (registerMFA W (allMfa W)))"
  by (simp_all add: tunnel_routes_def mfa_routes_def allMfa_def Totp_Type_def Webauthn_Type_def Oidc_Type_def
        Pam_Type_def Totp_def Webauthn_def Oidc_def Pam_def)

text \<open>C13
  A second factor cannot be replaced by somebody who does not have it: a request on the pages of
  registration, from the address of a device whose user's second factor is enforced, leaves the
  store as it is, through the listener of the tunnel, for every method, whatever is sent and
  whether or not there is a session. In particular the stored secret and method stay.
\<close>

theorem no_second_enrolment:
  assumes "etcd_quiet (we_E W)" and "enforced_client W r (rt_store (wb_router s))"
    and "hr_Path r \<in> set (''/register_mfa/'' # map (\<lambda>m. ''/register_mfa/'' @ m @ ''/'') method_types)"
  shows "rt_store (wb_router (snd (serve (tunnel_mux W (allMfa W) ws files) r s))) = rt_store (wb_router s)"
proof -
  define keeps where "keeps h \<longleftrightarrow> (\<forall>w. get_store (snd (h r (s, w))) = rt_store (wb_router s))" for h :: "web handler"
  have st: "enforced_client W r (get_store (s, w))" for w using assms(2) by (simp add: get_store_def)
  have api: "keeps h" if "\<And>r. h r = unless_authed W r (\<lambda>u ip. if_enforcing W u (Error ''Bad request'' 400) (k r u ip))" for h k
    unfolding keeps_def that using refused [OF assms(1) st prod.collapse [symmetric]] by (simp add: get_store_def)
  note regs = api [OF Totp_RegistrationAPI_def] api [OF Pam_RegistrationAPI_def] api [OF Webauthn_RegistrationAPI_def]
    api [OF Oidc_RegistrationAPI_def] api [of "registerMFA W (allMfa W)", OF registerMFA_def]
  have err: "get_store (snd (Error msg c (s, w))) = rt_store (wb_router s)" for msg c w
    by (simp add: Error_def get_store_def)
  have wrapped: "keeps (checkEnabled m h)" "keeps (mux_GetOrPost h)" if "keeps h" for m h
    using that err by (auto simp: keeps_def checkEnabled_def mux_GetOrPost_def AllowedMethods_def NotFound_def get_store_def)
  have "\<exists>h. map_of (tunnel_routes W (allMfa W) ws files) (hr_Path r) = Some h \<and> keeps h"
    using assms(3) regs registration_routes [of W ws files] by (auto simp: method_types_def intro: wrapped)
  then obtain h where h: "map_of (tunnel_routes W (allMfa W) ws files) (hr_Path r) = Some h" "keeps h" by blast
  have "snd (serve g r s) = fst (snd (g r (s, fresh_writer)))" for g
    by (auto simp: serve_def respond_def split: prod.splits sum.splits fault.splits)
  with h show ?thesis
    by (simp add: tunnel_mux_def setSecurityHeaders_def ServeMux_def ebind_def keeps_def get_store_def)
qed

theorem no_second_enrolment_witness:
  "rt_store (wb_router (snd (serve (tunnel_mux demo_wenv (allMfa demo_wenv) (\<lambda>_. NotFound) (\<lambda>_. NotFound))
     (demo_code\<lparr>hr_Path := ''/register_mfa/totp/''\<rparr>) demo_web))) = rt_store (wb_router demo_web)"
proof (rule no_second_enrolment)
  show "etcd_quiet (we_E demo_wenv)" by (simp add: demo_wenv_def renv_ref_def etcd_ref.etcd_quiet_axioms)
  have "client_ip demo_wenv (demo_code\<lparr>hr_Path := ''/register_mfa/totp/''\<rparr>) = Some (IP4 10 0 0 2)"
    by code_simp
  moreover have "value_at (rt_store (wb_router demo_web)) (''deviceref-'' @ ''10.0.0.2'') = Some (Text (deviceKey ''ann'' ''10.0.0.2''))"
    unfolding demo_web_def by (simp del: append.simps)
  moreover have "user_at (rt_store (wb_router demo_web)) ''ann'' = Some demo_user"
    using demo_signs_in by (simp add: signs_in_def ann_def)
  ultimately show "enforced_client demo_wenv (demo_code\<lparr>hr_Path := ''/register_mfa/totp/''\<rparr>) (rt_store (wb_router demo_web))"
    by (auto simp: enforced_client_def demo_code_steps demo_user_def intro!: exI [of _ "''ann''"])
qed (simp add: method_types_def)

section \<open>Registering a device\<close>

text \<open>
  Only a stored token registers a device: whatever else the request carries, when no token is stored
  under the text it names, the answer of the public listener is 404 and nothing changes: no user, no
  device, no group, no peer.
\<close>

theorem registration_needs_token:
  assumes "etcd_quiet (we_E W)" and "PathUnescape (Query r ''key'') = Inr key"
    and "value_at (rt_store (wb_router s)) (restrationKey key) = None"
    and "hr_Path r = ''/register_device''" and "hr_Method r = ''GET''"
  shows "\<exists>resp. serve (public_mux W) r s = (Inr resp, s) \<and> rp_StatusCode resp = 404"
proof -
  have "range_of (rt_store (wb_router s)) [restrationKey key] = []"
    using assms(3) by (simp add: value_at_def range_of_def)
  then have "GetRegistrationToken (we_E W) key (rt_store (wb_router s)) = (Inl (GoErr ''invalid token''), rt_store (wb_router s))"
    by (simp add: GetRegistrationToken_def etcd_quiet.Get_quiet [OF assms(1)] ebind_def)
  then have token: "attempt (web_store (GetRegistrationToken (we_E W) key)) (s, w) = (Inr (Inl ''invalid token''), (s, w))" for w
    by (simp add: attempt_eq_Inl web_store_eq get_store_def put_store_def)
  have "registerDevice W r (s, w) = NotFound (s, w)" for w
    using assms(2) by (simp add: registerDevice_def check_def of_result_def attempt_def ebind_def token [unfolded attempt_def])
  with assms(4,5) show ?thesis
    by (simp add: public_mux_def setSecurityHeaders_def ServeMux_def mux_Get_def AllowedMethods_def ebind_def serve_def respond_def
        NotFound_def Error_def http_error_def finish_def)
qed

theorem registration_needs_token_witness:
  "\<exists>resp. serve (public_mux demo_wenv) (demo_code\<lparr>hr_Path := ''/register_device'', hr_Method := ''GET'',
     hr_query := [(''key'', ''a%2Fb'')]\<rparr>) demo_web = (Inr resp, demo_web) \<and> rp_StatusCode resp = 404"
proof (rule registration_needs_token [where key = "''a/b''"])
  show "etcd_quiet (we_E demo_wenv)" by (simp add: demo_wenv_def renv_ref_def etcd_ref.etcd_quiet_axioms)
  show "PathUnescape (Query (demo_code\<lparr>hr_Path := ''/register_device'', hr_Method := ''GET'',
     hr_query := [(''key'', ''a%2Fb'')]\<rparr>) ''key'') = Inr ''a/b''" by code_simp
  show "value_at (rt_store (wb_router demo_web)) (restrationKey ''a/b'') = None" by code_simp
qed simp_all

text \<open>
  A failure to make the picture of a phone's profile is an error of an inner scope: the deferred
  function does not see it, and the device that was just added stays.
\<close>

lemma mobile_failure_unseen:
  assumes "we_template W ''interface.tmpl'' = None" and "we_render W ''interface.tmpl'' = None"
    and "we_qr W (we_text W ''interface.tmpl'' vals) = Inl e"
  shows "with_defer undo (mobile_profile W name vals k) x = no_defer (mobile_profile W name vals k) x"
  using assms by (cases x) (simp add: with_defer_def no_defer_def mobile_profile_def step_def assign_def quietly_def zoom_def
      must_parse_def ebind_def shadowed_def html_def server_error_def Error_def)

text \<open>The same failure of a profile that is a file removes the device.\<close>

lemma file_failure_undone:
  assumes "we_template W ''interface.tmpl'' = None" and "we_render W ''interface.tmpl'' = Some e"
    and "web_store (GetWireguardConfigName (we_E W)) x = (Inr name, y)"
  shows "with_defer undo (file_profile W vals k) x =
    (case attempt undo (snd (server_error (fst y, set_header ''Content-Disposition'' (''attachment; filename='' @ name) (snd y)))) of
       (Inl f, u) \<Rightarrow> (Inl f, u) | (Inr _, u) \<Rightarrow> (Inr (), u))"
  using assms by (cases y) (simp add: with_defer_def file_profile_def step_def assign_def quietly_def zoom_def render_page_def
      must_parse_def ebind_def server_error_def Error_def)

end
