(* ===== verification/Queue.thy ===== *)
theory Queue
  imports Prelude
begin

text \<open>
  pkg/queue/queue.go: the last lines written, newest first; it keeps the log of the management
  console and the events of the cluster. Every write builds a new array, so a slice returned by
  \<open>ReadAll\<close> is never changed afterwards. The mutex makes the operations atomic.
\<close>

record queue =
  q_max :: int
  q_items :: "string list"

definition NewQueue :: "int \<Rightarrow> queue res" where
  "NewQueue n = (if n < 0 then Inl (GoPanic ''makeslice: cap out of range'') else Inr \<lparr>q_max = n, q_items = []\<rparr>)"

text \<open>The last item makes room for the new one, when there is one.\<close>

definition Queue_Write :: "string \<Rightarrow> (queue, nat) eff" where
  "Queue_Write l q =
     (if int (length (q_items q)) < q_max q then (Inr (length l), q\<lparr>q_items := l # q_items q\<rparr>)
      else if q_items q = [] then (Inl (GoPanic ''slice bounds out of range [:-1]''), q)
      else (Inr (length l), q\<lparr>q_items := l # butlast (q_items q)\<rparr>))"

definition ReadAll :: "queue \<Rightarrow> string list" where
  "ReadAll q = q_items q"

section \<open>A queue is the end of its history\<close>

text \<open>The abstract queue is everything ever written, newest first; the queue shows its first \<open>q_max\<close> lines.\<close>

definition shows_history :: "queue \<Rightarrow> string list \<Rightarrow> bool" where
  "shows_history q history \<longleftrightarrow> q_items q = take (nat (q_max q)) history"

lemma Queue_Write_history:
  assumes "0 < q_max q" and "shows_history q history"
  shows "\<exists>p. Queue_Write l q = (Inr (length l), p) \<and> q_max p = q_max q \<and> shows_history p (l # history)"
proof (cases "int (length (q_items q)) < q_max q")
  case True
  with assms have "length history \<le> nat (q_max q) - 1" by (auto simp: shows_history_def)
  with assms have "take (nat (q_max q)) (l # history) = l # take (nat (q_max q)) history"
    by (cases "nat (q_max q)") auto
  with True assms(2) show ?thesis by (simp add: Queue_Write_def shows_history_def)
next
  case False
  with assms have full: "length (q_items q) = nat (q_max q)" and "q_items q \<noteq> []"
    by (auto simp: shows_history_def)
  moreover from full have "butlast (q_items q) = take (nat (q_max q) - 1) history"
    using assms(2) by (simp add: shows_history_def butlast_take)
  ultimately show ?thesis using False assms
    by (simp add: Queue_Write_def shows_history_def take_Cons')
qed

definition write_lines :: "string list \<Rightarrow> (queue, unit) eff" where
  "write_lines = for_each (\<lambda>l. ebind (Queue_Write l) (\<lambda>_. ret ()))"

lemma write_lines_history:
  assumes "0 < q_max q" and "shows_history q history"
  shows "\<exists>p. write_lines ls q = (Inr (), p) \<and> q_max p = q_max q \<and> shows_history p (rev ls @ history)"
  using assms
proof (induction ls arbitrary: q history)
  case (Cons l ls)
  from Queue_Write_history [OF Cons.prems, of l] obtain p
    where p: "Queue_Write l q = (Inr (length l), p)" "q_max p = q_max q" "shows_history p (l # history)" by blast
  with Cons.IH [of p "l # history"] Cons.prems(1) show ?case
    by (auto simp: write_lines_def ebind_def)
qed (simp add: write_lines_def)

text \<open>
  The log keeps exactly the newest lines, in order: after any lines have been written to a new queue
  of a positive size, no write has failed and reading gives the last lines, newest first, as many
  as fit.
\<close>

theorem queue_keeps_newest:
  assumes "0 < n"
  shows "\<exists>q p. NewQueue n = Inr q \<and> write_lines ls q = (Inr (), p) \<and> ReadAll p = take (nat n) (rev ls)"
  using write_lines_history [of "\<lparr>q_max = n, q_items = []\<rparr>" "[]" ls] assms
  by (auto simp: NewQueue_def shows_history_def ReadAll_def)

theorem queue_keeps_newest_witness:
  "\<exists>q p. NewQueue 2 = Inr q \<and> write_lines [''a'', ''b'', ''c''] q = (Inr (), p) \<and> ReadAll p = [''c'', ''b'']"
  using queue_keeps_newest [of 2 "[''a'', ''b'', ''c'']"] by simp

end
