(* ===== verification/Cluster.thy ===== *)
theory Cluster
  imports DataTokens Config Queue
begin

text \<open>
  Adding a node (internal/data/clustering.go) and the health of this one (internal/data/events.go).
  The map of configured peers is shared between the configuration and the copy handed to the new
  node, so it is part of the state, with what was attached to join tokens. The etcd server, the TLS
  manager, and the parser of addresses are arguments.
\<close>

section \<open>Adding a member\<close>

text \<open>A parsed address: its host with the port, and its text with another host.\<close>

record peer_url =
  pu_Host :: string
  pu_String :: "string \<Rightarrow> string"

record etcd_member =
  em_Name :: string
  em_IsLearner :: bool
  em_PeerURLs :: "string list"

record cluster_env =
  cl_net :: net_env
  cl_parse_url :: "string \<Rightarrow> error + peer_url"
  cl_CreateToken :: "string \<Rightarrow> error + string"
  cl_MemberList :: "error + etcd_member list"
  cl_MemberAddAsLearner :: "string list \<Rightarrow> error option"

record cluster =
  cs_Peers :: "(string \<times> string list) list"
  cs_tokens :: "string \<rightharpoonup> Config"

text \<open>\<open>URL.Hostname\<close> and \<open>URL.Port\<close>.\<close>

definition split_port :: "string \<Rightarrow> string \<times> string" where
  "split_port hp =
     (let port = rev (takeWhile (\<lambda>c. c \<noteq> CHR '':'') (rev hp))
      in if CHR '':'' \<in> set hp \<and> list_all is_digit port then (take (length hp - length port - 1) hp, port) else (hp, ''''))"

definition Hostname :: "string \<Rightarrow> string" where
  "Hostname h =
     (let host = fst (split_port h)
      in if host \<noteq> '''' \<and> hd host = CHR ''['' \<and> last host = CHR '']'' \<and> 2 \<le> length host then butlast (tl host) else host)"

definition Port :: "string \<Rightarrow> string" where
  "Port h = snd (split_port h)"

definition goip_text :: "net_env \<Rightarrow> (bytes \<Rightarrow> string) \<Rightarrow> goip \<Rightarrow> string" where
  "goip_text N ip6 a = (case a of V4 b \<Rightarrow> ip4_string b | V6 b \<Rightarrow> ip6 b)"

text \<open>Where the new node is reached: a name is replaced by its first address, without a port.\<close>

definition resolved_host :: "net_env \<Rightarrow> (bytes \<Rightarrow> string) \<Rightarrow> string \<Rightarrow> string res" where
  "resolved_host N ip6 host =
     (if ParseIP N (Hostname host) \<noteq> None then Inr host
      else case lookup_ip N (Hostname host) of
        Inl e \<Rightarrow> Inl (GoErr (''unable to lookup new etcd listen address hostname: '' @ e))
      | Inr [] \<Rightarrow> Inl (GoErr (''no addresses found for hostname: '' @ Hostname host))
      | Inr (a # _) \<Rightarrow> Inr (goip_text N ip6 a))"

definition with_port :: "string \<Rightarrow> string" where
  "with_port host = (if Port host = '''' then host @ '':2380'' else host)"

fun add_peers :: "etcd_member list \<Rightarrow> (string \<times> string list) list \<Rightarrow> (string \<times> string list) list" where
  "add_peers [] peers = peers"
| "add_peers (m # ms) peers =
     add_peers ms (if em_IsLearner m then peers else AList.update (em_Name m) (em_PeerURLs m) peers)"

text \<open>The configuration the new node starts from.\<close>

definition join_config :: "Config \<Rightarrow> (string \<times> string list) list \<Rightarrow> string \<Rightarrow> string \<Rightarrow> string \<Rightarrow> Config" where
  "join_config conf peers name listen manager = conf
     \<lparr>cf_Clustering := (cf_Clustering conf)\<lparr>cd_Peers := peers, cd_ClusterState := ''existing'', cd_Name := name,
        cd_ListenAddresses := [listen], cd_TLSManagerListenURL := manager\<rparr>,
      cf_Acls := \<lparr>ac_Groups = [], ac_rGroupLookup = [], ac_Policies = []\<rparr>,
      cf_ManagementEnabled := False\<rparr>"

definition AddMember :: "cluster_env \<Rightarrow> (bytes \<Rightarrow> string) \<Rightarrow> Config \<Rightarrow> string \<Rightarrow> string \<Rightarrow> string \<Rightarrow> (cluster, string) eff" where
  "AddMember L ip6 conf name etcPeerUrlAddress newManagerAddressURL =
     (if \<not> prefix ''https://'' etcPeerUrlAddress then raise ''url must be https://''
      else case cl_parse_url L etcPeerUrlAddress of
        Inl e \<Rightarrow> raise e
      | Inr newUrl \<Rightarrow>
          let hostname = Hostname (pu_Host newUrl);
              name = (if name = '''' then hostname else name);
              manager = (if newManagerAddressURL = '''' then ''https://'' @ hostname @ '':4545'' else newManagerAddressURL)
          in ebind (lift (resolved_host (cl_net L) ip6 (pu_Host newUrl))) (\<lambda>host.
             let listen = pu_String newUrl (with_port host) in
             ebind (case cl_CreateToken L manager of Inl e \<Rightarrow> raise e | Inr t \<Rightarrow> ret t) (\<lambda>token.
             ebind (case cl_MemberList L of Inl e \<Rightarrow> raise e | Inr ms \<Rightarrow> ret ms) (\<lambda>members.
             ebind (\<lambda>s. let peers = AList.delete name (add_peers members (cs_Peers s)) in
                      (Inr (), s\<lparr>cs_Peers := peers,
                        cs_tokens := (cs_tokens s)(token \<mapsto> join_config conf peers name listen manager)\<rparr>)) (\<lambda>_.
             case cl_MemberAddAsLearner L [listen] of Some e \<Rightarrow> raise e | None \<Rightarrow> ret token)))))"

section \<open>Health of this node\<close>

text \<open>Who listens, by key, and what they were told, newest last.\<close>

record health =
  hl_listeners :: "string list"
  hl_told :: "(string \<times> string) list"
  hl_contexts :: "string list"

definition RegisterClusterHealthListener :: "error + string \<Rightarrow> (health, string) eff" where
  "RegisterClusterHealthListener random =
     (case random of Inl e \<Rightarrow> raise e | Inr key \<Rightarrow> (\<lambda>s. (Inr key, s\<lparr>hl_listeners := List.insert key (hl_listeners s)\<rparr>)))"

definition DeregisterEventListener :: "string \<Rightarrow> (health, unit) eff" where
  "DeregisterEventListener key s =
     (if key \<notin> set (hl_contexts s) then (Inl (GoErr (''even listener was not found: '' @ key)), s)
      else (Inr (), s\<lparr>hl_contexts := removeAll key (hl_contexts s)\<rparr>))"

definition notifyClusterHealthListeners :: "string \<Rightarrow> health \<Rightarrow> health" where
  "notifyClusterHealthListeners event s = s\<lparr>hl_told := hl_told s @ map (\<lambda>k. (k, event)) (hl_listeners s)\<rparr>"

definition notifyHealthy :: "bool \<Rightarrow> health \<Rightarrow> health" where
  "notifyHealthy learner = notifyClusterHealthListeners (if learner then ''learner'' else ''healthy'')"

text \<open>A tick of the cluster monitor: the ping is written, with a deadline, by nodes that may write.\<close>

definition testCluster :: "etcd \<Rightarrow> host \<Rightarrow> string \<Rightarrow> bool \<Rightarrow> (store \<times> health, unit) eff" where
  "testCluster E H now learner = (\<lambda>(s, h).
     case Put E (path_join [NodeInfo, hs_id H, ''ping'']) (Text now) s of
       (Inl (GoErr _), t) \<Rightarrow> (Inr (), (t, notifyClusterHealthListeners ''dead'' h))
     | (Inl f, t) \<Rightarrow> (Inl f, (t, h))
     | (Inr _, t) \<Rightarrow> (Inr (), (t, notifyHealthy learner h)))"

definition cluster_tick :: "etcd \<Rightarrow> host \<Rightarrow> string \<Rightarrow> bool \<Rightarrow> (store \<times> health, unit) eff" where
  "cluster_tick E H now learner = (if learner then ret () else testCluster E H now learner)"

text \<open>A tick of the leader monitor: the leader when it starts, and after two election timeouts.\<close>

definition leader_tick :: "u64 \<Rightarrow> u64 \<Rightarrow> health \<Rightarrow> health" where
  "leader_tick leader leader' h =
     (if leader = 0 then
        let h = notifyClusterHealthListeners ''electing'' h
        in if leader' = 0 then notifyClusterHealthListeners ''dead'' h else h
      else h)"

section \<open>What a new node is given\<close>

lemma map_of_delete_key: "map_of (AList.delete k xs) k = None"
  by (simp add: delete_conv')

text \<open>
  The configuration attached to a join token gives the new node its own name and addresses and no
  more: the node is not its own peer, the state is that of an existing cluster, and neither the access
  lists nor the management console of this node are passed on. Without \<open>https\<close> nothing happens.
\<close>

theorem join_config_clean:
  assumes "AddMember L ip6 conf name url manager s = (Inr token, t)"
  shows "prefix ''https://'' url \<and> (\<exists>c. cs_tokens t token = Some c \<and>
     map_of (cd_Peers (cf_Clustering c)) (cd_Name (cf_Clustering c)) = None \<and>
     cd_ClusterState (cf_Clustering c) = ''existing'' \<and> (name \<noteq> '''' \<longrightarrow> cd_Name (cf_Clustering c) = name) \<and>
     length (cd_ListenAddresses (cf_Clustering c)) = 1 \<and>
     ac_Groups (cf_Acls c) = [] \<and> ac_Policies (cf_Acls c) = [] \<and> \<not> cf_ManagementEnabled c)"
  using assms
  by (auto simp: AddMember_def Let_def join_config_def map_of_delete_key eff_inv
      split: if_splits sum.splits option.splits)

text \<open>A port given with a name is lost: the node is looked for at the default port of its address.\<close>

lemma ip4_string_no_colon: "CHR '':'' \<notin> set (ip4_string a)"
proof (cases a)
  case (IP4 w x y z)
  have "CHR '':'' \<notin> set (show_nat n)" for n
    using show_nat_no_sep [of "CHR '':''" n] by (simp add: not_digit)
  with IP4 show ?thesis by simp
qed

lemma named_host_loses_port:
  assumes "ParseIP N (Hostname h) = None" and "lookup_ip N (Hostname h) = Inr (V4 a # as)"
  shows "rbind (resolved_host N ip6 h) (\<lambda>host. Inr (with_port host)) = Inr (ip4_string a @ '':2380'')"
proof -
  have "Port (ip4_string a) = ''''" using ip4_string_no_colon by (simp add: Port_def split_port_def Let_def)
  with assms show ?thesis by (simp add: resolved_host_def goip_text_def with_port_def)
qed

end
