(* ===== verification/NodeLife.thy ===== *)
theory NodeLife
  imports RouterInv Cluster
begin

text \<open>
  The life of a node (commands/start.go): the checks before it starts, what it does when the cluster
  reports its state, and the end of the process. The listeners of the control socket, the portal and
  the management console are arguments; \<open>nd_up\<close> remembers which services were started, in order, and
  the teardown stops them all. A mutex makes each report one step.
\<close>

section \<open>Kernel version\<close>

text \<open>
  \<open>fmt.Sscanf(v, "%d.%d.%d")\<close> into 16-bit numbers: the numbers read before the text stops matching.
\<close>

fun scan_numbers :: "nat \<Rightarrow> string \<Rightarrow> nat list" where
  "scan_numbers 0 s = []"
| "scan_numbers (Suc k) s =
     (let ds = takeWhile is_digit s; rest = dropWhile is_digit s
      in if ds = '''' \<or> 2 ^ 16 \<le> nat_of_digits ds then []
         else nat_of_digits ds # (if k \<noteq> 0 \<and> rest \<noteq> '''' \<and> hd rest = CHR ''.'' then scan_numbers k (tl rest) else []))"

definition check_kernel :: "string \<Rightarrow> unit res" where
  "check_kernel kernelVersion =
     (case scan_numbers 3 kernelVersion of
        major # minor # _ \<Rightarrow>
          if major < 5 \<or> major = 5 \<and> minor < 9
          then Inl (GoErr (''kernel is too old('' @ kernelVersion @ ''), wag requires kernel version > 5.9''))
          else Inr ()
      | _ \<Rightarrow> Inl (GoErr (''this kernel version did not conform to kernel version format: '' @ kernelVersion)))"

text \<open>
  \<open>uname\<close>, reading the configuration, and opening the database are arguments. A node that joins gets
  its configuration from the cluster.
\<close>

definition start_Check :: "error + string \<Rightarrow> ('s, unit) eff \<Rightarrow> ('s, unit) eff \<Rightarrow> string \<Rightarrow> ('s, unit) eff" where
  "start_Check uname load_config load_data clusterJoinToken =
     (case uname of
        Inl e \<Rightarrow> raise (''could not get kernel version: '' @ e)
      | Inr kernelVersion \<Rightarrow>
          ebind (lift (check_kernel kernelVersion)) (\<lambda>_.
          ebind (if clusterJoinToken = '''' then load_config else ret ()) (\<lambda>_.
          wrap_err (\<lambda>e. ''cannot load database: '' @ e) load_data)))"

section \<open>Reports of the cluster\<close>

datatype service = RouterService | ControlSocket | Portal | ManagementUI

record life_env =
  le_R :: renv
  le_noIptables :: bool
  le_start :: "service \<Rightarrow> (router, unit) eff"
  le_version :: string

record node =
  nd_router :: router
  nd_wasDead :: bool
  nd_lastState :: string
  nd_up :: "service list"
  nd_errors :: "error list"

definition new_node :: "router \<Rightarrow> node" where
  "new_node r = \<lparr>nd_router = r, nd_wasDead = True, nd_lastState = '''', nd_up = [], nd_errors = []\<rparr>"

abbreviation on_router :: "(router, 'a) eff \<Rightarrow> (node, 'a) eff" where
  "on_router \<equiv> zoom nd_router (\<lambda>r n. n\<lparr>nd_router := r\<rparr>)"

definition le_witness :: "life_env \<Rightarrow> bool" where
  "le_witness L = cd_Witness (cf_Clustering (re_conf (le_R L)))"

definition started :: "service \<Rightarrow> (node, unit) eff" where
  "started v n = (Inr (), n\<lparr>nd_up := nd_up n @ [v]\<rparr>)"

definition start_service :: "life_env \<Rightarrow> string \<Rightarrow> service \<Rightarrow> (node, unit) eff" where
  "start_service L msg v =
     ebind (on_router (wrap_err (\<lambda>e. msg @ e)
       (if v = RouterService then Setup (le_R L) (\<not> le_noIptables L) else le_start L v))) (\<lambda>_. started v)"

definition start_services :: "life_env \<Rightarrow> (node, unit) eff" where
  "start_services L =
     ebind (start_service L ''unable to start router: '' RouterService) (\<lambda>_.
     ebind (start_service L ''unable to create control socket: '' ControlSocket) (\<lambda>_.
     ebind (start_service L ''unable to start webserver: '' Portal) (\<lambda>_.
     start_service L ''unable to start management web server: '' ManagementUI)))"

text \<open>Every service is stopped; what the router cannot undo stays.\<close>

definition node_teardown :: "life_env \<Rightarrow> (node, unit) eff" where
  "node_teardown L = ebind (on_router (TearDown (le_R L))) (\<lambda>_ n. (Inr (), n\<lparr>nd_up := []\<rparr>))"

definition write_node_data :: "life_env \<Rightarrow> bool \<Rightarrow> (node, unit) eff" where
  "write_node_data L learner =
     (if learner then ret ()
      else
        let E = re_etcd (le_R L); H = re_host (le_R L) in
        ebind (on_router (wrap_err (\<lambda>e. ''to write witness data when cluster is healthy: '' @ e) (in_store (SetWitness E H (le_witness L))))) (\<lambda>_.
        on_router (wrap_err (\<lambda>e. ''to write version data when cluster is healthy: '' @ e) (in_store (SetVersion E H (le_version L))))))"

text \<open>An error goes to the channel of the process; the node stays dead then.\<close>

definition report :: "(node, unit) eff \<Rightarrow> (node, unit) eff" where
  "report m = on_error m (\<lambda>e n. (Inr (), n\<lparr>nd_errors := nd_errors n @ [e]\<rparr>))"

definition set_dead :: "bool \<Rightarrow> (node, unit) eff" where
  "set_dead b n = (Inr (), n\<lparr>nd_wasDead := b\<rparr>)"

definition clusterState :: "life_env \<Rightarrow> bool \<Rightarrow> string \<Rightarrow> (node, unit) eff" where
  "clusterState L learner stateText n =
     (let n = n\<lparr>nd_lastState := stateText\<rparr> in
      if stateText = ''dead'' then
        if nd_wasDead n then (Inr (), n)
        else ebind (if le_witness L then ret () else node_teardown L) (\<lambda>_. set_dead True) n
      else if stateText = ''healthy'' then
        if nd_wasDead n
        then report (ebind (if le_witness L then ret () else start_services L) (\<lambda>_.
               ebind (write_node_data L learner) (\<lambda>_. set_dead False))) n
        else (Inr (), n)
      else (Inr (), n))"

section \<open>The process\<close>

text \<open>
  What \<open>Run\<close> sees: reports of the cluster, with whether this node is a learner, and signals. It ends
  at the first error or signal, after a teardown; \<open>None\<close> is a process that still runs.
\<close>

datatype life_event = Health string bool | Signal

definition signal_error :: error where "signal_error = ''ignore me I am signal''"

definition end_run :: "life_env \<Rightarrow> error \<Rightarrow> (node, unit) eff" where
  "end_run L e = ebind (node_teardown L) (\<lambda>_. if contains e signal_error then ret () else raise e)"

fun start_Run :: "life_env \<Rightarrow> life_event list \<Rightarrow> node \<Rightarrow> (unit res option \<times> node)" where
  "start_Run L [] n = (None, n)"
| "start_Run L (Signal # es) n = (case end_run L signal_error n of (r, m) \<Rightarrow> (Some r, m))"
| "start_Run L (Health t learner # es) n = (case clusterState L learner t n of
      (Inl f, m) \<Rightarrow> (Some (Inl f), m)
    | (Inr _, m) \<Rightarrow> (case nd_errors m of
        [] \<Rightarrow> start_Run L es m
      | e # _ \<Rightarrow> (case end_run L e m of (r, u) \<Rightarrow> (Some r, u))))"

section \<open>Calls that return no error\<close>

definition errorless :: "('s, 'a) eff \<Rightarrow> bool" where
  "errorless m \<longleftrightarrow> (\<forall>s e. fst (m s) \<noteq> Inl (GoErr e))"

named_theorems errorless_intro \<open>calls that return no error\<close>

lemma errorless_simps [errorless_intro, simp]: "errorless (ret x)" "errorless (panic p)" "errorless (attempt m)"
  by (auto simp: errorless_def attempt_def split: prod.splits sum.splits fault.splits)

lemma errorlessD: "errorless m \<Longrightarrow> m s = (Inl (GoErr e), t) \<Longrightarrow> False"
  by (auto simp: errorless_def dest: spec [of _ s])

lemma errorlessI: "(\<And>s e t. m s = (Inl (GoErr e), t) \<Longrightarrow> False) \<Longrightarrow> errorless m"
  unfolding errorless_def by (metis prod.collapse)

lemma errorless_bind [errorless_intro]: "errorless m \<Longrightarrow> (\<And>x. errorless (f x)) \<Longrightarrow> errorless (ebind m f)"
  by (rule errorlessI) (auto simp: ebind_def split: prod.splits sum.splits dest: errorlessD)

lemma errorless_andthen [errorless_intro]: "errorless m \<Longrightarrow> errorless n \<Longrightarrow> errorless (andthen m n)"
  by (simp add: andthen_def errorless_bind)

lemma errorless_on_error [errorless_intro]: "(\<And>e. errorless (h e)) \<Longrightarrow> errorless (on_error m h)"
  by (rule errorlessI) (auto simp: on_error_def split: prod.splits sum.splits fault.splits dest: errorlessD)

lemma errorless_logged [errorless_intro]: "errorless (logged m)"
  unfolding logged_def by (intro errorless_intro)

lemma errorless_zoom [errorless_intro]: "errorless m \<Longrightarrow> errorless (zoom get put m)"
  by (rule errorlessI) (auto simp: zoom_def split: prod.splits dest: errorlessD)

lemma errorless_if [errorless_intro]: "errorless m \<Longrightarrow> errorless n \<Longrightarrow> errorless (if b then m else n)"
  by simp

lemma errorless_for_each [errorless_intro]:
  assumes "\<And>x. errorless (f x)"
  shows "errorless (for_each f xs)"
  unfolding errorless_def
proof (intro allI)
  fix s e show "fst (for_each f xs s) \<noteq> Inl (GoErr e)"
  proof (induction xs arbitrary: s)
    case (Cons x xs)
    have "fst (f x s) \<noteq> Inl (GoErr e)" using assms unfolding errorless_def by blast
    with Cons.IH show ?case by (auto split: prod.splits sum.splits)
  qed simp
qed

lemma errorless_teardown: "errorless (TearDown R)"
proof -
  have "errorless (teardownIptables I c)" for I c
    unfolding teardownIptables_def Let_def by (cases "ipt_New I") (simp_all add: errorless_intro)
  then show ?thesis unfolding TearDown_def
    by (intro errorless_bind errorless_simps; simp split: sum.split add: errorless_intro)
qed

section \<open>Services and state\<close>

definition all_services :: "service list" where
  "all_services = [RouterService, ControlSocket, Portal, ManagementUI]"

lemma errorless_node_teardown: "errorless (node_teardown L)"
  unfolding node_teardown_def
  by (intro errorless_bind errorless_zoom errorless_teardown) (simp add: errorless_def)

text \<open>A node between reports: a witness serves nothing, another node serves exactly while it is alive.\<close>

definition node_ok :: "life_env \<Rightarrow> node \<Rightarrow> bool" where
  "node_ok L n \<longleftrightarrow> nd_errors n = [] \<and> nd_up n = (if le_witness L \<or> nd_wasDead n then [] else all_services)"

inductive node_alive :: "life_env \<Rightarrow> router \<Rightarrow> node \<Rightarrow> bool" for L r where
  booted: "node_alive L r (new_node r)"
| reported: "node_alive L r n \<Longrightarrow> clusterState L learner t n = (Inr (), m) \<Longrightarrow> nd_errors m = [] \<Longrightarrow> node_alive L r m"

inductive_cases node_alive_cases: "node_alive L r n"

lemma start_services_up:
  "start_services L n = (Inr u, m) \<Longrightarrow>
     nd_up m = nd_up n @ all_services \<and> nd_errors m = nd_errors n \<and> nd_wasDead m = nd_wasDead n"
  by (auto simp: start_services_def start_service_def started_def eff_inv zoom_eq_Inr all_services_def)

lemma write_node_data_up:
  "write_node_data L learner n = (Inr u, m) \<Longrightarrow>
     nd_up m = nd_up n \<and> nd_errors m = nd_errors n \<and> nd_wasDead m = nd_wasDead n"
  by (auto simp: write_node_data_def Let_def eff_inv zoom_eq_Inr split: if_splits)

lemma node_teardown_up:
  "node_teardown L n = (Inr u, m) \<Longrightarrow> nd_up m = [] \<and> nd_errors m = nd_errors n \<and> nd_wasDead m = nd_wasDead n"
  by (auto simp: node_teardown_def eff_inv zoom_eq_Inr)

lemma errorless_clusterState: "errorless (clusterState L learner t)"
proof -
  have r: "errorless (report m)" for m
    unfolding report_def by (intro errorless_on_error) (simp add: errorless_def)
  define stop where "stop = ebind (if le_witness L then ret () else node_teardown L) (\<lambda>_. set_dead True)"
  have d: "errorless stop" unfolding stop_def
    by (intro errorless_bind errorless_if errorless_node_teardown) (simp_all add: errorless_def set_dead_def)
  show ?thesis unfolding clusterState_def Let_def stop_def [symmetric]
    by (rule errorlessI) (auto split: if_splits dest: errorlessD [OF r] errorlessD [OF d])
qed

lemma report_ok: "report m n = (Inr u, n') \<Longrightarrow> nd_errors n' = [] \<Longrightarrow> m n = (Inr u, n')"
  by (auto simp: report_def on_error_def split: prod.splits sum.splits fault.splits)

lemma clusterState_ok:
  assumes "node_ok L n" and "clusterState L learner t n = (Inr (), m)" and "nd_errors m = []"
  shows "node_ok L m"
proof -
  let ?n = "n\<lparr>nd_lastState := t\<rparr>"
  consider "t = ''dead''" "\<not> nd_wasDead n" | "t = ''healthy''" "nd_wasDead n" | "m = ?n"
    using assms(2) by (auto simp: clusterState_def Let_def split: if_splits)
  then show ?thesis
  proof cases
    case 1
    with assms(2) have "ebind (if le_witness L then ret () else node_teardown L) (\<lambda>_. set_dead True) ?n = (Inr (), m)"
      by (simp add: clusterState_def Let_def)
    with assms(1) 1 show ?thesis
      by (auto simp: node_ok_def eff_inv set_dead_def dest!: node_teardown_up split: if_splits)
  next
    case 2
    with assms(2,3) have "ebind (if le_witness L then ret () else start_services L) (\<lambda>_.
        ebind (write_node_data L learner) (\<lambda>_. set_dead False)) ?n = (Inr (), m)"
      by (auto simp: clusterState_def Let_def dest: report_ok)
    with assms(1) 2 show ?thesis
      by (auto simp: node_ok_def eff_inv set_dead_def dest!: start_services_up write_node_data_up split: if_splits)
  next
    case 3
    with assms(1) show ?thesis by (simp add: node_ok_def)
  qed
qed

lemma node_alive_ok: "node_alive L r n \<Longrightarrow> node_ok L n"
proof (induction rule: node_alive.induct)
  case booted
  show ?case by (simp add: new_node_def node_ok_def)
qed (rule clusterState_ok)

lemma end_run_up:
  assumes "end_run L e n = (r, m)" and "\<forall>p. r \<noteq> Inl (GoPanic p)" and "r \<noteq> Inl OutOfFuel"
  shows "nd_up m = []"
proof -
  obtain a k where t: "node_teardown L n = (a, k)" by (cases "node_teardown L n")
  with errorless_node_teardown have "\<forall>x. a \<noteq> Inl (GoErr x)" by (blast dest: errorlessD)
  with assms t obtain u where "a = Inr u" by (cases a) (auto simp: end_run_def ebind_def, metis fault.exhaust)
  with t node_teardown_up have "nd_up k = []" by blast
  with assms(1) t \<open>a = Inr u\<close> show ?thesis by (auto simp: end_run_def ebind_def split: if_splits)
qed


section \<open>A concrete node\<close>

definition life_demo :: life_env where
  "life_demo = \<lparr>le_R = renv_ref, le_noIptables = True, le_start = (\<lambda>_. ret ()), le_version = ''v8''\<rparr>"

definition life_router :: router where
  "life_router = first_state\<lparr>rt_store := put_key InactivityTimeoutKey (Json (JNum 60)) no_store\<rparr>"

definition live_node :: node where
  "live_node = snd (clusterState life_demo True ''healthy'' (new_node life_router))"

lemma live_node_eq:
  "fst (clusterState life_demo True ''healthy'' (new_node life_router)) = Inr () \<and> nd_errors live_node = [] \<and>
   \<not> nd_wasDead live_node \<and> \<not> le_witness life_demo"
  unfolding live_node_def by code_simp

lemma live_node_alive: "node_alive life_demo life_router live_node"
proof (rule reported [OF booted])
  show "clusterState life_demo True ''healthy'' (new_node life_router) = (Inr (), live_node)"
    using live_node_eq unfolding live_node_def by (metis prod.collapse)
qed (use live_node_eq in simp)


end
