(* ===== verification/Commands.thy ===== *)
theory Commands
  imports ControlClient NodeLife
begin

text \<open>
  The command line: main.go, and commands/*.go for the commands that talk to a running server. A
  command parses its flags, checks them, and runs over the control client. What is printed is kept in
  order beside the state of the server. Printing the usage of a command is left out.
\<close>

section \<open>Flags\<close>

text \<open>
  The package flag: a flag set knows the kind of each flag; parsing gives the flags that were set with
  the text given, in order. A boolean flag takes a value only after \<open>=\<close>.
\<close>

datatype flag_kind = BoolFlag | StringFlag | IntFlag

type_synonym flag_set = "(string \<times> flag_kind) list"

type_synonym flag_values = "(string \<times> string) list"

definition ErrHelp :: error where "ErrHelp = ''flag: help requested''"

definition is_bool_text :: "string \<Rightarrow> bool" where
  "is_bool_text v \<longleftrightarrow> v \<in> {''1'', ''t'', ''T'', ''true'', ''TRUE'', ''True'', ''0'', ''f'', ''F'', ''false'', ''FALSE'', ''False''}"

text \<open>What a value of a flag has to be; \<open>is_int\<close> says which texts \<open>strconv.ParseInt\<close> takes.\<close>

definition set_flag :: "(string \<Rightarrow> bool) \<Rightarrow> string \<Rightarrow> flag_kind \<Rightarrow> string \<Rightarrow> error + (string \<times> string)" where
  "set_flag is_int name k v = (case k of
      BoolFlag \<Rightarrow> if is_bool_text v then Inr (name, v) else Inl (''invalid boolean value for -'' @ name)
    | StringFlag \<Rightarrow> Inr (name, v)
    | IntFlag \<Rightarrow> if is_int v then Inr (name, v) else Inl (''invalid value for flag -'' @ name))"

definition split_value :: "string \<Rightarrow> string \<times> string option" where
  "split_value s = (case dropWhile (\<lambda>c. c \<noteq> CHR ''='') s of
      [] \<Rightarrow> (s, None) | _ # v \<Rightarrow> (takeWhile (\<lambda>c. c \<noteq> CHR ''='') s, Some v))"

fun Parse :: "(string \<Rightarrow> bool) \<Rightarrow> flag_set \<Rightarrow> string list \<Rightarrow> error + flag_values" where
  "Parse is_int fs [] = Inr []"
| "Parse is_int fs (s # args) =
     (if length s < 2 \<or> hd s \<noteq> CHR ''-'' then Inr []
      else if s = ''--'' then Inr []
      else
        let nm = (if s ! 1 = CHR ''-'' then drop 2 s else drop 1 s) in
        if hd nm = CHR ''-'' \<or> hd nm = CHR ''='' then Inl (''bad flag syntax: '' @ s)
        else (case split_value nm of (name, given) \<Rightarrow>
          (case map_of fs name of
             None \<Rightarrow> Inl (if name = ''help'' \<or> name = ''h'' then ErrHelp else ''flag provided but not defined: -'' @ name)
           | Some k \<Rightarrow> (case given of
               Some v \<Rightarrow> rbind (set_flag is_int name k v) (\<lambda>x. rbind (Parse is_int fs args) (\<lambda>xs. Inr (x # xs)))
             | None \<Rightarrow>
                 if k = BoolFlag then rbind (Parse is_int fs args) (\<lambda>xs. Inr ((name, ''true'') # xs))
                 else (case args of
                     [] \<Rightarrow> Inl (''flag needs an argument: -'' @ name)
                   | v # rest \<Rightarrow> rbind (set_flag is_int name k v) (\<lambda>x. rbind (Parse is_int fs rest) (\<lambda>xs. Inr (x # xs))))))))"

text \<open>The value of a flag: the last one given, or the default. \<open>Visit\<close> goes through the flags set by name.\<close>

definition flag_value :: "flag_values \<Rightarrow> string \<Rightarrow> string \<Rightarrow> string" where
  "flag_value vs name z = (case map_of (rev vs) name of Some v \<Rightarrow> v | None \<Rightarrow> z)"

definition Visit :: "flag_values \<Rightarrow> string list" where
  "Visit vs = sort (remdups (map fst vs))"

text \<open>The action of a command: the last of its action flags that \<open>Visit\<close> comes to.\<close>

definition visited_action :: "string list \<Rightarrow> flag_values \<Rightarrow> string" where
  "visited_action actions vs = fold (\<lambda>f a. if f \<in> set actions then to_lower f else a) (Visit vs) ''''"

definition unknown_flag :: "string \<Rightarrow> 'a res" where
  "unknown_flag action = Inl (GoErr (''Unknown flag: '' @ action))"

section \<open>Running a command\<close>

text \<open>The state of the server and what was printed.\<close>

type_synonym ('s, 'a) cli = "('s \<times> string list, 'a) eff"

definition remote_call :: "('s, 'a) eff \<Rightarrow> ('s, 'a) cli" where
  "remote_call m = zoom fst (\<lambda>s (_, out). (s, out)) m"

definition Println :: "string \<Rightarrow> ('s, unit) cli" where
  "Println l = (\<lambda>(s, out). (Inr (), (s, out @ [l])))"

definition and_ok :: "('s, unit) eff \<Rightarrow> ('s, unit) cli" where
  "and_ok m = ebind (remote_call m) (\<lambda>_. Println ''OK'')"

definition comma :: "string list \<Rightarrow> string" where
  "comma = join_str '',''"

text \<open>What \<open>fmt\<close> makes of a device and of its end point is an argument.\<close>

section \<open>Devices\<close>

record devices_cmd =
  dc_address :: string
  dc_username :: string
  dc_action :: string

definition devices_flags :: flag_set where
  "devices_flags = [(''address'', StringFlag), (''socket'', StringFlag), (''username'', StringFlag), (''del'', BoolFlag),
     (''list'', BoolFlag), (''mfa_sessions'', BoolFlag), (''unlock'', BoolFlag), (''lock'', BoolFlag)]"

definition devices_Check :: "flag_values \<Rightarrow> devices_cmd res" where
  "devices_Check vs =
     (let g = \<lparr>dc_address = flag_value vs ''address'' '''', dc_username = flag_value vs ''username'' '''',
               dc_action = visited_action [''unlock'', ''del'', ''list'', ''lock'', ''mfa_sessions''] vs\<rparr> in
      if dc_action g \<in> {''del'', ''unlock'', ''lock''} then
        if dc_address g = '''' \<and> dc_username g = '''' then Inl (GoErr ''address or username must be supplied'') else Inr g
      else if dc_action g \<in> {''list'', ''mfa_sessions''} then Inr g
      else unknown_flag (dc_action g))"

definition device_line :: "(udp_addr option \<Rightarrow> string) \<Rightarrow> Device \<Rightarrow> string" where
  "device_line show_udp d = comma [dv_Username d, dv_Address d, dv_Publickey d, show_int (dv_Attempts d), show_udp (dv_Endpoint d)]"

definition devices_Run ::
  "(udp_addr option \<Rightarrow> string) \<Rightarrow> (Device \<Rightarrow> string) \<Rightarrow> 's CtrlClient \<Rightarrow> devices_cmd \<Rightarrow> ('s, unit) cli" where
  "devices_Run show_udp show_device ctl g =
     (if dc_action g = ''del'' then
        if dc_username g \<noteq> '''' then
          ebind (remote_call (client_ListDevice ctl (dc_username g))) (\<lambda>ds.
          ebind (Println (''deleting all devices for:  '' @ dc_username g)) (\<lambda>_.
          ebind (for_each (\<lambda>d. ebind (Println (''deleting  '' @ dv_Address d)) (\<lambda>_.
                   remote_call (client_DeleteDevice ctl (dv_Address d)))) ds) (\<lambda>_. Println ''OK'')))
        else and_ok (client_DeleteDevice ctl (dc_address g))
      else if dc_action g = ''list'' then
        ebind (remote_call (client_ListDevice ctl '''')) (\<lambda>ds.
        ebind (Println ''username,address,publickey,authattempts,endpoint'') (\<lambda>_.
        for_each (\<lambda>d. Println (device_line show_udp d)) ds))
      else if dc_action g = ''mfa_sessions'' then
        ebind (remote_call (client_Sessions ctl)) (\<lambda>sessions. Println (show_strings sessions))
      else if dc_action g = ''lock'' then
        if dc_username g \<noteq> '''' then
          ebind (remote_call (client_ListDevice ctl (dc_username g))) (\<lambda>ds.
          ebind (for_each (\<lambda>d. ebind (Println (''locking  '' @ show_device d)) (\<lambda>_.
                   remote_call (client_LockDevice ctl (dv_Address d)))) ds) (\<lambda>_. Println ''OK''))
        else and_ok (client_LockDevice ctl (dc_address g))
      else if dc_action g = ''unlock'' then
        if dc_username g \<noteq> '''' then
          ebind (remote_call (client_ListDevice ctl (dc_username g))) (\<lambda>ds.
          ebind (for_each (\<lambda>d. remote_call (client_UnlockDevice ctl (dv_Address d))) ds) (\<lambda>_. Println ''OK''))
        else and_ok (client_UnlockDevice ctl (dc_address g))
      else ret ())"

section \<open>Users\<close>

record users_cmd =
  uc_username :: string
  uc_action :: string

definition users_flags :: flag_set where
  "users_flags = [(''username'', StringFlag), (''socket'', StringFlag), (''del'', BoolFlag), (''list'', BoolFlag),
     (''lockaccount'', BoolFlag), (''unlockaccount'', BoolFlag), (''reset-mfa'', BoolFlag)]"

definition users_Check :: "flag_values \<Rightarrow> users_cmd res" where
  "users_Check vs =
     (let g = \<lparr>uc_username = flag_value vs ''username'' '''',
               uc_action = visited_action [''lockaccount'', ''unlockaccount'', ''del'', ''list'', ''reset-mfa''] vs\<rparr> in
      if uc_action g \<in> {''del'', ''unlockaccount'', ''lockaccount'', ''reset-mfa''} then
        if uc_username g = '''' then Inl (GoErr ''username must be supplied'') else Inr g
      else if uc_action g = ''list'' then Inr g
      else unknown_flag (uc_action g))"

definition users_Run :: "'s CtrlClient \<Rightarrow> users_cmd \<Rightarrow> ('s, unit) cli" where
  "users_Run ctl g =
     (if uc_action g = ''del'' then and_ok (client_DeleteUser ctl (uc_username g))
      else if uc_action g = ''list'' then
        ebind (remote_call (client_ListUsers ctl (uc_username g))) (\<lambda>us.
        ebind (Println ''username,locked,enforcingmfa'') (\<lambda>_.
        for_each (\<lambda>u. Println (comma [um_Username u, bool_text (um_Locked u), bool_text (um_Enforcing u)])) us))
      else if uc_action g = ''lockaccount'' then and_ok (client_LockUser ctl (uc_username g))
      else if uc_action g = ''unlockaccount'' then and_ok (client_UnlockUser ctl (uc_username g))
      else if uc_action g = ''reset-mfa'' then and_ok (client_ResetUserMFA ctl (uc_username g))
      else ret ())"

section \<open>Registration tokens\<close>

record registration_cmd =
  rc_token :: string
  rc_username :: string
  rc_action :: string
  rc_groups :: "string list"
  rc_overwrite :: string
  rc_uses :: int

definition registration_flags :: flag_set where
  "registration_flags = [(''token'', StringFlag), (''username'', StringFlag), (''group'', StringFlag), (''groups'', StringFlag),
     (''socket'', StringFlag), (''overwrite'', StringFlag), (''uses'', IntFlag), (''add'', BoolFlag), (''del'', BoolFlag),
     (''list'', BoolFlag)]"

text \<open>Every \<open>-group\<close> adds one group; names get the prefix they lack.\<close>

definition with_group_prefix :: "string \<Rightarrow> string" where
  "with_group_prefix g = (if prefix ''group:'' g then g else ''group:'' @ g)"

definition registration_Check :: "(string \<Rightarrow> int) \<Rightarrow> flag_values \<Rightarrow> registration_cmd res" where
  "registration_Check int_of vs =
     (let groups = map snd (filter (\<lambda>x. fst x = ''group'') vs);
          groupsString = flag_value vs ''groups'' '''';
          groups = (if groupsString \<noteq> '''' then groups @ split_on (CHR '','') groupsString else groups);
          g = \<lparr>rc_token = flag_value vs ''token'' '''', rc_username = flag_value vs ''username'' '''',
               rc_action = visited_action [''add'', ''del'', ''list''] vs, rc_groups = map with_group_prefix groups,
               rc_overwrite = flag_value vs ''overwrite'' '''', rc_uses = int_of (flag_value vs ''uses'' ''1'')\<rparr> in
      if rc_action g = ''add'' then
        if rc_username g = '''' then Inl (GoErr ''username must be supplied'') else Inr g
      else if rc_action g = ''del'' then
        if rc_token g = '''' \<and> rc_username g = '''' then Inl (GoErr ''token or username must be supplied'') else Inr g
      else if rc_action g = ''list'' then Inr g
      else unknown_flag (rc_action g))"

definition registration_Run :: "'s CtrlClient \<Rightarrow> registration_cmd \<Rightarrow> ('s, unit) cli" where
  "registration_Run ctl g =
     (if rc_action g = ''add'' then
        ebind (remote_call (client_NewRegistration ctl (rc_token g) (rc_username g) (rc_overwrite g) (rc_uses g) (rc_groups g))) (\<lambda>result.
        ebind (Println ''token,username'') (\<lambda>_. Println (comma [rr_Token result, rr_Username result])))
      else if rc_action g = ''del'' then
        and_ok (client_DeleteRegistration ctl (if rc_token g = '''' then rc_username g else rc_token g))
      else if rc_action g = ''list'' then
        ebind (remote_call (client_Registrations ctl)) (\<lambda>tokens.
        ebind (Println ''token,username,overwrites,groups'') (\<lambda>_.
        for_each (\<lambda>t. Println (comma [rr_Token t, rr_Username t, rr_Overwrites t, show_strings (rr_Groups t)])) tokens))
      else ret ())"

section \<open>Administrators\<close>

record webadmin_cmd =
  wc_username :: string
  wc_password :: string
  wc_action :: string
  wc_isTempPass :: bool

definition webadmin_flags :: flag_set where
  "webadmin_flags = [(''username'', StringFlag), (''password'', StringFlag), (''socket'', StringFlag), (''add'', BoolFlag),
     (''temp'', BoolFlag), (''del'', BoolFlag), (''list'', BoolFlag), (''reset'', BoolFlag), (''lockaccount'', BoolFlag),
     (''unlockaccount'', BoolFlag)]"

definition webadmin_Check :: "flag_values \<Rightarrow> webadmin_cmd res" where
  "webadmin_Check vs =
     (let g = \<lparr>wc_username = flag_value vs ''username'' '''', wc_password = flag_value vs ''password'' '''',
               wc_action = visited_action [''lockaccount'', ''unlockaccount'', ''del'', ''list'', ''add'', ''reset''] vs,
               wc_isTempPass = (''temp'' \<in> set (Visit vs))\<rparr> in
      if wc_action g \<in> {''del'', ''unlockaccount'', ''lockaccount''} then
        if wc_username g = '''' then Inl (GoErr ''username must be supplied'') else Inr g
      else if wc_action g = ''list'' then Inr g
      else if wc_action g \<in> {''add'', ''reset''} then
        if wc_username g = '''' \<or> wc_password g = ''''
        then Inl (GoErr ''both username and password must be specified for this command'') else Inr g
      else unknown_flag (wc_action g))"

definition webadmin_Run :: "'s CtrlClient \<Rightarrow> webadmin_cmd \<Rightarrow> ('s, unit) cli" where
  "webadmin_Run ctl g =
     (if wc_action g = ''add'' then and_ok (client_AddAdminUser ctl (wc_username g) (wc_password g) (wc_isTempPass g))
      else if wc_action g = ''reset'' then and_ok (client_SetAdminUserPassword ctl (wc_username g) (wc_password g))
      else if wc_action g = ''del'' then and_ok (client_DeleteAdminUser ctl (wc_username g))
      else if wc_action g = ''list'' then
        ebind (remote_call (client_ListAdminUsers ctl (wc_username g))) (\<lambda>us.
        ebind (Println ''username,attempts,date_added,last_login,ip'') (\<lambda>_.
        for_each (\<lambda>u. Println (comma [am_Username u, show_int (am_Attempts u), am_DateAdded u, am_LastLogin u, am_IP u])) us))
      else if wc_action g = ''lockaccount'' then and_ok (client_LockAdminUser ctl (wc_username g))
      else if wc_action g = ''unlockaccount'' then and_ok (client_UnlockAdminUser ctl (wc_username g))
      else ret ())"

section \<open>Firewall, version and cleanup\<close>

definition firewall_flags :: flag_set where
  "firewall_flags = [(''list'', BoolFlag), (''socket'', StringFlag)]"

definition firewall_Check :: "flag_values \<Rightarrow> string res" where
  "firewall_Check vs =
     (let action = visited_action [''list''] vs in
      if action = ''list'' then Inr action else Inl (GoErr ''invalid action choice''))"

definition firewall_Run :: "'s CtrlClient \<Rightarrow> string \<Rightarrow> ('s, unit) cli" where
  "firewall_Run ctl action =
     (if action = ''list'' then
        ebind (remote_call (client_FirewallRules ctl)) (\<lambda>rules. Println (cc_render ctl (enc_rules_map rules)))
      else ret ())"

definition version_flags :: flag_set where
  "version_flags = [(''local'', BoolFlag), (''socket'', StringFlag)]"

definition version_Check :: "flag_values \<Rightarrow> string res" where
  "version_Check vs =
     (let action = visited_action [''local''] vs in
      if action = ''local'' \<or> action = '''' then Inr action else unknown_flag action)"

definition version_Run :: "string \<Rightarrow> string \<Rightarrow> 's CtrlClient \<Rightarrow> string \<Rightarrow> ('s, unit) cli" where
  "version_Run local_version local_hash ctl action =
     (if action = '''' then
        ebind (remote_call (client_GetVersion ctl)) (\<lambda>ver.
        ebind (remote_call (client_GetBPFVersion ctl)) (\<lambda>hash.
        ebind (Println ''remote'') (\<lambda>_.
        ebind (Println (''Version: '' @ ver)) (\<lambda>_. Println (''Hash: '' @ hash)))))
      else
        ebind (Println ''local'') (\<lambda>_.
        ebind (Println (''Version: '' @ local_version)) (\<lambda>_. Println (''Hash: '' @ local_hash))))"

text \<open>
  The service manager's exit status decides whether anything is left to remove; the teardowns of the
  socket file and the database are arguments.
\<close>

definition cleanup_Run :: "renv \<Rightarrow> (router, unit) eff \<Rightarrow> (router, unit) eff \<Rightarrow> string \<Rightarrow> (router, unit) eff" where
  "cleanup_Run R socket_teardown data_teardown result =
     (if result \<noteq> ''0'' \<and> result \<noteq> ''3''
      then ebind (TearDown R) (\<lambda>_. ebind socket_teardown (\<lambda>_. data_teardown))
      else ret ())"

section \<open>Choosing a command\<close>

text \<open>A command: its name, its flags, and its check followed by its run.\<close>

record 's command =
  cmd_Name :: string
  cmd_flags :: flag_set
  cmd_run :: "flag_values \<Rightarrow> unit res + ('s, unit) cli"

definition checked :: "'c res \<Rightarrow> ('c \<Rightarrow> ('s, unit) cli) \<Rightarrow> unit res + ('s, unit) cli" where
  "checked r run = (case r of Inl e \<Rightarrow> Inl (Inl e) | Inr g \<Rightarrow> Inr (run g))"

definition client_commands ::
  "(udp_addr option \<Rightarrow> string) \<Rightarrow> (Device \<Rightarrow> string) \<Rightarrow> (string \<Rightarrow> int) \<Rightarrow> string \<Rightarrow> string \<Rightarrow> 's CtrlClient \<Rightarrow> 's command list" where
  "client_commands show_udp show_device int_of ver hash ctl =
     [\<lparr>cmd_Name = ''registration'', cmd_flags = registration_flags,
       cmd_run = (\<lambda>vs. checked (registration_Check int_of vs) (registration_Run ctl))\<rparr>,
      \<lparr>cmd_Name = ''devices'', cmd_flags = devices_flags,
       cmd_run = (\<lambda>vs. checked (devices_Check vs) (devices_Run show_udp show_device ctl))\<rparr>,
      \<lparr>cmd_Name = ''users'', cmd_flags = users_flags, cmd_run = (\<lambda>vs. checked (users_Check vs) (users_Run ctl))\<rparr>,
      \<lparr>cmd_Name = ''firewall'', cmd_flags = firewall_flags, cmd_run = (\<lambda>vs. checked (firewall_Check vs) (firewall_Run ctl))\<rparr>,
      \<lparr>cmd_Name = ''webadmin'', cmd_flags = webadmin_flags, cmd_run = (\<lambda>vs. checked (webadmin_Check vs) (webadmin_Run ctl))\<rparr>,
      \<lparr>cmd_Name = ''version'', cmd_flags = version_flags,
       cmd_run = (\<lambda>vs. checked (version_Check vs) (version_Run ver hash ctl))\<rparr>]"

text \<open>\<open>root\<close>; an unknown command prints the help, which is one line here.\<close>

definition run_command :: "(string \<Rightarrow> bool) \<Rightarrow> 's command \<Rightarrow> string list \<Rightarrow> ('s, unit) cli" where
  "run_command is_int cmd args =
     (case Parse is_int (cmd_flags cmd) args of
        Inl e \<Rightarrow> raise e
      | Inr vs \<Rightarrow> (case cmd_run cmd vs of Inl r \<Rightarrow> lift r | Inr run \<Rightarrow> run))"

definition root :: "(string \<Rightarrow> bool) \<Rightarrow> 's command list \<Rightarrow> string list \<Rightarrow> ('s, unit) cli" where
  "root is_int cmds args = (case args of
      [] \<Rightarrow> Println ''No submodule specified (do you need (-h)elp?)''
    | subcommand # rest \<Rightarrow> (case find (\<lambda>c. cmd_Name c = subcommand) cmds of
          Some cmd \<Rightarrow> run_command is_int cmd rest
        | None \<Rightarrow>
            if subcommand \<in> {''-h'', ''--help'', ''-help''} then ret ()
            else Println (''Unknown subcommand: '' @ subcommand)))"

section \<open>What the flags do\<close>

text \<open>An action is chosen by naming its flag, whatever value it is given.\<close>

lemma false_still_deletes:
  "run_command is_int \<lparr>cmd_Name = ''users'', cmd_flags = users_flags, cmd_run = (\<lambda>vs. checked (users_Check vs) (users_Run ctl))\<rparr>
     [''-del=false'', ''-username'', CHR ''a'' # n] = and_ok (client_DeleteUser ctl (CHR ''a'' # n))"
proof -
  have parse: "Parse is_int users_flags [''-del=false'', ''-username'', CHR ''a'' # n] =
      Inr [(''del'', ''false''), (''username'', CHR ''a'' # n)]"
    by (simp add: split_value_def users_flags_def set_flag_def is_bool_text_def)
  have "sort [''del'', ''username''] = [''del'', ''username'']" by code_simp
  then have "visited_action [''lockaccount'', ''unlockaccount'', ''del'', ''list'', ''reset-mfa''] [(''del'', ''false''), (''username'', CHR ''a'' # n)] =
      to_lower ''del''" by (simp add: visited_action_def Visit_def)
  moreover have "to_lower ''del'' = ''del''" by code_simp
  ultimately show ?thesis
    by (simp add: run_command_def parse users_Check_def users_Run_def checked_def flag_value_def del: Parse.simps)
qed

text \<open>Deleting tokens by user name deletes the token of that name, which need not exist, and reports success.\<close>

lemma tokens_by_user_name:
  "rc_action g = ''del'' \<Longrightarrow> rc_token g = '''' \<Longrightarrow>
     registration_Run ctl g = and_ok (client_DeleteRegistration ctl (rc_username g))"
  by (simp add: registration_Run_def)

end
