(* ===== verification/GenConfig.thy ===== *)
theory GenConfig
  imports Commands
begin

text \<open>
  commands/gen-config.go: the dialogue that writes a configuration file. The terminal is what is left to
  read and what has been printed; a file is the configuration in it, with the part about the management
  console that Config leaves out. \<open>fmt.Scanf\<close> on the terminal is modelled for the two formats used.
\<close>

section \<open>Reading answers\<close>

text \<open>
  Skipping spaces ends at a line break, which is taken and is an error, at the end of the input, or at a
  token. Standard input cannot take a character back, so the one after a token is lost.
\<close>

fun skip_space :: "string \<Rightarrow> bool \<times> string" where
  "skip_space [] = (False, [])"
| "skip_space (c # cs) =
     (if c = CHR 0x0D \<and> prefix [CHR 0x0A] cs then skip_space cs
      else if c = CHR 0x0A then (False, cs)
      else if is_space c then skip_space cs
      else (True, c # cs))"

text \<open>\<open>Scanf("%s")\<close> and \<open>Scanf("%d")\<close>: the value, if one was read, and what is left.\<close>

definition Scanf_s :: "string \<Rightarrow> string option \<times> string" where
  "Scanf_s inp = (case skip_space inp of
      (False, rest) \<Rightarrow> (None, rest)
    | (True, rest) \<Rightarrow> (Some (takeWhile (\<lambda>c. \<not> is_space c) rest), drop 1 (dropWhile (\<lambda>c. \<not> is_space c) rest)))"

definition Scanf_d :: "string \<Rightarrow> int option \<times> string" where
  "Scanf_d inp = (case skip_space inp of
      (False, rest) \<Rightarrow> (None, rest)
    | (True, rest) \<Rightarrow>
        let (sign, ds) = (case rest of c # cs \<Rightarrow> if c = CHR ''+'' \<or> c = CHR ''-'' then ([c], cs) else ([], rest) | [] \<Rightarrow> ([], []));
            number = takeWhile is_digit ds
        in (if number = [] then None else atoi (sign @ number), drop 1 (dropWhile is_digit ds)))"

section \<open>The dialogue\<close>

record generated =
  ge_config :: Config
  ge_ui_ListenAddress :: string
  ge_ui_KeyPath :: string
  ge_ui_CertPath :: string

record terminal =
  tt_in :: string
  tt_out :: "string list"
  tt_files :: "string \<rightharpoonup> generated"

record genconfig_env =
  gc_now :: string
  gc_InterfaceByName :: "string \<Rightarrow> bool"
  gc_GenerateKey :: "error + string"
  gc_parse_scheme :: "string \<Rightarrow> error + string"
  gc_WriteFile :: "string \<Rightarrow> error option"

definition Print :: "string \<Rightarrow> (terminal, unit) eff" where
  "Print t s = (Inr (), s\<lparr>tt_out := tt_out s @ [t]\<rparr>)"

text \<open>A question with the value that stays when nothing is read.\<close>

definition ask :: "string \<Rightarrow> string \<Rightarrow> (terminal, string) eff" where
  "ask prompt z = ebind (Print prompt) (\<lambda>_ s.
     case Scanf_s (tt_in s) of (v, rest) \<Rightarrow> (Inr (case v of Some x \<Rightarrow> x | None \<Rightarrow> z), s\<lparr>tt_in := rest\<rparr>))"

definition ask_number :: "string \<Rightarrow> int \<Rightarrow> (terminal, int) eff" where
  "ask_number prompt z = ebind (Print prompt) (\<lambda>_ s.
     case Scanf_d (tt_in s) of (v, rest) \<Rightarrow> (Inr (case v of Some x \<Rightarrow> x | None \<Rightarrow> z), s\<lparr>tt_in := rest\<rparr>))"

definition zero_config :: Config where
  "zero_config = \<lparr>cf_Socket = '''', cf_CheckUpdates = False, cf_NumberProxies = 0, cf_Proxied = False, cf_ExposePorts = [],
     cf_NAT = None, cf_MFATemplatesDirectory = '''', cf_HelpMail = '''', cf_Lockout = 0, cf_ExternalAddress = '''',
     cf_MaxSessionLifetimeMinutes = 0, cf_SessionInactivityTimeoutMinutes = 0, cf_DownloadConfigFileName = '''',
     cf_ManagementEnabled = False,
     cf_Public = \<lparr>uw_ListenAddress = '''', uw_details = \<lparr>CertPath = '''', KeyPath = ''''\<rparr>\<rparr>,
     cf_Tunnel = \<lparr>tw_details = \<lparr>CertPath = '''', KeyPath = ''''\<rparr>, tw_Port = ''''\<rparr>,
     cf_Clustering = \<lparr>cd_Name = '''', cd_ListenAddresses = [], cd_Peers = [], cd_DatabaseLocation = '''', cd_ETCDLogLevel = '''',
       cd_Witness = False, cd_ClusterState = '''', cd_TLSManagerStorage = '''', cd_TLSManagerListenURL = ''''\<rparr>,
     cf_Authenticators = \<lparr>au_DefaultMethod = '''', au_Issuer = '''', au_Methods = [], au_DomainURL = '''', au_OIDC = zero_oidc,
       au_PAM = \<lparr>pam_ServiceName = ''''\<rparr>\<rparr>,
     cf_Wireguard = \<lparr>wg_DevName = '''', wg_ListenPort = 0, wg_PrivateKey = '''', wg_Address = '''', wg_MTU = 0, wg_External = False,
       wg_Range = None, wg_ServerAddress = None, wg_ServerPersistentKeepAlive = 0, wg_DNS = []\<rparr>,
     cf_DatabaseLocation = '''', cf_Acls = \<lparr>ac_Groups = [], ac_rGroupLookup = [], ac_Policies = []\<rparr>\<rparr>"

definition blank_config :: generated where
  "blank_config = \<lparr>ge_config = zero_config, ge_ui_ListenAddress = '''', ge_ui_KeyPath = '''', ge_ui_CertPath = ''''\<rparr>"

text \<open>The questions about single sign-on, after an issuer was given.\<close>

definition ask_oidc :: "string \<Rightarrow> (terminal, OIDC) eff" where
  "ask_oidc issuer =
     ebind (ask ''enter OIDC ClientID: '' '''') (\<lambda>client.
     ebind (ask ''enter OIDC ClientSecret: '' '''') (\<lambda>secret.
     ebind (ask ''enter OIDC groups claim name (default groups): '' '''') (\<lambda>claim.
     ret (zero_oidc\<lparr>oidc_IssuerURL := issuer, oidc_ClientID := client, oidc_ClientSecret := secret,
       oidc_GroupsClaimName := (if claim = '''' then ''groups'' else claim)\<rparr>))))"

definition ask_methods :: "string \<Rightarrow> string \<Rightarrow> (terminal, string list \<times> OIDC) eff" where
  "ask_methods domain scheme =
     (if domain = '''' then ret ([''totp''], zero_oidc)
      else
        ebind (ask ''enter OIDC issuer url (or empty to disable oidc): '' '''') (\<lambda>issuer.
        ebind (if issuer = '''' then ret ([''totp''], zero_oidc)
               else ebind (ask_oidc issuer) (\<lambda>oidc. ret ([''totp'', ''oidc''], oidc))) (\<lambda>(methods, oidc).
        ret (if scheme = ''https'' then methods @ [''webauthn''] else methods, oidc))))"

definition ask_ui :: "Config \<Rightarrow> (terminal, generated) eff" where
  "ask_ui c =
     ebind (ask ''enable managment UI? [Y/n] '' '''') (\<lambda>managementUI.
     if to_lower managementUI = ''n'' then ret (blank_config\<lparr>ge_config := c\<rparr>)
     else
       ebind (ask ''management UI listen address (default 127.0.0.1:4433)? '' ''127.0.0.1:4433'') (\<lambda>address.
       ebind (ask ''management UI TLS private key path (if empty no TLS): '' '''') (\<lambda>key.
       ebind (if key = '''' then ret '''' else ask ''management UI TLS certificate path (if empty no TLS): '' '''') (\<lambda>cert.
       ret \<lparr>ge_config = c\<lparr>cf_ManagementEnabled := True\<rparr>, ge_ui_ListenAddress = address, ge_ui_KeyPath = key,
         ge_ui_CertPath = cert\<rparr>))))"

definition questions :: "genconfig_env \<Rightarrow> (terminal, generated) eff" where
  "questions G =
     ebind (ask ''support email: '' '''') (\<lambda>mail.
     ebind (ask ''external ip address or domain name (where wireguard clients will send data): '' '''') (\<lambda>external.
     ebind (if external = '''' then Print ''no external address supplied, clients will not be able to talk back with the generated configuration'' else ret ()) (\<lambda>_.
     ebind (ask ''listen address of registration endpoint (format: ip:port or :port, e.g 127.0.0.1:8080 or :8080, default: :8080): '' '':8080'') (\<lambda>public.
     ebind (ask ''enter vpn subnet (default 10.1.2.1/24): '' ''10.1.2.1/24'') (\<lambda>address.
     ebind (ask_number ''vpn tunnel port (default 443): '' 443) (\<lambda>tunnelPort.
     ebind (ask ''name of organisation (name of 2fa entry, defaults to wag): '' ''WAG'') (\<lambda>issuer.
     ebind (if gc_InterfaceByName G ''wg0'' then ask ''wireguard device name (wg0 is taken): '' ''wg0'' else ret ''wg0'') (\<lambda>devName.
     ebind (case gc_GenerateKey G of Inl e \<Rightarrow> raise e | Inr k \<Rightarrow> ret k) (\<lambda>k.
     ebind (ask ''set vpn tunnel domain url (e.g https://vpn.test:8080, or empty which will disable oidc and webauthn authentication methods): '' '''') (\<lambda>domain.
     ebind (case gc_parse_scheme G domain of Inl e \<Rightarrow> raise e | Inr u \<Rightarrow> ret u) (\<lambda>scheme.
     ebind (ask_methods domain scheme) (\<lambda>(methods, oidc).
     ask_ui (zero_config
       \<lparr>cf_Lockout := 5, cf_HelpMail := mail, cf_MaxSessionLifetimeMinutes := 1440, cf_SessionInactivityTimeoutMinutes := 60,
        cf_ExternalAddress := external, cf_DatabaseLocation := ''devices.db'',
        cf_Public := (cf_Public zero_config)\<lparr>uw_ListenAddress := public\<rparr>,
        cf_Tunnel := (cf_Tunnel zero_config)\<lparr>tw_Port := show_int tunnelPort\<rparr>,
        cf_Wireguard := (cf_Wireguard zero_config)\<lparr>wg_Address := address, wg_DevName := devName, wg_PrivateKey := k, wg_ListenPort := 5920\<rparr>,
        cf_Authenticators := (cf_Authenticators zero_config)
          \<lparr>au_Issuer := issuer, au_DomainURL := domain, au_Methods := methods, au_OIDC := oidc\<rparr>\<rparr>)))))))))))))"

definition genconfig_flags :: flag_set where
  "genconfig_flags = [(''out'', StringFlag), (''blank'', BoolFlag)]"

text \<open>A blank configuration is written when the flag is given, whatever its value.\<close>

definition genconfig_Check :: "flag_values \<Rightarrow> bool" where
  "genconfig_Check vs = (''blank'' \<in> set (Visit vs))"

definition genconfig_Run :: "genconfig_env \<Rightarrow> bool \<Rightarrow> string \<Rightarrow> (terminal, unit) eff" where
  "genconfig_Run G blank path =
     (let path = (if path = '''' then ''config.json.'' @ gc_now G else path) in
      ebind (if blank then ret blank_config else questions G) (\<lambda>c.
      ebind (Print ([CHR 0x0A] @ ''new config written to '' @ [CHR 0x27] @ path @ [CHR 0x27] @ '', add some acls under Acls.Policies to start'')) (\<lambda>_ s.
      case gc_WriteFile G path of
        Some e \<Rightarrow> (Inl (GoErr e), s)
      | None \<Rightarrow> (Inr (), s\<lparr>tt_files := (tt_files s)(path \<mapsto> c)\<rparr>))))"

section \<open>What is written\<close>

text \<open>What every generated configuration has, whatever is answered.\<close>

definition generated_ok :: "Config \<Rightarrow> bool" where
  "generated_ok c \<longleftrightarrow> cf_Clustering c = cf_Clustering zero_config \<and> cf_Acls c = cf_Acls zero_config \<and> cf_Lockout c = 5 \<and>
     cf_MaxSessionLifetimeMinutes c = 1440 \<and> cf_SessionInactivityTimeoutMinutes c = 60 \<and> tw_Port (cf_Tunnel c) \<noteq> '''' \<and>
     \<not> cf_Proxied c \<and> cf_NumberProxies c = 0 \<and> cf_ExposePorts c = [] \<and> wg_ListenPort (cf_Wireguard c) = 5920 \<and>
     wg_DNS (cf_Wireguard c) = [] \<and> cf_MFATemplatesDirectory c = '''' \<and> uw_ListenAddress (cf_Public c) \<noteq> ''''"

lemma show_int_nonempty: "show_int i \<noteq> ''''"
  by (simp add: show_int_def)

lemma ask_ui_config:
  assumes "ask_ui c s = (Inr g, t)"
  shows "\<exists>b. ge_config g = c\<lparr>cf_ManagementEnabled := b\<rparr>"
proof -
  have same: "\<exists>b. c = c\<lparr>cf_ManagementEnabled := b\<rparr>" by (rule exI [of _ "cf_ManagementEnabled c"]) simp
  from assms show ?thesis using same by (auto simp: ask_ui_def eff_inv blank_config_def split: if_splits)
qed

lemma skip_space_token: "skip_space inp = (True, rest) \<Longrightarrow> \<exists>c cs. rest = c # cs \<and> \<not> is_space c"
  by (induction inp rule: skip_space.induct) (auto split: if_splits)

lemma ask_nonempty: "ask prompt z s = (Inr v, t) \<Longrightarrow> z \<noteq> '''' \<Longrightarrow> v \<noteq> ''''"
  by (auto simp: ask_def Print_def ebind_def Scanf_s_def split: prod.splits bool.splits dest!: skip_space_token)

lemma questions_ok: "questions G s = (Inr g, t) \<Longrightarrow> generated_ok (ge_config g)"
  unfolding questions_def
  by (auto simp: eff_inv generated_ok_def zero_config_def show_int_nonempty dest!: ask_ui_config ask_nonempty [where z = "'':8080''"])

lemma Run_writes:
  assumes "genconfig_Run G blank path s = (Inr (), t)"
  shows "\<exists>c. tt_files t (if path = '''' then ''config.json.'' @ gc_now G else path) = Some c \<and>
    (if blank then c = blank_config else generated_ok (ge_config c))"
proof -
  from assms obtain c s1 where c: "(if blank then ret blank_config else questions G) s = (Inr c, s1)"
    "tt_files t (if path = '''' then ''config.json.'' @ gc_now G else path) = Some c"
    by (auto simp: genconfig_Run_def Let_def eff_inv Print_def split: option.splits)
  then show ?thesis using questions_ok by (auto split: if_splits)
qed

text \<open>C40
  The file that the generator writes is not accepted: whatever is answered, and also when a blank one is
  asked for, loading it fails, for the address of the certificate manager is never asked. Once that address
  is added, a file made from answers is accepted, provided that the network, the external address and
  the key that were entered are well formed and no interface has the name.
\<close>

theorem generated_needs_manager:
  assumes "genconfig_Run G blank path s = (Inr (), t)"
    and "tt_files t (if path = '''' then ''config.json.'' @ gc_now G else path) = Some c"
  shows "load E (Inr (ge_config c)) p =
       (Inl (GoErr ''no listen url was specified for the etcd cluster TLS manager, new wag servers will not be able to join''), p) \<and>
     (\<not> blank \<and> has_prefix url ''https://'' \<and>
      ce_interface E (wg_DevName (cf_Wireguard (ge_config c))) = None \<and> ce_key E (wg_PrivateKey (cf_Wireguard (ge_config c))) = None \<and>
      ParseCIDR (pe_net (ce_parse E)) (wg_Address (cf_Wireguard (ge_config c))) = Some (ip, network) \<and>
      ValidExternalAddresses (pe_net (ce_parse E)) (cf_ExternalAddress (ge_config c)) = Inr () \<longrightarrow>
      (\<exists>d. load E (Inr ((ge_config c)\<lparr>cf_Clustering := (cf_Clustering (ge_config c))\<lparr>cd_TLSManagerListenURL := url\<rparr>\<rparr>)) p = (Inr d, p)))"
proof -
  from Run_writes [OF assms(1)] assms(2) have c: "if blank then c = blank_config else generated_ok (ge_config c)" by auto
  then have no_url: "cd_TLSManagerListenURL (cf_Clustering (ge_config c)) = ''''"
    by (auto simp: blank_config_def generated_ok_def zero_config_def split: if_splits)
  have "load E (Inr (ge_config c)) p =
      (Inl (GoErr ''no listen url was specified for the etcd cluster TLS manager, new wag servers will not be able to join''), p)"
    by (simp add: load_def load_defaults_def Let_def no_url ebind_def)
  moreover have "\<exists>d. load E (Inr ((ge_config c)\<lparr>cf_Clustering := (cf_Clustering (ge_config c))\<lparr>cd_TLSManagerListenURL := url\<rparr>\<rparr>)) p = (Inr d, p)"
    if h: "\<not> blank" "has_prefix url ''https://''"
      "ce_interface E (wg_DevName (cf_Wireguard (ge_config c))) = None" "ce_key E (wg_PrivateKey (cf_Wireguard (ge_config c))) = None"
      "ParseCIDR (pe_net (ce_parse E)) (wg_Address (cf_Wireguard (ge_config c))) = Some (ip, network)"
      "ValidExternalAddresses (pe_net (ce_parse E)) (cf_ExternalAddress (ge_config c)) = Inr ()"
  proof -
    have url: "url \<noteq> ''''" using h(2) by (auto simp: has_prefix_def)
    from c h(1) have g: "generated_ok (ge_config c)" by simp
    show ?thesis using g h url
      by (simp add: load_def load_defaults_def load_wireguard_def load_policy_def load_groups_def load_policies_def load_finish_def
          generated_ok_def zero_config_def Let_def ebind_def validateDns_def)
  qed
  ultimately show ?thesis by blast
qed

text \<open>An answer of two words answers the next question as well.\<close>

lemma two_words: "Scanf_s (''My Company'' @ [CHR 0x0A]) = (Some ''My'', ''Company'' @ [CHR 0x0A])"
  by code_simp

section \<open>A concrete dialogue\<close>

text \<open>The external address is given, and every other question answered with an empty line.\<close>

definition demo_gen :: genconfig_env where
  "demo_gen = \<lparr>gc_now = ''1'', gc_InterfaceByName = (\<lambda>_. False), gc_GenerateKey = Inr ''k'', gc_parse_scheme = (\<lambda>_. Inr ''''),
     gc_WriteFile = (\<lambda>_. None)\<rparr>"

definition demo_terminal :: terminal where
  "demo_terminal = \<lparr>tt_in = CHR 0x0A # ''203.0.113.1'' @ replicate 10 (CHR 0x0A), tt_out = [], tt_files = (\<lambda>_. None)\<rparr>"

definition demo_generated :: generated where
  "demo_generated = the (tt_files (snd (genconfig_Run demo_gen False ''out'' demo_terminal)) ''out'')"

lemma demo_generated_facts:
  "fst (genconfig_Run demo_gen False ''out'' demo_terminal) = Inr ()"
  "tt_files (snd (genconfig_Run demo_gen False ''out'' demo_terminal)) ''out'' \<noteq> None"
  "ce_interface demo_config_env (wg_DevName (cf_Wireguard (ge_config demo_generated))) = None"
  "ParseCIDR (pe_net (ce_parse demo_config_env)) (wg_Address (cf_Wireguard (ge_config demo_generated))) =
     Some (V4 (IP4 10 1 2 1), \<lparr>net_ip = Some (V4 (IP4 10 1 2 0)), net_ones = 24\<rparr>)"
  "ce_key demo_config_env (wg_PrivateKey (cf_Wireguard (ge_config demo_generated))) = None"
  "ValidExternalAddresses (pe_net (ce_parse demo_config_env)) (cf_ExternalAddress (ge_config demo_generated)) = Inr ()"
  by code_simp+

theorem generated_needs_manager_witness:
  "(\<exists>e. fst (load demo_config_env (Inr (ge_config demo_generated)) empty_pstate) = Inl (GoErr e)) \<and>
   (\<exists>d. load demo_config_env (Inr ((ge_config demo_generated)\<lparr>cf_Clustering :=
      (cf_Clustering (ge_config demo_generated))\<lparr>cd_TLSManagerListenURL := ''https://wag.test:4545''\<rparr>\<rparr>)) empty_pstate = (Inr d, empty_pstate))"
proof -
  obtain t where t: "genconfig_Run demo_gen False ''out'' demo_terminal = (Inr (), t)"
    using demo_generated_facts(1) by (metis prod.collapse)
  then have c: "tt_files t (if ''out'' = '''' then ''config.json.'' @ gc_now demo_gen else ''out'') = Some demo_generated"
    using demo_generated_facts(2) by (simp add: demo_generated_def)
  show ?thesis
    using generated_needs_manager [OF t c, of demo_config_env empty_pstate "''https://wag.test:4545''"] demo_generated_facts
    by (simp add: has_prefix_def)
qed

end
