(* ===== verification/Import.thy ===== *)
theory Import
  imports Admins DataGroups DataTokens Config
begin

text \<open>
  What a node imports when it first runs (internal/data/init.go): the settings, policies and groups of
  the configuration file, each only while the cluster has none, and the rows of the database of earlier
  versions (internal/data/sql_compat.go). The rows of a query, or the error of reading one of them, are
  arguments, as is the text of the configuration.
\<close>

section \<open>Settings of the configuration file\<close>

text \<open>A setting with the key it is stored under, in the order of the code.\<close>

definition initial_settings :: "string \<Rightarrow> Config \<Rightarrow> (string \<times> json) list" where
  "initial_settings configData c =
     [(fullJsonConfigKey, JStr configData),
      (helpMailKey, JStr (cf_HelpMail c)),
      (externalAddressKey, JStr (cf_ExternalAddress c)),
      (dnsKey, enc_strings (wg_DNS (cf_Wireguard c))),
      (InactivityTimeoutKey, JNum (cf_SessionInactivityTimeoutMinutes c)),
      (SessionLifetimeKey, JNum (cf_MaxSessionLifetimeMinutes c)),
      (LockoutKey, JNum (cf_Lockout c)),
      (IssuerKey, JStr (au_Issuer (cf_Authenticators c))),
      (DomainKey, JStr (au_DomainURL (cf_Authenticators c))),
      (defaultWGFileNameKey, JStr (cf_DownloadConfigFileName c)),
      (checkUpdatesKey, JBool (cf_CheckUpdates c)),
      (MFAMethodsEnabledKey, enc_strings (au_Methods (cf_Authenticators c))),
      (DefaultMFAMethodKey, JStr (au_DefaultMethod (cf_Authenticators c))),
      (OidcDetailsKey, enc_oidc (au_OIDC (cf_Authenticators c))),
      (PamDetailsKey, enc_pam (au_PAM (cf_Authenticators c)))]"

text \<open>The policies are put as they are, without the checks of \<open>SetAcl\<close>.\<close>

definition import_policies :: "etcd \<Rightarrow> Config \<Rightarrow> (store, unit) eff" where
  "import_policies E c =
     ebind (GetPrefix E False ''wag-acls-'') (\<lambda>response.
     if response \<noteq> [] then ret ()
     else for_each (\<lambda>(aclName, acl). Put E (''wag-acls-'' @ aclName) (Json (enc_acl acl))) (ac_Policies (cf_Acls c)))"

definition import_groups :: "etcd \<Rightarrow> Config \<Rightarrow> (store, unit) eff" where
  "import_groups E c =
     ebind (GetPrefix E False GroupsPrefix) (\<lambda>response.
     if response \<noteq> [] then ret ()
     else for_each (\<lambda>(groupName, members). SetGroup E groupName members True) (ac_Groups (cf_Acls c)))"

definition loadInitialSettings :: "etcd \<Rightarrow> string \<Rightarrow> Config \<Rightarrow> (store, unit) eff" where
  "loadInitialSettings E configData c =
     ebind (import_policies E c) (\<lambda>_.
     ebind (import_groups E c) (\<lambda>_.
     for_each (\<lambda>(key, d). putIfNotFound E key d) (initial_settings configData c)))"

section \<open>Rows of an earlier version\<close>

text \<open>A row that cannot be scanned is an error; a column that may be null is an option.\<close>

type_synonym 'r rows = "error + (error + 'r) list"

record sql_db =
  db_devices :: "(string \<times> string \<times> string \<times> string option \<times> int \<times> string) rows"
  db_admins :: "(string \<times> string \<times> int \<times> string option \<times> string option \<times> string \<times> bool) rows"
  db_users :: "(string \<times> string \<times> string \<times> string option \<times> bool) rows"
  db_tokens :: "(string \<times> string \<times> string \<times> string option \<times> int) rows"

definition scan_rows :: "('r \<Rightarrow> error + 'a) \<Rightarrow> 'r rows \<Rightarrow> error + 'a list" where
  "scan_rows f q = rbind q (\<lambda>rows. rmap (\<lambda>row. rbind row f) rows)"

definition null_text :: "string option \<Rightarrow> string" where
  "null_text x = (case x of None \<Rightarrow> '''' | Some t \<Rightarrow> t)"

definition sqlgetAllAdminUsers :: "sql_db \<Rightarrow> error + admin list" where
  "sqlgetAllAdminUsers db = scan_rows (\<lambda>(username, hash, attempts, lastLogin, ip, date, change).
     Inr \<lparr>am_Username = username, am_Attempts = attempts, am_DateAdded = date, am_LastLogin = null_text lastLogin,
       am_IP = null_text ip, am_Change = change, am_Hash = hash\<rparr>) (db_admins db)"

definition sqlGetAllUsers :: "sql_db \<Rightarrow> error + UserModel list" where
  "sqlGetAllUsers db = scan_rows (\<lambda>(username, mfa, mfaType, enforcing, locked).
     Inr (zero_user\<lparr>um_Username := username, um_Mfa := mfa, um_MfaType := mfaType, um_Enforcing := enforcing \<noteq> None,
       um_Locked := locked\<rparr>)) (db_users db)"

definition sqlGetRegistrationTokens :: "(string \<Rightarrow> error + json) \<Rightarrow> sql_db \<Rightarrow> error + RegistrationResult list" where
  "sqlGetRegistrationTokens parse_json db = scan_rows (\<lambda>(token, username, overwrite, groupsJson, uses).
     rbind (case groupsJson of None \<Rightarrow> Inr []
            | Some t \<Rightarrow> rbind (parse_json t) (\<lambda>j. case dec_strings j of Inr gs \<Rightarrow> Inr gs
                | Inl f \<Rightarrow> Inl (case f of GoErr e \<Rightarrow> e | _ \<Rightarrow> ''''))) (\<lambda>groups.
     Inr \<lparr>rr_Token = token, rr_Username = username, rr_Groups = groups, rr_Overwrites = overwrite, rr_NumUses = uses\<rparr>)) (db_tokens db)"

definition stringToUDPaddr :: "net_env \<Rightarrow> string \<Rightarrow> udp_addr option" where
  "stringToUDPaddr N address =
     (let parts = split_on (CHR '':'') address in
      if length parts < 2 then None
      else case atoi (last parts) of
        None \<Rightarrow> None
      | Some port \<Rightarrow> Some \<lparr>ua_IP = ParseIP N (GetIP address), ua_Port = port, ua_Zone = ''''\<rparr>)"

definition sqlGetAllDevices :: "net_env \<Rightarrow> sql_db \<Rightarrow> error + Device list" where
  "sqlGetAllDevices N db = scan_rows (\<lambda>(address, publickey, username, endpoint, attempts, psk).
     Inr (zero_device\<lparr>dv_Address := address, dv_Publickey := publickey, dv_Username := username, dv_Attempts := attempts,
       dv_PresharedKey := psk, dv_Endpoint := (case endpoint of None \<Rightarrow> None | Some t \<Rightarrow> stringToUDPaddr N t)\<rparr>)) (db_devices db)"

section \<open>Migration\<close>

definition of_rows :: "error + 'a \<Rightarrow> (store, 'a) eff" where
  "of_rows r = (case r of Inl e \<Rightarrow> raise e | Inr x \<Rightarrow> ret x)"

text \<open>The password is a place holder, replaced by the stored hash; the salt of each is random.\<close>

definition migrate_admin :: "etcd \<Rightarrow> kdf \<Rightarrow> (string \<Rightarrow> error + bytes) \<Rightarrow> string \<Rightarrow> admin \<Rightarrow> (store, unit) eff" where
  "migrate_admin E kdf random8 date a =
     ebind (CreateAdminUser E kdf (random8 (am_Username a)) date (am_Username a) ''aaaaaaaaaaaaaaaaaaa'' False) (\<lambda>_.
     ebind (setAdminHash E (am_Username a) (am_Hash a)) (\<lambda>_.
     if am_Attempts a > 5 then SetAdminUserLock E (am_Username a) else ret ()))"

definition migrate_user :: "etcd \<Rightarrow> UserModel \<Rightarrow> (store, unit) eff" where
  "migrate_user E u =
     ebind (CreateUserDataAccount E (um_Username u)) (\<lambda>_.
     ebind (if um_Locked u then SetUserLock E (um_Username u) else ret ()) (\<lambda>_.
     ebind (SetUserMfa E (um_Username u) (um_Mfa u) (um_MfaType u)) (\<lambda>_.
     if um_Enforcing u then SetEnforceMFAOn E (um_Username u) else SetEnforceMFAOff E (um_Username u))))"

definition migratedKey :: string where "migratedKey = ''wag-migrated-sql''"

definition migrateFromSql ::
  "etcd \<Rightarrow> net_env \<Rightarrow> kdf \<Rightarrow> (string \<Rightarrow> error + bytes) \<Rightarrow> string \<Rightarrow> (string \<Rightarrow> error + json) \<Rightarrow> sql_db \<Rightarrow> (store, unit) eff" where
  "migrateFromSql E N kdf random8 date parse_json db =
     ebind (Get E migratedKey) (\<lambda>response.
     if response \<noteq> [] then ret ()
     else
       ebind (of_rows (sqlGetAllDevices N db)) (\<lambda>devices.
       ebind (for_each (\<lambda>d. ebind (SetDevice E N (dv_Username d) (dv_Address d) (dv_Publickey d) (dv_PresharedKey d))
                (\<lambda>_. ret ())) devices) (\<lambda>_.
       ebind (of_rows (sqlgetAllAdminUsers db)) (\<lambda>adminUsers.
       ebind (for_each (migrate_admin E kdf random8 date) adminUsers) (\<lambda>_.
       ebind (of_rows (sqlGetAllUsers db)) (\<lambda>users.
       ebind (for_each (migrate_user E) users) (\<lambda>_.
       ebind (of_rows (sqlGetRegistrationTokens parse_json db)) (\<lambda>tokens.
       ebind (for_each (\<lambda>t. AddRegistrationToken E (rr_Token t) (rr_Username t) (rr_Overwrites t) (rr_Groups t) (rr_NumUses t)) tokens) (\<lambda>_.
       Put E migratedKey (Text ''done!''))))))))))"

section \<open>What an import leaves alone\<close>

definition spares :: "(string \<Rightarrow> bool) \<Rightarrow> (store, 'a) eff \<Rightarrow> bool" where
  "spares P m \<longleftrightarrow> (\<forall>s k. P k \<longrightarrow> value_at (snd (m s)) k = value_at s k)"

named_theorems spares_intro \<open>operations that spare keys\<close>

lemma sparesD: "spares P m \<Longrightarrow> m s = (r, t) \<Longrightarrow> P k \<Longrightarrow> value_at t k = value_at s k"
  unfolding spares_def by (metis snd_conv)

lemma sparesI: "(\<And>s r t k. m s = (r, t) \<Longrightarrow> P k \<Longrightarrow> value_at t k = value_at s k) \<Longrightarrow> spares P m"
  unfolding spares_def by (metis prod.collapse)

lemma spares_basic [spares_intro]: "spares P (ret x)" "spares P (raise e)" "spares P (panic e)" "spares P (lift r)"
  by (simp_all add: spares_def)

lemma spares_bind [spares_intro]:
  assumes "spares P m" and "\<And>x. spares P (f x)"
  shows "spares P (ebind m f)"
proof (rule sparesI)
  fix s r u k assume run: "ebind m f s = (r, u)" and k: "P k"
  obtain a t where m: "m s = (a, t)" by (cases "m s")
  have t: "value_at t k = value_at s k" by (rule sparesD [OF assms(1) m k])
  show "value_at u k = value_at s k"
  proof (cases a)
    case (Inr x)
    with run m have "f x t = (r, u)" by (simp add: ebind_def)
    with assms(2) k t show ?thesis using sparesD by metis
  qed (use run m t in \<open>simp add: ebind_def\<close>)
qed

lemma spares_if [spares_intro]: "spares P m \<Longrightarrow> spares P n \<Longrightarrow> spares P (if b then m else n)"
  by simp

lemma spares_case_list [spares_intro]:
  "spares P m \<Longrightarrow> (\<And>x xs. spares P (f x xs)) \<Longrightarrow> spares P (case v of [] \<Rightarrow> m | x # xs \<Rightarrow> f x xs)"
  by (cases v) simp_all

lemma spares_case_prod [spares_intro]: "(\<And>x y. spares P (f x y)) \<Longrightarrow> spares P (case v of (x, y) \<Rightarrow> f x y)"
  by (cases v) simp

lemma spares_for_each [spares_intro]:
  assumes "\<And>x. x \<in> set xs \<Longrightarrow> spares P (f x)"
  shows "spares P (for_each f xs)"
proof (rule sparesI)
  fix s r t k assume run: "for_each f xs s = (r, t)" and k: "P k"
  have "value_at (snd (for_each f xs s)) k = value_at s k"
    by (rule for_each_inv [where P = "\<lambda>u. value_at u k = value_at s k"]) (use assms k in \<open>auto simp: spares_def\<close>)
  with run show "value_at t k = value_at s k" by simp
qed

lemma spares_for_collect [spares_intro]:
  assumes "\<And>x. x \<in> set xs \<Longrightarrow> spares P (f x)"
  shows "spares P (for_collect f xs)"
proof (rule sparesI)
  fix s r t k assume run: "for_collect f xs s = (r, t)" and k: "P k"
  have "value_at (snd (for_collect f xs s)) k = value_at s k"
    by (rule for_collect_inv [where P = "\<lambda>u. value_at u k = value_at s k"]) (use assms k in \<open>auto simp: spares_def\<close>)
  with run show "value_at t k = value_at s k" by simp
qed

context etcd_quiet
begin

lemma spares_reads [spares_intro]: "spares P (Get E k)" "spares P (GetPrefix E desc p)"
  by (simp_all add: spares_def Get_quiet GetPrefix_quiet)

lemma spares_puts [spares_intro]: "\<not> P l \<Longrightarrow> spares P (Put E l v)" "\<not> P l \<Longrightarrow> spares P (PutPrev E l v)"
  by (auto simp: spares_def Put_quiet PutPrev_quiet put_key_def [symmetric])

lemma spares_update [spares_intro]:
  assumes "\<not> P l" and "\<And>gr s. snd (f gr s) = s"
  shows "spares P (doSafeUpdate E l create f)"
proof (rule sparesI)
  fix s r t k assume run: "doSafeUpdate E l create f s = (r, t)" and k: "P k"
  have "f (range_of s [l]) s = (fst (f (range_of s [l]) s), s)" using assms(2) by (metis prod.collapse)
  from doSafeUpdate_quiet [where key = l and create = create and mutate = f and s = s, OF this] run assms(1) k
  show "value_at t k = value_at s k" by (auto split: if_splits sum.splits)
qed

lemma spares_SetGroup:
  assumes "\<And>k. prefix GroupsPrefix k \<Longrightarrow> \<not> P k" and "\<And>k. prefix (MembershipKey @ ''-'') k \<Longrightarrow> \<not> P k"
  shows "spares P (SetGroup E grp members overwrite)"
proof -
  have m: "\<not> P (MembershipKey @ ''-'' @ x)" for x by (rule assms(2)) (simp add: prefix_def)
  have j: "snd (join_group grp gr s) = s" "snd (leave_group grp gr s) = s" for gr s
    by (auto simp: join_group_def leave_group_def split: list.split prod.split)
  have g: "\<not> P (GroupsPrefix @ grp)" by (rule assms(1)) (simp add: prefix_def)
  show ?thesis unfolding SetGroup_def Let_def
    by (intro spares_intro g m j)
qed

lemma putIfNotFound_quiet:
  "putIfNotFound E k d s = (Inr (), if find_key s k = None then put_key k (Json d) s else s)"
  by (cases "find_key s k") (simp_all add: putIfNotFound_def Txn_quiet ebind_def apply_request_def put_key_def)

lemma put_settings:
  assumes "distinct (map fst kds)"
  shows "\<exists>t. for_each (\<lambda>(key, d). putIfNotFound E key d) kds s = (Inr (), t) \<and>
    (\<forall>(k, d) \<in> set kds. value_at t k = Some (case value_at s k of Some v \<Rightarrow> v | None \<Rightarrow> Json d)) \<and>
    (\<forall>k. k \<notin> fst ` set kds \<longrightarrow> value_at t k = value_at s k)"
  using assms
proof (induction kds arbitrary: s)
  case (Cons e kds)
  obtain k d where e: "e = (k, d)" by (cases e)
  let ?s = "if find_key s k = None then put_key k (Json d) s else s"
  from Cons.IH [of ?s] Cons.prems obtain t where t: "for_each (\<lambda>(key, d). putIfNotFound E key d) kds ?s = (Inr (), t)"
    "\<forall>(k, d) \<in> set kds. value_at t k = Some (case value_at ?s k of Some v \<Rightarrow> v | None \<Rightarrow> Json d)"
    "\<forall>k. k \<notin> fst ` set kds \<longrightarrow> value_at t k = value_at ?s k" by auto
  have k: "k \<notin> fst ` set kds" using Cons.prems by (simp add: e)
  then have other: "value_at ?s l = value_at s l" if "l \<in> fst ` set kds" for l
    using that by (auto simp del: find_key_put_key)
  have own: "value_at ?s k = Some (case value_at s k of Some v \<Rightarrow> v | None \<Rightarrow> Json d)"
    by (auto simp: value_at_def)
  have "value_at t l = Some (case value_at s l of Some v \<Rightarrow> v | None \<Rightarrow> Json j)" if "(l, j) \<in> set kds" for l j
    using t(2) that other [of l] by force
  moreover have "value_at t k = value_at ?s k" using t(3) k by blast
  moreover have "for_each (\<lambda>(key, d). putIfNotFound E key d) (e # kds) s = (Inr (), t)"
    using t(1) by (simp add: e putIfNotFound_quiet split del: if_split)
  moreover have "value_at t l = value_at s l" if "l \<noteq> k" "l \<notin> fst ` set kds" for l
    using t(3) that by auto
  ultimately show ?case using own by (intro exI [of _ t]) (auto simp: e)
qed simp

end

section \<open>Settings are imported once\<close>

definition setting_key :: "string \<Rightarrow> bool" where
  "setting_key k \<longleftrightarrow> k \<in> set [fullJsonConfigKey, helpMailKey, externalAddressKey, dnsKey, InactivityTimeoutKey, SessionLifetimeKey,
     LockoutKey, IssuerKey, DomainKey, defaultWGFileNameKey, checkUpdatesKey, MFAMethodsEnabledKey, DefaultMFAMethodKey,
     OidcDetailsKey, PamDetailsKey]"

lemma setting_key_iff: "setting_key k \<longleftrightarrow> k \<in> fst ` set (initial_settings t c)"
  by (auto simp: setting_key_def initial_settings_def)

lemma distinct_settings: "distinct (map fst (initial_settings t c))"
  by (simp add: initial_settings_def setting_keys)

lemma setting_key_other:
  "prefix ''wag-acls-'' k \<Longrightarrow> \<not> setting_key k" "prefix GroupsPrefix k \<Longrightarrow> \<not> setting_key k"
  "prefix (MembershipKey @ ''-'') k \<Longrightarrow> \<not> setting_key k"
  by (auto simp: setting_key_def setting_keys GroupsPrefix_def)

context etcd_quiet
begin

lemma imports_spare:
  "spares setting_key (import_policies E c)" "spares setting_key (import_groups E c)"
proof -
  show "spares setting_key (import_policies E c)" unfolding import_policies_def
    by (intro spares_intro setting_key_other) simp
  show "spares setting_key (import_groups E c)" unfolding import_groups_def
    by (intro spares_intro spares_SetGroup setting_key_other)
qed

lemma loadInitialSettings_quiet:
  assumes "loadInitialSettings E configData c s = (r, t)"
  shows "setting_key k \<Longrightarrow> value_at s k = Some v \<Longrightarrow> value_at t k = Some v"
    and "r = Inr () \<Longrightarrow> (k, d) \<in> set (initial_settings configData c) \<Longrightarrow>
           value_at t k = Some (case value_at s k of Some v \<Rightarrow> v | None \<Rightarrow> Json d)"
proof -
  obtain a p where p: "import_policies E c s = (a, p)" by (cases "import_policies E c s")
  obtain b g where g: "import_groups E c p = (b, g)" by (cases "import_groups E c p")
  have keep: "setting_key l \<Longrightarrow> value_at p l = value_at s l" "setting_key l \<Longrightarrow> value_at g l = value_at s l" for l
    using sparesD [OF imports_spare(1) p] sparesD [OF imports_spare(2) g] by simp_all
  from put_settings [OF distinct_settings, of configData c g] obtain u where
    u: "for_each (\<lambda>(key, d). putIfNotFound E key d) (initial_settings configData c) g = (Inr (), u)"
    "\<forall>(k, d) \<in> set (initial_settings configData c). value_at u k = Some (case value_at g k of Some v \<Rightarrow> v | None \<Rightarrow> Json d)"
    by blast
  have cases: "t = p \<and> (\<exists>e. r = Inl e) \<or> t = g \<and> (\<exists>e. r = Inl e) \<or> t = u"
    using assms p g u(1) by (auto simp: loadInitialSettings_def ebind_def split: sum.splits)
  have new: "(l, j) \<in> set (initial_settings configData c) \<Longrightarrow> value_at u l = Some (case value_at s l of Some v \<Rightarrow> v | None \<Rightarrow> Json j)" for l j
    using u(2) keep(2) [of l] by (force simp: setting_key_iff [of _ configData c])
  show "value_at t k = Some v" if "setting_key k" "value_at s k = Some v"
  proof -
    from that(1) obtain j where "(k, j) \<in> set (initial_settings configData c)"
      by (auto simp: setting_key_iff [of _ configData c])
    with new that(2) have "value_at u k = Some v" by fastforce
    with cases keep that show ?thesis by auto
  qed
  show "value_at t k = Some (case value_at s k of Some v \<Rightarrow> v | None \<Rightarrow> Json d)"
    if "r = Inr ()" "(k, d) \<in> set (initial_settings configData c)"
    using cases new that by auto
qed

end

text \<open>C34
  The configuration file only fills gaps: when the import succeeds, every setting the cluster had keeps
  its value and every other one has that of the file; and whatever file a node reads at a later start,
  and however that import ends, no setting changes any more.
\<close>

theorem settings_imported_once:
  assumes "etcd_quiet E" and "loadInitialSettings E configData c s = (Inr (), t)"
  shows "\<forall>(k, d) \<in> set (initial_settings configData c).
      value_at t k = Some (case value_at s k of Some v \<Rightarrow> v | None \<Rightarrow> Json d) \<and>
      (\<forall>configData' c'. value_at (snd (loadInitialSettings E configData' c' t)) k = value_at t k)"
proof (clarify, intro conjI allI)
  fix k d configData' c' assume kd: "(k, d) \<in> set (initial_settings configData c)"
  show t: "value_at t k = Some (case value_at s k of Some v \<Rightarrow> v | None \<Rightarrow> Json d)"
    by (rule etcd_quiet.loadInitialSettings_quiet(2) [OF assms refl kd])
  obtain r u where u: "loadInitialSettings E configData' c' t = (r, u)" by (cases "loadInitialSettings E configData' c' t")
  have "setting_key k" using kd by (force simp: setting_key_iff [of _ configData c])
  with etcd_quiet.loadInitialSettings_quiet(1) [OF assms(1) u _ t] u
  show "value_at (snd (loadInitialSettings E configData' c' t)) k = value_at t k" by (simp add: t)
qed

text \<open>A token for an existing device is never migrated: looking for the device panics.\<close>

lemma overwriting_token_panics:
  assumes "etcd_quiet E" and "find_key s (''device-ref-'' @ overwrite) = None" and "overwrite \<noteq> ''''"
    and "32 \<le> length token" and "list_ex token_char token" and "\<not> contains username ''-''"
  shows "AddRegistrationToken E token username overwrite groups uses s = (Inl (GoPanic ''index out of range''), s)"
  using assms by (simp add: AddRegistrationToken_def etcd_quiet.Get_quiet range_of_single ebind_def)

theorem settings_imported_once_witness:
  "\<exists>t. loadInitialSettings etcd_ref ''{}'' demo_config no_store = (Inr (), t) \<and>
     value_at t LockoutKey = Some (Json (JNum (cf_Lockout demo_config))) \<and>
     value_at (snd (loadInitialSettings etcd_ref ''x'' (demo_config\<lparr>cf_Lockout := 99\<rparr>) t)) LockoutKey =
       Some (Json (JNum (cf_Lockout demo_config)))"
proof -
  let ?r = "loadInitialSettings etcd_ref ''{}'' demo_config no_store"
  have "fst ?r = Inr ()" by code_simp
  then obtain t where t: "?r = (Inr (), t)" by (metis prod.collapse)
  have mem: "(LockoutKey, JNum (cf_Lockout demo_config)) \<in> set (initial_settings ''{}'' demo_config)"
    by (simp add: initial_settings_def)
  from bspec [OF settings_imported_once [OF etcd_ref.etcd_quiet_axioms t] mem] t
  show ?thesis by auto
qed

end
