(* ===== verification/Migrations.thy ===== *)
theory Migrations
  imports Prelude
begin

text \<open>
  internal/data/migrations/embed.go: the scripts that bring the database of an earlier version up to
  date. The embedded files are an argument, in the order of their directory. The database is reached
  through database/sql, whose calls are the fields of \<open>sqlite\<close>; the locale \<open>sql_transactions\<close> states
  what a transaction of SQLite guarantees.
\<close>

section \<open>The database\<close>

record 'd sqlite =
  sq_user_version :: "'d \<Rightarrow> error + int"
  sq_Begin :: "('d, unit) eff"
  sq_Exec :: "string \<Rightarrow> ('d, unit) eff"
  sq_Commit :: "('d, unit) eff"
  sq_Rollback :: "('d, unit) eff"

record migration_file =
  mf_Name :: string
  mf_IsDir :: bool
  mf_contents :: string

section \<open>Operations\<close>

text \<open>The text before the next occurrence of a separator.\<close>

fun before_str :: "string \<Rightarrow> string \<Rightarrow> string" where
  "before_str sep [] = []"
| "before_str sep (c # cs) = (if prefix sep (c # cs) then [] else c # before_str sep cs)"

definition version_mark :: string where "version_mark = ''-- version ''"

definition file_lines :: "migration_file \<Rightarrow> string list" where
  "file_lines f = split_on (CHR 0x0A) (mf_contents f)"

definition parseMigrationFile :: "string list \<Rightarrow> int res" where
  "parseMigrationFile lines = (case lines of
      [] \<Rightarrow> Inl (GoPanic ''migration file is too short to be valid'')
    | l # _ \<Rightarrow>
        if \<not> has_prefix l version_mark then Inl (GoPanic ''migration file does not have a version assigned to it'')
        else (case atoi (trim_space (before_str version_mark (trim_prefix l version_mark))) of
            None \<Rightarrow> Inl (GoPanic ''migration version could not be converted into a number: '')
          | Some v \<Rightarrow> Inr v))"

definition dbVersion :: "'d sqlite \<Rightarrow> ('d, int) eff" where
  "dbVersion D s = (case sq_user_version D s of
      Inl e \<Rightarrow> (Inl (GoErr (''unable to get database version: '' @ e)), s)
    | Inr v \<Rightarrow> (Inr v, s))"

fun any_newer :: "int \<Rightarrow> migration_file list \<Rightarrow> bool res" where
  "any_newer v [] = Inr False"
| "any_newer v (f # fs) =
     (if mf_IsDir f then any_newer v fs
      else rbind (parseMigrationFile (file_lines f)) (\<lambda>m. if m > v then Inr True else any_newer v fs))"

text \<open>A handle that is nil is \<open>None\<close>.\<close>

definition Can :: "migration_file list \<Rightarrow> 'd sqlite option \<Rightarrow> ('d, bool) eff" where
  "Can files db = (case db of
      None \<Rightarrow> raise ''the database was nil''
    | Some D \<Rightarrow> ebind (dbVersion D) (\<lambda>v. lift (any_newer v files)))"

definition rolling_back :: "'d sqlite \<Rightarrow> string \<Rightarrow> ('d, unit) eff \<Rightarrow> ('d, unit) eff" where
  "rolling_back D msg m = on_error m (\<lambda>e. ebind (attempt (sq_Rollback D)) (\<lambda>_. raise (msg @ e)))"

definition version_pragma :: string where "version_pragma = ''PRAGMA user_version = ''"

definition set_version :: "int \<Rightarrow> string" where
  "set_version v = version_pragma @ show_int v"

definition run_migration :: "'d sqlite \<Rightarrow> int \<Rightarrow> migration_file \<Rightarrow> ('d, unit) eff" where
  "run_migration D v f =
     (if mf_IsDir f then ret ()
      else ebind (lift (parseMigrationFile (file_lines f))) (\<lambda>migrationVersion.
        if migrationVersion \<le> v then ret ()
        else
          ebind (wrap_err (\<lambda>e. ''unable to begin sql transaction: '' @ e) (sq_Begin D)) (\<lambda>_.
          ebind (rolling_back D (''unable to build database error while applying '' @ mf_Name f @ '': '')
                  (for_each (sq_Exec D) (file_lines f))) (\<lambda>_.
          ebind (rolling_back D (''unable to set db version '' @ mf_Name f @ '': '')
                  (sq_Exec D (set_version migrationVersion))) (\<lambda>_.
          rolling_back D (''unable to commit database change during '' @ mf_Name f @ '': '') (sq_Commit D))))))"

definition Do :: "migration_file list \<Rightarrow> 'd sqlite option \<Rightarrow> ('d, unit) eff" where
  "Do files db = (case db of
      None \<Rightarrow> raise ''the database was nil''
    | Some D \<Rightarrow> ebind (dbVersion D) (\<lambda>v. for_each (run_migration D v) files))"

section \<open>What is expected of it\<close>

text \<open>
  The committed content of the database is \<open>content\<close>, that of the open transaction \<open>pending\<close>; \<open>sql\<close> is the
  effect of a statement, \<open>version\<close> the number kept in the header of the file. No call panics.
\<close>

definition calm :: "'a res \<Rightarrow> bool" where
  "calm r = (case r of Inr _ \<Rightarrow> True | Inl (GoErr _) \<Rightarrow> True | _ \<Rightarrow> False)"

locale sql_transactions =
  fixes D :: "'d sqlite" and content :: "'d \<Rightarrow> 'c" and pending :: "'d \<Rightarrow> 'c option"
    and sql :: "string \<Rightarrow> 'c \<Rightarrow> 'c option" and version :: "'c \<Rightarrow> int"
  assumes user_version: "sq_user_version D s = Inr v \<Longrightarrow> v = version (content s)"
    and begins: "sq_Begin D s = (r, t) \<Longrightarrow> calm r \<and> content t = content s \<and> (r = Inr () \<longrightarrow> pending t = Some (content s))"
    and executes: "pending s = Some c \<Longrightarrow> sq_Exec D q s = (r, t) \<Longrightarrow>
      calm r \<and> content t = content s \<and> (r = Inr () \<longrightarrow> (\<exists>c'. sql q c = Some c' \<and> pending t = Some c'))"
    and commits: "pending s = Some c \<Longrightarrow> sq_Commit D s = (r, t) \<Longrightarrow>
      calm r \<and> content t = (if r = Inr () then c else content s)"
    and rolls_back: "sq_Rollback D s = (r, t) \<Longrightarrow> calm r \<and> content t = content s"
    and pragma: "sql (set_version m) c = Some c' \<Longrightarrow> version c' = m"

text \<open>The effect of statements, of a file, and of files, one after the other.\<close>

fun run_sql :: "(string \<Rightarrow> 'c \<Rightarrow> 'c option) \<Rightarrow> string list \<Rightarrow> 'c \<Rightarrow> 'c option" where
  "run_sql sql [] c = Some c"
| "run_sql sql (q # qs) c = Option.bind (sql q c) (run_sql sql qs)"

definition file_version :: "migration_file \<Rightarrow> int option" where
  "file_version f = (if mf_IsDir f then None else (case parseMigrationFile (file_lines f) of Inr v \<Rightarrow> Some v | Inl _ \<Rightarrow> None))"

definition script :: "migration_file \<Rightarrow> string list" where
  "script f = file_lines f @ [set_version (the (file_version f))]"

definition outstanding :: "int \<Rightarrow> migration_file list \<Rightarrow> migration_file list" where
  "outstanding v files = filter (\<lambda>f. case file_version f of None \<Rightarrow> False | Some m \<Rightarrow> m > v) files"

lemma run_sql_append: "run_sql sql (xs @ ys) c = Option.bind (run_sql sql xs c) (run_sql sql ys)"
  by (induction xs arbitrary: c) (auto split: Option.bind_split)

lemma calm_simps [simp]: "calm (Inr x)" "calm (Inl (GoErr e))" "\<not> calm (Inl (GoPanic e))" "\<not> calm (Inl OutOfFuel)"
  by (simp_all add: calm_def)

lemma calm_cases: "calm r \<Longrightarrow> (\<exists>x. r = Inr x) \<or> (\<exists>e. r = Inl (GoErr e))"
  by (auto simp: calm_def split: sum.splits fault.splits)

lemma calm_unit: "calm r \<Longrightarrow> r = Inr () \<or> (\<exists>e. r = Inl (GoErr e))"
  using calm_cases [of r] by auto

context sql_transactions
begin

lemma executes_all:
  "pending s = Some c \<Longrightarrow> for_each (sq_Exec D) qs s = (r, t) \<Longrightarrow>
     calm r \<and> content t = content s \<and> (r = Inr () \<longrightarrow> (\<exists>c'. run_sql sql qs c = Some c' \<and> pending t = Some c'))"
proof (induction qs arbitrary: s c)
  case (Cons q qs)
  obtain a u where a: "sq_Exec D q s = (a, u)" by (cases "sq_Exec D q s")
  note E = executes [OF Cons.prems(1) a]
  then consider (err) e where "a = Inl (GoErr e)" | (ok) "a = Inr ()" using calm_unit [of a] by blast
  then show ?case
  proof cases
    case err
    with Cons.prems(2) a E show ?thesis by auto
  next
    case ok
    with E obtain c' where c': "sql q c = Some c'" "pending u = Some c'" by blast
    from Cons.prems(2) a ok have "for_each (sq_Exec D) qs u = (r, t)" by simp
    from Cons.IH [OF c'(2) this] E c'(1) show ?thesis by auto
  qed
qed auto

lemma rolling_back_content:
  assumes "rolling_back D msg m s = (r, t)" and "m s = (a, u)" and "calm a" and "a \<noteq> Inr () \<Longrightarrow> content u = c"
  shows "calm r \<and> (r = Inr () \<longleftrightarrow> a = Inr ()) \<and> (a = Inr () \<longrightarrow> t = u) \<and> (a \<noteq> Inr () \<longrightarrow> content t = c)"
proof -
  obtain b v where b: "sq_Rollback D u = (b, v)" by (cases "sq_Rollback D u")
  from rolls_back [OF b] have "calm b" "content v = content u" by auto
  then have "attempt (sq_Rollback D) u = (Inr (case b of Inr x \<Rightarrow> Inr x | Inl f \<Rightarrow> Inl (case f of GoErr e \<Rightarrow> e | _ \<Rightarrow> '''')), v)"
    using b calm_cases [of b] by (auto simp: attempt_def)
  with assms \<open>content v = content u\<close> calm_cases [OF assms(3)] show ?thesis
    by (auto simp: rolling_back_def on_error_def ebind_def)
qed

text \<open>One file is applied as a whole or not at all.\<close>

lemma run_migration_whole:
  assumes "run_migration D v f s = (r, t)"
  shows "content t = content s \<and> (r = Inr () \<longrightarrow> outstanding v [f] = []) \<or>
    r = Inr () \<and> outstanding v [f] = [f] \<and> run_sql sql (script f) (content s) = Some (content t)"
proof (cases "mf_IsDir f \<or> (\<exists>e. parseMigrationFile (file_lines f) = Inl e) \<or>
    (\<exists>m. parseMigrationFile (file_lines f) = Inr m \<and> m \<le> v)")
  case True
  with assms show ?thesis
    by (auto simp: run_migration_def outstanding_def file_version_def ebind_def)
next
  case False
  then obtain m where m: "\<not> mf_IsDir f" "parseMigrationFile (file_lines f) = Inr m" "m > v"
    by (metis not_le obj_sumE)
  then have out: "outstanding v [f] = [f]" "file_version f = Some m"
    by (simp_all add: outstanding_def file_version_def)
  let ?exec = "for_each (sq_Exec D) (file_lines f)"
  obtain a u where a: "sq_Begin D s = (a, u)" by (cases "sq_Begin D s")
  note B = begins [OF a]
  then consider (err) e where "a = Inl (GoErr e)" | (ok) "a = Inr ()" using calm_unit [of a] by blast
  then show ?thesis
  proof cases
    case err
    with assms m a B show ?thesis by (auto simp: run_migration_def ebind_def wrap_err_def on_error_def)
  next
    case ok
    with B have u: "content u = content s" "pending u = Some (content s)" by auto
    let ?r1 = "rolling_back D (''unable to build database error while applying '' @ mf_Name f @ '': '') ?exec"
    let ?r2 = "rolling_back D (''unable to set db version '' @ mf_Name f @ '': '') (sq_Exec D (set_version m))"
    let ?r3 = "rolling_back D (''unable to commit database change during '' @ mf_Name f @ '': '') (sq_Commit D)"
    from assms m a ok have run: "ebind ?r1 (\<lambda>_. ebind ?r2 (\<lambda>_. ?r3)) u = (r, t)"
      by (simp add: run_migration_def ebind_def wrap_err_def on_error_def)
    obtain b1 w1 where w1: "?exec u = (b1, w1)" by (cases "?exec u")
    obtain r1 t1 where t1: "?r1 u = (r1, t1)" by (cases "?r1 u")
    note X1 = executes_all [OF u(2) w1]
    note R1 = rolling_back_content [OF t1 w1, of "content s"]
    show ?thesis
    proof (cases "b1 = Inr ()")
      case False
      with X1 R1 u have "content t1 = content s" "calm r1" "r1 \<noteq> Inr ()" by auto
      with run t1 calm_cases [of r1] show ?thesis by (auto simp: ebind_def)
    next
      case True
      with X1 R1 obtain c1 where c1: "run_sql sql (file_lines f) (content s) = Some c1" "pending t1 = Some c1"
        "content t1 = content s" "r1 = Inr ()" using u by auto
      obtain b2 w2 where w2: "sq_Exec D (set_version m) t1 = (b2, w2)" by (cases "sq_Exec D (set_version m) t1")
      obtain r2 t2 where t2: "?r2 t1 = (r2, t2)" by (cases "?r2 t1")
      note X2 = executes [OF c1(2) w2]
      note R2 = rolling_back_content [OF t2 w2, of "content s"]
      show ?thesis
      proof (cases "b2 = Inr ()")
        case False
        with X2 R2 c1 have "content t2 = content s" "calm r2" "r2 \<noteq> Inr ()" by auto
        with run t1 t2 c1 calm_cases [of r2] show ?thesis by (auto simp: ebind_def)
      next
        case True
        with X2 R2 obtain c2 where c2: "sql (set_version m) c1 = Some c2" "pending t2 = Some c2"
          "content t2 = content s" "r2 = Inr ()" using c1 by auto
        from run t1 t2 c1 c2 have t3: "?r3 t2 = (r, t)" by (simp add: ebind_def)
        obtain b3 w3 where w3: "sq_Commit D t2 = (b3, w3)" by (cases "sq_Commit D t2")
        note X3 = commits [OF c2(2) w3]
        note R3 = rolling_back_content [OF t3 w3, of "content s"]
        from X3 R3 c2 have "r = Inr () \<and> content t = c2 \<or> r \<noteq> Inr () \<and> content t = content s" by auto
        moreover have "run_sql sql (script f) (content s) = Some c2"
          using c1(1) c2(1) out by (simp add: script_def run_sql_append)
        ultimately show ?thesis using out by auto
      qed
    qed
  qed
qed

text \<open>All files: those that were applied come first, and after a success none is left.\<close>

lemma run_migrations_whole:
  "for_each (run_migration D v) fs s = (r, t) \<Longrightarrow>
     \<exists>done left. outstanding v fs = done @ left \<and> (r = Inr () \<longrightarrow> left = []) \<and>
       run_sql sql (concat (map script done)) (content s) = Some (content t)"
proof (induction fs arbitrary: s)
  case Nil
  then show ?case by (simp add: outstanding_def)
next
  case (Cons f fs)
  have split: "outstanding v (f # fs) = outstanding v [f] @ outstanding v fs" by (simp add: outstanding_def)
  obtain a u where a: "run_migration D v f s = (a, u)" by (cases "run_migration D v f s")
  note W = run_migration_whole [OF a]
  show ?case
  proof (cases "a = Inr ()")
    case False
    with Cons.prems a have "r \<noteq> Inr ()" "t = u" by (auto split: sum.splits)
    with W False have "r \<noteq> Inr () \<and> content t = content s" by auto
    then show ?thesis by (intro exI [of _ "[]"] exI [of _ "outstanding v (f # fs)"]) simp
  next
    case True
    with Cons.prems a have "for_each (run_migration D v) fs u = (r, t)" by simp
    from Cons.IH [OF this] obtain dn left where
      R: "outstanding v fs = dn @ left" "r = Inr () \<longrightarrow> left = []"
      "run_sql sql (concat (map script dn)) (content u) = Some (content t)" by blast
    from W True have "run_sql sql (concat (map script (outstanding v [f]))) (content s) = Some (content u)" by auto
    with R split show ?thesis
      by (intro exI [of _ "outstanding v [f] @ dn"] exI [of _ left]) (simp add: run_sql_append)
  qed
qed

lemma Do_whole:
  assumes "Do files (Some D) s = (r, t)"
  shows "\<exists>done left. outstanding (version (content s)) files = done @ left \<and> (r = Inr () \<longrightarrow> left = []) \<and>
     run_sql sql (concat (map script done)) (content s) = Some (content t)"
proof (cases "sq_user_version D s")
  case (Inl e)
  with assms show ?thesis
    by (intro exI [of _ "[]"] exI [of _ "outstanding (version (content s)) files"]) (auto simp: Do_def dbVersion_def ebind_def)
next
  case (Inr v)
  with assms have "for_each (run_migration D v) files s = (r, t)" by (simp add: Do_def dbVersion_def ebind_def)
  from run_migrations_whole [OF this] user_version [OF Inr] show ?thesis by simp
qed

text \<open>The version after a success is that of the last file applied.\<close>

lemma run_sql_last_version:
  assumes "run_sql sql (concat (map script fs)) c = Some c'" and "fs \<noteq> []"
  shows "version c' = the (file_version (last fs))"
proof -
  from assms(2) obtain gs g where fs: "fs = gs @ [g]" by (metis rev_exhaust)
  with assms(1) obtain d where "sql (set_version (the (file_version g))) d = Some c'"
    by (auto simp: run_sql_append script_def bind_eq_Some_conv)
  with fs pragma show ?thesis by simp
qed

end

text \<open>Files whose versions grow with their names.\<close>

definition in_order :: "migration_file list \<Rightarrow> bool" where
  "in_order files = sorted_wrt (\<lambda>f g. case (file_version f, file_version g) of (Some a, Some b) \<Rightarrow> a \<le> b | _ \<Rightarrow> True) files"

lemma outstanding_mem: "f \<in> set (outstanding v files) \<longleftrightarrow> f \<in> set files \<and> (\<exists>m. file_version f = Some m \<and> m > v)"
  by (auto simp: outstanding_def split: option.splits)

lemma outstanding_last:
  assumes "in_order files" and "outstanding v files \<noteq> []"
  shows "outstanding (the (file_version (last (outstanding v files)))) files = []"
proof -
  let ?P = "\<lambda>f g. case (file_version f, file_version g) of (Some a, Some b) \<Rightarrow> a \<le> b | _ \<Rightarrow> True"
  from assms(2) obtain ds l where l: "outstanding v files = ds @ [l]" by (metis rev_exhaust)
  have "sorted_wrt ?P (ds @ [l])"
    using assms(1) unfolding l [symmetric] outstanding_def in_order_def by (rule sorted_wrt_filter)
  then have le: "?P d l" if "d \<in> set ds" for d using that by (simp add: sorted_wrt_append)
  obtain n where n: "file_version l = Some n" "n > v" using l outstanding_mem [of l v files] by auto
  have "\<not> m > n" if "f \<in> set files" "file_version f = Some m" for f m
  proof
    assume "m > n"
    with that n have "f \<in> set (ds @ [l])" using outstanding_mem [of f v files] l by auto
    with le [of f] that n \<open>m > n\<close> show False by auto
  qed
  then have "outstanding n files = []"
    by (auto simp: outstanding_def filter_empty_conv split: option.splits)
  with l n show ?thesis by simp
qed

section \<open>A reference database\<close>

text \<open>The content is what was executed, with the version; every statement succeeds.\<close>

type_synonym sql_log = "string list \<times> int"

record memory_db =
  md_committed :: sql_log
  md_open :: "sql_log option"

definition read_int :: "string \<Rightarrow> int" where
  "read_int s = (if has_prefix s ''-'' then - int (nat_of_digits (trim_prefix s ''-'')) else int (nat_of_digits s))"

definition sql_ref :: "string \<Rightarrow> sql_log \<Rightarrow> sql_log option" where
  "sql_ref q c = Some (fst c @ [q],
     if has_prefix q version_pragma then read_int (trim_prefix q version_pragma) else snd c)"

definition sqlite_ref :: "memory_db sqlite" where
  "sqlite_ref = \<lparr>sq_user_version = (\<lambda>s. Inr (snd (md_committed s))),
     sq_Begin = (\<lambda>s. (Inr (), s\<lparr>md_open := Some (md_committed s)\<rparr>)),
     sq_Exec = (\<lambda>q s. (Inr (), s\<lparr>md_open := Option.bind (md_open s) (sql_ref q)\<rparr>)),
     sq_Commit = (\<lambda>s. (Inr (), s\<lparr>md_committed := (case md_open s of None \<Rightarrow> md_committed s | Some c \<Rightarrow> c), md_open := None\<rparr>)),
     sq_Rollback = (\<lambda>s. (Inr (), s\<lparr>md_open := None\<rparr>))\<rparr>"

lemma read_int_show [simp]: "read_int (show_int m) = m"
proof -
  have "\<not> prefix ''-'' (show_nat n)" for n
  proof -
    obtain c cs where c: "show_nat n = c # cs" by (cases "show_nat n") auto
    with show_nat_digits [of n] have "is_digit c" by simp
    then have "c \<noteq> CHR ''-''" by (auto simp: is_digit_def)
    with c show ?thesis by simp
  qed
  then show ?thesis by (auto simp: read_int_def show_int_def has_prefix_def trim_prefix_def)
qed

interpretation sqlite_ref: sql_transactions sqlite_ref md_committed md_open sql_ref snd
  by unfold_locales (auto simp: sqlite_ref_def sql_ref_def set_version_def)

text \<open>After a run that succeeds nothing is outstanding.\<close>

lemma Do_complete:
  assumes "sql_transactions D content pending sql version" and "Do files (Some D) s = (r, t)"
  shows "\<exists>done left. outstanding (version (content s)) files = done @ left \<and>
     run_sql sql (concat (map script done)) (content s) = Some (content t) \<and>
     (r = Inr () \<longrightarrow> left = [] \<and> (in_order files \<longrightarrow> outstanding (version (content t)) files = []))"
proof -
  from sql_transactions.Do_whole [OF assms] obtain dn left where
    d: "outstanding (version (content s)) files = dn @ left" "r = Inr () \<longrightarrow> left = []"
    "run_sql sql (concat (map script dn)) (content s) = Some (content t)" by blast
  have "outstanding (version (content t)) files = []" if "r = Inr ()" "in_order files"
  proof (cases "dn = []")
    case True
    with d that show ?thesis by simp
  next
    case False
    with d that sql_transactions.run_sql_last_version [OF assms(1) d(3)]
    show ?thesis using outstanding_last [OF that(2), of "version (content s)"] by simp
  qed
  with d show ?thesis by blast
qed

section \<open>Properties\<close>

text \<open>C38
  A migration of the database is complete or leaves no trace: however a run ends, the committed
  content is the effect of whole files, the first ones of those that were outstanding, in order. After a
  run that succeeds none was left out, and when the versions grow with the names of the files, none is
  outstanding any more, so that the next run changes nothing.
\<close>

theorem migrations_whole:
  assumes "sql_transactions D content pending sql version" and "Do files (Some D) s = (r, t)"
  shows "\<exists>done left. outstanding (version (content s)) files = done @ left \<and>
     run_sql sql (concat (map script done)) (content s) = Some (content t) \<and>
     (r = Inr () \<longrightarrow> left = [] \<and> (in_order files \<longrightarrow> outstanding (version (content t)) files = []))"
  using assms by (rule Do_complete)

definition demo_files :: "migration_file list" where
  "demo_files = [\<lparr>mf_Name = ''1_initial.sql'', mf_IsDir = False, mf_contents = ''-- version 1'' @ [CHR 0x0A] @ ''CREATE TABLE Totp;''\<rparr>,
     \<lparr>mf_Name = ''2_rename.sql'', mf_IsDir = False, mf_contents = ''-- version 2'' @ [CHR 0x0A] @ ''ALTER TABLE Totp;''\<rparr>]"

definition demo_db :: memory_db where
  "demo_db = \<lparr>md_committed = ([], 1), md_open = None\<rparr>"

lemma demo_migration:
  "Do demo_files (Some sqlite_ref) demo_db =
     (Inr (), \<lparr>md_committed = ([''-- version 2'', ''ALTER TABLE Totp;'', ''PRAGMA user_version = 2''], 2), md_open = None\<rparr>)"
  by code_simp

lemma demo_in_order: "in_order demo_files" by code_simp

theorem migrations_whole_witness:
  "\<exists>done left. outstanding 1 demo_files = done @ left \<and>
     run_sql sql_ref (concat (map script done)) ([], 1) =
       Some ([''-- version 2'', ''ALTER TABLE Totp;'', ''PRAGMA user_version = 2''], 2) \<and>
     left = [] \<and> outstanding 2 demo_files = []"
  using migrations_whole [OF sqlite_ref.sql_transactions_axioms demo_migration] demo_in_order
  by (simp add: demo_db_def)

end
