(* ===== verification/Startup.thy ===== *)
theory Startup
  imports Import Migrations
begin

text \<open>
  Starting the store of a node (internal/data/init.go: Load, parseUrls, TearDown): the database of an
  earlier version is brought up to date, the certificates are obtained, the embedded etcd server is
  configured and started, and a node that is no learner imports what the cluster does not have. The file
  system, the certificate manager, the etcd server, the parsers and random values are the argument \<open>L\<close>.
\<close>

section \<open>State\<close>

record tls_manager =
  tm_CACertPath :: string
  tm_PeerCertPath :: string
  tm_PeerKeyPath :: string

text \<open>The configuration of the embedded server, an address being its text.\<close>

record embed_config =
  ec_Name :: string
  ec_ClusterState :: string
  ec_InitialClusterToken :: string
  ec_LogLevel :: string
  ec_ListenPeerUrls :: "string list"
  ec_ListenClientUrls :: "string list"
  ec_AdvertisePeerUrls :: "string list"
  ec_AutoCompactionMode :: string
  ec_AutoCompactionRetention :: string
  ec_ClientCertAuth :: bool
  ec_TrustedCAFile :: string
  ec_CertFile :: string
  ec_KeyFile :: string
  ec_InitialCluster :: string
  ec_Dir :: string

record 'd node_data =
  nn_config :: Config
  nn_TLSManager :: "tls_manager option"
  nn_db :: 'd
  nn_store :: store
  nn_etcdServer :: "embed_config option"
  nn_etcd :: bool
  nn_watching :: bool
  nn_exit_closed :: bool

text \<open>
  \<open>lo_Join\<close> gives what the other members send as their configuration file, besides its result;
  \<open>lo_order\<close> is the order in which a map is gone through.
\<close>

record 'd load_env =
  lo_E :: etcd
  lo_missing :: "string \<Rightarrow> bool"
  lo_sqlite :: "'d sqlite"
  lo_files :: "migration_file list"
  lo_time :: string
  lo_CopyFile :: "string \<Rightarrow> string \<Rightarrow> error option"
  lo_New :: "string \<Rightarrow> string \<Rightarrow> error + tls_manager"
  lo_Join :: "string \<Rightarrow> string \<Rightarrow> string option \<times> (error + tls_manager)"
  lo_WriteFile :: "error option"
  lo_config_Load :: "string \<Rightarrow> error + Config"
  lo_random :: "error + string"
  lo_parse_url :: "string \<Rightarrow> error + string"
  lo_order :: "(string \<times> string list) list \<Rightarrow> (string \<times> string list) list"
  lo_StartEtcd :: "embed_config \<Rightarrow> error option"
  lo_ready :: bool
  lo_client :: "error option"
  lo_learner :: bool
  lo_migrate :: "'d \<Rightarrow> (store, unit) eff"
  lo_text :: "Config \<Rightarrow> string"

section \<open>Operations\<close>

definition parseUrls :: "(string \<Rightarrow> error + string) \<Rightarrow> string list \<Rightarrow> string list" where
  "parseUrls parse values = concat (map (\<lambda>v. case parse v of Inl _ \<Rightarrow> [] | Inr u \<Rightarrow> [u]) values)"

abbreviation in_db :: "('d, 'a) eff \<Rightarrow> ('d node_data, 'a) eff" where
  "in_db \<equiv> zoom nn_db (\<lambda>x s. s\<lparr>nn_db := x\<rparr>)"

abbreviation in_node_store :: "(store, 'a) eff \<Rightarrow> ('d node_data, 'a) eff" where
  "in_node_store \<equiv> zoom nn_store (\<lambda>x s. s\<lparr>nn_store := x\<rparr>)"

definition of_error :: "error option \<Rightarrow> ('s, unit) eff" where
  "of_error r = (case r of Some e \<Rightarrow> raise e | None \<Rightarrow> ret ())"

text \<open>The database is copied before it is changed, unless it is one in memory.\<close>

definition migrate_database :: "'d load_env \<Rightarrow> string \<Rightarrow> ('d node_data, unit) eff" where
  "migrate_database L path =
     ebind (in_db (Can (lo_files L) (Some (lo_sqlite L)))) (\<lambda>can.
     ebind (if can \<and> \<not> has_prefix path ''file::memory:'' \<and> \<not> contains path ''mode=memory''
            then of_error (lo_CopyFile L path (path @ ''.'' @ lo_time L @ ''.bak'')) else ret ()) (\<lambda>_.
     in_db (Do (lo_files L) (Some (lo_sqlite L)))))"

definition set_config :: "(Config \<Rightarrow> Config) \<Rightarrow> 'd node_data \<Rightarrow> 'd node_data" where
  "set_config f s = s\<lparr>nn_config := f (nn_config s)\<rparr>"

abbreviation clustering :: "'d node_data \<Rightarrow> ClusteringDetails" where
  "clustering s \<equiv> cf_Clustering (nn_config s)"

text \<open>The configuration another member sends; a failure ends the process.\<close>

definition receive_config :: "'d load_env \<Rightarrow> string option \<Rightarrow> ('d node_data, unit) eff" where
  "receive_config L sent = (case sent of
      None \<Rightarrow> ret ()
    | Some text \<Rightarrow> (case lo_WriteFile L of
        Some e \<Rightarrow> panic (''failed to create config.json from other cluster members config: '' @ e)
      | None \<Rightarrow> (case lo_config_Load L text of
          Inl e \<Rightarrow> panic (''config supplied by other cluster member was invalid (potential version issues?): '' @ e)
        | Inr c \<Rightarrow> (\<lambda>s. (Inr (), set_config (\<lambda>_. c) s)))))"

definition default_storage :: "'d node_data \<Rightarrow> 'd node_data" where
  "default_storage s = (if cd_TLSManagerStorage (clustering s) = ''''
     then set_config (\<lambda>c. c\<lparr>cf_Clustering := (cf_Clustering c)\<lparr>cd_TLSManagerStorage := ''certificates''\<rparr>\<rparr>) s else s)"

definition setup_tls :: "'d load_env \<Rightarrow> string \<Rightarrow> ('d node_data, unit) eff" where
  "setup_tls L joinToken s =
     (if nn_TLSManager s \<noteq> None then ret () s
      else if joinToken = '''' then
        (case lo_New L (cd_TLSManagerStorage (clustering s)) (cd_TLSManagerListenURL (clustering s)) of
           Inl e \<Rightarrow> raise (''tls manager: '' @ e) s
         | Inr m \<Rightarrow> ret () (s\<lparr>nn_TLSManager := Some m\<rparr>))
      else
        let s = default_storage s;
            (sent, res) = lo_Join L joinToken (cd_TLSManagerStorage (clustering s))
        in ebind (receive_config L sent) (\<lambda>_ s. case res of
             Inl e \<Rightarrow> raise e s
           | Inr m \<Rightarrow> ret () (s\<lparr>nn_TLSManager := Some m\<rparr>)) s)"

definition initial_cluster :: "(string \<times> string list) list \<Rightarrow> string" where
  "initial_cluster peers = butlast (concat (map (\<lambda>(tag, addresses). tag @ ''='' @ join_str '','' addresses @ '','') peers))"

definition embed_config_of :: "'d load_env \<Rightarrow> bool \<Rightarrow> string \<Rightarrow> ClusteringDetails \<Rightarrow> tls_manager \<Rightarrow> embed_config" where
  "embed_config_of L testing part c m =
     (let name = (if testing then cd_Name c @ part else cd_Name c);
          urls = parseUrls (lo_parse_url L) (cd_ListenAddresses c)
      in \<lparr>ec_Name = name, ec_ClusterState = cd_ClusterState c, ec_InitialClusterToken = ''wag'',
          ec_LogLevel = cd_ETCDLogLevel c, ec_ListenPeerUrls = urls,
          ec_ListenClientUrls = parseUrls (lo_parse_url L) [''unix:///tmp/wag.etcd.'' @ part],
          ec_AdvertisePeerUrls = urls, ec_AutoCompactionMode = ''periodic'', ec_AutoCompactionRetention = ''1h'',
          ec_ClientCertAuth = True, ec_TrustedCAFile = tm_CACertPath m, ec_CertFile = tm_PeerCertPath m,
          ec_KeyFile = tm_PeerKeyPath m,
          ec_InitialCluster = initial_cluster (lo_order L (AList.update name (cd_ListenAddresses c) (cd_Peers c))),
          ec_Dir = path_join [cd_DatabaseLocation c, name @ ''.wag-node.etcd'']\<rparr>)"

text \<open>The node is added to the peers of the configuration itself, whose map is shared.\<close>

definition start_etcd :: "'d load_env \<Rightarrow> bool \<Rightarrow> string \<Rightarrow> ('d node_data, unit) eff" where
  "start_etcd L testing part s = (case nn_TLSManager s of
      None \<Rightarrow> panic ''nil pointer dereference'' s
    | Some m \<Rightarrow>
        let c = clustering s; cfg = embed_config_of L testing part c m in
        if map_of (cd_Peers c) (ec_Name cfg) \<noteq> None
        then raise (''clustering.peers contains the same name ('' @ ec_Name cfg @ '') as this node this would trample something and break'') s
        else
          let s = set_config (\<lambda>k. k\<lparr>cf_Clustering := c\<lparr>cd_Peers := AList.update (ec_Name cfg) (cd_ListenAddresses c) (cd_Peers c)\<rparr>\<rparr>) s
          in case lo_StartEtcd L cfg of
               Some e \<Rightarrow> raise (''error starting etcd: '' @ e) s
             | None \<Rightarrow>
                 let s = s\<lparr>nn_etcdServer := Some cfg\<rparr> in
                 if \<not> lo_ready L then raise ''etcd took too long to start'' s
                 else (case lo_client L of Some e \<Rightarrow> raise e s | None \<Rightarrow> ret () (s\<lparr>nn_etcd := True\<rparr>)))"

definition Load :: "'d load_env \<Rightarrow> string \<Rightarrow> string \<Rightarrow> bool \<Rightarrow> ('d node_data, unit) eff" where
  "Load L path joinToken testing =
     (let doMigration = (\<not> lo_missing L path) in
      ebind (if doMigration then migrate_database L path else ret ()) (\<lambda>_.
      ebind (setup_tls L joinToken) (\<lambda>_.
      ebind (case lo_random L of Inl e \<Rightarrow> raise e | Inr p \<Rightarrow> ret p) (\<lambda>part.
      ebind (start_etcd L testing part) (\<lambda>_.
      ebind (if lo_learner L then ret ()
             else ebind (if doMigration then (\<lambda>s. in_node_store (lo_migrate L (nn_db s)) s) else ret ()) (\<lambda>_ s.
               in_node_store (loadInitialSettings (lo_E L) (lo_text L (nn_config s)) (nn_config s)) s)) (\<lambda>_ s.
      (Inr (), s\<lparr>nn_watching := True\<rparr>)))))))"

definition data_TearDown :: "('d node_data, unit) eff" where
  "data_TearDown s =
     (if nn_exit_closed s then panic ''close of closed channel'' s
      else let s = s\<lparr>nn_exit_closed := True\<rparr>
        in if nn_etcdServer s = None then ret () s else ret () (s\<lparr>nn_etcd := False, nn_etcdServer := None\<rparr>))"

section \<open>Lemmas\<close>

lemma Can_reads: "Can files db s = (r, t) \<Longrightarrow> t = s"
  by (auto simp: Can_def dbVersion_def ebind_def split: option.splits sum.splits)

lemma of_error_eq: "of_error e s = (Inr u, t) \<longleftrightarrow> e = None \<and> t = s"
  by (auto simp: of_error_def split: option.splits)

lemma migrate_database_ok:
  assumes "migrate_database L path s = (Inr (), t)"
  shows "\<exists>d. Do (lo_files L) (Some (lo_sqlite L)) (nn_db s) = (Inr (), d) \<and> t = s\<lparr>nn_db := d\<rparr>"
  using assms by (auto simp: migrate_database_def eff_inv zoom_eq_Inr of_error_eq split: if_splits dest!: Can_reads)

lemma receive_config_keeps:
  "receive_config L x s = (r, t) \<Longrightarrow> nn_store t = nn_store s \<and> nn_db t = nn_db s"
  by (auto simp: receive_config_def set_config_def split: option.splits sum.splits)

lemma setup_tls_keeps:
  assumes "setup_tls L joinToken s = (r, t)"
  shows "nn_store t = nn_store s \<and> nn_db t = nn_db s"
proof -
  let ?s = "default_storage s"
  have k: "nn_store ?s = nn_store s" "nn_db ?s = nn_db s" by (simp_all add: default_storage_def set_config_def)
  obtain x y where j: "lo_Join L joinToken (cd_TLSManagerStorage (clustering ?s)) = (x, y)" by (metis prod.exhaust)
  obtain a u where a: "receive_config L x ?s = (a, u)" by (metis prod.exhaust)
  have "t = s \<or> (\<exists>m. t = s\<lparr>nn_TLSManager := m\<rparr>) \<or> t = u \<or> (\<exists>m. t = u\<lparr>nn_TLSManager := m\<rparr>)"
    using assms j a unfolding setup_tls_def Let_def by (auto simp: ebind_def split: if_splits sum.splits)
  with receive_config_keeps [OF a] k show ?thesis by auto
qed

lemma start_etcd_ok:
  assumes "start_etcd L testing part s = (Inr (), t)"
  shows "\<exists>ec. nn_etcdServer t = Some ec \<and> nn_etcd t \<and> map_of (cd_Peers (clustering s)) (ec_Name ec) = None \<and>
    map_of (cd_Peers (clustering t)) (ec_Name ec) = Some (cd_ListenAddresses (clustering t)) \<and>
    ec_InitialCluster ec = initial_cluster (lo_order L (cd_Peers (clustering t))) \<and>
    nn_store t = nn_store s \<and> nn_db t = nn_db s"
  using assms
  by (auto simp: start_etcd_def Let_def set_config_def embed_config_of_def update_conv' split: option.splits if_splits)

section \<open>Properties\<close>


section \<open>A concrete start\<close>

definition demo_load :: "memory_db load_env" where
  "demo_load = \<lparr>lo_E = etcd_ref, lo_missing = (\<lambda>_. False), lo_sqlite = sqlite_ref, lo_files = demo_files, lo_time = ''1'',
     lo_CopyFile = (\<lambda>_ _. None), lo_New = (\<lambda>_ _. Inr \<lparr>tm_CACertPath = ''ca'', tm_PeerCertPath = ''cert'', tm_PeerKeyPath = ''key''\<rparr>),
     lo_Join = (\<lambda>_ _. (None, Inl ''none'')), lo_WriteFile = None, lo_config_Load = (\<lambda>_. Inl ''none''), lo_random = Inr ''aa'',
     lo_parse_url = Inr, lo_order = (\<lambda>ps. ps), lo_StartEtcd = (\<lambda>_. None), lo_ready = True, lo_client = None,
     lo_learner = False, lo_migrate = (\<lambda>_. ret ()), lo_text = (\<lambda>_. ''{}'')\<rparr>"

definition demo_data :: "memory_db node_data" where
  "demo_data = \<lparr>nn_config = demo_config, nn_TLSManager = None, nn_db = demo_db, nn_store = no_store, nn_etcdServer = None,
     nn_etcd = False, nn_watching = False, nn_exit_closed = False\<rparr>"

lemma demo_load_ok: "\<exists>t. Load demo_load ''devices.db'' '''' False demo_data = (Inr (), t)"
proof -
  have "fst (Load demo_load ''devices.db'' '''' False demo_data) = Inr ()" by code_simp
  then show ?thesis by (metis prod.collapse)
qed


end
