(* ===== verification/Console.thy ===== *)
theory Console
  imports ControlClient Cluster CheckRoute Web
begin

text \<open>
  The management console (ui/*.go): its state, the library calls it makes, rendering, and
  notifications. The console runs in the process of the router: it reaches the store through the
  packages of internal and most of its data through the control client.

  The session library, the templates, the file server, the websocket upgrade and the embedded etcd
  server are arguments. What the logger writes to \<open>LogQueue\<close> and the watchers to \<open>EventsQueue\<close> is
  left out: the console only reads both. The mutexes make each update of a map one step.
\<close>

section \<open>State\<close>

record Notification =
  nt_ID :: string
  nt_Heading :: string
  nt_Message :: "string list"
  nt_Url :: string
  nt_Time :: int
  nt_Color :: string
  nt_OpenNewTab :: bool

type_synonym admin_sessions = "string \<Rightarrow> AdminModel option"

record console =
  cn_router :: router
  cn_sessions :: admin_sessions
  cn_notifications :: "(string \<times> Notification) list"
  cn_connections :: "string list"
  cn_delivered :: "(string \<times> Notification) list"
  cn_clusterState :: string
  cn_serverID :: string
  cn_WagVersion :: string
  cn_LogQueue :: queue
  cn_EventsQueue :: queue
  cn_cluster :: cluster

text \<open>
  The session library over its table of sessions: who a request belongs to (its key and data), the
  start and end of a session with what they do to the response, and the check in front of the pages.
  That check is given the pages, what to do without a session, and what to do with the data of one.
\<close>

record session_lib =
  sl_GetSessionFromRequest :: "admin_sessions \<Rightarrow> http_request \<Rightarrow> string \<times> AdminModel option"
  sl_StartSession :: "http_request \<Rightarrow> AdminModel \<Rightarrow> admin_sessions \<times> response_writer \<Rightarrow> admin_sessions \<times> response_writer"
  sl_DeleteSession :: "http_request \<Rightarrow> admin_sessions \<times> response_writer \<Rightarrow> admin_sessions \<times> response_writer"
  sl_UpdateSession :: "string \<Rightarrow> AdminModel \<Rightarrow> admin_sessions \<Rightarrow> admin_sessions"
  sl_csrf :: "admin_sessions \<Rightarrow> http_request \<Rightarrow> string"
  sl_AuthorisationChecks :: "console handler \<Rightarrow> console handler \<Rightarrow>
     (http_request \<Rightarrow> AdminModel \<Rightarrow> (console, bool) hnd) \<Rightarrow> console handler"

record member =
  mb_ID :: string
  mb_IsStarted :: bool
  mb_IsLearner :: bool

record xenv =
  xe_W :: wenv
  xe_methods :: methods
  xe_ctrl :: "router CtrlClient"
  xe_lib :: session_lib
  xe_kdf :: kdf
  xe_random32 :: "error + bytes"
  xe_date :: string
  xe_now :: int
  xe_RFC822 :: "int \<Rightarrow> string"
  xe_template :: "string list \<Rightarrow> error option"
  xe_execute :: "string list \<Rightarrow> json \<Rightarrow> (string \<times> error) option"
  xe_order :: "Notification list \<Rightarrow> Notification list"
  xe_static :: "http_request \<Rightarrow> response_writer \<Rightarrow> response_writer"
  xe_Upgrade :: "http_request \<Rightarrow> (response_writer \<Rightarrow> response_writer) option"
  xe_cluster :: cluster_env
  xe_leader :: string
  xe_members :: "member list"
  xe_dec_members :: "json \<Rightarrow> string list res"
  xe_is_member :: "u64 \<Rightarrow> bool"
  xe_parse_time :: "string \<Rightarrow> error + int"
  xe_member_promote :: "u64 \<Rightarrow> (store, unit) eff"
  xe_member_remove :: "u64 \<Rightarrow> (store, unit) eff"
  xe_StepDown :: "error option"
  xe_validate_general :: "GeneralSettings \<Rightarrow> error option"
  xe_validate_login :: "LoginSettings \<Rightarrow> error option"
  xe_marshal :: marshaller
  xe_lookup :: "trie \<Rightarrow> ip4 \<Rightarrow> Policy list option"
  xe_traffic :: "string \<Rightarrow> int \<times> int \<times> string"
  xe_udp :: "udp_addr option \<Rightarrow> string"
  xe_indent :: "json \<Rightarrow> string"

abbreviation xe_R :: "xenv \<Rightarrow> renv" where "xe_R X \<equiv> we_R (xe_W X)"
abbreviation xe_E :: "xenv \<Rightarrow> etcd" where "xe_E X \<equiv> re_etcd (xe_R X)"

definition of_router :: "(router, 'a) eff \<Rightarrow> (console, 'a) hnd" where
  "of_router m = on_state (zoom cn_router (\<lambda>x s. s\<lparr>cn_router := x\<rparr>) m)"

abbreviation of_store :: "(store, 'a) eff \<Rightarrow> (console, 'a) hnd" where
  "of_store m \<equiv> of_router (in_store m)"

definition of_sessions :: "(admin_sessions \<times> response_writer \<Rightarrow> admin_sessions \<times> response_writer) \<Rightarrow> (console, unit) hnd" where
  "of_sessions f = (\<lambda>(s, w). case f (cn_sessions s, w) of (k, v) \<Rightarrow> (Inr (), (s\<lparr>cn_sessions := k\<rparr>, v)))"

definition of_console :: "(console \<Rightarrow> 'a) \<Rightarrow> (console, 'a) hnd" where
  "of_console f = (\<lambda>(s, w). (Inr (f s), (s, w)))"

text \<open>A call whose error is only logged.\<close>

definition ignoring :: "('s, unit) eff \<Rightarrow> ('s, unit) eff" where
  "ignoring m = ebind (attempt m) (\<lambda>_. ret ())"

section \<open>Notifications\<close>

definition enc_notification :: "Notification \<Rightarrow> json" where
  "enc_notification n = JObj [(''ID'', JStr (nt_ID n)), (''Heading'', JStr (nt_Heading n)),
     (''Message'', enc_slice JStr (nt_Message n)), (''Url'', JStr (nt_Url n)), (''Time'', JTime (nt_Time n)),
     (''Color'', JStr (nt_Color n)), (''OpenNewTab'', JBool (nt_OpenNewTab n))]"

definition error_notification :: "EventError \<Rightarrow> Notification" where
  "error_notification e = \<lparr>nt_ID = ee_ErrorID e, nt_Heading = ''Node Error'', nt_Message = [''Node '' @ ee_NodeID e, ee_Error e],
     nt_Url = ''/cluster/events/'', nt_Time = ee_Time e, nt_Color = ''#db0b3c'', nt_OpenNewTab = False\<rparr>"

definition known :: "console \<Rightarrow> string \<Rightarrow> bool" where
  "known s i \<longleftrightarrow> map_of (cn_notifications s) i \<noteq> None"

definition remember :: "Notification \<Rightarrow> console \<Rightarrow> console" where
  "remember n s = (if known s (nt_ID n) then s else s\<lparr>cn_notifications := cn_notifications s @ [(nt_ID n, n)]\<rparr>)"

definition forget :: "string \<Rightarrow> console \<Rightarrow> console" where
  "forget i s = s\<lparr>cn_notifications := filter (\<lambda>e. fst e \<noteq> i) (cn_notifications s)\<rparr>"

text \<open>The newest come first; the order of a Go map among equal times is the argument \<open>xe_order\<close>.\<close>

definition getNotifications :: "xenv \<Rightarrow> (console, Notification list) hnd" where
  "getNotifications X =
     ebind (attempt (of_router (client_GetClusterErrors (xe_ctrl X)))) (\<lambda>r.
     ebind (on_state (modify (case r of Inl _ \<Rightarrow> id | Inr errs \<Rightarrow> fold (\<lambda>e. remember (error_notification e)) errs))) (\<lambda>_.
     of_console (\<lambda>s. sort_key (\<lambda>n. - nt_Time n) (xe_order X (map snd (cn_notifications s))))))"

text \<open>The loop of \<open>notificationsWS\<close>: what was seen is dropped, the rest goes to every open connection.\<close>

definition notify :: "Notification \<Rightarrow> console \<Rightarrow> console" where
  "notify n s = (if known s (nt_ID n) then s
     else (remember n s)\<lparr>cn_delivered := cn_delivered s @ map (\<lambda>k. (k, n)) (cn_connections s)\<rparr>)"

text \<open>A connection is kept under the address of its client until writing to it fails.\<close>

definition notificationsWS :: "xenv \<Rightarrow> console handler" where
  "notificationsWS X r = (case xe_Upgrade X r of
      Some answer \<Rightarrow> on_writer answer
    | None \<Rightarrow> on_state (modify (\<lambda>s. s\<lparr>cn_connections := List.insert (hr_RemoteAddr r) (cn_connections s)\<rparr>)))"

definition close_connection :: "string \<Rightarrow> console \<Rightarrow> console" where
  "close_connection a s = s\<lparr>cn_connections := removeAll a (cn_connections s)\<rparr>"

definition receiveErrorNotifications :: "EventError \<Rightarrow> EventError \<Rightarrow> EventType \<Rightarrow> console \<Rightarrow> console" where
  "receiveErrorNotifications current previous et s = (case et of
      CREATED \<Rightarrow> notify (error_notification current) s
    | DELETED \<Rightarrow> forget (ee_ErrorID previous) s
    | _ \<Rightarrow> s)"

text \<open>An answer of the update server: its tag, text and address. The notification has no ID.\<close>

definition dec_githubResponse :: "json \<Rightarrow> (string \<times> string \<times> string) res" where
  "dec_githubResponse = dec_struct (\<lambda>ms.
     rbind (dec_field dec_string ''Body'' '''' ms) (\<lambda>body.
     rbind (dec_field dec_bool ''prerelease'' False ms) (\<lambda>_.
     rbind (dec_field dec_string ''tag_name'' '''' ms) (\<lambda>tag.
     rbind (dec_field dec_string ''published_at'' '''' ms) (\<lambda>_.
     rbind (dec_field dec_string ''html_url'' '''' ms) (\<lambda>url. Inr (body, tag, url))))))) ('''', '''', '''')"

fun split_crlf :: "string \<Rightarrow> string list" where
  "split_crlf [] = [[]]"
| "split_crlf [c] = [[c]]"
| "split_crlf (c # d # cs) =
     (if c = CHR 0x0D \<and> d = CHR 0x0A then [] # split_crlf cs
      else case split_crlf (d # cs) of l # ls \<Rightarrow> (c # l) # ls | [] \<Rightarrow> [[c]])"

definition update_notification :: "int \<Rightarrow> string \<times> string \<times> string \<Rightarrow> Notification" where
  "update_notification now = (\<lambda>(body, tag, url). \<lparr>nt_ID = '''', nt_Heading = tag, nt_Message = split_crlf body, nt_Url = url,
     nt_Time = now, nt_Color = ''#0bb329'', nt_OpenNewTab = True\<rparr>)"

text \<open>A round of \<open>startUpdateChecker\<close>; it says whether there is a next one.\<close>

definition update_round :: "xenv \<Rightarrow> error + json \<Rightarrow> console \<Rightarrow> bool \<times> console" where
  "update_round X resp s = (case resp of
      Inl _ \<Rightarrow> (False, s)
    | Inr j \<Rightarrow> (case dec_githubResponse j of
        Inl _ \<Rightarrow> (False, s)
      | Inr gr \<Rightarrow> (True, notify (update_notification (xe_now X) gr) s)))"

text \<open>A round of \<open>monitorClusterMembers\<close>. Times are in nanoseconds.\<close>

definition seconds :: "int \<Rightarrow> int" where "seconds n = n * 1000000000"

definition size_notification :: "int \<Rightarrow> Notification" where
  "size_notification now = \<lparr>nt_ID = ''monitor_node_number'', nt_Heading = ''Unsafe Cluster Size!'',
     nt_Message = [''A wag cluster of two nodes doubles the risk of cluster failure.'',
       ''If either node fails the whole cluster will become unrecoverable.'', ''It is recommended to add another node.''],
     nt_Url = ''/cluster/members'', nt_Time = now, nt_Color = ''#db0b3c'', nt_OpenNewTab = False\<rparr>"

definition dead_notification :: "int \<Rightarrow> string \<Rightarrow> Notification" where
  "dead_notification now i = \<lparr>nt_ID = ''node_dead_'' @ i, nt_Heading = ''Node '' @ i @ '' dead'',
     nt_Message = [i @ '' has not sent ping in 15 seconds and is assumed dead''],
     nt_Url = ''/cluster/members'', nt_Time = now, nt_Color = ''#db0b3c'', nt_OpenNewTab = False\<rparr>"

definition degrading_notification :: "int \<Rightarrow> string \<Rightarrow> Notification" where
  "degrading_notification now i = \<lparr>nt_ID = ''node_degrading_'' @ i, nt_Heading = ''Node '' @ i @ '' degraded'',
     nt_Message = [i @ '' has exceeded expected liveness ping (5 seconds)''],
     nt_Url = ''/cluster/members'', nt_Time = now, nt_Color = ''#ff5f15'', nt_OpenNewTab = False\<rparr>"

definition judge_ping :: "int \<Rightarrow> string \<Rightarrow> int \<Rightarrow> console \<Rightarrow> console" where
  "judge_ping now i lastPing s =
     (if lastPing < now - seconds 14 then notify (dead_notification now i) (forget (''node_degrading_'' @ i) s)
      else if lastPing < now - seconds 6 then notify (degrading_notification now i) s
      else forget (''node_dead_'' @ i) (forget (''node_degrading_'' @ i) s))"

definition monitor_member :: "xenv \<Rightarrow> string \<Rightarrow> (console, unit) hnd" where
  "monitor_member X i = ebind (attempt (of_router (client_GetClusterMemberLastPing (xe_ctrl X) i))) (\<lambda>r. case r of
      Inl _ \<Rightarrow> ret ()
    | Inr lastPing \<Rightarrow> on_state (modify (judge_ping (xe_now X) i lastPing)))"

definition monitor_round :: "xenv \<Rightarrow> (console, unit) hnd" where
  "monitor_round X =
     ebind (attempt (of_router (client_GetClusterMembers (xe_ctrl X) (xe_dec_members X)))) (\<lambda>r. case r of
        Inl _ \<Rightarrow> ret ()
      | Inr currentMembers \<Rightarrow>
          ebind (on_state (modify (if length currentMembers = 2 then notify (size_notification (xe_now X))
                                   else forget ''monitor_node_number''))) (\<lambda>_.
          for_each (monitor_member X) currentMembers))"

section \<open>Rendering\<close>

text \<open>
  The templates are parsed, then executed into the response: an execution that fails may have written
  the beginning of the page. The menus show the notifications. Rendering from files instead of the
  embedded ones, in debug mode, differs only in the arguments.
\<close>

definition render :: "xenv \<Rightarrow> http_request \<Rightarrow> json \<Rightarrow> string list \<Rightarrow> (console, unit) hnd" where
  "render X r model content =
     (case xe_template X content of
        Some e \<Rightarrow> raise (''parse '' @ show_strings content @ '': '' @ e)
      | None \<Rightarrow>
          ebind (if ''templates/menus.html'' \<in> set content then getNotifications X else ret []) (\<lambda>notifications (s, w).
          case xe_execute X content model of
            Some (written, e) \<Rightarrow> (Inl (GoErr (''execute '' @ show_strings content @ '': '' @ e)),
                                 (s, if written = '''' then w else Write (Raw written) w))
          | None \<Rightarrow> (Inr (), (s, Write (View content model (JObj
              [(''csrfToken'', JStr (sl_csrf (xe_lib X) (cn_sessions s) r)),
               (''notifications'', JArr (map enc_notification notifications))])) w))))"

definition renderDefaults :: "xenv \<Rightarrow> http_request \<Rightarrow> json \<Rightarrow> string list \<Rightarrow> (console, unit) hnd" where
  "renderDefaults X r model content = render X r model (''templates/menus.html'' # map ((@) ''templates/'') content)"

definition error_page :: "xenv \<Rightarrow> http_request \<Rightarrow> (console, unit) hnd" where
  "error_page X r = ignoring (renderDefaults X r JNull [''error.html''])"

definition fail_page :: "xenv \<Rightarrow> http_request \<Rightarrow> error \<Rightarrow> (console, unit) hnd" where
  "fail_page X r e = ebind (on_writer (WriteHeader 500)) (\<lambda>_. error_page X r)"

definition show_page :: "xenv \<Rightarrow> http_request \<Rightarrow> json \<Rightarrow> string list \<Rightarrow> (console, unit) hnd" where
  "show_page X r model content = check (renderDefaults X r model content) (fail_page X r) (\<lambda>_. ret ())"

text \<open>The session a handler looks up for itself, and the fields every page has.\<close>

definition to_login :: "('s, unit) hnd" where "to_login = Redirect ''/login'' 307"

definition signed_in :: "xenv \<Rightarrow> http_request \<Rightarrow> (AdminModel \<Rightarrow> (console, unit) hnd) \<Rightarrow> (console, unit) hnd" where
  "signed_in X r k = (\<lambda>(s, w). case sl_GetSessionFromRequest (xe_lib X) (cn_sessions s) r of
      (_, None) \<Rightarrow> to_login (s, w) | (_, Some u) \<Rightarrow> k u (s, w))"

definition ui_Page :: "string \<Rightarrow> string \<Rightarrow> AdminModel \<Rightarrow> console \<Rightarrow> (string \<times> json) list" where
  "ui_Page description title u s = [(''Description'', JStr description), (''Title'', JStr title), (''User'', JStr (am_Username u)),
     (''WagVersion'', JStr (cn_WagVersion s)), (''ServerID'', JStr (cn_serverID s)), (''ClusterState'', JStr (cn_clusterState s))]"

definition with_page :: "string \<Rightarrow> string \<Rightarrow> AdminModel \<Rightarrow> ((string \<times> json) list \<Rightarrow> (console, unit) hnd) \<Rightarrow> (console, unit) hnd" where
  "with_page description title u k = ebind (of_console (ui_Page description title u)) k"

definition plain_page :: "xenv \<Rightarrow> string \<Rightarrow> string \<Rightarrow> string list \<Rightarrow> console handler" where
  "plain_page X description title content r = signed_in X r (\<lambda>u.
     with_page description title u (\<lambda>fs. show_page X r (JObj fs) content))"

end
