(* ===== verification/ConsolePages.thy ===== *)
theory ConsolePages
  imports Console
begin

text \<open>
  The pages of the management console: signing in and out, the password page, the dashboard, and the
  pages of ui/users.go, devices.go, groups.go, policies.go, registration.go, settings.go, clustering.go
  and diagnostics.go. A page is its templates with the fields of its Go struct.
\<close>

section \<open>Signing in\<close>

definition login_page :: "xenv \<Rightarrow> http_request \<Rightarrow> (console, unit) hnd" where
  "login_page X r = ignoring (render X r (JObj [(''ErrorMessage'', JStr ''Unable to login'')]) [''templates/login.html''])"

definition doLogin :: "xenv \<Rightarrow> console handler" where
  "doLogin X r =
     (if hr_Method r = ''GET'' then check (render X r JNull [''templates/login.html'']) (\<lambda>_. error_page X r) (\<lambda>_. ret ())
      else if hr_Method r = ''POST'' then
        (case hr_form r of
           Inl _ \<Rightarrow> login_page X r
         | Inr _ \<Rightarrow>
             let username = FormValue r ''username'' in
             check (of_store (IncrementAdminAuthenticationAttempt (xe_E X) username)) (\<lambda>_. login_page X r) (\<lambda>_.
             check (of_store (CompareAdminKeys (xe_E X) (xe_kdf X) username (FormValue r ''password''))) (\<lambda>_. login_page X r) (\<lambda>_.
             check (of_store (SetLastLoginInformation (xe_E X) (xe_date X) username (hr_RemoteAddr r))) (\<lambda>_. login_page X r) (\<lambda>_.
             check (of_store (GetAdminUser (xe_E X) username)) (\<lambda>_. login_page X r) (\<lambda>adminDetails.
             ebind (of_sessions (sl_StartSession (xe_lib X) r adminDetails)) (\<lambda>_.
             Redirect ''/dashboard'' 303))))))
      else NotFound)"

definition ui_logout :: "xenv \<Rightarrow> console handler" where
  "ui_logout X r = ebind (of_sessions (sl_DeleteSession (xe_lib X) r)) (\<lambda>_. to_login)"

text \<open>The answer to a change of password: a message and its kind, 0 for success.\<close>

definition password_page :: "xenv \<Rightarrow> http_request \<Rightarrow> (string \<times> json) list \<Rightarrow> string \<Rightarrow> int \<Rightarrow> (console, unit) hnd" where
  "password_page X r fs message kind =
     ignoring (renderDefaults X r (JObj (fs @ [(''Message'', JStr message), (''Type'', JNum kind)])) [''change_password.html''])"

definition empty_Page :: "(string \<times> json) list" where
  "empty_Page = map (\<lambda>k. (k, JStr '''')) [''Description'', ''Title'', ''User'', ''WagVersion'', ''ServerID'', ''ClusterState'']"

definition changePassword :: "xenv \<Rightarrow> console handler" where
  "changePassword X r = signed_in X r (\<lambda>u. with_page ''Change password page'' ''Change password'' u (\<lambda>fs.
     if hr_Method r = ''GET'' then
       show_page X r (JObj (fs @ [(''Message'', JStr ''''), (''Type'', JNum 0)])) [''change_password.html'']
     else if hr_Method r = ''POST'' then
       (case hr_form r of
          Inl _ \<Rightarrow> password_page X r fs ''Error'' 1
        | Inr _ \<Rightarrow>
            check (of_store (CompareAdminKeys (xe_E X) (xe_kdf X) (am_Username u) (FormValue r ''current_password'')))
              (\<lambda>_. password_page X r fs ''Current password is incorrect'' 1) (\<lambda>_.
            if FormValue r ''password1'' \<noteq> FormValue r ''password2'' then password_page X r fs ''New passwords do not match'' 1
            else
              check (of_store (SetAdminPassword (xe_E X) (xe_kdf X) (xe_random32 X) (am_Username u) (FormValue r ''password2'')))
                (\<lambda>e. password_page X r fs (''Error: '' @ e) 1) (\<lambda>_.
              password_page X r empty_Page ''Success!'' 0)))
     else ret ()))"

section \<open>Dashboard\<close>

definition count :: "('a \<Rightarrow> bool) \<Rightarrow> 'a list \<Rightarrow> int" where
  "count P xs = int (length (filter P xs))"

definition populateDashboard :: "xenv \<Rightarrow> console handler" where
  "populateDashboard X r = signed_in X r (\<lambda>u.
     check (of_router (client_ListUsers (xe_ctrl X) '''')) (fail_page X r) (\<lambda>allUsers.
     check (of_router (client_ListDevice (xe_ctrl X) '''')) (fail_page X r) (\<lambda>allDevices.
     check (of_router (client_GetLockout (xe_ctrl X))) (fail_page X r) (\<lambda>lockout.
     check (of_router (client_Registrations (xe_ctrl X))) (fail_page X r) (\<lambda>registrations.
     check (of_router (ServerDetails (xe_W X))) (fail_page X r) (\<lambda>(pubkey, port).
     check (of_router (client_GetAllSettings (xe_ctrl X))) (fail_page X r) (\<lambda>settings.
     with_page ''Dashboard'' ''Dashboard'' u (\<lambda>fs.
     ebind (of_console (\<lambda>s. ReadAll (cn_LogQueue s))) (\<lambda>logs.
     show_page X r (JObj (fs @
       [(''Port'', JNum port), (''PublicKey'', JStr pubkey),
        (''ExternalAddress'', JStr (gs_ExternalAddress (as_GeneralSettings settings))),
        (''Subnet'', JStr (case wg_Range (cf_Wireguard (re_conf (xe_R X))) of None \<Rightarrow> ''<nil>'' | Some n \<Rightarrow> ipnet_string n)),
        (''NumUsers'', JNum (int (length allUsers))),
        (''ActiveSessions'', JNum (count dv_Active allDevices)),
        (''RegistrationTokens'', JNum (int (length registrations))),
        (''Devices'', JNum (int (length allDevices))),
        (''LockedDevices'', JNum (count (\<lambda>d. lockout \<le> dv_Attempts d) allDevices)),
        (''UnenforcedMFA'', JNum (count (\<lambda>x. \<not> um_Enforcing x) allUsers)),
        (''LogItems'', enc_slice JStr logs)])) [''management/dashboard.html''])))))))))"

section \<open>Pages that load their data later\<close>

definition usersUI :: "xenv \<Rightarrow> console handler" where
  "usersUI X = plain_page X ''Users Management Page'' ''Users'' [''management/users.html'', ''delete_modal.html'']"

definition devicesMgmtUI :: "xenv \<Rightarrow> console handler" where
  "devicesMgmtUI X = plain_page X ''Devices Management Page'' ''Devices'' [''management/devices.html'', ''delete_modal.html'']"

definition groupsUI :: "xenv \<Rightarrow> console handler" where
  "groupsUI X = plain_page X ''Groups'' ''Groups'' [''policy/groups.html'', ''delete_modal.html'']"

definition policiesUI :: "xenv \<Rightarrow> console handler" where
  "policiesUI X = plain_page X ''Firewall rules'' ''Rules'' [''policy/rules.html'', ''delete_modal.html'']"

definition registrationUI :: "xenv \<Rightarrow> console handler" where
  "registrationUI X = plain_page X ''Registration Tokens Management Page'' ''Registration''
     [''management/registration_tokens.html'', ''delete_modal.html'']"

definition adminUsersUI :: "xenv \<Rightarrow> console handler" where
  "adminUsersUI X = plain_page X ''Wag settings'' ''Settings - Admin Users'' [''settings/management_users.html'']"

text \<open>This page does not look at whether rendering succeeded.\<close>

definition wgDiagnositicsUI :: "xenv \<Rightarrow> console handler" where
  "wgDiagnositicsUI X r = signed_in X r (\<lambda>u. with_page ''Wireguard Devices'' ''wg'' u (\<lambda>fs.
     ignoring (renderDefaults X r (JObj fs) [''diagnostics/wireguard_peers.html''])))"

definition generalSettingsUI :: "xenv \<Rightarrow> console handler" where
  "generalSettingsUI X r = signed_in X r (\<lambda>u.
     check (of_store (GetAllSettings (xe_E X))) (fail_page X r) (\<lambda>datastoreSettings.
     with_page ''Wag settings'' ''Settings - General'' u (\<lambda>fs.
     show_page X r (JObj (fs @
       [(''Settings'', enc_settings datastoreSettings),
        (''MFAMethods'', JArr (map (\<lambda>(m, a). JObj [(''Type'', JStr m), (''FriendlyName'', JStr (au_FriendlyName a))])
           (GetAllAvaliableMethods (xe_methods X))))])) [''settings/general.html''])))"

section \<open>Cluster\<close>

text \<open>The state of a member, and what its last ping makes of it.\<close>

definition member_status :: "bool \<Rightarrow> member \<Rightarrow> string" where
  "member_status drained m =
     (if drained then ''drained'' else if \<not> mb_IsStarted m then ''wait for first connection...''
      else if mb_IsLearner m then ''learner'' else ''healthy'')"

definition ping_status :: "int \<Rightarrow> int \<Rightarrow> string \<Rightarrow> string" where
  "ping_status now lastPing status =
     (if lastPing < now - seconds 14 then ''dead''
      else if lastPing < now - seconds 6 then status @ ''(lagging ping)'' else status)"

definition member_row :: "xenv \<Rightarrow> member \<Rightarrow> (console, json) hnd" where
  "member_row X m =
     ebind (of_store (IsDrained (xe_E X) (mb_ID m))) (\<lambda>drained.
     ebind (of_store (IsWitness (xe_E X) (mb_ID m))) (\<lambda>witness.
     ebind (on_error (of_store (GetVersion (xe_E X) (mb_ID m))) (\<lambda>_. ret ''unknown'')) (\<lambda>version.
     let status = member_status drained m in
     ebind (if status = ''learner'' then ret (status, '''')
            else ebind (attempt (of_store (GetLastPing (xe_E X) (xe_is_member X) (xe_parse_time X) (mb_ID m)))) (\<lambda>p. case p of
               Inl _ \<Rightarrow> ret (''no last ping'', '''')
             | Inr lastPing \<Rightarrow> ret (ping_status (xe_now X) lastPing status, xe_RFC822 X lastPing))) (\<lambda>(status, ping).
     ret (JObj [(''ID'', JStr (mb_ID m)), (''IsLearner'', JBool (mb_IsLearner m)), (''IsDrained'', JBool drained),
       (''IsWitness'', JBool witness), (''Status'', JStr status), (''Ping'', JStr ping), (''Version'', JStr version)])))))"

fun member_rows :: "xenv \<Rightarrow> member list \<Rightarrow> (console, json list) hnd" where
  "member_rows X [] = ret []"
| "member_rows X (m # ms) = ebind (member_row X m) (\<lambda>j. ebind (member_rows X ms) (\<lambda>js. ret (j # js)))"

definition clusterMembersUI :: "xenv \<Rightarrow> console handler" where
  "clusterMembersUI X r = signed_in X r (\<lambda>u. with_page ''Clustering Management Page'' ''Clustering'' u (\<lambda>fs.
     check (member_rows X (xe_members X)) (\<lambda>_. on_writer (WriteHeader 500)) (\<lambda>rows.
     show_page X r (JObj (fs @ [(''Members'', JArr rows), (''Leader'', JStr (xe_leader X)),
       (''CurrentNode'', JStr (hs_id (re_host (xe_R X))))])) [''cluster/members.html'', ''delete_modal.html''])))"

definition clusterEventsUI :: "xenv \<Rightarrow> console handler" where
  "clusterEventsUI X r = signed_in X r (\<lambda>u. with_page ''Clustering Management Page'' ''Clustering'' u (\<lambda>fs.
     ebind (of_console (\<lambda>s. ReadAll (cn_EventsQueue s))) (\<lambda>eventLog.
     check (of_store (GetAllErrors (xe_E X))) (fail_page X r) (\<lambda>errs.
     show_page X r (JObj (fs @ [(''EventLog'', enc_slice JStr eventLog), (''Errors'', enc_slice enc_event_error errs)]))
       [''cluster/events.html'', ''delete_modal.html'']))))"

section \<open>Diagnostics\<close>

definition firewallDiagnositicsUI :: "xenv \<Rightarrow> console handler" where
  "firewallDiagnositicsUI X r = signed_in X r (\<lambda>u.
     check (of_router (client_FirewallRules (xe_ctrl X))) fail500 (\<lambda>rules.
     with_page ''Firewall state page'' ''Firewall'' u (\<lambda>fs.
     show_page X r (JObj (fs @ [(''XDPState'', JStr (xe_indent X (enc_rules_map rules)))])) [''diagnostics/firewall_state.html''])))"

definition aclsTest :: "xenv \<Rightarrow> console handler" where
  "aclsTest X r = signed_in X r (\<lambda>u.
     let username = (if hr_Method r = ''POST'' then FormValue r ''username'' else '''') in
     ebind (if hr_Method r = ''POST''
            then ebind (attempt (of_router (client_GetUsersAcls (xe_ctrl X) username))) (\<lambda>a. case a of
                Inr acls \<Rightarrow> ret (xe_indent X (enc_acl acls)) | Inl e \<Rightarrow> ret e)
            else ret '''') (\<lambda>acl.
     with_page ''ACL Checker'' ''ACLs'' u (\<lambda>fs.
     ignoring (renderDefaults X r (JObj (fs @ [(''AclString'', JStr acl), (''Username'', JStr username)]))
       [''diagnostics/acl_tester.html'']))))"

text \<open>
  The inputs of a route check: the device is an address, the target an address or a name, the port a
  number; all that is wrong is reported together. \<open>Atoi\<close> of a number out of range is the nearest one.
\<close>

definition atoi_value :: "string \<Rightarrow> int" where
  "atoi_value t = (case atoi t of Some n \<Rightarrow> n | None \<Rightarrow>
     let neg = (t \<noteq> '''' \<and> hd t = CHR ''-''); ds = (if t \<noteq> '''' \<and> hd t \<in> {CHR ''-'', CHR ''+''} then tl t else t)
     in if ds \<noteq> '''' \<and> list_all is_digit ds then (if neg then - (2 ^ 63) else 2 ^ 63 - 1) else 0)"

definition check_target :: "net_env \<Rightarrow> string \<Rightarrow> error + goip" where
  "check_target N target = (case ParseIP N target of
      Some a \<Rightarrow> Inr a
    | None \<Rightarrow> (case lookup_ip N target of
        Inl e \<Rightarrow> Inl (''could not lookup '' @ target @ '', err: '' @ e)
      | Inr [] \<Rightarrow> Inl (''no addresses for '' @ target)
      | Inr (a # _) \<Rightarrow> Inr a))"

definition port_error :: "string \<Rightarrow> error list" where
  "port_error port = (if port \<noteq> '''' \<and> atoi port = None
     then [''could not parse port: strconv.Atoi: parsing '' @ [CHR 0x22] @ port @ [CHR 0x22] @
           (if atoi_value port = 0 then '': invalid syntax'' else '': value out of range'')] else [])"

definition route_decision :: "xenv \<Rightarrow> string \<Rightarrow> string \<Rightarrow> string \<Rightarrow> string \<Rightarrow> (console, string) hnd" where
  "route_decision X address target proto port =
     (let N = pe_net (re_parse (xe_R X)); portNum = (if port = '''' then 0 else atoi_value port);
          inputErrors = (if ParseIP N address = None then [''device ('' @ address @ '') not an ip address''] else []) @
            (case check_target N target of Inl e \<Rightarrow> [e] | Inr _ \<Rightarrow> []) @ port_error port
      in if inputErrors \<noteq> [] then ret (join_str [CHR 0x0A] inputErrors)
         else (case check_target N target of Inl e \<Rightarrow> ret e | Inr targetIP \<Rightarrow>
           ebind (attempt (of_router (zoom rt_maps (\<lambda>k s. s\<lparr>rt_maps := k\<rparr>)
             (CheckRoute N (xe_marshal X) (xe_lookup X) (we_now (xe_W X)) address (Some targetIP) proto portNum)))) (\<lambda>d. case d of
             Inl e \<Rightarrow> ret e
           | Inr checkerDecision \<Rightarrow>
               ebind (of_router (isAuthed (xe_R X) (we_now (xe_W X)) address)) (\<lambda>authed.
               ret (address @ '' -'' @ (if proto = ''icmp'' then proto else show_int portNum @ ''/'' @ proto) @ ''-> '' @ target @
                 '', decided: '' @ checkerDecision @ '' '' @ (if authed then ''(authorised)'' else ''(unauthorised)''))))))"

definition protocol_choice :: "string \<Rightarrow> string \<Rightarrow> string \<Rightarrow> json" where
  "protocol_choice proto val name = JObj [(''Val'', JStr val), (''Name'', JStr name), (''Selected'', JBool (proto = val))]"

definition firewallCheckTest :: "xenv \<Rightarrow> console handler" where
  "firewallCheckTest X r = signed_in X r (\<lambda>u.
     let address = FormValue r ''address''; target = FormValue r ''target''; proto = FormValue r ''protocol'';
         port = FormValue r ''port'' in
     ebind (route_decision X address target proto port) (\<lambda>decision.
     with_page ''ACL Checker'' ''ACLs'' u (\<lambda>fs.
     ignoring (renderDefaults X r (JObj (fs @
       [(''Decision'', JStr decision), (''Address'', JStr address),
        (''Port'', JNum (if port = '''' then 0 else atoi_value port)), (''Target'', JStr target),
        (''Protocols'', JArr [protocol_choice proto ''tcp'' ''TCP'', protocol_choice proto ''udp'' ''UDP'',
           protocol_choice proto ''icmp'' ''ICMP''])])) [''diagnostics/route_checker.html'']))))"

end
