(* ===== verification/ConsoleSite.thy ===== *)
theory ConsoleSite
  imports ConsolePages
begin

text \<open>
  The requests the pages of the management console make (ui/*.go), its routes and the checks in front
  of them (ui_webserver.go, security.go), and its start.
\<close>

section \<open>Users and devices\<close>

definition ok :: "('s, unit) hnd" where "ok = write_raw ''OK''"
definition bad_request :: "error \<Rightarrow> ('s, unit) hnd" where "bad_request e = Error ''Bad Request'' 400"
definition bad_request' :: "error \<Rightarrow> ('s, unit) hnd" where "bad_request' e = Error ''Bad request'' 400"

definition newline :: string where "newline = [CHR 0x0A]"

text \<open>An action and the names it is for.\<close>

definition dec_action :: "string \<Rightarrow> json \<Rightarrow> (string \<times> string list) res" where
  "dec_action names = dec_struct (\<lambda>ms.
     rbind (dec_field dec_string ''action'' '''' ms) (\<lambda>a.
     rbind (dec_field dec_strings names [] ms) (\<lambda>xs. Inr (a, xs)))) ('''', [])"

definition enc_UsersData :: "UserModel \<Rightarrow> Device list \<Rightarrow> string list \<Rightarrow> json" where
  "enc_UsersData u ds gs = JObj [(''username'', JStr (um_Username u)), (''devices'', JNum (int (length ds))),
     (''locked'', JBool (um_Locked u)), (''date_added'', JStr ''''), (''mfa_type'', JStr (um_MfaType u)),
     (''groups'', enc_slice JStr gs)]"

fun users_rows :: "xenv \<Rightarrow> UserModel list \<Rightarrow> (console, json list) hnd" where
  "users_rows X [] = ret []"
| "users_rows X (u # us) =
     ebind (of_router (client_ListDevice (xe_ctrl X) (um_Username u))) (\<lambda>devices.
     ebind (of_router (client_UserGroups (xe_ctrl X) (um_Username u))) (\<lambda>groups.
     ebind (users_rows X us) (\<lambda>js. ret (enc_UsersData u devices groups # js))))"

definition user_action :: "xenv \<Rightarrow> string \<Rightarrow> (string \<Rightarrow> (router, unit) eff) option" where
  "user_action X action = map_of [(''lock'', client_LockUser (xe_ctrl X)), (''unlock'', client_UnlockUser (xe_ctrl X)),
     (''resetMFA'', client_ResetUserMFA (xe_ctrl X))] action"

definition manageUsers :: "xenv \<Rightarrow> console handler" where
  "manageUsers X r = signed_in X r (\<lambda>_.
     if hr_Method r = ''GET'' then
       check (of_router (client_ListUsers (xe_ctrl X) '''')) (fail_page X r) (\<lambda>users.
       check (users_rows X users) fail500 (\<lambda>rows. write_json (JArr rows)))
     else if hr_Method r = ''PUT'' then
       check (decode_body (dec_action ''usernames'') r) bad_request' (\<lambda>(action, usernames).
       case user_action X action of
         None \<Rightarrow> if usernames = [] then ok else Error ''Bad Request'' 400
       | Some call \<Rightarrow>
           ebind (for_collect (\<lambda>u. of_router (call u)) usernames) (\<lambda>errs.
           if errs \<noteq> []
           then Error (show_nat (length errs) @ ''/'' @ show_nat (length usernames) @ '' failed with errors:'' @ newline @
                  join_str newline errs) 500
           else ok))
     else if hr_Method r = ''DELETE'' then
       check (decode_body dec_strings r) bad_request' (\<lambda>usernames.
       ebind (for_collect (\<lambda>u. of_router (client_DeleteUser (xe_ctrl X) u)) usernames) (\<lambda>errs.
       if errs \<noteq> [] then Error (concat (map ((@) newline) errs)) 500 else ok))
     else NotFound)"

definition enc_DevicesData :: "xenv \<Rightarrow> int \<Rightarrow> Device \<Rightarrow> json" where
  "enc_DevicesData X lockout d = JObj [(''owner'', JStr (dv_Username d)), (''is_locked'', JBool (lockout \<le> dv_Attempts d)),
     (''active'', JBool (dv_Active d)), (''internal_ip'', JStr (dv_Address d)), (''public_key'', JStr (dv_Publickey d)),
     (''last_endpoint'', JStr (xe_udp X (dv_Endpoint d)))]"

definition device_action :: "xenv \<Rightarrow> string \<Rightarrow> (string \<Rightarrow> (router, unit) eff) option" where
  "device_action X action = map_of [(''lock'', client_LockDevice (xe_ctrl X)), (''unlock'', client_UnlockDevice (xe_ctrl X))] action"

definition devicesMgmt :: "xenv \<Rightarrow> console handler" where
  "devicesMgmt X r =
     (if hr_Method r = ''GET'' then
        check (of_router (client_ListDevice (xe_ctrl X) '''')) (fail_page X r) (\<lambda>allDevices.
        check (of_router (client_GetLockout (xe_ctrl X))) (fail_page X r) (\<lambda>lockout.
        write_json (enc_slice (enc_DevicesData X lockout) allDevices)))
      else if hr_Method r = ''PUT'' then
        check (decode_body (dec_action ''addresses'') r) bad_request' (\<lambda>(action, addresses).
        case device_action X action of
          None \<Rightarrow> if addresses = [] then ok else Error ''invalid action'' 400
        | Some call \<Rightarrow> check (for_each (\<lambda>a. of_router (call a)) addresses) fail500 (\<lambda>_. ok))
      else if hr_Method r = ''DELETE'' then
        check (decode_body dec_strings r) bad_request' (\<lambda>addresses.
        check (for_each (\<lambda>a. of_router (client_DeleteDevice (xe_ctrl X) a)) addresses) fail500 (\<lambda>_. ok))
      else NotFound)"

section \<open>Groups and policies\<close>

definition ui_groups :: "xenv \<Rightarrow> console handler" where
  "ui_groups X r =
     (if hr_Method r = ''GET'' then
        check (of_router (client_GetGroups (xe_ctrl X))) fail500 (\<lambda>gs. write_json (enc_slice enc_group gs))
      else if hr_Method r = ''DELETE'' then
        check (decode_body dec_strings r) bad_request (\<lambda>groupsToRemove.
        check (of_router (client_RemoveGroup (xe_ctrl X) groupsToRemove)) fail500 (\<lambda>_. ok))
      else if hr_Method r = ''PUT'' then
        check (decode_body dec_group r) bad_request (\<lambda>g.
        check (of_router (client_EditGroup (xe_ctrl X) g)) fail500 (\<lambda>_. ok))
      else if hr_Method r = ''POST'' then
        check (decode_body dec_group r) bad_request (\<lambda>g.
        check (of_router (client_AddGroup (xe_ctrl X) g)) fail500 (\<lambda>_. ok))
      else NotFound)"

definition ui_policies :: "xenv \<Rightarrow> console handler" where
  "ui_policies X r =
     (if hr_Method r = ''GET'' then
        check (of_router (client_GetPolicies (xe_ctrl X))) fail500 (\<lambda>ps. write_json (enc_slice enc_policy ps))
      else if hr_Method r = ''DELETE'' then
        check (decode_body dec_strings r) bad_request (\<lambda>policiesToRemove.
        check (of_router (client_RemovePolicies (xe_ctrl X) policiesToRemove)) fail500 (\<lambda>_. ok))
      else if hr_Method r = ''PUT'' then
        check (decode_body dec_policy r) bad_request (\<lambda>p.
        check (of_router (client_EditPolicies (xe_ctrl X) p)) fail500 (\<lambda>_. ok))
      else if hr_Method r = ''POST'' then
        check (decode_body dec_policy r) bad_request (\<lambda>p.
        check (of_router (client_AddPolicy (xe_ctrl X) p)) (\<lambda>e. Error e 400) (\<lambda>_. ok))
      else NotFound)"

section \<open>Registration tokens\<close>

definition enc_TokensData :: "RegistrationResult \<Rightarrow> json" where
  "enc_TokensData t = JObj [(''token'', JStr (rr_Token t)), (''username'', JStr (rr_Username t)),
     (''groups'', enc_slice JStr (rr_Groups t)), (''overwrites'', JStr (rr_Overwrites t)), (''uses'', JNum (rr_NumUses t))]"

text \<open>The form of a new token: user, token, device to overwrite, groups and uses, all texts.\<close>

definition dec_token_form :: "json \<Rightarrow> (string \<times> string \<times> string \<times> string \<times> string) res" where
  "dec_token_form = dec_struct (\<lambda>ms.
     rbind (dec_field dec_string ''Username'' '''' ms) (\<lambda>a.
     rbind (dec_field dec_string ''Token'' '''' ms) (\<lambda>b.
     rbind (dec_field dec_string ''Overwrites'' '''' ms) (\<lambda>c.
     rbind (dec_field dec_string ''Groups'' '''' ms) (\<lambda>d.
     rbind (dec_field dec_string ''Uses'' '''' ms) (\<lambda>e. Inr (a, b, c, d, e))))))) ('''', '''', '''', '''', '''')"

definition new_token :: "xenv \<Rightarrow> string \<times> string \<times> string \<times> string \<times> string \<Rightarrow> (console, unit) hnd" where
  "new_token X = (\<lambda>(username, token, overwrites, groups, uses).
     case atoi uses of
       None \<Rightarrow> Error ''Bad Request'' 400
     | Some uses \<Rightarrow>
         if uses \<le> 0 then Error ''cannot create token with <= 0 uses'' 400
         else
           check (of_router (client_NewRegistration (xe_ctrl X) token (trim_space username) (trim_space overwrites) uses
                    (if groups = '''' then [] else split_on (CHR '','') groups))) fail500 (\<lambda>_. ok))"

definition registrationTokens :: "xenv \<Rightarrow> console handler" where
  "registrationTokens X r = signed_in X r (\<lambda>_.
     if hr_Method r = ''GET'' then
       check (of_router (client_Registrations (xe_ctrl X))) (fail_page X r) (\<lambda>registrations.
       write_json (JArr (map enc_TokensData registrations)))
     else if hr_Method r = ''DELETE'' then
       check (decode_body dec_strings r) bad_request' (\<lambda>tokens.
       ebind (for_collect (\<lambda>t. of_router (client_DeleteRegistration (xe_ctrl X) t)) tokens) (\<lambda>errs.
       if errs \<noteq> [] then Error (concat (map ((@) newline) errs)) 500 else ok))
     else if hr_Method r = ''POST'' then check (decode_body dec_token_form r) bad_request (new_token X)
     else NotFound)"

section \<open>Settings\<close>

definition adminUsersData :: "xenv \<Rightarrow> console handler" where
  "adminUsersData X r = check (of_router (client_ListAdminUsers (xe_ctrl X) '''')) fail500 (\<lambda>us.
     write_json (enc_slice enc_AdminModel us))"

definition dec_general :: "json \<Rightarrow> GeneralSettings res" where
  "dec_general = dec_struct (\<lambda>ms.
     rbind (dec_field dec_string ''HelpMail'' '''' ms) (\<lambda>a.
     rbind (dec_field dec_string ''ExternalAddress'' '''' ms) (\<lambda>b.
     rbind (dec_field dec_strings ''DNS'' [] ms) (\<lambda>c.
     rbind (dec_field dec_string ''WireguardConfigFilename'' '''' ms) (\<lambda>d.
     rbind (dec_field dec_bool ''CheckUpdates'' False ms) (\<lambda>e.
     Inr \<lparr>gs_HelpMail = a, gs_ExternalAddress = b, gs_DNS = c, gs_WireguardConfigFilename = d, gs_CheckUpdates = e\<rparr>))))))
     (as_GeneralSettings zero_settings)"

definition dec_login :: "json \<Rightarrow> LoginSettings res" where
  "dec_login = dec_struct (\<lambda>ms.
     rbind (dec_field dec_int ''SessionInactivityTimeoutMinutes'' 0 ms) (\<lambda>a.
     rbind (dec_field dec_int ''MaxSessionLifetimeMinutes'' 0 ms) (\<lambda>b.
     rbind (dec_field dec_int ''Lockout'' 0 ms) (\<lambda>c.
     rbind (dec_field dec_string ''DefaultMFAMethod'' '''' ms) (\<lambda>d.
     rbind (dec_field dec_strings ''EnabledMFAMethods'' [] ms) (\<lambda>e.
     rbind (dec_field dec_string ''Domain'' '''' ms) (\<lambda>f.
     rbind (dec_field dec_string ''Issuer'' '''' ms) (\<lambda>g.
     rbind (dec_field (dec_oidc zero_oidc) ''OidcDetails'' zero_oidc ms) (\<lambda>h.
     rbind (dec_field (dec_pam \<lparr>pam_ServiceName = ''''\<rparr>) ''PamDetails'' \<lparr>pam_ServiceName = ''''\<rparr> ms) (\<lambda>i.
     Inr \<lparr>ls_SessionInactivityTimeoutMinutes = a, ls_MaxSessionLifetimeMinutes = b, ls_Lockout = c,
       ls_DefaultMFAMethod = d, ls_EnabledMFAMethods = e, ls_Domain = f, ls_Issuer = g, ls_OidcDetails = h,
       ls_PamDetails = i\<rparr>)))))))))) (as_LoginSettings zero_settings)"

definition generalSettings :: "xenv \<Rightarrow> console handler" where
  "generalSettings X r = signed_in X r (\<lambda>_.
     if Query r ''type'' = ''general'' then
       check (decode_body dec_general r) bad_request (\<lambda>g.
       check (of_store (SetGeneralSettings (xe_validate_general X) (xe_E X) g)) fail500 (\<lambda>_. ok))
     else if Query r ''type'' = ''login'' then
       check (decode_body dec_login r) bad_request (\<lambda>l.
       check (of_store (SetLoginSettings (xe_validate_login X) (xe_E X) l)) fail500 (\<lambda>_. ok))
     else NotFound)"

section \<open>Cluster\<close>

definition dec_new_node :: "json \<Rightarrow> (string \<times> string \<times> string) res" where
  "dec_new_node = dec_struct (\<lambda>ms.
     rbind (dec_field dec_string ''NodeName'' '''' ms) (\<lambda>a.
     rbind (dec_field dec_string ''ConnectionURL'' '''' ms) (\<lambda>b.
     rbind (dec_field dec_string ''ManagerURL'' '''' ms) (\<lambda>c. Inr (a, b, c))))) ('''', '''', '''')"

definition newNode :: "xenv \<Rightarrow> console handler" where
  "newNode X r = check (decode_body dec_new_node r) bad_request (\<lambda>(name, url, manager).
     check (on_state (zoom cn_cluster (\<lambda>c s. s\<lparr>cn_cluster := c\<rparr>)
              (AddMember (xe_cluster X) (re_ip6 (xe_R X)) (re_conf (xe_R X)) name url manager))) fail500 (\<lambda>token.
     write_json (JObj [(''JoinToken'', JStr token)])))"

definition dec_node_control :: "json \<Rightarrow> (string \<times> string) res" where
  "dec_node_control = dec_struct (\<lambda>ms.
     rbind (dec_field dec_string ''Node'' '''' ms) (\<lambda>a.
     rbind (dec_field dec_string ''Action'' '''' ms) (\<lambda>b. Inr (a, b)))) ('''', '''')"

definition nodeControl :: "xenv \<Rightarrow> console handler" where
  "nodeControl X r = check (decode_body dec_node_control r) bad_request (\<lambda>(node, action).
     if action = ''promote'' then check (of_store (PromoteMember (xe_member_promote X) node)) fail500 (\<lambda>_. ok)
     else if action = ''drain'' \<or> action = ''restore'' then
       check (of_store (SetDrained (xe_E X) node (action = ''drain''))) fail500 (\<lambda>_. ok)
     else if action = ''stepdown'' then (case xe_StepDown X of Some e \<Rightarrow> fail500 e | None \<Rightarrow> ok)
     else if action = ''remove'' then
       if hs_id (re_host (xe_R X)) = node then Error ''cannot remove current node'' 400
       else check (of_store (RemoveMember (xe_E X) (xe_member_remove X) node)) fail500 (\<lambda>_. ok)
     else Error ''Bad request'' 400)"

text \<open>After an error the handler goes on.\<close>

definition clusterEventsAcknowledge :: "xenv \<Rightarrow> console handler" where
  "clusterEventsAcknowledge X r =
     check (decode_body (dec_struct (\<lambda>ms. dec_field dec_string ''ErrorID'' '''' ms) '''') r) bad_request (\<lambda>errorID.
     ebind (check (of_store (ResolveError (xe_E X) errorID)) fail500 (\<lambda>_. ret ())) (\<lambda>_.
     write_raw ''Success!''))"

text \<open>The peers of the WireGuard device, with their traffic.\<close>

definition enc_peer_data :: "xenv \<Rightarrow> string \<times> wg_peer \<Rightarrow> json" where
  "enc_peer_data X = (\<lambda>(key, p). case xe_traffic X key of (rx, tx, handshake) \<Rightarrow> JObj
     [(''rx'', JNum rx), (''tx'', JNum tx), (''public_key'', JStr key),
      (''address'', JStr (case wp_AllowedIPs p of [] \<Rightarrow> ''-'' | n # _ \<Rightarrow> ipnet_string n)),
      (''last_endpoint'', JStr (xe_udp X (wp_Endpoint p))), (''last_handshake_time'', JStr handshake)])"

definition wgDiagnositicsData :: "xenv \<Rightarrow> console handler" where
  "wgDiagnositicsData X r = check (of_router (ListPeers (xe_R X))) fail500 (\<lambda>peers.
     write_json (enc_slice (enc_peer_data X) peers))"

section \<open>The site\<close>

abbreviation json_methods :: "'s handler \<Rightarrow> string list \<Rightarrow> 's handler" where
  "json_methods h ms \<equiv> AllowedMethods ''application/json'' h ms"

definition protectedRoutes :: "xenv \<Rightarrow> (string \<times> console handler) list" where
  "protectedRoutes X =
     [(''/dashboard'', mux_Get (populateDashboard X)),
      (''/cluster/members/'', mux_Get (clusterMembersUI X)),
      (''/cluster/members/new'', mux_PostJSON (newNode X)),
      (''/cluster/members/control'', mux_PostJSON (nodeControl X)),
      (''/cluster/events/'', mux_Get (clusterEventsUI X)),
      (''/cluster/events/acknowledge'', mux_Post (clusterEventsAcknowledge X)),
      (''/diag/wg'', mux_Get (wgDiagnositicsUI X)),
      (''/diag/wg/data'', mux_Get (wgDiagnositicsData X)),
      (''/diag/firewall'', mux_Get (firewallDiagnositicsUI X)),
      (''/diag/check'', mux_GetOrPost (firewallCheckTest X)),
      (''/diag/acls'', mux_GetOrPost (aclsTest X)),
      (''/management/users/'', mux_Get (usersUI X)),
      (''/management/users/data'', json_methods (manageUsers X) [''DELETE'', ''PUT'', ''GET'']),
      (''/management/devices/'', mux_Get (devicesMgmtUI X)),
      (''/management/devices/data'', json_methods (devicesMgmt X) [''DELETE'', ''PUT'', ''GET'']),
      (''/management/registration_tokens/'', mux_Get (registrationUI X)),
      (''/management/registration_tokens/data'', json_methods (registrationTokens X) [''DELETE'', ''GET'', ''POST'']),
      (''/policy/rules/'', mux_Get (policiesUI X)),
      (''/policy/rules/data'', json_methods (ui_policies X) [''DELETE'', ''GET'', ''POST'', ''PUT'']),
      (''/policy/groups/'', mux_Get (groupsUI X)),
      (''/policy/groups/data'', json_methods (ui_groups X) [''DELETE'', ''GET'', ''POST'', ''PUT'']),
      (''/settings/general'', mux_Get (generalSettingsUI X)),
      (''/settings/general/data'', mux_PostJSON (generalSettings X)),
      (''/settings/management_users'', mux_Get (adminUsersUI X)),
      (''/settings/management_users/data'', mux_Get (adminUsersData X)),
      (''/notifications'', notificationsWS X),
      (''/change_password'', mux_GetOrPost (changePassword X)),
      (''/logout'', ui_logout X),
      (''/'', (\<lambda>r. Redirect ''/dashboard'' 307))]"

text \<open>What the check does with the data of a session: the administrator is read again.\<close>

definition refresh_admin :: "xenv \<Rightarrow> http_request \<Rightarrow> AdminModel \<Rightarrow> (console, bool) hnd" where
  "refresh_admin X r dAdmin = (\<lambda>(s, w).
     let key = fst (sl_GetSessionFromRequest (xe_lib X) (cn_sessions s) r) in
     ebind (attempt (of_store (GetAdminUser (xe_E X) (am_Username dAdmin)))) (\<lambda>d. case d of
        Inl _ \<Rightarrow>
          ebind (of_sessions (sl_DeleteSession (xe_lib X) r)) (\<lambda>_.
          ebind to_login (\<lambda>_. ret False))
      | Inr d \<Rightarrow>
          ebind (of_sessions (\<lambda>(k, v). (sl_UpdateSession (xe_lib X) key d k, v))) (\<lambda>_. ret True)) (s, w))"

definition static_files :: "xenv \<Rightarrow> console handler" where
  "static_files X r = on_writer (xe_static X r)"

definition allRoutes :: "xenv \<Rightarrow> (string \<times> console handler) list" where
  "allRoutes X =
     [(''/login'', mux_GetOrPost (doLogin X)),
      (''/js/'', static_files X), (''/css/'', static_files X), (''/img/'', static_files X), (''/fonts/'', static_files X),
      (''/vendor/'', static_files X),
      (''/'', sl_AuthorisationChecks (xe_lib X) (ServeMux (protectedRoutes X)) (\<lambda>r. to_login) (refresh_admin X))]"

text \<open>Only a \<open>GET\<close> may come from another site.\<close>

definition ui_setSecurityHeaders :: "(string \<Rightarrow> error + go_url) \<Rightarrow> 's handler \<Rightarrow> 's handler" where
  "ui_setSecurityHeaders parse_url next_handler r =
     ebind (on_writer (\<lambda>w. set_header ''X-Content-Type-Options'' ''nosniff''
       (set_header ''Strict-Transport-Security'' ''max-age=31536000'' (set_header ''X-Frame-Options'' ''DENY'' w)))) (\<lambda>_.
     if hr_Method r \<noteq> ''GET'' then
       (case parse_url (hr_Origin r) of
          Inl _ \<Rightarrow> Error ''Bad Request'' 400
        | Inr u \<Rightarrow> if hr_Host r \<noteq> u_Host u then Error ''Bad Request'' 400 else next_handler r)
     else next_handler r)"

definition console_site :: "xenv \<Rightarrow> console handler" where
  "console_site X = ui_setSecurityHeaders (we_parse_url (xe_W X)) (ServeMux (allRoutes X))"

section \<open>Start\<close>

text \<open>
  What starting the console does before it listens: the first administrator is made when there is none,
  with a random name and password. The random texts, making the session store and registering the
  listener are arguments.
\<close>

record start_args =
  sa_username :: "error + string"
  sa_password :: "error + string"
  sa_new_store :: "error option"
  sa_HasLeader :: bool
  sa_register :: "error option"

definition watchClusterHealth :: "string \<Rightarrow> string \<Rightarrow> console \<Rightarrow> console" where
  "watchClusterHealth server state s = s\<lparr>cn_clusterState := state, cn_serverID := server\<rparr>"

abbreviation via_socket :: "(router, 'a) eff \<Rightarrow> (console, 'a) eff" where
  "via_socket \<equiv> zoom cn_router (\<lambda>x s. s\<lparr>cn_router := x\<rparr>)"

definition first_admin :: "xenv \<Rightarrow> start_args \<Rightarrow> (console, unit) eff" where
  "first_admin X A =
     ebind (case sa_username A of Inl e \<Rightarrow> raise e | Inr x \<Rightarrow> ret x) (\<lambda>username.
     ebind (case sa_password A of Inl e \<Rightarrow> raise e | Inr x \<Rightarrow> ret x) (\<lambda>password.
     via_socket (client_AddAdminUser (xe_ctrl X) username password True)))"

definition StartWebServer :: "xenv \<Rightarrow> start_args \<Rightarrow> (console, unit) eff" where
  "StartWebServer X A =
     (if \<not> cf_ManagementEnabled (re_conf (xe_R X)) then ret ()
      else
        ebind (via_socket (client_GetVersion (xe_ctrl X))) (\<lambda>version.
        ebind (modify (\<lambda>s. s\<lparr>cn_WagVersion := version\<rparr>)) (\<lambda>_.
        ebind (via_socket (client_ListAdminUsers (xe_ctrl X) '''')) (\<lambda>admins.
        ebind (if admins = [] then first_admin X A else ret ()) (\<lambda>_.
        ebind (error_of (sa_new_store A)) (\<lambda>_.
        ebind (modify (watchClusterHealth (hs_id (re_host (xe_R X))) (if sa_HasLeader A then ''healthy'' else ''starting''))) (\<lambda>_.
        error_of (sa_register A))))))))"

end
