(* ===== verification/ConsoleProps.thy ===== *)
theory ConsoleProps
  imports ConsoleSite WebProps ControlProtocol "HOL-Library.Multiset"
begin

text \<open>
  What the management console keeps of its promises: nothing changes without a session of a current
  administrator or from another site, and passwords cannot be guessed beyond the lockout.
\<close>

section \<open>Writing changes no state\<close>

text \<open>What an outsider must not change: everything but the sessions.\<close>

definition guarded :: "console \<Rightarrow> console" where
  "guarded s = s\<lparr>cn_sessions := \<lambda>_. None\<rparr>"

definition spared :: "console \<Rightarrow> (console, 'a) hnd \<Rightarrow> bool" where
  "spared s m \<longleftrightarrow> (\<forall>w. guarded (fst (snd (m (s, w)))) = guarded s)"

definition harmless :: "(console, 'a) hnd \<Rightarrow> bool" where
  "harmless m \<longleftrightarrow> (\<forall>s. spared s m)"

named_theorems harmless_intro \<open>handlers that change no more than the sessions\<close>

lemma harmless_spared: "harmless m \<Longrightarrow> spared s m"
  by (simp add: harmless_def)

lemma sparedD: "spared s m \<Longrightarrow> m (s, w) = (a, (t, v)) \<Longrightarrow> guarded t = guarded s"
  unfolding spared_def by (metis fst_conv snd_conv)

lemma sparedI: "(\<And>w a t v. m (s, w) = (a, (t, v)) \<Longrightarrow> guarded t = guarded s) \<Longrightarrow> spared s m"
  unfolding spared_def by (metis prod.collapse)

lemma harmless_basic [harmless_intro]: "harmless (on_writer f)" "harmless (ret v)" "harmless (of_sessions g)"
  by (auto simp: harmless_def spared_def on_writer_def of_sessions_def guarded_def split: prod.splits)

lemma harmless_answers [harmless_intro]: "harmless (Error msg c)" "harmless NotFound" "harmless (Redirect url c)" "harmless to_login"
  by (simp_all add: Error_def NotFound_def Redirect_def to_login_def harmless_basic)

lemma spared_bind:
  assumes "spared s m" and "\<And>v w t u. m (s, w) = (Inr v, (t, u)) \<Longrightarrow> spared t (f v)"
  shows "spared s (ebind m f)"
proof (rule sparedI)
  fix w a t v assume run: "ebind m f (s, w) = (a, (t, v))"
  obtain b u x where m: "m (s, w) = (b, (u, x))" by (metis prod.collapse)
  from sparedD [OF assms(1) m] have u: "guarded u = guarded s" .
  show "guarded t = guarded s"
  proof (cases b)
    case (Inl e)
    with run m u show ?thesis by (simp add: ebind_def)
  next
    case (Inr y)
    with run m have "f y (u, x) = (a, (t, v))" by (simp add: ebind_def)
    with sparedD [OF assms(2)] m Inr u show ?thesis by metis
  qed
qed

lemma harmless_bind [harmless_intro]: "harmless m \<Longrightarrow> (\<And>v. harmless (f v)) \<Longrightarrow> harmless (ebind m f)"
  unfolding harmless_def by (intro allI spared_bind) auto

lemma spared_serve: "spared s (h r) \<Longrightarrow> guarded (snd (serve h r s)) = guarded s"
proof -
  assume h: "spared s (h r)"
  obtain a t v where run: "h r (s, fresh_writer) = (a, (t, v))" by (metis prod.collapse)
  have "snd (serve h r s) = t" using run by (auto simp: serve_def respond_def split: sum.split fault.split)
  with sparedD [OF h run] show ?thesis by simp
qed

text \<open>A multiplexer spares what the handlers it chooses from spare.\<close>

lemma spared_AllowedMethods: "(hr_Method r \<in> set ms \<Longrightarrow> spared s (h r)) \<Longrightarrow> spared s (AllowedMethods ct h ms r)"
  by (auto simp: AllowedMethods_def intro!: harmless_spared harmless_intro)

lemma spared_ServeMux:
  assumes "\<And>p h. (p, h) \<in> set routes \<Longrightarrow> p = hr_Path r \<or> hr_Path r \<notin> fst ` set routes \<and> slash_pattern (hr_Path r) p \<Longrightarrow> spared s (h r)"
  shows "spared s (ServeMux routes r)"
proof (cases "map_of routes (hr_Path r)")
  case (Some h)
  with assms map_of_SomeD [OF Some] show ?thesis by (simp add: ServeMux_def)
next
  case None
  have "spared s (h r)" if "map_of routes p = Some h" "slash_pattern (hr_Path r) p" for p h
    using assms map_of_SomeD [OF that(1)] that(2) None by (auto simp: map_of_eq_None_iff)
  moreover have "slash_pattern (hr_Path r) (last ps)"
    if "sort_key length (filter (slash_pattern (hr_Path r)) (map fst routes)) = ps" "ps \<noteq> []" for ps
  proof -
    from that have "last ps \<in> set (sort_key length (filter (slash_pattern (hr_Path r)) (map fst routes)))" by simp
    then show ?thesis by simp
  qed
  ultimately show ?thesis
    by (auto simp: ServeMux_def Let_def None harmless_spared harmless_answers split: option.split list.split)
qed

section \<open>The check in front of the pages\<close>

text \<open>
  What the session library promises: a request is answered by the library, handed to the way out, or
  belongs to a session; then the pages get it only after the callback has seen the data of that session
  and said yes.
\<close>

locale session_checks =
  fixes lib :: session_lib
  assumes checked: "sl_AuthorisationChecks lib pages way_out auth r (s, w) = way_out r (s, w) \<or>
    (\<exists>f. sl_AuthorisationChecks lib pages way_out auth r (s, w) = on_writer f (s, w)) \<or>
    (\<exists>key d served. sl_GetSessionFromRequest lib (cn_sessions s) r = (key, Some d) \<and>
       (served = pages r \<or> (\<exists>f. served = on_writer f)) \<and>
       sl_AuthorisationChecks lib pages way_out auth r (s, w) =
         ebind (auth r d) (\<lambda>ok. if ok then served else ret ()) (s, w))"
begin

text \<open>Without a session that the callback accepts, only the ways out and the callback are run.\<close>

lemma pages_guarded:
  assumes "\<And>s. spared s (way_out r)"
    and "\<And>key d. sl_GetSessionFromRequest lib (cn_sessions s) r = (key, Some d) \<Longrightarrow>
      spared s (auth r d) \<and> (\<forall>w t. auth r d (s, w) \<noteq> (Inr True, t))"
  shows "spared s (sl_AuthorisationChecks lib pages way_out auth r)"
proof (rule sparedI)
  fix w a t v assume run: "sl_AuthorisationChecks lib pages way_out auth r (s, w) = (a, (t, v))"
  consider "way_out r (s, w) = (a, (t, v))" | f where "on_writer f (s, w) = (a, (t, v))"
    | key d served where "sl_GetSessionFromRequest lib (cn_sessions s) r = (key, Some d)"
        "ebind (auth r d) (\<lambda>ok. if ok then served else ret ()) (s, w) = (a, (t, v))"
    using checked [of pages way_out auth r s w] run by metis
  then show "guarded t = guarded s"
  proof cases
    case 1
    with assms(1) show ?thesis by (blast dest: sparedD)
  next
    case 2
    then show ?thesis by (simp add: on_writer_def)
  next
    case 3
    obtain b u x where m: "auth r d (s, w) = (b, (u, x))" by (metis prod.collapse)
    from assms(2) [OF 3(1)] m have u: "guarded u = guarded s" and "b \<noteq> Inr True" by (auto dest: sparedD)
    with 3(2) m show ?thesis by (cases b) (auto simp: ebind_def)
  qed
qed

end

lemma GetAdminUser_quiet: "etcd_quiet E \<Longrightarrow> snd (GetAdminUser E n s) = s"
  by (auto simp: GetAdminUser_def etcd_quiet.Get_quiet ebind_def split: list.split)

lemma refresh_spared:
  assumes "etcd_quiet (xe_E X)"
    and "\<And>a. fst (GetAdminUser (xe_E X) (am_Username d) (rt_store (cn_router s))) \<noteq> Inr a"
  shows "spared s (refresh_admin X r d)" "refresh_admin X r d (s, w) \<noteq> (Inr True, x)"
proof -
  let ?m = "GetAdminUser (xe_E X) (am_Username d)"
  obtain f where "fst (?m (rt_store (cn_router s))) = Inl f" using assms(2) by (cases "fst (?m (rt_store (cn_router s)))") auto
  then have m: "?m (rt_store (cn_router s)) = (Inl f, rt_store (cn_router s))"
    using GetAdminUser_quiet [OF assms(1)] by (metis prod.collapse)
  then have call: "of_store ?m (s, v) = (Inl f, (s, v))" for v
    by (simp add: of_router_def on_state_apply zoom_def)
  show "refresh_admin X r d (s, w) \<noteq> (Inr True, x)"
    by (cases f) (auto simp: refresh_admin_def Let_def attempt_def ebind_def call of_sessions_def to_login_def Redirect_def
        split: prod.splits)
  show "spared s (refresh_admin X r d)"
    by (cases f) (auto simp: spared_def refresh_admin_def Let_def attempt_def ebind_def call of_sessions_def to_login_def Redirect_def
        guarded_def split: prod.splits)
qed

lemma spared_security: "spared s (h r) \<Longrightarrow> spared s (ui_setSecurityHeaders parse_url h r)"
  unfolding ui_setSecurityHeaders_def
  by (intro spared_bind harmless_spared [OF harmless_basic(1)])
     (auto intro!: harmless_spared [OF harmless_answers(1)] split: sum.split)

text \<open>C9
  The console is closed to outsiders: a request that changes anything but the table of sessions is a
  \<open>GET\<close> or comes from the site itself, and it either signs in or belongs to a session whose
  administrator is still there. In particular one who was deleted changes nothing from then on.
\<close>

theorem console_guarded:
  assumes "session_checks (xe_lib X)" and "etcd_quiet (xe_E X)"
    and "guarded (snd (serve (console_site X) r s)) \<noteq> guarded s"
  shows "(hr_Method r = ''GET'' \<or> (\<exists>u. we_parse_url (xe_W X) (hr_Origin r) = Inr u \<and> u_Host u = hr_Host r)) \<and>
    (hr_Path r = ''/login'' \<or> (\<exists>key d a. sl_GetSessionFromRequest (xe_lib X) (cn_sessions s) r = (key, Some d) \<and>
       GetAdminUser (xe_E X) (am_Username d) (rt_store (cn_router s)) = (Inr a, rt_store (cn_router s))))"
proof (rule ccontr)
  assume "\<not> ?thesis"
  then consider "hr_Method r \<noteq> ''GET''" "\<forall>u. we_parse_url (xe_W X) (hr_Origin r) = Inr u \<longrightarrow> u_Host u \<noteq> hr_Host r"
    | "hr_Path r \<noteq> ''/login''" "\<And>key d a. sl_GetSessionFromRequest (xe_lib X) (cn_sessions s) r = (key, Some d) \<Longrightarrow>
        GetAdminUser (xe_E X) (am_Username d) (rt_store (cn_router s)) \<noteq> (Inr a, rt_store (cn_router s))" by blast
  then have "spared s (console_site X r)"
  proof cases
    case 1
    then show ?thesis unfolding console_site_def ui_setSecurityHeaders_def
      by (intro harmless_spared harmless_intro) (auto intro!: harmless_intro split: sum.split)
  next
    case 2
    have refused: "fst (GetAdminUser (xe_E X) (am_Username d) (rt_store (cn_router s))) \<noteq> Inr a"
      if "sl_GetSessionFromRequest (xe_lib X) (cn_sessions s) r = (key, Some d)" for key d a
      using 2(2) [OF that] GetAdminUser_quiet [OF assms(2)] by (metis prod.collapse)
    have "spared s (sl_AuthorisationChecks (xe_lib X) (ServeMux (protectedRoutes X)) (\<lambda>r. to_login) (refresh_admin X) r)"
    proof (rule session_checks.pages_guarded [OF assms(1)])
      show "spared z to_login" for z by (rule harmless_spared [OF harmless_answers(4)])
      show "spared s (refresh_admin X r d) \<and> (\<forall>w t. refresh_admin X r d (s, w) \<noteq> (Inr True, t))"
        if "sl_GetSessionFromRequest (xe_lib X) (cn_sessions s) r = (key, Some d)" for key d
        using refresh_spared [OF assms(2) refused [OF that]] by blast
    qed
    then have "spared s (ServeMux (allRoutes X) r)"
      using 2(1) by (intro spared_ServeMux) (auto simp: allRoutes_def static_files_def slash_pattern_def harmless_spared [OF harmless_basic(1)])
    then show ?thesis unfolding console_site_def by (rule spared_security)
  qed
  with spared_serve assms(3) show False by blast
qed


section \<open>Guessing a password\<close>

definition admin_counted :: "int \<Rightarrow> admin \<Rightarrow> admin" where
  "admin_counted l a = (if am_Attempts a < l then a\<lparr>am_Attempts := am_Attempts a + 1\<rparr> else a)"

lemma admin_counted_hash [simp]: "am_Hash (admin_counted l a) = am_Hash a"
  by (simp add: admin_counted_def)

text \<open>The store after an attempt has been counted.\<close>

definition attempt_counted :: "string \<Rightarrow> int \<Rightarrow> admin \<Rightarrow> store \<Rightarrow> store" where
  "attempt_counted n l a s = put_key (admin_key n) (Json (enc_admin (admin_counted l a))) s"

lemma admin_signs_in_counted:
  assumes "admin_signs_in s n a l"
  shows "admin_signs_in (attempt_counted n l a s) n (admin_counted l a) l"
proof -
  have "admin_ok a" using assms admin_at_ok by (auto simp: admin_signs_in_def)
  with assms have "admin_ok (admin_counted l a)"
    by (auto simp: admin_signs_in_def admin_ok_def admin_counted_def int64_def)
  with assms show ?thesis by (simp add: admin_signs_in_def attempt_counted_def)
qed

context etcd_quiet
begin

lemma IncrementAdminAuthenticationAttempt_quiet:
  assumes "admin_signs_in s n a l"
  shows "IncrementAdminAuthenticationAttempt E n s = (Inr (), attempt_counted n l a s)"
proof -
  from assms have at: "admin_at s n = Some a" and lock: "GetLockout E s = (Inr l, s)"
    by (simp add: admin_signs_in_def, rule admin_lockout)
  from admin_atE [OF at] obtain j r where "range_of s [admin_key n] = [(admin_key n, Json j, r)]"
    "dec_admin j = Inr a" "find_key s (admin_key n) \<noteq> None" .
  with lock show ?thesis unfolding IncrementAdminAuthenticationAttempt_def
    by (subst doSafeUpdate_quiet [where r = "Inr (Json (enc_admin (admin_counted l a)))"])
       (auto simp: ebind_def admin_counted_def attempt_counted_def)
qed

text \<open>A sign-in that comes too late or with a wrong password is counted and gets no further.\<close>

lemma wrong_password_quiet:
  assumes "admin_signs_in s n a l" and "l \<le> am_Attempts (admin_counted l a) \<or> compare_hash kdf (am_Hash a) password \<noteq> Inr ()"
  shows "\<exists>e. CompareAdminKeys E kdf n password (attempt_counted n l a s) = (Inl e, attempt_counted n l a s)"
  using CompareAdminKeys_quiet [OF admin_signs_in_counted [OF assms(1)], of kdf password] assms(2)
  by (cases "compare_hash kdf (am_Hash a) password") auto

end

lemma login_page_state: "login_page X r (s, w) = (a, (t, v)) \<Longrightarrow> t = s"
  by (auto simp: login_page_def ignoring_def attempt_def ebind_def render_def split: option.splits)

definition with_store :: "store \<Rightarrow> console \<Rightarrow> console" where
  "with_store t s = s\<lparr>cn_router := (cn_router s)\<lparr>rt_store := t\<rparr>\<rparr>"

lemma of_store_apply: "of_store m (s, w) = (case m (rt_store (cn_router s)) of (r, t) \<Rightarrow> (r, (with_store t s, w)))"
  by (simp add: of_router_def on_state_apply zoom_def with_store_def split: prod.split)

lemma with_store_simps [simp]:
  "rt_store (cn_router (with_store t s)) = t" "with_store t (with_store u s) = with_store t s"
  "cn_sessions (with_store t s) = cn_sessions s"
  by (simp_all add: with_store_def)

lemma doLogin_turned_down:
  assumes "etcd_quiet (xe_E X)" and "hr_Method r = ''POST''" and "hr_form r = Inr fs" and "FormValue r ''username'' = n"
    and "admin_signs_in (rt_store (cn_router s)) n a l"
    and "l \<le> am_Attempts (admin_counted l a) \<or> compare_hash (xe_kdf X) (am_Hash a) (FormValue r ''password'') \<noteq> Inr ()"
    and "doLogin X r (s, w) = (b, (t, v))"
  shows "t = with_store (attempt_counted n l a (rt_store (cn_router s))) s"
proof -
  let ?c = "attempt_counted n l a (rt_store (cn_router s))"
  have inc: "of_store (IncrementAdminAuthenticationAttempt (xe_E X) n) (s, w) = (Inr (), (with_store ?c s, w))"
    by (simp add: of_store_apply etcd_quiet.IncrementAdminAuthenticationAttempt_quiet [OF assms(1,5)])
  from etcd_quiet.wrong_password_quiet [OF assms(1,5,6)] obtain e where
    "CompareAdminKeys (xe_E X) (xe_kdf X) n (FormValue r ''password'') ?c = (Inl e, ?c)" by blast
  then have cmp: "of_store (CompareAdminKeys (xe_E X) (xe_kdf X) n (FormValue r ''password'')) (with_store ?c s, w) =
      (Inl e, (with_store ?c s, w))" by (simp add: of_store_apply)
  show ?thesis using assms(2-4,7)
    by (cases e) (auto simp: doLogin_def Let_def check_def attempt_def ebind_def inc cmp dest: login_page_state)
qed

text \<open>A sign-in for \<open>n\<close> as the console gets it, and a run of requests.\<close>

definition login_request :: "xenv \<Rightarrow> string \<Rightarrow> http_request \<Rightarrow> bool" where
  "login_request X n r \<longleftrightarrow> hr_Method r = ''POST'' \<and> hr_Path r = ''/login'' \<and> FormValue r ''username'' = n \<and>
     (case hr_form r of Inl _ \<Rightarrow> False | Inr _ \<Rightarrow> True) \<and>
     (case we_parse_url (xe_W X) (hr_Origin r) of Inl _ \<Rightarrow> False | Inr u \<Rightarrow> u_Host u = hr_Host r)"

definition guess_wrong :: "xenv \<Rightarrow> admin \<Rightarrow> http_request \<Rightarrow> bool" where
  "guess_wrong X a r \<longleftrightarrow> compare_hash (xe_kdf X) (am_Hash a) (FormValue r ''password'') \<noteq> Inr ()"

fun visits :: "'s handler \<Rightarrow> http_request list \<Rightarrow> 's \<Rightarrow> 's" where
  "visits h [] s = s"
| "visits h (r # rs) s = visits h rs (snd (serve h r s))"

lemma login_reaches_handler:
  assumes "login_request X n r"
  shows "\<exists>w. \<forall>s. console_site X r (s, fresh_writer) = doLogin X r (s, w)"
proof -
  from assms obtain u where u: "we_parse_url (xe_W X) (hr_Origin r) = Inr u" "u_Host u = hr_Host r"
    by (auto simp: login_request_def split: sum.splits)
  have "ServeMux (allRoutes X) r = doLogin X r"
    using assms by (simp add: login_request_def ServeMux_def allRoutes_def mux_GetOrPost_def AllowedMethods_def)
  then show ?thesis using assms u
    by (auto simp: console_site_def ui_setSecurityHeaders_def login_request_def ebind_def)
qed

lemma serve_turned_down:
  assumes "etcd_quiet (xe_E X)" and "login_request X n r" and "admin_signs_in (rt_store (cn_router s)) n a l"
    and "l \<le> am_Attempts (admin_counted l a) \<or> guess_wrong X a r"
  shows "snd (serve (console_site X) r s) = with_store (attempt_counted n l a (rt_store (cn_router s))) s"
proof -
  from login_reaches_handler [OF assms(2)] obtain w where w: "console_site X r (s, fresh_writer) = doLogin X r (s, w)" by blast
  obtain b t v where run: "doLogin X r (s, w) = (b, (t, v))" by (metis prod.collapse)
  from assms(2) obtain fs where r: "hr_Method r = ''POST''" "hr_form r = Inr fs" "FormValue r ''username'' = n"
    by (auto simp: login_request_def split: sum.splits)
  have "t = with_store (attempt_counted n l a (rt_store (cn_router s))) s"
    by (rule doLogin_turned_down [OF assms(1) r assms(3) _ run]) (use assms(4) in \<open>simp add: guess_wrong_def\<close>)
  moreover have "snd (serve (console_site X) r s) = t"
    using w run by (auto simp: serve_def respond_def split: sum.split fault.split)
  ultimately show ?thesis by simp
qed

text \<open>C10
  Passwords of an administrator cannot be guessed beyond the lockout: an account with \<open>k\<close> failed
  attempts takes at most \<open>lockout - k - 1\<close> wrong passwords; after that no run of sign-ins starts a
  session, whatever passwords it tries, the right one included.
\<close>

theorem console_guesses_bounded:
  assumes "etcd_quiet (xe_E X)" and "admin_signs_in (rt_store (cn_router s)) n a l"
    and "\<And>r. r \<in> set rs \<Longrightarrow> login_request X n r"
    and "\<And>r. r \<in> set (take (nat (l - am_Attempts a - 1)) rs) \<Longrightarrow> guess_wrong X a r"
  shows "cn_sessions (visits (console_site X) rs s) = cn_sessions s"
  using assms(2-)
proof (induction rs arbitrary: s a)
  case (Cons r rs)
  let ?t = "with_store (attempt_counted n l a (rt_store (cn_router s))) s"
  have "l \<le> am_Attempts (admin_counted l a) \<or> guess_wrong X a r"
  proof (cases "nat (l - am_Attempts a - 1)")
    case 0
    then show ?thesis by (auto simp: admin_counted_def)
  next
    case (Suc k)
    with Cons.prems(3) show ?thesis by simp
  qed
  then have step: "snd (serve (console_site X) r s) = ?t"
    using serve_turned_down [OF assms(1) _ Cons.prems(1)] Cons.prems(2) by simp
  have "cn_sessions (visits (console_site X) rs ?t) = cn_sessions ?t"
  proof (rule Cons.IH)
    show "admin_signs_in (rt_store (cn_router ?t)) n (admin_counted l a) l"
      using admin_signs_in_counted [OF Cons.prems(1)] by simp
    show "login_request X n q" if "q \<in> set rs" for q using Cons.prems(2) that by simp
    show "guess_wrong X (admin_counted l a) q"
      if "q \<in> set (take (nat (l - am_Attempts (admin_counted l a) - 1)) rs)" for q
    proof -
      have "nat (l - am_Attempts a - 1) = Suc (nat (l - am_Attempts (admin_counted l a) - 1)) \<or>
          nat (l - am_Attempts (admin_counted l a) - 1) = 0"
        by (auto simp: admin_counted_def)
      with that Cons.prems(3) [of q] show ?thesis by (auto simp: guess_wrong_def)
    qed
  qed
  with step show ?case by simp
qed simp

lemma dec_AdminModel_enc: "admin_ok a \<Longrightarrow> dec_AdminModel (enc_admin a) = Inr (AdminModel.truncate a)"
  by (cases a) (simp add: dec_AdminModel_def enc_admin_def admin_ok_def int64_def name_eval AdminModel.truncate_def)

text \<open>C35
  Signing in: while an attempt is left, the right password starts a session for the administrator, with
  the attempts back at 0 and the time and address of the visit on record, and the browser is sent to
  the dashboard.
\<close>

theorem console_login_accepts:
  assumes "etcd_quiet (xe_E X)" and "admin_signs_in (rt_store (cn_router s)) n a l" and "login_request X n r"
    and "am_Attempts a + 1 < l" and "\<not> guess_wrong X a r"
  defines "a' \<equiv> a\<lparr>am_Attempts := 0, am_LastLogin := xe_date X, am_IP := hr_RemoteAddr r\<rparr>"
  shows "\<exists>w p t. serve (console_site X) r s = (Inr p, t) \<and> admin_at (rt_store (cn_router t)) n = Some a' \<and>
    cn_sessions t = fst (sl_StartSession (xe_lib X) r (AdminModel.truncate a') (cn_sessions s, w))"
proof -
  let ?s = "rt_store (cn_router s)"
  let ?c = "admin_counted l a"
  let ?z = "?c\<lparr>am_Attempts := 0\<rparr>"
  define s1 where "s1 = attempt_counted n l a ?s"
  define s2 where "s2 = put_key (admin_key n) (Json (enc_admin ?z)) s1"
  define s3 where "s3 = put_key (admin_key n) (Json (enc_admin a')) s2"
  have in1: "admin_signs_in s1 n ?c l" using admin_signs_in_counted [OF assms(2)] by (simp add: s1_def)
  have z: "admin_ok ?z" "admin_ok a'" by (simp_all add: admin_ok_def a'_def int64_def)
  have at2: "admin_at s2 n = Some ?z" and at3: "admin_at s3 n = Some a'" using z by (simp_all add: s2_def s3_def)
  have a': "?z\<lparr>am_LastLogin := xe_date X, am_IP := hr_RemoteAddr r\<rparr> = a'"
    by (simp add: a'_def admin_counted_def)
  have "\<not> l \<le> am_Attempts ?c" using assms(4) by (simp add: admin_counted_def)
  then have compare: "CompareAdminKeys (xe_E X) (xe_kdf X) n (FormValue r ''password'') s1 = (Inr (), s2)"
    using etcd_quiet.CompareAdminKeys_quiet [OF assms(1) in1] assms(5) by (simp add: s2_def guess_wrong_def)
  have last: "SetLastLoginInformation (xe_E X) (xe_date X) n (hr_RemoteAddr r) s2 = (Inr (), s3)"
    by (simp add: SetLastLoginInformation_def etcd_quiet.change_admin_quiet [OF assms(1) at2] s3_def a')
  have get: "GetAdminUser (xe_E X) n s3 = (Inr (AdminModel.truncate a'), s3)"
  proof -
    have "range_of s3 [admin_key n] = [(admin_key n, Json (enc_admin a'), snd (the (find_key s3 (admin_key n))))]"
      by (simp add: range_of_single s3_def)
    then show ?thesis by (simp add: GetAdminUser_def etcd_quiet.Get_quiet [OF assms(1)] ebind_def dec_AdminModel_enc [OF z(2)])
  qed
  from login_reaches_handler [OF assms(3)] obtain w where w: "console_site X r (s, fresh_writer) = doLogin X r (s, w)" by blast
  from assms(3) obtain fs where r: "hr_Method r = ''POST''" "hr_form r = Inr fs" "FormValue r ''username'' = n"
    by (auto simp: login_request_def split: sum.splits)
  obtain k v where start: "sl_StartSession (xe_lib X) r (AdminModel.truncate a') (cn_sessions s, w) = (k, v)" by (metis prod.collapse)
  have inc: "IncrementAdminAuthenticationAttempt (xe_E X) n ?s = (Inr (), s1)"
    by (simp add: etcd_quiet.IncrementAdminAuthenticationAttempt_quiet [OF assms(1,2)] s1_def)
  have "doLogin X r (s, w) = Redirect ''/dashboard'' 303 ((with_store s3 s)\<lparr>cn_sessions := k\<rparr>, v)"
    by (simp add: doLogin_def r Let_def check_def attempt_def ebind_def of_store_apply inc compare last get of_sessions_def start)
  then have "\<exists>p. serve (console_site X) r s = (Inr p, (with_store s3 s)\<lparr>cn_sessions := k\<rparr>)"
    by (simp add: serve_def respond_def w Redirect_def)
  with at3 start show ?thesis by (auto intro!: exI [of _ w])
qed

section \<open>A console\<close>

text \<open>A session library that knows a session by the address of its client.\<close>

definition session_ref :: session_lib where
  "session_ref = \<lparr>sl_GetSessionFromRequest = (\<lambda>k r. (hr_RemoteAddr r, k (hr_RemoteAddr r))),
     sl_StartSession = (\<lambda>r d (k, w). (k(hr_RemoteAddr r \<mapsto> d), w)),
     sl_DeleteSession = (\<lambda>r (k, w). (k(hr_RemoteAddr r := None), w)),
     sl_UpdateSession = (\<lambda>key d k. k(key \<mapsto> d)), sl_csrf = (\<lambda>_ _. ''csrf''),
     sl_AuthorisationChecks = (\<lambda>pages way_out auth r (s, w). case cn_sessions s (hr_RemoteAddr r) of
        None \<Rightarrow> way_out r (s, w) | Some d \<Rightarrow> ebind (auth r d) (\<lambda>ok. if ok then pages r else ret ()) (s, w))\<rparr>"

interpretation session_ref: session_checks session_ref
  by unfold_locales (auto simp: session_ref_def split: option.split)

definition demo_x :: xenv where
  "demo_x = \<lparr>xe_W = demo_wenv\<lparr>we_parse_url := (\<lambda>u. Inr \<lparr>u_Host = u, u_Path = '''', u_text = (\<lambda>_. u)\<rparr>)\<rparr>, xe_methods = [],
     xe_ctrl = socket_client demo_control (\<lambda>_. ''''), xe_lib = session_ref, xe_kdf = demo_kdf, xe_random32 = Inr [],
     xe_date = ''today'', xe_now = 0, xe_RFC822 = (\<lambda>_. ''''), xe_template = (\<lambda>_. None), xe_execute = (\<lambda>_ _. None),
     xe_order = (\<lambda>ns. ns), xe_static = (\<lambda>_ w. w), xe_Upgrade = (\<lambda>_. None),
     xe_cluster = \<lparr>cl_net = demo_net, cl_parse_url = (\<lambda>_. Inl ''none''), cl_CreateToken = Inr, cl_MemberList = Inr [],
       cl_MemberAddAsLearner = (\<lambda>_. None)\<rparr>, xe_leader = ''1'', xe_members = [], xe_dec_members = dec_strings,
     xe_is_member = (\<lambda>_. True), xe_parse_time = (\<lambda>_. Inl ''none''), xe_member_promote = (\<lambda>_. ret ()),
     xe_member_remove = (\<lambda>_. ret ()), xe_StepDown = None, xe_validate_general = (\<lambda>_. None), xe_validate_login = (\<lambda>_. None),
     xe_marshal = (\<lambda>_ _ _. []), xe_lookup = (\<lambda>_ _. None), xe_traffic = (\<lambda>_. (0, 0, '''')), xe_udp = (\<lambda>_. ''''),
     xe_indent = (\<lambda>_. '''')\<rparr>"

text \<open>An administrator with two failed attempts, of five.\<close>

definition demo_admin :: admin where
  "demo_admin = zero_admin\<lparr>am_Username := ''root'', am_Attempts := 2,
     am_Hash := stored_hash demo_kdf ''correct horse battery'' (replicate 16 CHR ''s'')\<rparr>"

definition demo_console :: console where
  "demo_console = \<lparr>cn_router = first_state\<lparr>rt_store :=
       put_key (admin_key ''root'') (Json (enc_admin demo_admin)) console_store\<rparr>,
     cn_sessions = [''10.0.0.9'' \<mapsto> AdminModel.truncate demo_admin], cn_notifications = [], cn_connections = [], cn_delivered = [],
     cn_clusterState = ''healthy'', cn_serverID = ''1'', cn_WagVersion = ''v8'', cn_LogQueue = \<lparr>q_max = 40, q_items = []\<rparr>,
     cn_EventsQueue = \<lparr>q_max = 1000, q_items = []\<rparr>, cn_cluster = \<lparr>cs_Peers = [], cs_tokens = Map.empty\<rparr>\<rparr>"

definition demo_listen :: http_request where
  "demo_listen = \<lparr>hr_Method = ''GET'', hr_Path = ''/notifications'', hr_RemoteAddr = ''10.0.0.9'', hr_XForwardedFor = [],
     hr_ContentType = [], hr_query = [], hr_form = Inr [], hr_body = Inl [], hr_Host = ''console'', hr_Origin = []\<rparr>"

definition demo_sign_in :: "string \<Rightarrow> http_request" where
  "demo_sign_in password = \<lparr>hr_Method = ''POST'', hr_Path = ''/login'', hr_RemoteAddr = ''10.0.0.7'', hr_XForwardedFor = '''',
     hr_ContentType = '''', hr_query = [], hr_form = Inr [(''username'', ''root''), (''password'', password)],
     hr_body = Inl '''', hr_Host = ''console'', hr_Origin = ''console''\<rparr>"

lemma demo_x_simps [simp]:
  "xe_lib demo_x = session_ref" "re_etcd (we_R (xe_W demo_x)) = etcd_ref" "xe_kdf demo_x = demo_kdf"
  by (simp_all add: demo_x_def demo_wenv_def renv_ref_def)

lemma demo_admin_signs_in: "admin_signs_in (rt_store (cn_router demo_console)) ''root'' demo_admin 5"
  by (simp add: demo_console_def admin_signs_in_def admin_ok_def demo_admin_def zero_admin_def int64_def console_store_def)

lemma demo_listen_connects: "cn_connections (snd (serve (console_site demo_x) demo_listen demo_console)) = [''10.0.0.9'']"
proof -
  have admin: "GetAdminUser etcd_ref ''root'' (rt_store (cn_router demo_console)) = (Inr (AdminModel.truncate demo_admin), rt_store (cn_router demo_console))"
    using demo_admin_signs_in by (simp add: GetAdminUser_def etcd_ref.Get_quiet ebind_def range_of_single demo_console_def dec_AdminModel_enc
        admin_ok_def demo_admin_def zero_admin_def int64_def)
  have mux: "ServeMux (protectedRoutes demo_x) demo_listen = notificationsWS demo_x demo_listen"
    by (simp add: ServeMux_def protectedRoutes_def demo_listen_def)
  have all: "ServeMux (allRoutes demo_x) demo_listen = sl_AuthorisationChecks session_ref (ServeMux (protectedRoutes demo_x))
      (\<lambda>r. to_login) (refresh_admin demo_x) demo_listen"
    by (simp add: ServeMux_def allRoutes_def demo_listen_def slash_pattern_def)
  have session: "cn_sessions demo_console ''10.0.0.9'' = Some (AdminModel.truncate demo_admin)"
    by (simp add: demo_console_def)
  have name: "am_Username (AdminModel.truncate demo_admin) = ''root''"
    by (simp add: demo_admin_def zero_admin_def AdminModel.truncate_def)
  have addr: "hr_RemoteAddr demo_listen = ''10.0.0.9''" "hr_Method demo_listen = ''GET''" by (simp_all add: demo_listen_def)
  have conn: "xe_Upgrade demo_x = (\<lambda>_. None)" "cn_connections (with_store t demo_console) = []" for t
    by (simp_all add: demo_x_def demo_console_def with_store_def)
  have check: "sl_AuthorisationChecks session_ref pages way_out auth demo_listen (demo_console, w) =
      ebind (auth demo_listen (AdminModel.truncate demo_admin)) (\<lambda>ok. if ok then pages demo_listen else ret ()) (demo_console, w)"
    for pages way_out auth w
    by (simp add: session_ref_def addr session)
  have refresh: "refresh_admin demo_x demo_listen (AdminModel.truncate demo_admin) (demo_console, w) =
      (Inr True, ((with_store (rt_store (cn_router demo_console)) demo_console)\<lparr>cn_sessions :=
         sl_UpdateSession session_ref (fst (sl_GetSessionFromRequest session_ref (cn_sessions demo_console) demo_listen))
           (AdminModel.truncate demo_admin) (cn_sessions demo_console)\<rparr>, w))" for w
    by (simp add: refresh_admin_def Let_def attempt_def ebind_def of_store_apply name admin of_sessions_def)
  show ?thesis
    by (simp add: console_site_def ui_setSecurityHeaders_def serve_def respond_def ebind_def all check refresh mux addr
        notificationsWS_def conn on_state_apply modify_def)
qed

theorem console_guarded_witness:
  "\<exists>key d a. sl_GetSessionFromRequest session_ref (cn_sessions demo_console) demo_listen = (key, Some d) \<and>
     GetAdminUser etcd_ref (am_Username d) (rt_store (cn_router demo_console)) = (Inr a, rt_store (cn_router demo_console))"
proof -
  have "cn_connections demo_console = []" by (simp add: demo_console_def)
  with demo_listen_connects have "guarded (snd (serve (console_site demo_x) demo_listen demo_console)) \<noteq> guarded demo_console"
    by (auto simp: guarded_def dest: arg_cong [where f = cn_connections])
  from console_guarded [OF _ _ this] show ?thesis
    by (simp add: session_ref.session_checks_axioms etcd_ref.etcd_quiet_axioms demo_listen_def)
qed

lemma demo_sign_in_request: "login_request demo_x ''root'' (demo_sign_in password)"
  by (simp add: login_request_def demo_sign_in_def FormValue_def demo_x_def)

lemma demo_guess: "guess_wrong demo_x demo_admin (demo_sign_in password) \<longleftrightarrow>
    demo_kdf (bytes_of password) x \<noteq> demo_kdf (bytes_of ''correct horse battery'') x"
  using compare_stored_hash [where kdf = demo_kdf and password = "''correct horse battery''" and salt = "replicate 16 CHR ''s''"
      and guess = password, OF length_demo_kdf]
  by (simp add: guess_wrong_def demo_admin_def FormValue_def demo_sign_in_def demo_kdf_def)

lemma demo_attempts [simp]: "am_Attempts demo_admin = 2"
  by (simp add: demo_admin_def)

theorem console_login_accepts_witness:
  "\<exists>p t. serve (console_site demo_x) (demo_sign_in ''correct horse battery'') demo_console = (Inr p, t) \<and>
     cn_sessions t ''10.0.0.7'' \<noteq> None"
proof -
  let ?r = "demo_sign_in ''correct horse battery''"
  let ?a = "demo_admin\<lparr>am_Attempts := 0, am_LastLogin := xe_date demo_x, am_IP := hr_RemoteAddr ?r\<rparr>"
  have quiet: "etcd_quiet (xe_E demo_x)" by (simp add: etcd_ref.etcd_quiet_axioms)
  have "\<not> guess_wrong demo_x demo_admin ?r" by (simp add: demo_guess [where x = "[]"])
  from console_login_accepts [OF quiet demo_admin_signs_in demo_sign_in_request _ this] obtain w p t where
    "serve (console_site demo_x) ?r demo_console = (Inr p, t)"
    "cn_sessions t = fst (sl_StartSession session_ref ?r (AdminModel.truncate ?a) (cn_sessions demo_console, w))" by auto
  then show ?thesis by (simp add: session_ref_def demo_sign_in_def)
qed

theorem console_guesses_bounded_witness:
  "cn_sessions (visits (console_site demo_x)
      [demo_sign_in ''open sesame'', demo_sign_in ''swordfish'', demo_sign_in ''correct horse battery''] demo_console) ''10.0.0.7'' = None"
proof -
  have "cn_sessions (visits (console_site demo_x)
      [demo_sign_in ''open sesame'', demo_sign_in ''swordfish'', demo_sign_in ''correct horse battery''] demo_console) =
    cn_sessions demo_console"
  proof (rule console_guesses_bounded [OF _ demo_admin_signs_in])
    show "etcd_quiet (xe_E demo_x)" by (simp add: etcd_ref.etcd_quiet_axioms)
    have "guess_wrong demo_x demo_admin (demo_sign_in ''open sesame'')" "guess_wrong demo_x demo_admin (demo_sign_in ''swordfish'')"
      by (simp_all add: demo_guess [where x = "[]"] demo_kdf_def bytes_of_def)
    then show "guess_wrong demo_x demo_admin r"
      if "r \<in> set (take (nat (5 - am_Attempts demo_admin - 1))
            [demo_sign_in ''open sesame'', demo_sign_in ''swordfish'', demo_sign_in ''correct horse battery''])" for r
      using that by (auto simp: numeral_2_eq_2)
  qed (auto simp: demo_sign_in_request)
  then show ?thesis by (simp add: demo_console_def)
qed

section \<open>Notifications\<close>

text \<open>Every notification is kept once, under its own ID.\<close>

definition notes_ok :: "console \<Rightarrow> bool" where
  "notes_ok s \<longleftrightarrow> distinct (map fst (cn_notifications s)) \<and> (\<forall>(i, n) \<in> set (cn_notifications s). nt_ID n = i)"

lemma known_iff: "known s i \<longleftrightarrow> i \<in> fst ` set (cn_notifications s)"
  by (simp add: known_def map_of_eq_None_iff)

lemma notes_ok_remember: "notes_ok s \<Longrightarrow> notes_ok (remember n s)"
  by (auto simp: notes_ok_def remember_def known_iff)

lemma notes_ok_forget: "notes_ok s \<Longrightarrow> notes_ok (forget i s)"
  by (auto simp: notes_ok_def forget_def distinct_map inj_on_def)

lemma notes_ok_notify: "notes_ok s \<Longrightarrow> notes_ok (notify n s)"
  using notes_ok_remember [of s n] by (auto simp: notify_def notes_ok_def)

lemma remember_known: "known (remember n s) i \<longleftrightarrow> i = nt_ID n \<or> known s i"
  by (auto simp: remember_def known_iff)

lemma remember_all:
  "notes_ok s \<Longrightarrow> notes_ok (fold (\<lambda>e. remember (error_notification e)) errs s) \<and>
     (\<forall>i. known (fold (\<lambda>e. remember (error_notification e)) errs s) i \<longleftrightarrow> known s i \<or> i \<in> ee_ErrorID ` set errs)"
proof (induction errs arbitrary: s)
  case (Cons e errs)
  from Cons.IH [OF notes_ok_remember [OF Cons.prems], of "error_notification e"] show ?case
    by (auto simp: remember_known error_notification_def)
qed simp

text \<open>
  The bell of the console: the notifications shown are in order of time, newest first, each once, and
  among them is every error of the cluster that nobody has resolved.
\<close>

theorem bell_complete:
  assumes "\<And>ns. mset (xe_order X ns) = mset ns" and "notes_ok s"
    and "client_GetClusterErrors (xe_ctrl X) (cn_router s) = (Inr errs, r)"
    and "getNotifications X (s, w) = (Inr ns, (t, v))"
  shows "sorted (map (\<lambda>n. - nt_Time n) ns) \<and> distinct (map nt_ID ns) \<and> notes_ok t \<and>
    (\<forall>e \<in> set errs. ee_ErrorID e \<in> nt_ID ` set ns)"
proof -
  let ?s = "fold (\<lambda>e. remember (error_notification e)) errs (s\<lparr>cn_router := r\<rparr>)"
  have "notes_ok (s\<lparr>cn_router := r\<rparr>)" using assms(2) by (simp add: notes_ok_def)
  from remember_all [OF this, of errs] have ok: "notes_ok ?s"
    and known: "\<And>i. known ?s i \<longleftrightarrow> known (s\<lparr>cn_router := r\<rparr>) i \<or> i \<in> ee_ErrorID ` set errs" by auto
  have t: "t = ?s" and ns: "ns = sort_key (\<lambda>n. - nt_Time n) (xe_order X (map snd (cn_notifications ?s)))"
    using assms(3,4) by (auto simp: getNotifications_def attempt_def ebind_def of_router_def on_state_apply zoom_def
        modify_def of_console_def)
  have set: "mset ns = mset (map snd (cn_notifications ?s))" by (simp add: ns assms(1))
  have ids: "map nt_ID (map snd (cn_notifications ?s)) = map fst (cn_notifications ?s)"
    using ok by (auto simp: notes_ok_def)
  have "mset (map nt_ID ns) = mset (map fst (cn_notifications ?s))"
    using set ids by (metis mset_map)
  with ok have "distinct (map nt_ID ns)" by (metis mset_eq_imp_distinct_iff notes_ok_def)
  moreover have "ee_ErrorID e \<in> nt_ID ` set ns" if "e \<in> set errs" for e
  proof -
    have "known ?s (ee_ErrorID e)" using known that by blast
    then have "ee_ErrorID e \<in> set (map nt_ID (map snd (cn_notifications ?s)))" by (simp only: ids known_iff set_map)
    moreover have "set ns = set (map snd (cn_notifications ?s))" using set by (metis set_mset_mset)
    ultimately show ?thesis by (auto simp: image_image)
  qed
  moreover have "sorted (map (\<lambda>n. - nt_Time n) ns)" by (simp add: ns)
  ultimately show ?thesis using ok t by simp
qed

text \<open>
  Without an ID of its own, only the first notice of an update is ever shown; the monitor of the nodes
  warns of none of them, since asking for a ping always fails; and an error that could not be resolved
  is answered with both the error and the success.
\<close>

lemma update_once:
  assumes "update_round X (Inr j) s = (True, t)" and "update_round X resp t = (b, u)"
  shows "u = t"
proof -
  have "known t ''''" using assms(1)
    by (auto simp: update_round_def notify_def remember_def known_iff update_notification_def split: sum.splits if_splits prod.splits)
  with assms(2) show ?thesis
    by (auto simp: update_round_def notify_def update_notification_def split: sum.splits)
qed

lemma monitor_blind:
  assumes "xe_ctrl X = socket_client C f" and "ce_members C = JArr ms"
  shows "monitor_member X i (s, w) = (Inr (), (s, w))"
  by (simp add: monitor_member_def attempt_def ebind_def of_router_def on_state_apply zoom_def assms
      client_GetClusterMemberLastPing_def read_json_def socket.connected serve_def control_gets listMembers_def
      write_json_def respond_writer finish_def decode_response_def mismatch_def wrap_err_def on_error_def)

lemma acknowledge_after_error:
  assumes "hr_body r = Inr (JObj [(''ErrorID'', JStr i)])"
    and "ResolveError (xe_E X) i (rt_store (cn_router s)) = (Inl (GoErr e), t)"
  shows "\<exists>p u. serve (clusterEventsAcknowledge X) r s = (Inr p, u) \<and> rp_StatusCode p = 500 \<and>
     rp_Body p = [Raw (line e), Raw ''Success!'']"
  using assms by (simp add: clusterEventsAcknowledge_def check_def decode_body_def attempt_def ebind_def name_eval serve_def
      respond_def of_store_apply fail500_def Error_def http_error_def write_raw_def finish_def)

definition demo_error :: EventError where
  "demo_error = \<lparr>ee_NodeID = ''1'', ee_ErrorID = ''e1'', ee_FailedEventData = '''', ee_Error = ''failed'', ee_Time = 5\<rparr>"

text \<open>A control client that answers every call with one error of the cluster.\<close>

definition demo_bell :: xenv where
  "demo_bell = demo_x\<lparr>xe_ctrl := \<lparr>httpClient = (\<lambda>_ s. (Inr \<lparr>rp_StatusCode = 200, rp_Header = Map.empty,
     rp_Body = [Doc (JArr [enc_event_error demo_error])]\<rparr>, s)), cc_render = (\<lambda>_. '''')\<rparr>\<rparr>"

theorem bell_complete_witness:
  "\<exists>ns t v. getNotifications demo_bell (demo_console, fresh_writer) = (Inr ns, (t, v)) \<and> ''e1'' \<in> nt_ID ` set ns"
proof -
  have order: "mset (xe_order demo_bell ns) = mset ns" for ns by (simp add: demo_bell_def demo_x_def)
  have ok: "notes_ok demo_console" by (simp add: notes_ok_def demo_console_def)
  have errs: "client_GetClusterErrors (xe_ctrl demo_bell) (cn_router demo_console) = (Inr [demo_error], cn_router demo_console)"
    by (simp add: demo_bell_def client_GetClusterErrors_def read_json_def ebind_def decode_response_def wrap_err_def on_error_def
        enc_event_error_def dec_event_error_def demo_error_def name_eval)
  obtain ns t v where run: "getNotifications demo_bell (demo_console, fresh_writer) = (Inr ns, (t, v))"
    using errs by (simp add: getNotifications_def attempt_def ebind_def of_router_def on_state_apply zoom_def modify_def of_console_def)
  from bell_complete [OF order ok errs run] have "''e1'' \<in> nt_ID ` set ns" by (simp add: demo_error_def)
  with run show ?thesis by blast
qed


end
