(* ===== verification/Challenger.thy ===== *)
theory Challenger
  imports WebProps
begin

text \<open>
  The connections of internal/router/session_manager.go over which devices answer challenges. A page of
  the portal keeps a websocket open; its handler registers the connection under the address of the
  device, challenges it once, and waits until the connection is closed or the router stops. The router
  challenges the registered connection when the endpoint of the device changes (RouterEvents).

  Handlers run concurrently. What happens under one hold of the lock is one step. A connection is a
  number; \<open>hb_closed\<close> is its flag \<open>isClosed\<close>, and with it the channel \<open>wait\<close>, which is closed at the same
  time. The websocket library is the argument \<open>upgrade\<close>, given the check of the origin.
\<close>

section \<open>State\<close>

text \<open>
  Where the handler of a connection is: registered, waiting in \<open>select\<close> after a passed challenge, before
  \<open>Reset\<close> after a failed one, before its deferred function, and at its end.
\<close>

datatype ws_phase = Registered | Awaiting | Refused | Returning | Returned

record hub =
  hb_connections :: "string \<rightharpoonup> nat"
  hb_closed :: "nat \<Rightarrow> bool"
  hb_handlers :: "nat \<rightharpoonup> string \<times> ws_phase"
  hb_sent :: "(nat \<times> string) list"

definition NewChallenger :: hub where
  "NewChallenger = \<lparr>hb_connections = (\<lambda>_. None), hb_closed = (\<lambda>_. False), hb_handlers = (\<lambda>_. None), hb_sent = []\<rparr>"

type_synonym challenger = "router \<times> hub"

definition on_router :: "(router, 'a) eff \<Rightarrow> (challenger, 'a) eff" where
  "on_router = zoom fst (\<lambda>x (_, h). (x, h))"

definition on_hub :: "(hub \<Rightarrow> hub) \<Rightarrow> (challenger, unit) eff" where
  "on_hub f = (\<lambda>(s, h). (Inr (), (s, f h)))"

section \<open>Operations\<close>

definition conn_Close :: "nat \<Rightarrow> hub \<Rightarrow> hub" where
  "conn_Close c h = (if hb_closed h c then h else h\<lparr>hb_closed := (hb_closed h)(c := True)\<rparr>)"

definition phase :: "nat \<Rightarrow> ws_phase \<Rightarrow> hub \<Rightarrow> hub" where
  "phase c p h = (case hb_handlers h c of None \<Rightarrow> h | Some (a, _) \<Rightarrow> h\<lparr>hb_handlers := (hb_handlers h)(c \<mapsto> (a, p))\<rparr>)"

definition sent :: "nat \<Rightarrow> string \<Rightarrow> hub \<Rightarrow> hub" where
  "sent c m h = h\<lparr>hb_sent := hb_sent h @ [(c, m)]\<rparr>"

text \<open>An earlier connection of the address is closed, the new one takes its place.\<close>

definition ws_register :: "string \<Rightarrow> nat \<Rightarrow> hub \<Rightarrow> hub" where
  "ws_register address c h =
     (let h = (case hb_connections h address of Some prev \<Rightarrow> conn_Close prev h | None \<Rightarrow> h)
      in h\<lparr>hb_connections := (hb_connections h)(address \<mapsto> c), hb_handlers := (hb_handlers h)(c \<mapsto> (address, Registered))\<rparr>)"

text \<open>The deferred function deletes whatever is registered under the address.\<close>

definition ws_leave :: "string \<Rightarrow> nat \<Rightarrow> hub \<Rightarrow> hub" where
  "ws_leave address c h =
     (let h = conn_Close c h in phase c Returned (h\<lparr>hb_connections := (hb_connections h)(address := None)\<rparr>))"

text \<open>A failed use of the connection closes it; the challenge goes out unless one of the first two calls fails.\<close>

definition ws_used :: "nat \<Rightarrow> wsconn \<Rightarrow> hub \<Rightarrow> hub" where
  "ws_used c io h =
     (let h = (if ws_SetWriteDeadline io = None \<and> ws_WriteJSON io = None then sent c ''challenge'' h else h)
      in if ws_SetWriteDeadline io \<noteq> None \<or> ws_WriteJSON io \<noteq> None \<or> ws_SetReadDeadline io \<noteq> None \<or> (\<exists>e. ws_ReadJSON io = Inl e)
         then conn_Close c h else h)"

text \<open>\<open>io\<close> is how the calls on each connection go.\<close>

definition Verifier_Challenge :: "renv \<Rightarrow> int \<Rightarrow> (nat \<Rightarrow> wsconn) \<Rightarrow> string \<Rightarrow> (challenger, unit) eff" where
  "Verifier_Challenge R now io address = (\<lambda>(s, h).
     case hb_connections h address of
       None \<Rightarrow> on_router (Challenge R now None address) (s, h)
     | Some c \<Rightarrow> on_router (Challenge R now (Some (io c)) address) (s, ws_used c (io c) h))"

definition Verifier_Reset :: "(nat \<Rightarrow> wsconn) \<Rightarrow> string \<Rightarrow> hub \<Rightarrow> hub" where
  "Verifier_Reset io address h = (case hb_connections h address of
      None \<Rightarrow> h
    | Some c \<Rightarrow> if ws_WriteJSON (io c) = None then sent c ''reset'' h else h)"

definition CheckOrigin :: "renv \<Rightarrow> http_request \<Rightarrow> (router, bool) eff" where
  "CheckOrigin R r = ebind (attempt (in_store (GetDomain (re_etcd R)))) (\<lambda>domain. case domain of
      Inl _ \<Rightarrow> ret False
    | Inr domain \<Rightarrow> ret (hr_Origin r = domain))"

text \<open>
  The handler up to the registration. \<open>upgrade\<close> says whether the connection was taken over; when it was
  not, the library has answered the request itself.
\<close>

type_synonym upgrader = "(http_request \<Rightarrow> (router, bool) eff) \<Rightarrow> http_request \<Rightarrow> (router, bool) hnd"

definition beside_hub :: "(router, 'a) hnd \<Rightarrow> (challenger, 'a) hnd" where
  "beside_hub = zoom (\<lambda>((s, _), w). (s, w)) (\<lambda>(s, w) ((_, h), _). ((s, h), w))"

definition WS_open :: "wenv \<Rightarrow> upgrader \<Rightarrow> nat \<Rightarrow> challenger handler" where
  "WS_open W upgrade c r =
     (let remoteAddress = client_ip W r in
      check (beside_hub (on_state (in_store (GetUserFromAddress (we_E W) (map_option V4 remoteAddress)))))
        (\<lambda>_. Error ''Server Error'' 500) (\<lambda>_.
      ebind (beside_hub (upgrade (CheckOrigin (we_R W)) r)) (\<lambda>upgraded.
      if upgraded then on_state (on_hub (ws_register (ip_text remoteAddress) c))
      else Error ''Server Error'' 500)))"

text \<open>The phase after the first challenge: a panic runs the deferred function at once.\<close>

definition after_challenge :: "unit res \<Rightarrow> ws_phase" where
  "after_challenge x = (case x of Inr _ \<Rightarrow> Awaiting | Inl (GoErr _) \<Rightarrow> Refused | Inl (GoPanic _) \<Rightarrow> Returning | Inl OutOfFuel \<Rightarrow> Registered)"

definition ws_initial :: "renv \<Rightarrow> int \<Rightarrow> (nat \<Rightarrow> wsconn) \<Rightarrow> string \<Rightarrow> nat \<Rightarrow> challenger \<Rightarrow> challenger" where
  "ws_initial R now io address c s =
     (case Verifier_Challenge R now io address s of (x, (t, h)) \<Rightarrow> (t, phase c (after_challenge x) h))"

definition ws_reset :: "(nat \<Rightarrow> wsconn) \<Rightarrow> string \<Rightarrow> nat \<Rightarrow> hub \<Rightarrow> hub" where
  "ws_reset io address c h = phase c Returning (Verifier_Reset io address h)"

section \<open>Steps\<close>

text \<open>One step of any handler, or of the rest of the router, which changes its own state or challenges a device.\<close>

inductive ws_step :: "wenv \<Rightarrow> upgrader \<Rightarrow> challenger \<Rightarrow> challenger \<Rightarrow> bool" for W upgrade where
  open_ws: "hb_handlers h c = None \<Longrightarrow> WS_open W upgrade c r ((s, h), w) = (x, (t, w')) \<Longrightarrow> ws_step W upgrade (s, h) t"
| initial: "hb_handlers h c = Some (a, Registered) \<Longrightarrow> ws_step W upgrade (s, h) (ws_initial (we_R W) now io a c (s, h))"
| reset: "hb_handlers h c = Some (a, Refused) \<Longrightarrow> ws_step W upgrade (s, h) (s, ws_reset io a c h)"
| woken: "hb_handlers h c = Some (a, Awaiting) \<Longrightarrow> hb_closed h c \<Longrightarrow> ws_step W upgrade (s, h) (s, phase c Returning h)"
| cancelled: "hb_handlers h c = Some (a, Awaiting) \<Longrightarrow> ws_step W upgrade (s, h) (s, phase c Returning h)"
| leave: "hb_handlers h c = Some (a, Returning) \<Longrightarrow> ws_step W upgrade (s, h) (s, ws_leave a c h)"
| verify: "Verifier_Challenge (we_R W) now io a (s, h) = (x, t) \<Longrightarrow> ws_step W upgrade (s, h) t"
| elsewhere: "ws_step W upgrade (s, h) (t, h)"

inductive ws_reach :: "wenv \<Rightarrow> upgrader \<Rightarrow> challenger \<Rightarrow> bool" for W upgrade where
  start: "ws_reach W upgrade (s, NewChallenger)"
| step: "ws_reach W upgrade s \<Longrightarrow> ws_step W upgrade s t \<Longrightarrow> ws_reach W upgrade t"

inductive_cases ws_step_cases: "ws_step W upgrade s t"

section \<open>The library\<close>

text \<open>A handshake whose origin the check does not admit fails.\<close>

locale ws_upgrader =
  fixes upgrade :: upgrader
  assumes admitted: "upgrade chk r (s, w) = (Inr True, x) \<Longrightarrow> \<exists>t. chk r s = (Inr True, t)"

definition upgrade_ref :: upgrader where
  "upgrade_ref chk r = ebind (on_state (chk r)) (\<lambda>valid.
     if valid then ret True else ebind (Error ''Forbidden'' 403) (\<lambda>_. ret False))"

interpretation upgrade_ref: ws_upgrader upgrade_ref
  by unfold_locales
    (auto simp: upgrade_ref_def on_state_def zoom_def ebind_def Error_def on_writer_def split: prod.splits sum.splits if_splits)

section \<open>Lemmas\<close>

lemma hub_closed [simp]:
  "hb_connections (conn_Close c h) = hb_connections h" "hb_handlers (conn_Close c h) = hb_handlers h"
  "hb_sent (conn_Close c h) = hb_sent h" "hb_closed (conn_Close c h) = (hb_closed h)(c := True)"
  by (auto simp: conn_Close_def fun_eq_iff)

lemma hub_sent [simp]:
  "hb_connections (sent c m h) = hb_connections h" "hb_handlers (sent c m h) = hb_handlers h"
  "hb_closed (sent c m h) = hb_closed h" "hb_sent (sent c m h) = hb_sent h @ [(c, m)]"
  by (simp_all add: sent_def)

lemma hub_phase [simp]:
  "hb_connections (phase c p h) = hb_connections h" "hb_closed (phase c p h) = hb_closed h"
  "hb_sent (phase c p h) = hb_sent h"
  "hb_handlers (phase c p h) =
     (case hb_handlers h c of None \<Rightarrow> hb_handlers h | Some (a, _) \<Rightarrow> (hb_handlers h)(c \<mapsto> (a, p)))"
  by (auto simp: phase_def split: option.splits)

lemma hub_used [simp]:
  "hb_connections (ws_used c io h) = hb_connections h" "hb_handlers (ws_used c io h) = hb_handlers h"
  by (simp_all add: ws_used_def Let_def)

lemma hub_reset [simp]:
  "hb_connections (Verifier_Reset io a h) = hb_connections h" "hb_handlers (Verifier_Reset io a h) = hb_handlers h"
  by (simp_all add: Verifier_Reset_def split: option.splits)

lemma hub_register [simp]:
  "hb_connections (ws_register a c h) = (hb_connections h)(a \<mapsto> c)"
  "hb_handlers (ws_register a c h) = (hb_handlers h)(c \<mapsto> (a, Registered))"
  by (simp_all add: ws_register_def Let_def split: option.splits)

lemma Verifier_Challenge_hub:
  assumes "Verifier_Challenge R now io a (s, h) = (x, (t, h'))"
  shows "hb_connections h' = hb_connections h" "hb_handlers h' = hb_handlers h"
  using assms by (auto simp: Verifier_Challenge_def on_router_def zoom_def split: option.splits prod.splits)

text \<open>A challenge passes only with the text stored for the device.\<close>

definition answered :: "renv \<Rightarrow> string \<Rightarrow> wsconn \<Rightarrow> router \<Rightarrow> bool" where
  "answered R address io s \<longleftrightarrow> (\<exists>d t. GetDeviceByAddress (re_etcd R) address (rt_store s) = (Inr d, t) \<and>
     ws_ReadJSON io = Inr (dv_Challenge d))"

lemma Challenge_answered:
  assumes "Challenge R now conn address s = (Inr u, t)"
  shows "\<exists>io. conn = Some io \<and> answered R address io s"
proof (cases conn)
  case None
  with assms show ?thesis by (simp add: Challenge_def)
next
  case (Some io)
  have inv: "ws_call r x = (Inr y, z) \<longleftrightarrow> r = None \<and> z = x" for r y z and x :: router
    by (auto simp: ws_call_def split: option.splits)
  from assms Some show ?thesis
    by (auto simp: Challenge_def eff_inv inv zoom_eq_Inr answered_def split: sum.splits if_splits)
qed

lemma Verifier_Challenge_answered:
  assumes "Verifier_Challenge R now io a (s, h) = (Inr u, t)"
  shows "\<exists>c. hb_connections h a = Some c \<and> answered R a (io c) s"
  using assms
  by (auto simp: Verifier_Challenge_def on_router_def zoom_eq_Inr split: option.splits dest!: Challenge_answered)

text \<open>What opening a connection has checked.\<close>

definition admissible :: "wenv \<Rightarrow> string \<Rightarrow> router \<Rightarrow> bool" where
  "admissible W address s \<longleftrightarrow> (\<exists>r u s1 s2. address = ip_text (client_ip W r) \<and>
     GetUserFromAddress (we_E W) (map_option V4 (client_ip W r)) (rt_store s) = (Inr u, s1) \<and>
     GetDomain (we_E W) s1 = (Inr (hr_Origin r), s2))"


context ws_upgrader
begin

lemma WS_open_checked:
  assumes "WS_open W upgrade c r ((s, h), w) = (x, ((t, h'), w'))"
  shows "h' = h \<or> h' = ws_register (ip_text (client_ip W r)) c h \<and> admissible W (ip_text (client_ip W r)) s"
proof -
  let ?get = "GetUserFromAddress (we_E W) (map_option V4 (client_ip W r))"
  obtain a s1 where a: "?get (rt_store s) = (a, s1)" by (cases "?get (rt_store s)")
  let ?s1 = "s\<lparr>rt_store := s1\<rparr>"
  have get: "beside_hub (on_state (in_store ?get)) ((s, h), w) = (a, ((?s1, h), w))"
    using a by (simp add: beside_hub_def on_state_def zoom_def)
  show ?thesis
  proof (cases "\<exists>u. a = Inr u")
    case False
    then consider e where "a = Inl (GoErr e)" | "\<forall>e. a \<noteq> Inl (GoErr e)" "\<exists>f. a = Inl f" by (cases a) auto
    then show ?thesis
    proof cases
      case 1
      with assms get show ?thesis by (auto simp: WS_open_def Let_def check_cases(2) [where m = "beside_hub (on_state (in_store ?get))" and x = "((s, h), w)", OF get [unfolded 1]] Error_def)
    next
      case 2
      then obtain f where f: "a = Inl f" "\<forall>e. f \<noteq> GoErr e" by blast
      then have "check (beside_hub (on_state (in_store ?get))) fl k ((s, h), w) = (Inl f, ((?s1, h), w))" for fl k
        using get by (cases f) (simp_all add: check_cases(3,4))
      with assms show ?thesis by (simp add: WS_open_def Let_def)
    qed
  next
    case True
    then obtain u where u: "a = Inr u" by blast
    obtain b t1 w1 where b: "upgrade (CheckOrigin (we_R W)) r (?s1, w) = (b, (t1, w1))"
      by (metis prod.exhaust)
    have up: "beside_hub (upgrade (CheckOrigin (we_R W)) r) ((?s1, h), w) = (b, ((t1, h), w1))"
      using b by (simp add: beside_hub_def zoom_def)
    from assms get u up have h': "h' = (if b = Inr True then ws_register (ip_text (client_ip W r)) c h else h)"
      by (auto simp: WS_open_def Let_def check_cases(1) [where m = "beside_hub (on_state (in_store ?get))" and x = "((s, h), w)", OF get [unfolded u]] ebind_def on_hub_def on_state_apply Error_def split: sum.splits if_splits)
    show ?thesis
    proof (cases "b = Inr True")
      case True
      with admitted b obtain t2 where "CheckOrigin (we_R W) r ?s1 = (Inr True, t2)" by blast
      then obtain dom s2 where "GetDomain (we_E W) s1 = (Inr dom, s2)" "hr_Origin r = dom"
        by (cases "GetDomain (we_E W) s1")
          (auto simp: CheckOrigin_def ebind_def zoom_def attempt_def split: sum.splits fault.splits)
      with a u h' True show ?thesis by (auto simp: admissible_def)
    qed (use h' in simp)
  qed
qed

end

text \<open>Every registered connection belongs to a handler of its address that has not returned.\<close>

definition hub_ok :: "hub \<Rightarrow> bool" where
  "hub_ok h \<longleftrightarrow> (\<forall>a c. hb_connections h a = Some c \<longrightarrow> (\<exists>p. hb_handlers h c = Some (a, p) \<and> p \<noteq> Returned))"

lemma hub_ok_same:
  "hub_ok h \<Longrightarrow> hb_connections h' = hb_connections h \<Longrightarrow> hb_handlers h' = hb_handlers h \<Longrightarrow> hub_ok h'"
  by (simp add: hub_ok_def)

lemma hub_ok_phase: "hub_ok h \<Longrightarrow> p \<noteq> Returned \<Longrightarrow> hub_ok (phase c p h)"
  unfolding hub_ok_def by (fastforce split: option.splits)

lemma hub_ok_register: "hub_ok h \<Longrightarrow> hb_handlers h c = None \<Longrightarrow> hub_ok (ws_register a c h)"
  unfolding hub_ok_def by (auto split: if_splits) force

lemma hub_ok_leave: "hub_ok h \<Longrightarrow> hb_handlers h c = Some (a, p) \<Longrightarrow> hub_ok (ws_leave a c h)"
  unfolding hub_ok_def ws_leave_def Let_def by (auto split: if_splits) force+

context ws_upgrader
begin

lemma ws_step_ok:
  assumes "hub_ok h" and "ws_step W upgrade (s, h) (t, h')"
  shows "hub_ok h'"
  using assms(2)
proof (cases rule: ws_step.cases)
  case (open_ws c r w x w')
  with assms(1) show ?thesis using WS_open_checked hub_ok_register by metis
next
  case (initial c a now io)
  then obtain x t' k where k: "Verifier_Challenge (we_R W) now io a (s, h) = (x, (t', k))" by (metis prod.exhaust)
  with initial assms(1) have "hub_ok k" using Verifier_Challenge_hub [OF k] hub_ok_same by auto
  moreover have "after_challenge x \<noteq> Returned" by (auto simp: after_challenge_def split: sum.splits fault.splits)
  ultimately show ?thesis using initial k hub_ok_phase by (auto simp: ws_initial_def)
next
  case (reset c a io)
  have "hub_ok (Verifier_Reset io a h)" by (rule hub_ok_same [OF assms(1)]) simp_all
  with reset show ?thesis using hub_ok_phase by (simp add: ws_reset_def)
next
  case (verify now io a x)
  with assms(1) show ?thesis using hub_ok_same Verifier_Challenge_hub by metis
qed (use assms(1) hub_ok_phase hub_ok_leave in simp_all)

end

context ws_upgrader
begin

lemma ws_step_registers:
  assumes "ws_step W upgrade (s, h) (t, h')" and "hb_connections h' a = Some c" and "hb_connections h a \<noteq> Some c"
  shows "hb_handlers h c = None \<and> admissible W a s"
  using assms(1)
proof (cases rule: ws_step.cases)
  case (open_ws c' r w x w')
  with assms(2,3) WS_open_checked [of W c' r s h w x t h' w'] show ?thesis
    by (auto split: if_splits)
next
  case (initial d b now io)
  then obtain x t' k where k: "Verifier_Challenge (we_R W) now io b (s, h) = (x, (t', k))" by (metis prod.exhaust)
  with initial assms(2,3) show ?thesis using Verifier_Challenge_hub [OF k] by (simp add: ws_initial_def)
next
  case (verify now io b x)
  with assms(2,3) show ?thesis using Verifier_Challenge_hub by metis
qed (use assms(2,3) in \<open>auto simp: ws_reset_def ws_leave_def Let_def split: if_splits\<close>)

lemma ws_step_awaiting:
  assumes "ws_step W upgrade (s, h) (t, h')" and "hb_handlers h' c = Some (a, Awaiting)"
    and "hb_handlers h c \<noteq> Some (a, Awaiting)"
  shows "\<exists>conn io. hb_connections h a = Some conn \<and> answered (we_R W) a io s"
  using assms(1)
proof (cases rule: ws_step.cases)
  case (open_ws c' r w x w')
  with assms(2,3) WS_open_checked [of W c' r s h w x t h' w'] show ?thesis
    by (auto split: if_splits)
next
  case (initial d b now io)
  then obtain x t' k where k: "Verifier_Challenge (we_R W) now io b (s, h) = (x, (t', k))" by (metis prod.exhaust)
  with initial have h': "h' = phase d (after_challenge x) k" by (simp add: ws_initial_def)
  with assms(2,3) initial Verifier_Challenge_hub [OF k] have "c = d" "b = a" "after_challenge x = Awaiting"
    by (auto split: if_splits option.splits)
  then obtain u where "x = Inr u" by (auto simp: after_challenge_def split: sum.splits fault.splits)
  with k Verifier_Challenge_answered \<open>b = a\<close> show ?thesis by blast
next
  case (verify now io b x)
  with assms(2,3) show ?thesis using Verifier_Challenge_hub by metis
qed (use assms(2,3) in \<open>auto simp: ws_reset_def ws_leave_def Let_def split: if_splits option.splits\<close>)

lemma ws_reach_ok: "ws_reach W upgrade (s, h) \<Longrightarrow> hub_ok h"
proof (induction "(s, h)" arbitrary: s h rule: ws_reach.induct)
  case start
  show ?case by (simp add: hub_ok_def NewChallenger_def)
next
  case (step x)
  then show ?case by (cases x) (blast intro: ws_step_ok)
qed

end

section \<open>Properties\<close>


text \<open>
  A device that reconnects while its old connection is open loses both: the old handler is woken, and its
  deferred function deletes the new connection.
\<close>

lemma reconnect_loses_connection:
  assumes "hb_connections h a = Some old" and "hb_handlers h old = Some (a, Awaiting)"
    and "hb_handlers h new = None" and "\<not> hb_closed h new"
  shows "\<exists>h'. (ws_step W upgrade)\<^sup>*\<^sup>* (s, ws_register a new h) (s, h') \<and> hb_connections h' a = None \<and>
    hb_handlers h' new = Some (a, Registered) \<and> \<not> hb_closed h' new"
proof -
  let ?h1 = "ws_register a new h" let ?h2 = "phase old Returning ?h1" let ?h3 = "ws_leave a old ?h2"
  from assms(2,3) have ne: "old \<noteq> new" by auto
  have closed: "hb_closed ?h1 = (hb_closed h)(old := True)" using assms(1) by (simp add: ws_register_def)
  have "ws_step W upgrade (s, ?h1) (s, ?h2)"
    using assms ne closed by (intro woken) auto
  moreover have "ws_step W upgrade (s, ?h2) (s, ?h3)"
    using assms ne by (intro leave) auto
  ultimately have "(ws_step W upgrade)\<^sup>*\<^sup>* (s, ?h1) (s, ?h3)"
    by (rule converse_rtranclp_into_rtranclp [OF _ r_into_rtranclp])
  then show ?thesis
    using assms ne closed by (intro exI [of _ ?h3]) (auto simp: ws_leave_def Let_def)
qed

text \<open>When the endpoint of a device moves it is then deauthenticated, although its page is still open.\<close>

lemma lost_connection_deauthenticates:
  assumes "mo_ws M = (\<lambda>_. map_option io (hb_connections h (dv_Address current)))"
    and "hb_connections h (dv_Address current) = None"
    and "udp_string R (dv_Endpoint current) \<noteq> udp_string R (dv_Endpoint previous)"
    and "isAuthed R (mo_stamp M 0) (dv_Address current) s = (Inr True, t)"
  shows "challenge_step R M current previous s =
     wrap_err (\<lambda>e. ''cannot deauthenticate device '' @ dv_Address current @ '': '' @ e)
       (deauthenticate R (dv_Address current)) t"
  using assms
  by (simp add: challenge_step_def ebind_def numeral_3_eq_3 attempt_def Challenge_def)

section \<open>A concrete connection\<close>

definition demo_page :: http_request where
  "demo_page = demo_code\<lparr>hr_Method := ''GET'', hr_Path := ''/challenge/'', hr_Origin := ''https://vpn.test''\<rparr>"

definition demo_home :: router where
  "demo_home = (wb_router demo_web)\<lparr>rt_store :=
     put_key DomainKey (Json (JStr ''https://vpn.test'')) (rt_store (wb_router demo_web))\<rparr>"

lemma demo_page_steps:
  "client_ip demo_wenv demo_page = Some (IP4 10 0 0 2)"
  "GetUserFromAddress etcd_ref (Some (V4 (IP4 10 0 0 2))) (rt_store demo_home) = (Inr ann, rt_store demo_home)"
  "GetDomain etcd_ref (rt_store demo_home) = (Inr ''https://vpn.test'', rt_store demo_home)"
proof -
  have "client_ip demo_wenv demo_page = client_ip demo_wenv demo_code"
    by (simp add: client_ip_def GetIPFromRequest_def demo_page_def Let_def cong: if_cong)
  then show "client_ip demo_wenv demo_page = Some (IP4 10 0 0 2)" by (simp only: demo_code_steps)
  have "''deviceref-'' @ ''10.0.0.2'' \<noteq> DomainKey" "userKey ''ann'' \<noteq> DomainKey"
    by (simp_all add: DomainKey_def userKey_def UsersPrefix_def)
  moreover have "value_at (rt_store (wb_router demo_web)) (''deviceref-'' @ ''10.0.0.2'') = Some (Text (deviceKey ''ann'' ''10.0.0.2''))"
    unfolding demo_web_def by (simp del: append.simps)
  moreover have "user_at (rt_store (wb_router demo_web)) ''ann'' = Some demo_user"
    using demo_signs_in by (simp add: signs_in_def ann_def)
  ultimately have "GetUserDataFromAddress etcd_ref ''10.0.0.2'' (rt_store demo_home) = (Inr demo_user, rt_store demo_home)"
    by (intro GetUserDataFromAddress_owner [OF etcd_ref.etcd_quiet_axioms])
      ((simp_all add: demo_home_def user_at_def del: append.simps)+)
  then show "GetUserFromAddress etcd_ref (Some (V4 (IP4 10 0 0 2))) (rt_store demo_home) = (Inr ann, rt_store demo_home)"
    by (simp add: GetUserFromAddress_def v4_def demo_code_steps ebind_def user_of_def demo_user_def ann_def)
  show "GetDomain etcd_ref (rt_store demo_home) = (Inr ''https://vpn.test'', rt_store demo_home)"
    using range_of_value_at [of "rt_store demo_home" DomainKey "Json (JStr ''https://vpn.test'')"]
    by (auto simp: GetDomain_def getString_def get_setting_def etcd_quiet.Get_quiet [OF etcd_ref.etcd_quiet_axioms]
        demo_home_def ebind_def)
qed

definition demo_hub :: hub where
  "demo_hub = ws_register ''10.0.0.2'' 0 NewChallenger"

lemma demo_open:
  "\<exists>w'. WS_open demo_wenv upgrade_ref 0 demo_page ((demo_home, NewChallenger), w) = (Inr (), ((demo_home, demo_hub), w'))"
proof -
  have env: "we_R demo_wenv = renv_ref" "re_etcd renv_ref = etcd_ref" by (simp_all add: demo_wenv_def renv_ref_def)
  have origin: "hr_Origin demo_page = ''https://vpn.test''" by (simp add: demo_page_def)
  have same: "demo_home\<lparr>rt_store := rt_store demo_home\<rparr> = demo_home" by simp
  have "CheckOrigin renv_ref demo_page demo_home = (Inr True, demo_home)"
    by (simp add: CheckOrigin_def env ebind_def attempt_def zoom_def demo_page_steps origin)
  then have "upgrade_ref (CheckOrigin renv_ref) demo_page (demo_home, w) = (Inr True, (demo_home, w))"
    by (simp add: upgrade_ref_def on_state_apply ebind_def)
  then show ?thesis
    by (simp add: WS_open_def env demo_page_steps demo_code_steps beside_hub_def check_def attempt_def ebind_def
        on_state_apply zoom_def on_hub_def demo_hub_def)
qed


end
