(* ===== verification/Interface.thy ===== *)
theory Interface
  imports RouterInv
begin

text \<open>
  The WireGuard interface of the host over the life of the router: setting up makes it, with the address
  of the configuration, and tearing down removes exactly what was made.
\<close>

section \<open>What keeps the interfaces\<close>

definition links_are :: "links \<Rightarrow> router \<Rightarrow> bool" where
  "links_are l s \<longleftrightarrow> rt_links s = l"

lemma links_are_updates [simp]:
  "links_are l (s\<lparr>rt_store := x\<rparr>) = links_are l s" "links_are l (s\<lparr>rt_wg := w\<rparr>) = links_are l s"
  "links_are l (s\<lparr>rt_fw := y\<rparr>) = links_are l s" "links_are l (s\<lparr>rt_u2a := z\<rparr>) = links_are l s"
  "links_are l (s\<lparr>rt_a2u := v\<rparr>) = links_are l s"
  by (simp_all add: links_are_def)

lemma links_modify: "preserves (links_are l) (modify (remember_peer u a pk))"
  by (simp add: preserves_iff remember_peer_def)

lemma links_initial_peers: "preserves (links_are l) (initial_peers R ds qs)"
proof (induction ds arbitrary: qs)
  case (Cons d ds)
  then show ?case unfolding initial_peers.simps Let_def by (intro pres links_modify)
qed (simp add: preserves_iff)

lemma links_ConfigureDevice: "preserves (links_are l) (ConfigureDevice R c)"
  by (auto simp: preserves_iff ConfigureDevice_def split: prod.splits sum.splits)

lemma links_in_fw: "preserves (links_are l) (in_fw m)"
  by (rule preserves_zoom) simp

text \<open>The part of the set-up after the interface is there.\<close>

lemma links_peers:
  "preserves (links_are l) (ebind (initial_peers R devices []) (\<lambda>ps.
      ebind (wrap_err e1 (sys R ''wgctrl.New'')) (\<lambda>_. wrap_err e2 (ConfigureDevice R (c\<lparr>wc_Peers := ps\<rparr>)))))"
  by (intro pres links_initial_peers links_ConfigureDevice)

section \<open>Properties\<close>

lemma zoom_links: "in_links m s = (case m (rt_links s) of (r, l) \<Rightarrow> (r, s\<lparr>rt_links := l\<rparr>))"
  by (simp add: zoom_def)

lemma setupWireguard_link:
  assumes "setupWireguard R devices s = (Inr (), t)" and "\<not> wg_External (cf_Wireguard (re_conf R))"
  shows "\<exists>ip network a. ParseCIDR (pe_net (re_parse R)) (wg_Address (cf_Wireguard (re_conf R))) = Some (ip, network) \<and>
    to4 ip = Some a \<and>
    addWg (re_netlink R) (wg_DevName (cf_Wireguard (re_conf R))) a (net_ones network) (wg_MTU (cf_Wireguard (re_conf R)))
      (rt_links s) = (Inr (), rt_links t)"
proof -
  have keep: "sys R n u = (Inr x, v) \<Longrightarrow> v = u" "ParseKey R k u = (Inr p, v) \<Longrightarrow> v = u" for n k x p and u v :: router
    by (auto simp: sys_def ParseKey_def split: option.splits sum.splits)
  define after where "after c = ebind (initial_peers R devices []) (\<lambda>ps.
       ebind (wrap_err (\<lambda>e. ''cannot start wireguard control: err: '' @ e) (sys R ''wgctrl.New'')) (\<lambda>_.
       wrap_err (\<lambda>e. ''cannot configure wireguard device: err: '' @ e) (ConfigureDevice R (c\<lparr>wc_Peers := ps\<rparr>))))" for c
  from assms obtain ip network a l c where a:
    "ParseCIDR (pe_net (re_parse R)) (wg_Address (cf_Wireguard (re_conf R))) = Some (ip, network)" "to4 ip = Some a"
    "addWg (re_netlink R) (wg_DevName (cf_Wireguard (re_conf R))) a (net_ones network) (wg_MTU (cf_Wireguard (re_conf R)))
      (rt_links s) = (Inr (), l)"
    "after c (s\<lparr>rt_links := l\<rparr>) = (Inr (), t)"
    unfolding setupWireguard_def Let_def after_def [symmetric]
    by (auto simp: eff_inv zoom_eq_Inr dest!: keep split: option.splits)
  have "links_are l t"
    by (rule preservesD [OF links_peers _ a(4) [unfolded after_def]]) (simp add: links_are_def)
  with a show ?thesis by (auto simp: links_are_def)
qed

lemma TearDown_links:
  assumes "TearDown R s = (r, t)" and "fst (delWg (re_netlink R) (wg_DevName (cf_Wireguard (re_conf R))) (rt_links s)) \<noteq> Inl OutOfFuel"
  shows "rt_links t = (if re_sys R ''netlink.Dial'' = None
     then snd (delWg (re_netlink R) (wg_DevName (cf_Wireguard (re_conf R))) (rt_links s)) else rt_links s)"
proof (cases "re_sys R ''netlink.Dial''")
  case (Some e)
  with assms(1) show ?thesis by (simp add: TearDown_def sys_def attempt_def ebind_def)
next
  case None
  obtain b l where b: "delWg (re_netlink R) (wg_DevName (cf_Wireguard (re_conf R))) (rt_links s) = (b, l)"
    by (metis prod.exhaust)
  have fw: "links_are l t" if "in_fw m (s\<lparr>rt_links := l\<rparr>) = (r, t)" for m
    using preservesD [OF links_in_fw _ that] by (simp add: links_are_def)
  have "rt_links t = l"
    using assms(1) None b fw
    by (auto simp: TearDown_def sys_def attempt_def ebind_def zoom_links links_are_def split: sum.splits fault.splits)
  with None b show ?thesis by simp
qed


text \<open>The demonstration configuration on a host with one other interface.\<close>

definition demo_host :: router where
  "demo_host = first_state\<lparr>rt_links := [(''eth0'', \<lparr>lk_index = 1, lk_kind = ''ether'', lk_up = True, lk_mtu = None, lk_addresses = []\<rparr>)]\<rparr>"

lemma demo_setup: "\<exists>t. setupWireguard renv_ref [] demo_host = (Inr (), t)"
proof -
  have "fst (setupWireguard renv_ref [] demo_host) = Inr ()" by code_simp
  then show ?thesis by (metis prod.collapse)
qed

lemma demo_cidr:
  "ParseCIDR (pe_net (re_parse renv_ref)) (wg_Address (cf_Wireguard (re_conf renv_ref))) =
     Some (V4 (IP4 10 2 43 1), \<lparr>net_ip = Some (V4 (IP4 10 2 43 0)), net_ones = 24\<rparr>)"
  by code_simp


end
