(* ===== verification/Listeners.thy ===== *)
theory Listeners
  imports ConsoleSite WebProps
begin

text \<open>
  The servers of a node: those of the portal (internal/webserver/web.go: Start, Teardown) and of the
  management console (ui/ui_webserver.go). Each is started in a goroutine of its own; what
  \<open>ListenAndServe\<close> returns is an argument, an error and whether it only says that the server was closed.
  Registering the listeners of settings is an argument, the routes of the methods are those of Web.
\<close>

section \<open>Servers\<close>

text \<open>The parameters of TLS, numbers by their names in crypto/tls.\<close>

record tls_config =
  tc_CurvePreferences :: "string list"
  tc_MinVersion :: string
  tc_CipherSuites :: "string list"

definition server_tls :: tls_config where
  "server_tls = \<lparr>tc_CurvePreferences = [''CurveP256'', ''X25519''], tc_MinVersion = ''VersionTLS12'',
     tc_CipherSuites = [''TLS_ECDHE_ECDSA_WITH_AES_256_GCM_SHA384'', ''TLS_ECDHE_RSA_WITH_AES_256_GCM_SHA384'',
       ''TLS_ECDHE_ECDSA_WITH_CHACHA20_POLY1305'', ''TLS_ECDHE_RSA_WITH_CHACHA20_POLY1305'',
       ''TLS_ECDHE_ECDSA_WITH_AES_128_GCM_SHA256'', ''TLS_ECDHE_RSA_WITH_AES_128_GCM_SHA256'']\<rparr>"

text \<open>A server without TLS has no parameters, certificate and key; \<open>sv_failed\<close> is what it reports at its end.\<close>

record 's server =
  sv_Addr :: string
  sv_TLS :: "(tls_config \<times> string \<times> string) option"
  sv_Handler :: "'s handler"
  sv_failed :: "error \<Rightarrow> bool \<Rightarrow> error option"

datatype 's launch = Serve "'s server" | Report error

definition with_tls :: "webserverDetails \<Rightarrow> (tls_config \<times> string \<times> string) option" where
  "with_tls d = Some (server_tls, CertPath d, KeyPath d)"

text \<open>
  The report of a server that ended: unless it was closed. The servers of the tunnel have the condition
  without its negation.
\<close>

definition unless_closed :: "string \<Rightarrow> error \<Rightarrow> bool \<Rightarrow> error option" where
  "unless_closed what e closed = (if \<not> closed then Some (what @ '': '' @ e) else None)"

definition if_closed :: "string \<Rightarrow> error \<Rightarrow> bool \<Rightarrow> error option" where
  "if_closed what e closed = (if closed then Some (what @ '': '' @ e) else None)"

definition only_logged :: "error \<Rightarrow> bool \<Rightarrow> error option" where
  "only_logged e closed = None"

text \<open>\<open>uri\<close> is the request target of a request; the port is kept but not used.\<close>

definition setRedirectHandler :: "(http_request \<Rightarrow> string) \<Rightarrow> string \<Rightarrow> 's handler" where
  "setRedirectHandler uri TLSPort r = redirect_to_tls (hr_Host r) (uri r)"

section \<open>The portal\<close>

definition public_servers :: "(http_request \<Rightarrow> string) \<Rightarrow> Config \<Rightarrow> 's handler \<Rightarrow> 's launch list" where
  "public_servers uri c public =
     (let p = cf_Public c in
      if SupportsTLS (uw_details p) then
        Serve \<lparr>sv_Addr = uw_ListenAddress p, sv_TLS = with_tls (uw_details p), sv_Handler = public,
          sv_failed = unless_closed ''TLS webserver public listener failed''\<rparr> #
        (if cf_NumberProxies c = 0 then
          (case SplitHostPort (uw_ListenAddress p) of
             None \<Rightarrow> [Report ''malformed listen address for public listener: '']
           | Some (address, port) \<Rightarrow>
               let port = port @ '':'' @ port; port = (if port = ''443'' then '''' else port)
               in [Serve \<lparr>sv_Addr = address @ '':80'', sv_TLS = None,
                     sv_Handler = setSecurityHeaders (setRedirectHandler uri port), sv_failed = only_logged\<rparr>])
         else [])
      else [Serve \<lparr>sv_Addr = uw_ListenAddress p, sv_TLS = None, sv_Handler = public,
              sv_failed = unless_closed ''HTTP webserver public listener failed''\<rparr>])"

definition server_address :: "renv \<Rightarrow> string" where
  "server_address R = goip_string R (wg_ServerAddress (cf_Wireguard (re_conf R)))"

definition tunnel_servers :: "(http_request \<Rightarrow> string) \<Rightarrow> renv \<Rightarrow> 's handler \<Rightarrow> 's launch list" where
  "tunnel_servers uri R tunnel =
     (let c = re_conf R; t = cf_Tunnel c; tunnelListenAddress = server_address R @ '':'' @ tw_Port t in
      if SupportsTLS (tw_details t) then
        Serve \<lparr>sv_Addr = tunnelListenAddress, sv_TLS = with_tls (tw_details t), sv_Handler = tunnel,
          sv_failed = if_closed ''TLS webserver tunnel listener failed''\<rparr> #
        (if cf_NumberProxies c = 0 then
          let port = '':'' @ tw_Port t; port = (if port = ''443'' then '''' else port)
          in [Serve \<lparr>sv_Addr = server_address R @ '':80'', sv_TLS = None,
                sv_Handler = setSecurityHeaders (setRedirectHandler uri port), sv_failed = only_logged\<rparr>]
         else [])
      else [Serve \<lparr>sv_Addr = tunnelListenAddress, sv_TLS = None, sv_Handler = tunnel,
              sv_failed = if_closed ''webserver tunnel listener failed''\<rparr>])"

text \<open>
  \<open>Start\<close>: the servers it has launched when it returns. The public ones are launched first, and stay when
  setting up the methods or the listeners fails.
\<close>

definition portal_Start ::
  "(http_request \<Rightarrow> string) \<Rightarrow> wenv \<Rightarrow> methods \<Rightarrow> web handler \<Rightarrow> web handler \<Rightarrow> error option \<Rightarrow> web \<Rightarrow>
     web launch list \<times> (unit res \<times> web)" where
  "portal_Start uri W ms ws files registered s =
     (let public = public_servers uri (re_conf (we_R W)) (public_mux W) in
      case AddMFARoutes (we_E W) ms s of
        (Inl e, t) \<Rightarrow> (public, (Inl e, t))
      | (Inr _, t) \<Rightarrow> (case registered of
          Some e \<Rightarrow> (public, (Inl (GoErr (''failed ot register listeners: '' @ e)), t))
        | None \<Rightarrow> (public @ tunnel_servers uri (we_R W) (tunnel_mux W ms ws files), (Inr (), t))))"

section \<open>The console\<close>

definition console_servers :: "webserverDetails \<Rightarrow> string \<Rightarrow> 's handler \<Rightarrow> 's launch list" where
  "console_servers d ListenAddress site =
     (if SupportsTLS d
      then [Serve \<lparr>sv_Addr = ListenAddress, sv_TLS = with_tls d, sv_Handler = site,
              sv_failed = unless_closed ''TLS management listener failed''\<rparr>]
      else [Serve \<lparr>sv_Addr = ListenAddress, sv_TLS = None, sv_Handler = site,
              sv_failed = unless_closed ''webserver management listener failed''\<rparr>])"

section \<open>Properties\<close>

text \<open>A redirecting server: it changes nothing and sends the browser to https, or refuses a malformed host.\<close>

definition redirects :: "'s handler \<Rightarrow> bool" where
  "redirects h \<longleftrightarrow> (\<forall>r s. \<exists>resp. serve h r s = (Inr resp, s) \<and>
     (rp_StatusCode resp = 307 \<and> (\<exists>rest. rp_Header resp ''Location'' = Some (''https://'' @ rest)) \<or> rp_StatusCode resp = 500))"

lemma redirect_handler: "redirects (setSecurityHeaders (setRedirectHandler uri port))"
  unfolding redirects_def serve_def respond_def setSecurityHeaders_def setRedirectHandler_def redirect_to_tls_def
  by (auto simp: ebind_def Redirect_def server_error_def Error_def http_error_def finish_def split: option.splits)

lemma public_plain:
  "Serve sv \<in> set (public_servers uri c public) \<Longrightarrow> sv_TLS sv = None \<Longrightarrow> SupportsTLS (uw_details (cf_Public c)) \<Longrightarrow>
     redirects (sv_Handler sv)"
  by (auto simp: public_servers_def Let_def with_tls_def redirect_handler split: if_splits option.splits)

lemma tunnel_plain:
  "Serve sv \<in> set (tunnel_servers uri R tunnel) \<Longrightarrow> sv_TLS sv = None \<Longrightarrow> SupportsTLS (tw_details (cf_Tunnel (re_conf R))) \<Longrightarrow>
     redirects (sv_Handler sv)"
  by (auto simp: tunnel_servers_def Let_def with_tls_def redirect_handler split: if_splits)

text \<open>
  A certificate is not bypassed: when both sites of the portal have one, every server without TLS that
  starting the portal launches answers each request by sending the browser to https, or refuses it, and
  changes nothing.
\<close>

theorem certificate_not_bypassed:
  assumes "portal_Start uri W ms ws files registered s = (ls, x)" and "Serve sv \<in> set ls" and "sv_TLS sv = None"
    and "SupportsTLS (uw_details (cf_Public (re_conf (we_R W))))" and "SupportsTLS (tw_details (cf_Tunnel (re_conf (we_R W))))"
  shows "\<exists>resp. serve (sv_Handler sv) r t = (Inr resp, t) \<and>
     (rp_StatusCode resp = 307 \<and> (\<exists>rest. rp_Header resp ''Location'' = Some (''https://'' @ rest)) \<or> rp_StatusCode resp = 500)"
proof -
  have "Serve sv \<in> set (public_servers uri (re_conf (we_R W)) (public_mux W)) \<or>
      Serve sv \<in> set (tunnel_servers uri (we_R W) (tunnel_mux W ms ws files))"
    using assms(1,2) by (auto simp: portal_Start_def Let_def split: prod.splits sum.splits option.splits)
  then have "redirects (sv_Handler sv)" using public_plain tunnel_plain assms(3-5) by blast
  then show ?thesis unfolding redirects_def by blast
qed

text \<open>A server of the tunnel that fails is not reported; the redirection of the public site doubles its port.\<close>

lemma tunnel_failure_unreported:
  "Serve sv \<in> set (tunnel_servers uri R tunnel) \<Longrightarrow> sv_failed sv e False = None"
  by (auto simp: tunnel_servers_def Let_def if_closed_def only_logged_def split: if_splits)

section \<open>A portal with certificates\<close>

definition tls_config_demo :: Config where
  "tls_config_demo = demo_config\<lparr>cf_Public := (cf_Public demo_config)\<lparr>uw_ListenAddress := '':8443'', uw_details := \<lparr>CertPath = ''c'', KeyPath = ''k''\<rparr>\<rparr>,
     cf_Tunnel := (cf_Tunnel demo_config)\<lparr>tw_details := \<lparr>CertPath = ''c'', KeyPath = ''k''\<rparr>\<rparr>\<rparr>"

definition tls_wenv :: wenv where
  "tls_wenv = demo_wenv\<lparr>we_R := renv_ref\<lparr>re_conf := tls_config_demo\<rparr>\<rparr>"

definition plain_server :: "web server" where
  "plain_server = \<lparr>sv_Addr = '':80'', sv_TLS = None,
     sv_Handler = setSecurityHeaders (setRedirectHandler hr_Path ''8443:8443''), sv_failed = only_logged\<rparr>"

lemma plain_server_launched:
  "Serve plain_server \<in> set (fst (portal_Start hr_Path tls_wenv [] h h None demo_web))"
proof -
  have "SplitHostPort '':8443'' = Some ('''', ''8443'')" by code_simp
  then have "Serve plain_server \<in> set (public_servers hr_Path tls_config_demo h)" for h :: "web handler"
    by (simp add: public_servers_def Let_def tls_config_demo_def SupportsTLS_def plain_server_def demo_config_def)
  then show ?thesis
    by (auto simp: portal_Start_def Let_def tls_wenv_def split: prod.split sum.split)
qed

theorem certificate_not_bypassed_witness:
  "\<exists>resp. serve (sv_Handler plain_server) demo_code demo_web = (Inr resp, demo_web) \<and>
     (rp_StatusCode resp = 307 \<and> (\<exists>rest. rp_Header resp ''Location'' = Some (''https://'' @ rest)) \<or> rp_StatusCode resp = 500)"
proof (rule certificate_not_bypassed)
  show "portal_Start hr_Path tls_wenv [] (\<lambda>_. NotFound) (\<lambda>_. NotFound) None demo_web =
      (fst (portal_Start hr_Path tls_wenv [] (\<lambda>_. NotFound) (\<lambda>_. NotFound) None demo_web), snd (portal_Start hr_Path tls_wenv [] (\<lambda>_. NotFound) (\<lambda>_. NotFound) None demo_web))"
    by simp
qed (simp_all add: plain_server_launched, simp_all add: plain_server_def tls_wenv_def tls_config_demo_def SupportsTLS_def)

end
