(* ===== verification/Spec2Isabelle.thy ===== *)
theory Spec2Isabelle
  imports CheckRoute DeviceIndex RouterEnforce RouterSession ControlProtocol WebProps GenConfig Startup ConsoleProps Challenger Interface Listeners
begin

text \<open>
  Verification of wag, a WireGuard server with multi-factor authentication.

  \<^bold>\<open>The program.\<close> A device of an account connects over WireGuard. Its packets pass a program in the
  kernel (internal/router/xdp.c) that looks up the device, its session and the policies of its
  account, and drops what they do not admit. A session is opened by a second factor given on the
  portal (internal/webserver), which is reached through the tunnel. Accounts, devices, groups,
  policies, tokens and settings are kept in etcd (internal/data). The router (internal/router) is told
  of every change of the store and brings the kernel maps and the WireGuard peers up to date. A server
  is operated through a control socket (pkg/control), by the command line (commands) and by the
  management console (ui). Several nodes may share one store.

    policies, groups \<longrightarrow> etcd \<longrightarrow> events \<longrightarrow> router \<longrightarrow> kernel maps \<longrightarrow> packet filter
    portal, control socket, console \<longrightarrow> internal/users \<longrightarrow> internal/data \<longrightarrow> etcd

  \<^bold>\<open>How it is modelled.\<close> A Go function is a HOL function that passes its state. A result is a value of
  \<open>fault + 'a\<close>: \<open>GoErr\<close> is a returned error, \<open>GoPanic\<close> a panic, \<open>OutOfFuel\<close> a loop whose rounds were
  not enough; \<open>ebind\<close> and the combinators of Prelude sequence such steps. Integers of the kernel maps
  are words of their width. Strings are lists of characters, bytes are \<open>8 word\<close> lists. Every theory
  begins with what it models and what it takes as an argument.

  \<^bold>\<open>Foundations.\<close>
  \<^item> Prelude: effects, errors, shared lemmas on lists, texts and numbers, and their collections.
  \<^item> GoNet: IPv4 addresses and prefixes of package net. Json: documents of encoding/json. Encodings:
    hex and base64. Http: requests, response writers and the multiplexer (pkg/httputils,
    internal/utils).
  \<^item> Etcd: the store and the service in front of it. The locale \<open>etcd_service\<close> states that a request
    that succeeds is applied at once to a store other clients may have changed; \<open>etcd_quiet\<close> adds that
    nobody else writes. They are interpreted on \<open>etcd_ref\<close>, \<open>busy_etcd\<close> and \<open>patient_etcd\<close>.

  \<^bold>\<open>Policies\<close> (internal/routetypes). RouteTypes: \<open>Policy\<close> and \<open>Key\<close> with their byte layouts, each an
  interpretation of the locale \<open>fixed_codec\<close>. Parser: rules to policies per key, with the caches and
  the slices the results share; ParserSpec: the reference result without sharing and the proof that on
  literal rules both agree; ParserInv: bounds and shape of every result.

  \<^bold>\<open>Packet filter.\<close> FwEntry (internal/router/fwentry.go): the 48 bytes of a device. Xdp
  (internal/router/xdp.c): the program over its four maps; the trie of the kernel is the locale \<open>lpm\<close>.
  XdpSpec: the verdict in terms of sessions and policies, and what packets may change. CheckRoute
  (internal/router/debug.go): the synthetic packet and its answer. The loop over the policies of a key
  goes over the 128 entries of a table value, which is the bound of the source.

  \<^bold>\<open>Store\<close> (internal/data, internal/acls). DataCore: the optimistic update of init.go, with the
  property that makes it atomic. DataTypes: the documents. DataSettings (config.go), DataUsers
  (user.go), DataDevices (devices.go, dhcp.go), DataGroups (groups.go), DataAcls (acls.go), DataTokens
  (registration.go, clustering.go, events.go), Admins (ui.go), WebauthnUser (the account of a security
  key). Lease: which address a new device gets and when the search ends. DeviceIndex: the references
  of the device table stay consistent. Cluster: adding a node (clustering.go) and the health reported
  (events.go). Import: first start, from the configuration file and from the database of earlier
  versions (init.go, sql_compat.go). Migrations (migrations/embed.go): the scripts for such a database,
  over the locale \<open>sql_transactions\<close>. Startup (init.go: Load): the order in which all this happens when a
  node starts.

  \<^bold>\<open>Router\<close> (internal/router). Router (bpf.go, init.go): control of the kernel maps. RouterPeers
  (wireguard.go, session_manager.go): peers and challenges. RouterEvents (statemachine.go): what each
  event of the store does. RouterInv: the maps keep their layout under every sequence of events,
  packets and failures (\<open>router_reach\<close>). RouterPolicies: no two users share a table. RouterEnforce:
  after a refresh the filter enforces the effective access list. RouterSession: \<open>isAuthed\<close> agrees with
  the kernel, and what ends a session. Netlink (wireguard.go): the requests that make and delete the
  WireGuard interface, over the locale \<open>rtnetlink\<close>; Interface: what setting up and tearing down do to the
  interfaces of the host. Challenger (session_manager.go): the connections over which devices are
  challenged, as concurrent handlers with a step relation (\<open>ws_step\<close>). The batch calls of the kernel are the locale \<open>kernel_batch\<close>.
  Config (internal/config) and Iptables (iptables.go; the firewall is the locale \<open>iptables_service\<close>):
  the configuration and the rules of the host around the tunnel.

  \<^bold>\<open>Signing in.\<close> Users (internal/users): operations on an account; a device is authorised only by an
  accepted second factor, and guesses are bounded. Authenticators (totp.go, pam.go), Oidc (oidc.go),
  SecurityKeys (webauthn.go): the methods. Web (internal/webserver): the portal and its routes.
  WebProps: what a browser obtains through the portal.

  \<^bold>\<open>Operating a server.\<close> ControlServer (pkg/control/server) and ControlClient (pkg/control/wagctl): the
  two ends of the control socket; ControlProtocol: a command run through the socket is the operation
  behind it (locale \<open>control_socket\<close>). Commands (main.go, commands): the command line. NodeLife
  (commands/start.go): the checks before a start, the reaction to the health of the cluster, the end.
  GenConfig (commands/gen-config.go): the dialogue that writes a configuration, and what becomes of the
  file when it is loaded.

  \<^bold>\<open>Management console\<close> (ui). Queue (pkg/queue): the bounded queue of lines shown. Console: state,
  sessions, notifications. ConsolePages: what is shown. ConsoleSite: the requests, the routes and the
  checks in front of them. ConsoleProps: nothing changes without a session of a current administrator
  or from another site (the session library is the locale \<open>session_checks\<close>), passwords cannot be
  guessed beyond the lockout, and notifications are complete. Listeners: the servers of the portal and the console, with and
  without TLS.

  \<^bold>\<open>Bounds and fuel.\<close> \<open>attempts E\<close> bounds the rounds of the update loop that are followed: running out
  is \<open>OutOfFuel\<close>, never an answer of the code, and DataCore shows how many rounds are enough when the
  other clients write a given number of times. \<open>lease_loop\<close> counts the rounds of the search for an
  address in the same way; Lease shows that as many rounds as the subnet has addresses find one that
  is free, and that in a full subnet no number is enough unless the search began at the first address.
  Every other loop is structural.

  \<^bold>\<open>Arguments of the model.\<close> Libraries and the outside are arguments, with what is relied on as named
  hypotheses: etcd and its embedded server, the kernel's trie and batch calls, the WireGuard control
  client, rtnetlink, SQLite, websockets, go-iptables, the resolver, the marshaller of IPv4 headers, the libraries of one-time codes,
  PAM, OpenID Connect and security keys, argon2, sessions, templates and the file server, the clock and
  random values.

  \<^bold>\<open>Not modelled.\<close>
  \<^item> What only calls the system or a library: the sockets of the servers, the certificate manager and the
    embedded etcd server themselves, copies of files, files embedded in the binary, the loaders that
    bpf2go generates.
  \<^item> Mutexes and goroutines: an update under a lock, and a message through a channel, is one step. Where
    a goroutine only reports an error, the report is left out.
  \<^item> Lines written to the log, and texts printed as the usage of a command.
\<close>

end
